(* ===== verification/Prelude.thy ===== *)
theory Prelude
  imports Main "HOL-Library.Word" "HOL-Library.Multiset"
begin

text \<open>
  Shared vocabulary of the development: the machine integers of the Rust sources, the
  \<open>Result\<close> plumbing (\<open>?\<close>, \<open>require!\<close>), the few methods of the Rust
  standard library the sources use (\<open>Iterator::position\<close>, checked and saturating
  arithmetic, \<open>as\<close> casts), and the generic notion of a reachable state with its
  invariant rule.

  Unsigned integers are words of their width. A signed \<open>i64\<close> is an \<open>int\<close>: every
  operation of the sources that can leave the range writes out what Rust does there
  (saturation, two's complement cast, or a panic, since the workspace builds release
  code with \<open>overflow-checks = true\<close>).
\<close>

section \<open>Machine integers\<close>

type_synonym u8 = "8 word"
type_synonym u32 = "32 word"
type_synonym u64 = "64 word"
type_synonym i64 = int

type_synonym bytes = "u8 list"

named_theorems arith_defs "definitions of the checked and saturating arithmetic"

definition i64_min :: int where "i64_min = - (2 ^ 63)"

definition i64_max :: int where "i64_max = 2 ^ 63 - 1"

definition in_i64 :: "int \<Rightarrow> bool" where
  "in_i64 x \<longleftrightarrow> i64_min \<le> x \<and> x \<le> i64_max"

text \<open>\<open>i64::saturating_add\<close> and \<open>i64::saturating_sub\<close>.\<close>

definition sat_i64 :: "int \<Rightarrow> int" where
  "sat_i64 x = max i64_min (min i64_max x)"

definition i64_saturating_add :: "i64 \<Rightarrow> i64 \<Rightarrow> i64" where
  "i64_saturating_add a b = sat_i64 (a + b)"

definition i64_saturating_sub :: "i64 \<Rightarrow> i64 \<Rightarrow> i64" where
  "i64_saturating_sub a b = sat_i64 (a - b)"

text \<open>Checked signed arithmetic: \<open>None\<close> where Rust with overflow checks panics.\<close>

definition i64_checked :: "int \<Rightarrow> i64 option" where
  "i64_checked x = (if in_i64 x then Some x else None)"

text \<open>\<open>as i64\<close> on a \<open>u64\<close> reinterprets the bits; \<open>as u64\<close> is its inverse.\<close>

definition u64_as_i64 :: "u64 \<Rightarrow> i64" where
  "u64_as_i64 w = sint w"

definition i64_as_u64 :: "i64 \<Rightarrow> u64" where
  "i64_as_u64 x = word_of_int x"

text \<open>Unsigned checked arithmetic at any width.\<close>

definition checked_add :: "'a::len word \<Rightarrow> 'a word \<Rightarrow> 'a word option" where
  "checked_add a b = (if unat a + unat b < 2 ^ LENGTH('a) then Some (a + b) else None)"

definition checked_sub :: "'a::len word \<Rightarrow> 'a word \<Rightarrow> 'a word option" where
  "checked_sub a b = (if b \<le> a then Some (a - b) else None)"

definition checked_mul :: "'a::len word \<Rightarrow> 'a word \<Rightarrow> 'a word option" where
  "checked_mul a b = (if unat a * unat b < 2 ^ LENGTH('a) then Some (a * b) else None)"

definition u8_saturating_add :: "u8 \<Rightarrow> u8 \<Rightarrow> u8" where
  "u8_saturating_add a b = (if unat a + unat b < 256 then a + b else 255)"

declare i64_min_def [arith_defs] i64_max_def [arith_defs] in_i64_def [arith_defs]
  sat_i64_def [arith_defs] i64_saturating_add_def [arith_defs]
  i64_saturating_sub_def [arith_defs] i64_checked_def [arith_defs]

lemma sat_i64_id: "in_i64 x \<Longrightarrow> sat_i64 x = x"
  by (simp add: arith_defs)

lemma sat_i64_range [simp]: "in_i64 (sat_i64 x)"
  by (simp add: arith_defs)

lemma sat_i64_mono: "x \<le> y \<Longrightarrow> sat_i64 x \<le> sat_i64 y"
  by (simp add: arith_defs)

lemma i64_checked_Some [simp]: "i64_checked x = Some y \<longleftrightarrow> in_i64 x \<and> y = x"
  by (auto simp: i64_checked_def)

lemma checked_add_Some:
  "checked_add a b = Some c \<longleftrightarrow> unat c = unat a + unat b"
proof
  assume "checked_add a b = Some c"
  then show "unat c = unat a + unat b"
    by (auto simp: checked_add_def unat_word_ariths split: if_splits)
next
  assume eq: "unat c = unat a + unat b"
  moreover have "unat c < 2 ^ LENGTH('a)"
    by (rule unsigned_less)
  ultimately have "unat a + unat b < 2 ^ LENGTH('a)"
    by simp
  moreover have "c = a + b"
    using eq by (metis of_nat_add word_nat_cases word_unat_eq_iff unat_of_nat ucast_id of_nat_unat)
  ultimately show "checked_add a b = Some c"
    by (simp add: checked_add_def)
qed

lemma checked_sub_Some:
  "checked_sub a b = Some c \<longleftrightarrow> unat b \<le> unat a \<and> unat c = unat a - unat b"
proof
  assume "checked_sub a b = Some c"
  then show "unat b \<le> unat a \<and> unat c = unat a - unat b"
    by (auto simp: checked_sub_def unat_sub word_le_nat_alt split: if_splits)
next
  assume "unat b \<le> unat a \<and> unat c = unat a - unat b"
  then have "b \<le> a" and "unat c = unat (a - b)"
    by (auto simp: word_le_nat_alt unat_sub)
  then show "checked_sub a b = Some c"
    by (metis checked_sub_def unsigned_word_eqI)
qed

lemma checked_mul_Some:
  "checked_mul a b = Some c \<Longrightarrow> unat c = unat a * unat b"
  by (auto simp: checked_mul_def unat_word_ariths split: if_splits)

text \<open>Equations to evaluate the checks with: on integers, never on unary numbers.\<close>

lemma checked_add_code [code]:
  "checked_add a b = (if uint a + uint b < 2 ^ LENGTH('a) then Some (a + b) else None)" for a b :: "'a::len word"
proof -
  have "unat a + unat b < 2 ^ LENGTH('a) \<longleftrightarrow> int (unat a + unat b) < int (2 ^ LENGTH('a))"
    by (simp only: of_nat_less_iff)
  also have "\<dots> \<longleftrightarrow> uint a + uint b < 2 ^ LENGTH('a)" by simp
  finally show ?thesis by (simp add: checked_add_def)
qed

lemma checked_mul_code [code]:
  "checked_mul a b = (if uint a * uint b < 2 ^ LENGTH('a) then Some (a * b) else None)" for a b :: "'a::len word"
proof -
  have "unat a * unat b < 2 ^ LENGTH('a) \<longleftrightarrow> int (unat a * unat b) < int (2 ^ LENGTH('a))"
    by (simp only: of_nat_less_iff)
  also have "\<dots> \<longleftrightarrow> uint a * uint b < 2 ^ LENGTH('a)" by simp
  finally show ?thesis by (simp add: checked_mul_def)
qed

lemma checked_mul_exact:
  "unat a * unat b < 2 ^ LENGTH('a) \<Longrightarrow> checked_mul a (b :: 'a::len word) = Some (a * b)"
  by (simp add: checked_mul_def)

section \<open>Results\<close>

text \<open>
  A Rust \<open>Result<T, E>\<close> is \<open>'e + 't\<close>. \<open>then_do\<close> is the \<open>?\<close> operator followed
  by the rest of the function, \<open>require\<close> the \<open>require!\<close> macro, \<open>ok_or\<close> the
  method of \<open>Option\<close> (also used for \<open>unwrap\<close>, with a panic as the error).
\<close>

named_theorems res_simps "simplification of result-valued code"

definition then_do :: "'e + 'a \<Rightarrow> ('a \<Rightarrow> 'e + 'b) \<Rightarrow> 'e + 'b" where
  "then_do m f = (case m of Inl e \<Rightarrow> Inl e | Inr x \<Rightarrow> f x)"

definition require :: "bool \<Rightarrow> 'e \<Rightarrow> 'e + unit" where
  "require b e = (if b then Inr () else Inl e)"

definition ok_or :: "'a option \<Rightarrow> 'e \<Rightarrow> 'e + 'a" where
  "ok_or m e = (case m of None \<Rightarrow> Inl e | Some x \<Rightarrow> Inr x)"

lemma then_do_Inl [simp]: "then_do (Inl e) f = Inl e"
  by (simp add: then_do_def)

lemma then_do_Inr [simp]: "then_do (Inr x) f = f x"
  by (simp add: then_do_def)

lemma then_do_eq_Inr [res_simps]:
  "then_do m f = Inr y \<longleftrightarrow> (\<exists>x. m = Inr x \<and> f x = Inr y)"
  by (cases m) auto

lemma then_do_eq_Inl [res_simps]:
  "then_do m f = Inl e \<longleftrightarrow> m = Inl e \<or> (\<exists>x. m = Inr x \<and> f x = Inl e)"
  by (cases m) auto

lemma then_do_cong [fundef_cong]:
  "m = m' \<Longrightarrow> (\<And>x. m' = Inr x \<Longrightarrow> f x = f' x) \<Longrightarrow> then_do m f = then_do m' f'"
  by (cases m') auto

lemma require_True [simp]: "require True e = Inr ()"
  by (simp add: require_def)

lemma require_False [simp]: "require False e = Inl e"
  by (simp add: require_def)

lemma require_eq_Inr [simp]: "require b e = Inr u \<longleftrightarrow> b"
  by (simp add: require_def)

lemma require_eq_Inl [simp]: "require b e = Inl e' \<longleftrightarrow> \<not> b \<and> e' = e"
  by (auto simp: require_def)

lemma ok_or_simps [simp]: "ok_or None e = Inl e" "ok_or (Some x) e = Inr x"
  by (simp_all add: ok_or_def)

lemma ok_or_eq_Inr [simp]: "ok_or m e = Inr x \<longleftrightarrow> m = Some x"
  by (cases m) auto

lemma ok_or_eq_Inl [simp]: "ok_or m e = Inl e' \<longleftrightarrow> m = None \<and> e' = e"
  by (cases m) auto

lemma right_result: "\<not> isl r \<Longrightarrow> r = Inr (projr r)"
  by (cases r) auto

lemma sum_Inl_not_Inr: "(\<nexists>y. r = Inr y) \<longleftrightarrow> (\<exists>e. r = Inl e)"
  by (cases r) auto

section \<open>Vectors\<close>

text \<open>\<open>iter().position(p)\<close>: the index of the first element with the property.\<close>

fun position :: "('a \<Rightarrow> bool) \<Rightarrow> 'a list \<Rightarrow> nat option" where
  "position p [] = None"
| "position p (x # xs) = (if p x then Some 0 else map_option Suc (position p xs))"

lemma position_None [simp]: "position p xs = None \<longleftrightarrow> (\<forall>x\<in>set xs. \<not> p x)"
  by (induction xs) auto

lemma position_SomeD:
  "position p xs = Some i \<Longrightarrow> i < length xs \<and> p (xs ! i) \<and> (\<forall>j<i. \<not> p (xs ! j))"
proof (induction xs arbitrary: i)
  case Nil
  then show ?case by simp
next
  case (Cons x xs)
  show ?case
  proof (cases "p x")
    case True
    with Cons.prems show ?thesis by simp
  next
    case False
    with Cons.prems obtain j where "position p xs = Some j" and i: "i = Suc j"
      by auto
    then have "j < length xs \<and> p (xs ! j) \<and> (\<forall>k<j. \<not> p (xs ! k))"
      by (simp add: Cons.IH)
    with False i show ?thesis
      by (auto simp: nth_Cons split: nat.splits)
  qed
qed

lemma position_distinct:
  "distinct xs \<Longrightarrow> i < length xs \<Longrightarrow> position (\<lambda>x. x = xs ! i) xs = Some i"
  by (induction xs arbitrary: i) (auto simp: nth_Cons split: nat.splits)

text \<open>\<open>Vec::remove\<close> (the caller has checked the index).\<close>

definition remove_nth :: "nat \<Rightarrow> 'a list \<Rightarrow> 'a list" where
  "remove_nth i xs = take i xs @ drop (Suc i) xs"

lemma mset_remove_nth: "i < length xs \<Longrightarrow> mset xs = add_mset (xs ! i) (mset (remove_nth i xs))"
  by (subst (1) id_take_nth_drop [of i xs]) (auto simp: remove_nth_def)

lemma length_remove_nth: "i < length xs \<Longrightarrow> length (remove_nth i xs) = length xs - 1"
  by (simp add: remove_nth_def)

lemma set_remove_nth_distinct:
  "distinct xs \<Longrightarrow> i < length xs \<Longrightarrow> set (remove_nth i xs) = set xs - {xs ! i}"
proof -
  assume d: "distinct xs" and i: "i < length xs"
  have "set xs = insert (xs ! i) (set (remove_nth i xs))"
    using mset_remove_nth [OF i] by (metis set_mset_add_mset_insert set_mset_mset)
  moreover have "xs ! i \<notin> set (remove_nth i xs)"
    using mset_remove_nth [OF i] d
    by (metis distinct.simps(2) mset.simps(2) mset_eq_imp_distinct_iff)
  ultimately show ?thesis by blast
qed

lemma distinct_remove_nth:
  "distinct xs \<Longrightarrow> i < length xs \<Longrightarrow> distinct (remove_nth i xs)"
  using mset_remove_nth [of i xs]
  by (metis distinct.simps(2) mset.simps(2) mset_eq_imp_distinct_iff)

lemma those_map_Some: "(\<And>x. x \<in> set xs \<Longrightarrow> f x = Some (g x)) \<Longrightarrow> those (map f xs) = Some (map g xs)"
  by (induction xs) auto

text \<open>A list sorted by a key splits at the number of its small elements.\<close>

lemma sorted_key_prefix:
  assumes "sorted (map f xs)" and "i < length xs"
  shows "i < length (filter (\<lambda>x. f x \<le> k) xs) \<longleftrightarrow> f (xs ! i) \<le> k"
  using assms
proof (induction xs arbitrary: i)
  case Nil
  then show ?case by simp
next
  case (Cons x xs)
  show ?case
  proof (cases "f x \<le> k")
    case True
    then show ?thesis
      using Cons by (cases i) auto
  next
    case False
    with Cons.prems(1) have "\<forall>y\<in>set xs. \<not> f y \<le> k"
      by auto
    with False Cons.prems(2) have "filter (\<lambda>x. f x \<le> k) (x # xs) = []" and "\<not> f ((x # xs) ! i) \<le> k"
      using nth_mem [OF Cons.prems(2)] by (auto simp: filter_empty_conv)
    then show ?thesis by simp
  qed
qed

section \<open>Reachable states\<close>

text \<open>
  The states a component can reach: from a start state by any number of its operations,
  in any order. A component's invariant is stated once as an instance of the locale
  below and then holds of every reachable state.
\<close>

inductive reach :: "('s \<Rightarrow> bool) \<Rightarrow> ('s \<Rightarrow> 's \<Rightarrow> bool) \<Rightarrow> 's \<Rightarrow> bool"
  for init :: "'s \<Rightarrow> bool" and step :: "'s \<Rightarrow> 's \<Rightarrow> bool" where
  reach_start: "init s \<Longrightarrow> reach init step s"
| reach_step: "reach init step s \<Longrightarrow> step s t \<Longrightarrow> reach init step t"

locale invariant_system =
  fixes init :: "'s \<Rightarrow> bool"
    and step :: "'s \<Rightarrow> 's \<Rightarrow> bool"
    and inv :: "'s \<Rightarrow> bool"
  assumes init_inv: "init s \<Longrightarrow> inv s"
    and step_inv: "inv s \<Longrightarrow> step s t \<Longrightarrow> inv t"
begin

lemma reach_inv: "reach init step s \<Longrightarrow> inv s"
  by (induction rule: reach.induct) (auto intro: init_inv step_inv)

lemma steps_inv: "inv s \<Longrightarrow> step\<^sup>*\<^sup>* s t \<Longrightarrow> inv t"
  by (rotate_tac, induction rule: rtranclp_induct) (auto intro: step_inv)

end

end
