(* ===== verification/Solana.thy ===== *)
theory Solana
  imports Prelude
begin

text \<open>
  What both on-chain programs share: public keys, the account store the runtime hands to
  a program, the two programs' error enums (\<open>programs/thread/src/errors.rs\<close>,
  \<open>programs/fiber/src/errors.rs\<close>) and the instruction data types of
  \<open>programs/fiber/src/state/instruction.rs\<close>.

  A public key is its byte string. The account store \<open>bank\<close> maps every address to
  its lamports, data and owner, so two account arguments with the same address alias,
  as two \<open>AccountInfo\<close>s of one address share their cells. A handler returns the new
  store or an error; an error (a panic included) discards the transaction.
\<close>

type_synonym pubkey = bytes

definition pubkey_default :: pubkey where
  "pubkey_default = replicate 32 0"

section \<open>Errors\<close>

datatype AntegenThreadError =
    InvalidThreadResponse | InvalidThreadState | InvalidTriggerVariant
  | InvalidNonceAccount | TriggerConditionFailed | ThreadBusy | ThreadPaused
  | RateLimitExeceeded | MaxRateLimitExceeded | UnauthorizedWrite
  | WithdrawalTooLarge | ThreadIdTooLong | InsufficientFunds | MathOverflow
  | ThreadHasNoNonceAccount | ThreadBeingObserved | ObserverNotClaimed
  | InvalidThreadAuthority | InvalidObserverAuthority | InvalidRegistryAdmin
  | InvalidInstruction | InvalidSignatory | MustBeCalledViaCPI | AlreadyClaimed
  | WrongFiberIndex | ObserverPriorityActive | TriggerNotReady | NonceRequired
  | InvalidObserverAccount | InvalidConfigAdmin | GlobalPauseActive | InvalidAuthority
  | InvalidFeePercentage | MissingFiberAccount | InvalidFiberIndex | ThreadHasFibers
  | ThreadHasNoFibersToExecute | InvalidExecIndex | FiberAccountRequired
  | InvalidFiberCursor | InvalidFiberAccount | MissingFiberAccounts | CloseNotSignaled

datatype AntegenFiberError =
    InvalidCompiledInstruction | AlreadyInitialized | InvalidFiberPDA
  | InsufficientRent | LookupTablesExceedMax | LegacyFiberLookupTablesUnsupported
  | InvalidFiberData

text \<open>
  Errors that come from the framework: \<open>ProgramError\<close>s the sources name, a violated
  account constraint, a missing signature, undecodable bytes, a failed cross-program
  invocation, and a panic (a failed \<open>unwrap\<close>, an index out of range, an arithmetic
  overflow).
\<close>

datatype error =
    ThreadErr AntegenThreadError
  | FiberErr AntegenFiberError
  | PE_InsufficientFunds
  | PE_ArithmeticOverflow
  | PE_InvalidInstructionData
  | InstructionMissing
  | BorshError
  | ConstraintRaw
  | ConstraintSeeds
  | ConstraintHasOne
  | AccountNotSigner
  | AccountNotSystemOwned
  | CpiFailed nat
  | Panic

section \<open>The account store\<close>

record account =
  lamports :: u64
  acc_data :: bytes
  acc_owner :: pubkey

type_synonym bank = "pubkey \<Rightarrow> account"

definition set_lamports :: "pubkey \<Rightarrow> u64 \<Rightarrow> bank \<Rightarrow> bank" where
  "set_lamports k l b = b(k := (b k)\<lparr>lamports := l\<rparr>)"

definition set_data :: "pubkey \<Rightarrow> bytes \<Rightarrow> bank \<Rightarrow> bank" where
  "set_data k d b = b(k := (b k)\<lparr>acc_data := d\<rparr>)"

lemma set_lamports_simps [simp]:
  "lamports (set_lamports k l b j) = (if j = k then l else lamports (b j))"
  "acc_data (set_lamports k l b j) = acc_data (b j)"
  "acc_owner (set_lamports k l b j) = acc_owner (b j)"
  by (simp_all add: set_lamports_def)

lemma set_data_simps [simp]:
  "lamports (set_data k d b j) = lamports (b j)"
  "acc_data (set_data k d b j) = (if j = k then d else acc_data (b j))"
  "acc_owner (set_data k d b j) = acc_owner (b j)"
  by (simp_all add: set_data_def)

text \<open>Total lamports of a set of accounts, as a natural number.\<close>

definition total :: "pubkey set \<Rightarrow> bank \<Rightarrow> nat" where
  "total A b = (\<Sum>k\<in>A. unat (lamports (b k)))"

lemma total_set_data [simp]: "total A (set_data k d b) = total A b"
  by (simp add: total_def)

lemma total_set_lamports:
  assumes "finite A" and "k \<in> A"
  shows "total A (set_lamports k l b) + unat (lamports (b k)) = total A b + unat l"
proof -
  have "total A (set_lamports k l b) = unat l + (\<Sum>j\<in>A - {k}. unat (lamports (b j)))"
    using assms by (simp add: total_def sum.remove [of A k])
  moreover have "total A b = unat (lamports (b k)) + (\<Sum>j\<in>A - {k}. unat (lamports (b j)))"
    using assms by (simp add: total_def sum.remove [of A k])
  ultimately show ?thesis by simp
qed

text \<open>
  The move \<open>**from -= amount; **to += amount\<close> of the handlers: each of the two is a
  checked operation under \<open>overflow-checks\<close>, and the second reads the store the first
  has written.
\<close>

definition move_lamports :: "pubkey \<Rightarrow> pubkey \<Rightarrow> u64 \<Rightarrow> error \<Rightarrow> error \<Rightarrow> bank \<Rightarrow> error + bank" where
  "move_lamports from to amount e1 e2 b =
     then_do (ok_or (checked_sub (lamports (b from)) amount) e1) (\<lambda>f.
       let b1 = set_lamports from f b in
       then_do (ok_or (checked_add (lamports (b1 to)) amount) e2) (\<lambda>t.
         Inr (set_lamports to t b1)))"

lemma move_lamports_total:
  assumes "move_lamports from to amount e1 e2 b = Inr b'"
    and "finite A" and "from \<in> A" and "to \<in> A"
  shows "total A b' = total A b"
proof -
  from assms(1) obtain f t where
    f: "unat amount \<le> unat (lamports (b from))" "unat f = unat (lamports (b from)) - unat amount" and
    t: "unat t = unat (lamports (set_lamports from f b to)) + unat amount" and
    b': "b' = set_lamports to t (set_lamports from f b)"
    by (auto simp: move_lamports_def res_simps checked_add_Some checked_sub_Some Let_def)
  have "total A (set_lamports from f b) + unat (lamports (b from)) = total A b + unat f"
    using assms by (intro total_set_lamports)
  moreover have "total A b' + unat (lamports (set_lamports from f b to))
      = total A (set_lamports from f b) + unat t"
    unfolding b' using assms by (intro total_set_lamports)
  ultimately show ?thesis using f t by simp
qed

lemma move_lamports_frame:
  assumes "move_lamports from to amount e1 e2 b = Inr b'"
  shows "acc_data (b' k) = acc_data (b k)" and "acc_owner (b' k) = acc_owner (b k)"
    and "k \<noteq> from \<Longrightarrow> k \<noteq> to \<Longrightarrow> lamports (b' k) = lamports (b k)"
  using assms by (auto simp: move_lamports_def res_simps Let_def)

lemma move_lamports_effect:
  assumes "move_lamports from to amount e1 e2 b = Inr b'" and "from \<noteq> to"
  shows "unat (lamports (b' from)) + unat amount = unat (lamports (b from))"
    and "unat (lamports (b' to)) = unat (lamports (b to)) + unat amount"
  using assms
  by (auto simp: move_lamports_def res_simps Let_def checked_add_Some checked_sub_Some)

section \<open>Instructions\<close>

record AccountMeta =
  am_pubkey :: pubkey
  is_signer :: bool
  is_writable :: bool

record Instruction =
  program_id :: pubkey
  ix_accounts :: "AccountMeta list"
  ix_data :: bytes

end
