(* ===== verification/Fiber_Instruction.thy ===== *)
theory Fiber_Instruction
  imports Solana "HOL-Library.AList"
begin

text \<open>
  \<open>programs/fiber/src/state/instruction.rs\<close>: the serialisable instruction types, and
  the compact form in which a fiber stores its instruction (deduplicated accounts sorted
  by permission, account references as \<open>u8\<close> indices).

  \<open>HashMap<Pubkey, AccountMeta>\<close> is an association list; the order in which a
  \<open>HashMap\<close> yields its keys is unspecified, so \<open>compile_instruction\<close> takes it as
  a parameter \<open>key_order\<close>, of which the theorems assume only that it permutes the
  keys.
\<close>

record SerializableAccountMeta =
  sam_pubkey :: pubkey
  sam_is_signer :: bool
  sam_is_writable :: bool

record SerializableInstruction =
  si_program_id :: pubkey
  si_accounts :: "SerializableAccountMeta list"
  si_data :: bytes

definition serializable_from :: "Instruction \<Rightarrow> SerializableInstruction" where
  "serializable_from ix =
     \<lparr>si_program_id = program_id ix,
      si_accounts = map (\<lambda>acc. \<lparr>sam_pubkey = am_pubkey acc, sam_is_signer = is_signer acc,
        sam_is_writable = is_writable acc\<rparr>) (ix_accounts ix),
      si_data = ix_data ix\<rparr>"

definition instruction_from :: "SerializableInstruction \<Rightarrow> Instruction" where
  "instruction_from ix =
     \<lparr>program_id = si_program_id ix,
      ix_accounts = map (\<lambda>acc. \<lparr>am_pubkey = sam_pubkey acc, is_signer = sam_is_signer acc,
        is_writable = sam_is_writable acc\<rparr>) (si_accounts ix),
      ix_data = si_data ix\<rparr>"

record CompiledInstructionData =
  program_id_index :: u8
  cid_accounts :: "u8 list"
  cid_data :: bytes

record CompiledInstructionV0 =
  num_ro_signers :: u8
  num_rw_signers :: u8
  num_rw :: u8
  instructions :: "CompiledInstructionData list"
  ci_accounts :: "pubkey list"

section \<open>Compilation\<close>

type_synonym meta_map = "(pubkey \<times> AccountMeta) list"

text \<open>One turn of the account loop: \<open>entry().or_insert()\<close>, then the permission merge.\<close>

definition merge_account :: "pubkey \<Rightarrow> AccountMeta \<Rightarrow> meta_map \<Rightarrow> meta_map" where
  "merge_account pid acc m =
     (let entry = (case map_of m (am_pubkey acc) of
                     Some e \<Rightarrow> e
                   | None \<Rightarrow> \<lparr>am_pubkey = am_pubkey acc, is_signer = False, is_writable = False\<rparr>);
          entry' = (if am_pubkey acc \<noteq> pid
                    then entry\<lparr>is_signer := is_signer entry \<or> is_signer acc,
                               is_writable := is_writable entry \<or> is_writable acc\<rparr>
                    else entry)
      in AList.update (am_pubkey acc) entry' m)"

definition collect_metadata :: "Instruction \<Rightarrow> meta_map" where
  "collect_metadata ix =
     fold (merge_account (program_id ix)) (ix_accounts ix)
       (AList.update (program_id ix)
          \<lparr>am_pubkey = program_id ix, is_signer = False, is_writable = False\<rparr> [])"

definition get_priority :: "AccountMeta \<Rightarrow> nat" where
  "get_priority meta =
     (case (is_signer meta, is_writable meta) of
        (True, True) \<Rightarrow> 0 | (True, False) \<Rightarrow> 1 | (False, True) \<Rightarrow> 2 | (False, False) \<Rightarrow> 3)"

text \<open>The three \<open>u8\<close> counters; \<open>+= 1\<close> panics at 255.\<close>

fun count_types :: "(pubkey \<rightharpoonup> AccountMeta) \<Rightarrow> pubkey list \<Rightarrow> u8 \<times> u8 \<times> u8 \<Rightarrow> (u8 \<times> u8 \<times> u8) option" where
  "count_types m [] c = Some c"
| "count_types m (k # ks) (rw_signers, ro_signers, rw) =
     (case m k of
        None \<Rightarrow> None
      | Some meta \<Rightarrow>
          if is_signer meta \<and> is_writable meta then
            Option.bind (checked_add rw_signers 1) (\<lambda>c. count_types m ks (c, ro_signers, rw))
          else if is_signer meta \<and> \<not> is_writable meta then
            Option.bind (checked_add ro_signers 1) (\<lambda>c. count_types m ks (rw_signers, c, rw))
          else if is_writable meta then
            Option.bind (checked_add rw 1) (\<lambda>c. count_types m ks (rw_signers, ro_signers, c))
          else count_types m ks (rw_signers, ro_signers, rw))"

text \<open>The index map; \<open>i as u8\<close> keeps the low eight bits.\<close>

definition index_map :: "pubkey list \<Rightarrow> (pubkey \<times> u8) list" where
  "index_map ks = zip ks (map word_of_nat [0..<length ks])"

definition compile_instruction :: "(pubkey list \<Rightarrow> pubkey list) \<Rightarrow> Instruction \<Rightarrow> error + CompiledInstructionV0" where
  "compile_instruction key_order ix =
     (let m = collect_metadata ix;
          sorted_accounts = sort_key (\<lambda>k. get_priority (the (map_of m k))) (key_order (map fst m));
          idx = map_of (index_map sorted_accounts)
      in then_do (ok_or (count_types (map_of m) sorted_accounts (0, 0, 0)) Panic)
           (\<lambda>(rw_signers, ro_signers, rw).
         then_do (ok_or (idx (program_id ix)) Panic) (\<lambda>p.
         then_do (ok_or (those (map (\<lambda>acc. idx (am_pubkey acc)) (ix_accounts ix))) Panic) (\<lambda>accs.
           Inr \<lparr>num_ro_signers = ro_signers, num_rw_signers = rw_signers, num_rw = rw,
                instructions = [\<lparr>program_id_index = p, cid_accounts = accs, cid_data = ix_data ix\<rparr>],
                ci_accounts = sorted_accounts\<rparr>))))"

section \<open>Decompilation\<close>

text \<open>
  The closure of \<open>decompile_instruction\<close> on one account index: an index out of range
  and an overflowing \<open>u8\<close> sum panic; the sum of all three counters is only formed when
  the first two tests fail.
\<close>

definition decompile_account :: "CompiledInstructionV0 \<Rightarrow> u8 \<Rightarrow> AccountMeta option" where
  "decompile_account compiled idx =
     (if length (ci_accounts compiled) \<le> unat idx then None
      else Option.bind (checked_add (num_rw_signers compiled) (num_ro_signers compiled)) (\<lambda>signers.
        Option.bind
          (if idx < num_rw_signers compiled then Some True
           else if idx < signers then Some False
           else Option.bind (checked_add signers (num_rw compiled)) (\<lambda>s. Some (idx < s)))
          (\<lambda>w. Some \<lparr>am_pubkey = ci_accounts compiled ! unat idx,
                     is_signer = idx < signers, is_writable = w\<rparr>)))"

definition decompile_instruction :: "CompiledInstructionV0 \<Rightarrow> error + Instruction" where
  "decompile_instruction compiled =
     (case instructions compiled of
        [] \<Rightarrow> Inl PE_InvalidInstructionData
      | ix # _ \<Rightarrow>
          if length (ci_accounts compiled) \<le> unat (program_id_index ix) then Inl Panic
          else then_do (ok_or (those (map (decompile_account compiled) (cid_accounts ix))) Panic)
            (\<lambda>accounts. Inr \<lparr>program_id = ci_accounts compiled ! unat (program_id_index ix),
                             ix_accounts = accounts, ix_data = cid_data ix\<rparr>))"

section \<open>What compilation keeps\<close>

text \<open>
  The permissions an instruction's accounts have after compilation: an address gets every
  permission one of its occurrences asks for, and the program's own address gets none.
\<close>

definition merged_meta :: "pubkey \<Rightarrow> AccountMeta list \<Rightarrow> pubkey \<Rightarrow> AccountMeta" where
  "merged_meta pid accs k =
     \<lparr>am_pubkey = k,
      is_signer = (k \<noteq> pid \<and> (\<exists>a\<in>set accs. am_pubkey a = k \<and> is_signer a)),
      is_writable = (k \<noteq> pid \<and> (\<exists>a\<in>set accs. am_pubkey a = k \<and> is_writable a))\<rparr>"

definition normalise_instruction :: "Instruction \<Rightarrow> Instruction" where
  "normalise_instruction ix =
     ix\<lparr>ix_accounts := map (\<lambda>a. merged_meta (program_id ix) (ix_accounts ix) (am_pubkey a)) (ix_accounts ix)\<rparr>"

definition instruction_keys :: "Instruction \<Rightarrow> pubkey set" where
  "instruction_keys ix = insert (program_id ix) (am_pubkey ` set (ix_accounts ix))"

lemma finite_instruction_keys [simp]: "finite (instruction_keys ix)"
  by (simp add: instruction_keys_def)

lemma merge_account_map:
  assumes "\<forall>k. map_of m k = (if k \<in> insert pid (am_pubkey ` set as) then Some (merged_meta pid as k) else None)"
  shows "map_of (merge_account pid a m) k =
    (if k \<in> insert pid (am_pubkey ` set (as @ [a])) then Some (merged_meta pid (as @ [a]) k) else None)"
proof (cases "k = am_pubkey a")
  case True
  show ?thesis
    using assms True
    by (cases "am_pubkey a \<in> insert pid (am_pubkey ` set as)")
      (auto simp: merge_account_def Let_def update_conv' merged_meta_def; metis image_eqI)+
next
  case False
  with assms show ?thesis
    by (auto simp: merge_account_def Let_def update_conv' merged_meta_def)
qed

lemma merge_account_keys: "distinct (map fst m) \<Longrightarrow> distinct (map fst (merge_account pid a m))"
  by (simp add: merge_account_def Let_def distinct_update)

lemma collect_metadata_correct:
  "distinct (map fst (collect_metadata ix)) \<and>
   (\<forall>k. map_of (collect_metadata ix) k =
      (if k \<in> instruction_keys ix then Some (merged_meta (program_id ix) (ix_accounts ix) k) else None))"
proof -
  define pid where "pid = program_id ix"
  define m0 where "m0 = AList.update pid \<lparr>am_pubkey = pid, is_signer = False, is_writable = False\<rparr> []"
  have "distinct (map fst (fold (merge_account pid) as m0)) \<and>
     (\<forall>k. map_of (fold (merge_account pid) as m0) k =
       (if k \<in> insert pid (am_pubkey ` set as) then Some (merged_meta pid as k) else None))" for as
  proof (induction as rule: rev_induct)
    case Nil
    show ?case by (auto simp: m0_def merged_meta_def)
  next
    case (snoc a as)
    then have "\<forall>k. map_of (fold (merge_account pid) as m0) k =
       (if k \<in> insert pid (am_pubkey ` set as) then Some (merged_meta pid as k) else None)"
      by blast
    then show ?case
      using snoc merge_account_keys merge_account_map by simp
  qed
  then show ?thesis
    by (simp add: collect_metadata_def pid_def m0_def instruction_keys_def)
qed

lemmas collect_metadata_distinct = collect_metadata_correct [THEN conjunct1]
lemmas collect_metadata_map = collect_metadata_correct [THEN conjunct2, rule_format]

lemma collect_metadata_keys: "set (map fst (collect_metadata ix)) = instruction_keys ix"
proof -
  have "set (map fst (collect_metadata ix)) = dom (map_of (collect_metadata ix))"
    by (simp add: dom_map_of_conv_image_fst)
  also have "\<dots> = instruction_keys ix"
    by (auto simp: dom_def collect_metadata_map split: if_splits)
  finally show ?thesis .
qed

lemma get_priority_le:
  "get_priority m = 0 \<longleftrightarrow> is_signer m \<and> is_writable m"
  "get_priority m \<le> Suc 0 \<longleftrightarrow> is_signer m"
  "get_priority m \<le> 2 \<longleftrightarrow> is_signer m \<or> is_writable m"
  by (auto simp: get_priority_def split: bool.splits)

text \<open>How many accounts of a list have at most a given priority.\<close>

abbreviation prio_count :: "(pubkey \<Rightarrow> AccountMeta) \<Rightarrow> pubkey list \<Rightarrow> nat \<Rightarrow> nat" where
  "prio_count f ks n \<equiv> length (filter (\<lambda>k. get_priority (f k) \<le> n) ks)"

lemma checked_add_u8_1:
  "unat (c :: u8) + 1 < 256 \<Longrightarrow> \<exists>d. checked_add c 1 = Some d \<and> unat d = unat c + 1"
  by (auto simp: checked_add_def unat_word_ariths)

lemma count_types_correct:
  assumes "\<forall>k\<in>set ks. m k = Some (f k)"
    and "unat a + unat b + unat c + prio_count f ks 2 < 256"
  shows "\<exists>a' b' c'. count_types m ks (a, b, c) = Some (a', b', c') \<and>
     unat a' = unat a + prio_count f ks 0 \<and>
     unat a' + unat b' = unat a + unat b + prio_count f ks 1 \<and>
     unat a' + unat b' + unat c' = unat a + unat b + unat c + prio_count f ks 2"
  using assms
proof (induction ks arbitrary: a b c)
  case Nil
  then show ?case by simp
next
  case (Cons k ks)
  have k: "m k = Some (f k)" and ks: "\<forall>k\<in>set ks. m k = Some (f k)"
    using Cons.prems(1) by auto
  consider (rws) "is_signer (f k)" "is_writable (f k)"
    | (ros) "is_signer (f k)" "\<not> is_writable (f k)"
    | (rw) "\<not> is_signer (f k)" "is_writable (f k)"
    | (ro) "\<not> is_signer (f k)" "\<not> is_writable (f k)"
    by blast
  then show ?case
  proof cases
    case rws
    with Cons.prems(2) have "unat a + 1 < 256" by (auto simp: get_priority_le)
    then obtain d where d: "checked_add a 1 = Some d" "unat d = unat a + 1"
      using checked_add_u8_1 by blast
    with rws Cons.IH [OF ks, of d b c] Cons.prems(2) k show ?thesis
      by (auto simp: get_priority_le)
  next
    case ros
    with Cons.prems(2) have "unat b + 1 < 256" by (auto simp: get_priority_le)
    then obtain d where d: "checked_add b 1 = Some d" "unat d = unat b + 1"
      using checked_add_u8_1 by blast
    with ros Cons.IH [OF ks, of a d c] Cons.prems(2) k show ?thesis
      by (auto simp: get_priority_le)
  next
    case rw
    with Cons.prems(2) have "unat c + 1 < 256" by (auto simp: get_priority_le)
    then obtain d where d: "checked_add c 1 = Some d" "unat d = unat c + 1"
      using checked_add_u8_1 by blast
    with rw Cons.IH [OF ks, of a b d] Cons.prems(2) k show ?thesis
      by (auto simp: get_priority_le)
  next
    case ro
    with Cons.IH [OF ks, of a b c] Cons.prems(2) k show ?thesis
      by (auto simp: get_priority_le)
  qed
qed

text \<open>The account table of a compiled instruction: distinct, complete, sorted by permission.\<close>

definition account_table :: "(pubkey list \<Rightarrow> pubkey list) \<Rightarrow> Instruction \<Rightarrow> pubkey list" where
  "account_table key_order ix =
     sort_key (\<lambda>k. get_priority (the (map_of (collect_metadata ix) k)))
       (key_order (map fst (collect_metadata ix)))"

lemma account_table_props:
  assumes "\<And>ks. mset (key_order ks) = mset ks"
  shows "set (account_table key_order ix) = instruction_keys ix" (is ?set)
    and "distinct (account_table key_order ix)" (is ?dist)
    and "length (account_table key_order ix) = card (instruction_keys ix)" (is ?len)
    and "sorted (map (\<lambda>k. get_priority (merged_meta (program_id ix) (ix_accounts ix) k))
           (account_table key_order ix))" (is ?sorted)
proof -
  let ?ks = "map fst (collect_metadata ix)"
  have m: "mset (account_table key_order ix) = mset ?ks"
    by (simp add: account_table_def assms)
  show s: ?set
    using m collect_metadata_keys by (metis set_mset_mset)
  show d: ?dist
    using m collect_metadata_distinct by (metis mset_eq_imp_distinct_iff)
  show ?len
    using s d distinct_card by metis
  have "sorted (map (\<lambda>k. get_priority (the (map_of (collect_metadata ix) k))) (account_table key_order ix))"
    by (simp add: account_table_def)
  moreover have "map (\<lambda>k. get_priority (the (map_of (collect_metadata ix) k))) (account_table key_order ix)
      = map (\<lambda>k. get_priority (merged_meta (program_id ix) (ix_accounts ix) k)) (account_table key_order ix)"
    using s by (intro map_cong) (auto simp: collect_metadata_map)
  ultimately show ?sorted by simp
qed

lemma account_table_prio_count:
  assumes "\<And>ks. mset (key_order ks) = mset ks" and "card (instruction_keys ix) \<le> 256"
  shows "prio_count (merged_meta (program_id ix) (ix_accounts ix)) (account_table key_order ix) 2 < 256"
proof -
  have "program_id ix \<in> set (account_table key_order ix)"
    using account_table_props(1) [OF assms(1)] by (simp add: instruction_keys_def)
  moreover have "\<not> get_priority (merged_meta (program_id ix) (ix_accounts ix) (program_id ix)) \<le> 2"
    by (simp add: get_priority_le merged_meta_def)
  ultimately have "prio_count (merged_meta (program_id ix) (ix_accounts ix)) (account_table key_order ix) 2
      < length (account_table key_order ix)"
    by (rule length_filter_less)
  with account_table_props(3) [OF assms(1), of ix] assms(2) show ?thesis by simp
qed

lemma index_map_nth:
  assumes "distinct ks" and "i < length ks"
  shows "map_of (index_map ks) (ks ! i) = Some (word_of_nat i)"
  using assms by (simp add: index_map_def map_of_zip_nth)

lemma unat_u8_of_nat: "i < 256 \<Longrightarrow> unat (word_of_nat i :: u8) = i"
  by (simp add: unat_of_nat take_bit_eq_mod)

text \<open>Decoding one index of a well-formed table yields the merged permissions back.\<close>

lemma decompile_account_correct:
  assumes table: "ci_accounts c = S" and sorted: "sorted (map (\<lambda>k. get_priority (f k)) S)"
    and name: "\<And>k. am_pubkey (f k) = k"
    and len: "length S \<le> 256" and i: "i < length S"
    and rws: "unat (num_rw_signers c) = prio_count f S 0"
    and sgn: "unat (num_rw_signers c) + unat (num_ro_signers c) = prio_count f S 1"
    and all: "unat (num_rw_signers c) + unat (num_ro_signers c) + unat (num_rw c) = prio_count f S 2"
    and small: "prio_count f S 2 < 256"
  shows "decompile_account c (word_of_nat i) = Some (f (S ! i))"
proof -
  define idx :: u8 where "idx = word_of_nat i"
  have idx: "unat idx = i"
    unfolding idx_def using len i by (intro unat_u8_of_nat) simp
  have le: "prio_count f S 1 \<le> prio_count f S 2"
    using sgn all by linarith
  obtain s where s: "checked_add (num_rw_signers c) (num_ro_signers c) = Some s"
    and us: "unat s = prio_count f S 1"
    using sgn le small by (auto simp: checked_add_def unat_word_ariths)
  obtain t where t: "checked_add s (num_rw c) = Some t" and ut: "unat t = prio_count f S 2"
    using us all sgn small by (auto simp: checked_add_def unat_word_ariths)
  note prefix = sorted_key_prefix [OF sorted i]
  have w0: "idx < num_rw_signers c \<longleftrightarrow> is_signer (f (S ! i)) \<and> is_writable (f (S ! i))"
    using prefix [of 0] rws idx by (simp add: word_less_nat_alt get_priority_le)
  have w1: "idx < s \<longleftrightarrow> is_signer (f (S ! i))"
    using prefix [of 1] us idx by (simp add: word_less_nat_alt get_priority_le)
  have w2: "idx < t \<longleftrightarrow> is_signer (f (S ! i)) \<or> is_writable (f (S ! i))"
    using prefix [of 2] ut idx by (simp add: word_less_nat_alt get_priority_le)
  show ?thesis
    using s t w0 w1 w2 table i idx name [of "S ! i"]
    by (cases "f (S ! i)") (auto simp: decompile_account_def idx_def [symmetric])
qed

lemma compile_then_decompile:
  assumes order: "\<And>ks. mset (key_order ks) = mset ks" and few: "card (instruction_keys ix) \<le> 256"
  shows "\<exists>c. compile_instruction key_order ix = Inr c \<and>
    decompile_instruction c = Inr (normalise_instruction ix) \<and>
    distinct (ci_accounts c) \<and> set (ci_accounts c) = instruction_keys ix"
proof -
  define S where "S = account_table key_order ix"
  define f where "f = merged_meta (program_id ix) (ix_accounts ix)"
  note S = account_table_props [OF order, of ix, folded S_def]
  have small: "prio_count f S 2 < 256"
    using account_table_prio_count [OF order few] by (simp add: S_def f_def)
  have "\<forall>k\<in>set S. map_of (collect_metadata ix) k = Some (f k)"
    by (simp add: S(1) collect_metadata_map f_def)
  with count_types_correct [of S "map_of (collect_metadata ix)" f 0 0 0] small obtain a b c where
    cnt: "count_types (map_of (collect_metadata ix)) S (0, 0, 0) = Some (a, b, c)" and
    sums: "unat a = prio_count f S 0" "unat a + unat b = prio_count f S 1"
      "unat a + unat b + unat c = prio_count f S 2"
    by auto
  define pos where "pos k = (SOME i. i < length S \<and> S ! i = k)" for k
  have pos: "pos k < length S \<and> S ! pos k = k" if "k \<in> instruction_keys ix" for k
    unfolding pos_def by (rule someI_ex) (use that S(1) in \<open>auto simp: in_set_conv_nth\<close>)
  have idx: "map_of (index_map S) k = Some (word_of_nat (pos k))" if "k \<in> instruction_keys ix" for k
    using pos [OF that] index_map_nth [OF S(2), of "pos k"] by simp
  have keys: "program_id ix \<in> instruction_keys ix" "\<And>a. a \<in> set (ix_accounts ix) \<Longrightarrow> am_pubkey a \<in> instruction_keys ix"
    by (auto simp: instruction_keys_def)
  define ci where "ci = \<lparr>num_ro_signers = b, num_rw_signers = a, num_rw = c,
    instructions = [\<lparr>program_id_index = word_of_nat (pos (program_id ix)),
      cid_accounts = map (\<lambda>acc. word_of_nat (pos (am_pubkey acc))) (ix_accounts ix),
      cid_data = ix_data ix\<rparr>], ci_accounts = S\<rparr>"
  have "those (map (\<lambda>acc. map_of (index_map S) (am_pubkey acc)) (ix_accounts ix))
      = Some (map (\<lambda>acc. word_of_nat (pos (am_pubkey acc))) (ix_accounts ix))"
    by (rule those_map_Some) (simp add: idx keys)
  then have comp: "compile_instruction key_order ix = Inr ci"
    using cnt idx [OF keys(1)]
    by (simp add: compile_instruction_def Let_def S_def account_table_def [symmetric] ci_def)
  have dec: "decompile_account ci (word_of_nat (pos k)) = Some (f k)" if "k \<in> instruction_keys ix" for k
    using decompile_account_correct [of ci S f "pos k"] pos [OF that] S few sums small
    by (simp add: ci_def f_def merged_meta_def)
  have "those (map (decompile_account ci) (map (\<lambda>acc. word_of_nat (pos (am_pubkey acc))) (ix_accounts ix)))
      = Some (map (\<lambda>acc. f (am_pubkey acc)) (ix_accounts ix))"
    unfolding map_map by (rule those_map_Some) (simp add: dec keys)
  moreover have "unat (word_of_nat (pos (program_id ix)) :: u8) = pos (program_id ix)"
    using pos [OF keys(1)] few S(3) by (intro unat_u8_of_nat) simp
  ultimately have "decompile_instruction ci = Inr (normalise_instruction ix)"
    using pos [OF keys(1)]
    by (simp add: decompile_instruction_def ci_def normalise_instruction_def f_def)
  with comp S(1,2) show ?thesis
    by (auto simp: ci_def)
qed

end
