(* ===== verification/Fiber_State.thy ===== *)
theory Fiber_State
  imports Fiber_Instruction
begin

text \<open>
  \<open>programs/fiber/src/state/fiber.rs\<close> and \<open>constants.rs\<close>: the two shapes a fiber
  account can have, the discriminator-tagged read view \<open>Fiber\<close> over both, and the
  executor substitution of \<open>get_instruction\<close>.

  Code the repository does not contain enters through the record \<open>fiber_env\<close>: program
  derived addresses, rent, the Borsh encoders and decoders of the stored types, Anchor's
  discriminators, the iteration order of \<open>HashMap\<close>, and the two system-program
  instructions a fiber is initialised with.
\<close>

record FiberState =
  fs_thread :: pubkey
  fs_compiled_instruction :: bytes
  fs_last_executed :: i64
  fs_exec_count :: u64
  fs_priority_fee :: u64

record FiberVersionedState =
  fv_version :: u8
  fv_thread :: pubkey
  fv_compiled_instruction :: bytes
  fv_last_executed :: i64
  fv_exec_count :: u64
  fv_priority_fee :: u64
  fv_lookup_tables :: "pubkey list"

datatype Fiber = Legacy FiberState | V1 FiberVersionedState

record fiber_env =
  find_program_address :: "bytes list \<Rightarrow> pubkey \<Rightarrow> pubkey \<times> u8"
  minimum_balance :: "nat \<Rightarrow> u64"
  key_order :: "pubkey list \<Rightarrow> pubkey list"
  to_vec_compiled :: "CompiledInstructionV0 \<Rightarrow> bytes"
  try_from_slice_compiled :: "bytes \<Rightarrow> CompiledInstructionV0 option"
  to_vec_legacy :: "FiberState \<Rightarrow> bytes"
  deserialize_legacy :: "bytes \<Rightarrow> FiberState option"
  to_vec_versioned :: "FiberVersionedState \<Rightarrow> bytes"
  deserialize_versioned :: "bytes \<Rightarrow> FiberVersionedState option"
  DISC_LEGACY :: bytes
  DISC_VERSIONED :: bytes
  system_allocate :: "pubkey \<Rightarrow> nat \<Rightarrow> bank \<Rightarrow> error + bank"
  system_assign :: "pubkey \<Rightarrow> pubkey \<Rightarrow> bank \<Rightarrow> error + bank"

section \<open>Constants\<close>

definition CURRENT_FIBER_VERSION :: u8 where "CURRENT_FIBER_VERSION = 1"

definition MAX_LOOKUP_TABLES_PER_FIBER :: nat where "MAX_LOOKUP_TABLES_PER_FIBER = 4"

text \<open>The bytes of the string constant \<open>thread_fiber\<close>.\<close>

definition SEED_THREAD_FIBER :: bytes where
  "SEED_THREAD_FIBER = [116, 104, 114, 101, 97, 100, 95, 102, 105, 98, 101, 114]"

text \<open>The base58 constants \<open>AntegenPayer111\<dots>\<close> and the fiber program's id, decoded.\<close>

definition PAYER_PUBKEY :: pubkey where
  "PAYER_PUBKEY = [2, 130, 29, 168, 79, 48, 29, 45, 210, 122, 85, 205, 208, 93, 186, 177,
     127, 252, 225, 108, 238, 101, 251, 235, 53, 241, 197, 235, 128, 0, 0, 0]"

definition FIBER_PROGRAM_ID :: pubkey where
  "FIBER_PROGRAM_ID = [143, 199, 178, 209, 146, 70, 147, 144, 217, 42, 83, 136, 197, 188, 48,
     244, 132, 132, 229, 105, 230, 116, 255, 101, 187, 193, 6, 165, 233, 175, 75, 91]"

text \<open>
  \<open>8 + FiberVersionedState::INIT_SPACE\<close>: the discriminator, then 1 + 32 + (4 + 1024) +
  8 + 8 + 8 + (4 + 4 * 32) bytes for the fields with their \<open>max_len\<close> attributes.
\<close>

definition FIBER_SPACE :: nat where
  "FIBER_SPACE = 8 + (1 + 32 + (4 + 1024) + 8 + 8 + 8 + (4 + 4 * 32))"

section \<open>Reading a fiber\<close>

definition fiber_pubkey :: "fiber_env \<Rightarrow> pubkey \<Rightarrow> u8 \<Rightarrow> pubkey" where
  "fiber_pubkey env thread fiber_index =
     fst (find_program_address env [SEED_THREAD_FIBER, thread, [fiber_index]] FIBER_PROGRAM_ID)"

definition try_deserialize_fiber :: "fiber_env \<Rightarrow> bytes \<Rightarrow> error + Fiber" where
  "try_deserialize_fiber env buf =
     (if length buf < 8 then Inl (FiberErr InvalidFiberData)
      else let disc = take 8 buf in
        if disc = DISC_VERSIONED env then
          then_do (ok_or (deserialize_versioned env (drop 8 buf)) BorshError) (\<lambda>state. Inr (V1 state))
        else if disc = DISC_LEGACY env then
          then_do (ok_or (deserialize_legacy env (drop 8 buf)) BorshError) (\<lambda>state. Inr (Legacy state))
        else Inl (FiberErr InvalidFiberData))"

fun is_legacy :: "Fiber \<Rightarrow> bool" where
  "is_legacy (Legacy _) = True"
| "is_legacy (V1 _) = False"

fun fiber_thread :: "Fiber \<Rightarrow> pubkey" where
  "fiber_thread (Legacy s) = fs_thread s"
| "fiber_thread (V1 s) = fv_thread s"

fun fiber_compiled_instruction :: "Fiber \<Rightarrow> bytes" where
  "fiber_compiled_instruction (Legacy s) = fs_compiled_instruction s"
| "fiber_compiled_instruction (V1 s) = fv_compiled_instruction s"

fun fiber_priority_fee :: "Fiber \<Rightarrow> u64" where
  "fiber_priority_fee (Legacy s) = fs_priority_fee s"
| "fiber_priority_fee (V1 s) = fv_priority_fee s"

fun fiber_lookup_tables :: "Fiber \<Rightarrow> pubkey list" where
  "fiber_lookup_tables (Legacy _) = []"
| "fiber_lookup_tables (V1 s) = fv_lookup_tables s"

definition decompile_with_payer :: "fiber_env \<Rightarrow> bytes \<Rightarrow> pubkey \<Rightarrow> error + Instruction" where
  "decompile_with_payer env compiled_instruction executor =
     then_do (ok_or (try_from_slice_compiled env compiled_instruction) BorshError) (\<lambda>compiled.
     then_do (decompile_instruction compiled) (\<lambda>ix.
       Inr (ix\<lparr>ix_accounts := map (\<lambda>acc. if am_pubkey acc = PAYER_PUBKEY
                                           then acc\<lparr>am_pubkey := executor\<rparr> else acc)
              (ix_accounts ix)\<rparr>)))"

fun get_instruction :: "fiber_env \<Rightarrow> Fiber \<Rightarrow> pubkey \<Rightarrow> error + Instruction" where
  "get_instruction env (Legacy s) executor = decompile_with_payer env (fs_compiled_instruction s) executor"
| "get_instruction env (V1 s) executor = decompile_with_payer env (fv_compiled_instruction s) executor"

section \<open>Writing a fiber\<close>

text \<open>
  \<open>write_versioned\<close> and \<open>write_legacy\<close> of \<open>instructions/create.rs\<close> copy the
  discriminator and the encoded state over the front of the account's data; both slice
  operations panic when the buffer is too short, and the bytes behind stay.
\<close>

definition write_bytes :: "pubkey \<Rightarrow> bytes \<Rightarrow> bytes \<Rightarrow> bank \<Rightarrow> error + bank" where
  "write_bytes k disc state_bytes b =
     (let data = acc_data (b k) in
      if length data < 8 \<or> length disc \<noteq> 8 \<or> length data < 8 + length state_bytes then Inl Panic
      else Inr (set_data k (disc @ state_bytes @ drop (8 + length state_bytes) data) b))"

definition write_versioned :: "fiber_env \<Rightarrow> pubkey \<Rightarrow> FiberVersionedState \<Rightarrow> bank \<Rightarrow> error + bank" where
  "write_versioned env k state b = write_bytes k (DISC_VERSIONED env) (to_vec_versioned env state) b"

definition write_legacy :: "fiber_env \<Rightarrow> pubkey \<Rightarrow> FiberState \<Rightarrow> bank \<Rightarrow> error + bank" where
  "write_legacy env k state b = write_bytes k (DISC_LEGACY env) (to_vec_legacy env state) b"

section \<open>What the programs rely on\<close>

text \<open>
  The documented behaviour of the code behind \<open>fiber_env\<close>: Borsh decodes what it
  encoded and ignores the bytes behind (the account buffer is longer than the state), a
  compiled instruction decodes from exactly its bytes, discriminators are eight bytes and
  differ (also from the closed-account sentinel), \<open>HashMap\<close> yields every key once,
  allocation zero-fills exactly the requested space, assignment sets the owner, and
  neither system instruction touches anything else.
\<close>

definition borsh_laws :: "fiber_env \<Rightarrow> bool" where
  "borsh_laws env \<longleftrightarrow>
     (\<forall>s rest. deserialize_versioned env (to_vec_versioned env s @ rest) = Some s) \<and>
     (\<forall>s rest. deserialize_legacy env (to_vec_legacy env s @ rest) = Some s) \<and>
     (\<forall>c. try_from_slice_compiled env (to_vec_compiled env c) = Some c) \<and>
     length (DISC_VERSIONED env) = 8 \<and> length (DISC_LEGACY env) = 8 \<and>
     DISC_VERSIONED env \<noteq> DISC_LEGACY env \<and>
     DISC_VERSIONED env \<noteq> replicate 8 255 \<and> DISC_LEGACY env \<noteq> replicate 8 255"

definition hash_map_laws :: "fiber_env \<Rightarrow> bool" where
  "hash_map_laws env \<longleftrightarrow> (\<forall>ks. mset (key_order env ks) = mset ks)"

definition system_laws :: "fiber_env \<Rightarrow> bool" where
  "system_laws env \<longleftrightarrow>
     (\<forall>k n b b'. system_allocate env k n b = Inr b' \<longrightarrow> b' = set_data k (replicate n 0) b) \<and>
     (\<forall>k p b b'. system_assign env k p b = Inr b' \<longrightarrow> b' = b(k := (b k)\<lparr>acc_owner := p\<rparr>))"

lemma write_bytes_Inr:
  "write_bytes k disc bs b = Inr b' \<longleftrightarrow>
     8 \<le> length (acc_data (b k)) \<and> length disc = 8 \<and> 8 + length bs \<le> length (acc_data (b k)) \<and>
     b' = set_data k (disc @ bs @ drop (8 + length bs) (acc_data (b k))) b"
  by (auto simp: write_bytes_def Let_def)

lemma write_bytes_length:
  "write_bytes k disc bs b = Inr b' \<Longrightarrow> length (acc_data (b' k)) = length (acc_data (b k))"
  by (auto simp: write_bytes_Inr)

lemma read_back_versioned:
  assumes "borsh_laws env" and "write_versioned env k s b = Inr b'"
  shows "try_deserialize_fiber env (acc_data (b' k)) = Inr (V1 s)"
  using assms
  by (auto simp: borsh_laws_def write_versioned_def write_bytes_Inr try_deserialize_fiber_def Let_def)

lemma read_back_legacy:
  assumes "borsh_laws env" and "write_legacy env k s b = Inr b'"
  shows "try_deserialize_fiber env (acc_data (b' k)) = Inr (Legacy s)"
  using assms
  by (auto simp: borsh_laws_def write_legacy_def write_bytes_Inr try_deserialize_fiber_def Let_def)

lemma closed_not_fiber:
  assumes "borsh_laws env"
  shows "try_deserialize_fiber env (replicate 8 255 @ rest) = Inl (FiberErr InvalidFiberData)"
proof -
  have "DISC_VERSIONED env \<noteq> replicate 8 255" and "DISC_LEGACY env \<noteq> replicate 8 255"
    using assms by (simp_all add: borsh_laws_def)
  then show ?thesis
    unfolding try_deserialize_fiber_def Let_def by (auto simp: numeral_eq_Suc)
qed

lemma try_deserialize_fiber_length:
  "try_deserialize_fiber env d = Inr f \<Longrightarrow> 8 \<le> length d"
  by (auto simp: try_deserialize_fiber_def split: if_splits)

end
