(* ===== verification/Fiber_Program.thy ===== *)
theory Fiber_Program
  imports Fiber_State
begin

text \<open>
  The four instructions of the fiber program (\<open>programs/fiber/src/instructions\<close>), each
  as a function of the addresses of its accounts, its arguments and the account store.
  The \<open>Accounts\<close> structs appear as the checks at the head of each handler: \<open>signers\<close>
  is the list of addresses that signed the invocation.
\<close>

definition initialize_fiber :: "fiber_env \<Rightarrow> pubkey \<Rightarrow> pubkey \<Rightarrow> u8 \<Rightarrow> Instruction \<Rightarrow> u64 \<Rightarrow> pubkey list \<Rightarrow> bank \<Rightarrow> error + bank" where
  "initialize_fiber env fiber thread_key fiber_index ix priority_fee lookup_tables b =
     then_do (require (length lookup_tables \<le> MAX_LOOKUP_TABLES_PER_FIBER) (FiberErr LookupTablesExceedMax)) (\<lambda>_.
     let (expected_pda, bump) =
       find_program_address env [SEED_THREAD_FIBER, thread_key, [fiber_index]] FIBER_PROGRAM_ID in
     then_do (require (expected_pda = fiber) (FiberErr InvalidFiberPDA)) (\<lambda>_.
     let min_lamports = minimum_balance env FIBER_SPACE in
     then_do (require (min_lamports \<le> lamports (b fiber)) (FiberErr InsufficientRent)) (\<lambda>_.
     then_do (system_allocate env fiber FIBER_SPACE b) (\<lambda>b1.
     then_do (system_assign env fiber FIBER_PROGRAM_ID b1) (\<lambda>b2.
     then_do (compile_instruction (key_order env) ix) (\<lambda>compiled.
       write_versioned env fiber
         \<lparr>fv_version = CURRENT_FIBER_VERSION, fv_thread = thread_key,
          fv_compiled_instruction = to_vec_compiled env compiled,
          fv_last_executed = 0, fv_exec_count = 0, fv_priority_fee = priority_fee,
          fv_lookup_tables = lookup_tables\<rparr> b2))))))"

definition create_fiber :: "fiber_env \<Rightarrow> pubkey list \<Rightarrow> pubkey \<Rightarrow> pubkey \<Rightarrow> u8 \<Rightarrow> Instruction \<Rightarrow> u64 \<Rightarrow> pubkey list \<Rightarrow> bank \<Rightarrow> error + bank" where
  "create_fiber env signers thread fiber fiber_index ix priority_fee lookup_tables b =
     then_do (require (thread \<in> set signers) AccountNotSigner) (\<lambda>_.
     then_do (require (length lookup_tables \<le> MAX_LOOKUP_TABLES_PER_FIBER) (FiberErr LookupTablesExceedMax)) (\<lambda>_.
     if acc_data (b fiber) = [] then
       initialize_fiber env fiber thread fiber_index ix priority_fee lookup_tables b
     else
       then_do (compile_instruction (key_order env) ix) (\<lambda>compiled.
       then_do (try_deserialize_fiber env (acc_data (b fiber))) (\<lambda>fiber_read.
         case fiber_read of
           Legacy state \<Rightarrow>
             then_do (require (lookup_tables = []) (FiberErr LegacyFiberLookupTablesUnsupported)) (\<lambda>_.
               write_legacy env fiber
                 (state\<lparr>fs_thread := thread, fs_compiled_instruction := to_vec_compiled env compiled,
                        fs_priority_fee := priority_fee, fs_last_executed := 0, fs_exec_count := 0\<rparr>) b)
         | V1 state \<Rightarrow>
             write_versioned env fiber
               (state\<lparr>fv_version := CURRENT_FIBER_VERSION, fv_thread := thread,
                      fv_compiled_instruction := to_vec_compiled env compiled,
                      fv_priority_fee := priority_fee, fv_last_executed := 0, fv_exec_count := 0,
                      fv_lookup_tables := lookup_tables\<rparr>) b))))"

text \<open>\<open>None\<close> wipes the stored instruction.\<close>

definition apply_instruction_update :: "fiber_env \<Rightarrow> Instruction option \<Rightarrow> error + bytes" where
  "apply_instruction_update env instruction =
     (case instruction of
        Some ix \<Rightarrow> then_do (compile_instruction (key_order env) ix) (\<lambda>compiled. Inr (to_vec_compiled env compiled))
      | None \<Rightarrow> Inr [])"

definition update_fiber :: "fiber_env \<Rightarrow> pubkey list \<Rightarrow> pubkey \<Rightarrow> pubkey \<Rightarrow> u8 \<Rightarrow> Instruction option \<Rightarrow> u64 option \<Rightarrow> pubkey list option \<Rightarrow> bank \<Rightarrow> error + bank" where
  "update_fiber env signers thread fiber fiber_index instruction priority_fee lookup_tables b =
     then_do (require (thread \<in> set signers) AccountNotSigner) (\<lambda>_.
     then_do (require (fiber = fiber_pubkey env thread fiber_index) ConstraintSeeds) (\<lambda>_.
     then_do (case lookup_tables of
                Some lt \<Rightarrow> require (length lt \<le> MAX_LOOKUP_TABLES_PER_FIBER) (FiberErr LookupTablesExceedMax)
              | None \<Rightarrow> Inr ()) (\<lambda>_.
     if acc_data (b fiber) = [] then
       then_do (ok_or instruction InstructionMissing) (\<lambda>ix.
         initialize_fiber env fiber thread fiber_index ix
           (case priority_fee of Some fee \<Rightarrow> fee | None \<Rightarrow> 0)
           (case lookup_tables of Some lt \<Rightarrow> lt | None \<Rightarrow> []) b)
     else
       then_do (try_deserialize_fiber env (acc_data (b fiber))) (\<lambda>fiber_read.
         case fiber_read of
           Legacy state \<Rightarrow>
             then_do (case lookup_tables of
                        Some lt \<Rightarrow> require (lt = []) (FiberErr LegacyFiberLookupTablesUnsupported)
                      | None \<Rightarrow> Inr ()) (\<lambda>_.
             then_do (apply_instruction_update env instruction) (\<lambda>compiled.
               write_legacy env fiber
                 (state\<lparr>fs_thread := thread, fs_compiled_instruction := compiled,
                        fs_priority_fee := (case priority_fee of Some fee \<Rightarrow> fee | None \<Rightarrow> fs_priority_fee state),
                        fs_last_executed := 0, fs_exec_count := 0\<rparr>) b))
         | V1 state \<Rightarrow>
             then_do (apply_instruction_update env instruction) (\<lambda>compiled.
               write_versioned env fiber
                 (state\<lparr>fv_version := CURRENT_FIBER_VERSION, fv_thread := thread,
                        fv_compiled_instruction := compiled,
                        fv_priority_fee := (case priority_fee of Some fee \<Rightarrow> fee | None \<Rightarrow> fv_priority_fee state),
                        fv_lookup_tables := (case lookup_tables of Some lt \<Rightarrow> lt | None \<Rightarrow> fv_lookup_tables state),
                        fv_last_executed := 0, fv_exec_count := 0\<rparr>) b)))))"

definition closed_data :: "bytes \<Rightarrow> bytes" where
  "closed_data data =
     (if 8 \<le> length data then replicate 8 255 @ replicate (length data - 8) 0
      else replicate (length data) 0)"

definition sweep_fiber_lamports :: "pubkey \<Rightarrow> pubkey \<Rightarrow> bank \<Rightarrow> error + bank" where
  "sweep_fiber_lamports fiber thread b =
     then_do (ok_or (checked_add (lamports (b thread)) (lamports (b fiber))) PE_ArithmeticOverflow) (\<lambda>s.
       Inr (set_data fiber (closed_data (acc_data (b fiber)))
             (set_lamports fiber 0 (set_lamports thread s b))))"

definition close_fiber :: "fiber_env \<Rightarrow> pubkey list \<Rightarrow> pubkey \<Rightarrow> pubkey \<Rightarrow> bank \<Rightarrow> error + bank" where
  "close_fiber env signers thread fiber b =
     then_do (require (thread \<in> set signers) AccountNotSigner) (\<lambda>_.
     then_do (try_deserialize_fiber env (acc_data (b fiber))) (\<lambda>read.
     then_do (require (fiber_thread read = thread) (FiberErr InvalidFiberPDA)) (\<lambda>_.
       sweep_fiber_lamports fiber thread b)))"

definition swap_fiber :: "fiber_env \<Rightarrow> pubkey list \<Rightarrow> pubkey \<Rightarrow> pubkey \<Rightarrow> pubkey \<Rightarrow> bank \<Rightarrow> error + bank" where
  "swap_fiber env signers thread target source b =
     then_do (require (thread \<in> set signers) AccountNotSigner) (\<lambda>_.
     then_do (try_deserialize_fiber env (acc_data (b source))) (\<lambda>source_read.
     then_do (require (fiber_thread source_read = thread) (FiberErr InvalidFiberPDA)) (\<lambda>_.
     then_do (try_deserialize_fiber env (acc_data (b target))) (\<lambda>target_read.
     then_do (require (fiber_thread target_read = thread) (FiberErr InvalidFiberPDA)) (\<lambda>_.
     let new_compiled = fiber_compiled_instruction source_read;
         new_priority_fee = fiber_priority_fee source_read in
     then_do
       (case target_read of
          Legacy state \<Rightarrow>
            write_legacy env target
              (state\<lparr>fs_compiled_instruction := new_compiled, fs_priority_fee := new_priority_fee,
                     fs_last_executed := 0, fs_exec_count := 0\<rparr>) b
        | V1 state \<Rightarrow>
            write_versioned env target
              (state\<lparr>fv_version := CURRENT_FIBER_VERSION, fv_compiled_instruction := new_compiled,
                     fv_priority_fee := new_priority_fee, fv_last_executed := 0, fv_exec_count := 0\<rparr>) b)
       (\<lambda>b1. sweep_fiber_lamports source thread b1))))))"

section \<open>The fibers a store holds\<close>

text \<open>
  The abstract state of the fiber program is the map from addresses to the fibers stored
  there. Each instruction is specified by its effect on this map and on the lamports.
\<close>

definition fibers :: "fiber_env \<Rightarrow> bank \<Rightarrow> pubkey \<Rightarrow> Fiber option" where
  "fibers env b k = (case try_deserialize_fiber env (acc_data (b k)) of Inr f \<Rightarrow> Some f | Inl _ \<Rightarrow> None)"

lemma fibers_Some [simp]: "fibers env b k = Some f \<longleftrightarrow> try_deserialize_fiber env (acc_data (b k)) = Inr f"
  by (auto simp: fibers_def split: sum.splits)

lemma fibers_set_lamports [simp]: "fibers env (set_lamports k l b) = fibers env b"
  by (simp add: fibers_def fun_eq_iff)

lemma fibers_set_data: "fibers env (set_data k d b) = (fibers env b)(k := (case try_deserialize_fiber env d of Inr f \<Rightarrow> Some f | Inl _ \<Rightarrow> None))"
  by (auto simp: fibers_def fun_eq_iff)

lemma fibers_write_versioned:
  assumes "borsh_laws env" and "write_versioned env k s b = Inr b'"
  shows "fibers env b' = (fibers env b)(k \<mapsto> V1 s)"
proof -
  have "try_deserialize_fiber env (acc_data (b' k)) = Inr (V1 s)"
    using assms by (rule read_back_versioned)
  moreover have "acc_data (b' j) = acc_data (b j)" if "j \<noteq> k" for j
    using assms(2) that by (auto simp: write_versioned_def write_bytes_Inr)
  ultimately show ?thesis
    by (auto simp: fibers_def fun_eq_iff)
qed

lemma fibers_write_legacy:
  assumes "borsh_laws env" and "write_legacy env k s b = Inr b'"
  shows "fibers env b' = (fibers env b)(k \<mapsto> Legacy s)"
proof -
  have "try_deserialize_fiber env (acc_data (b' k)) = Inr (Legacy s)"
    using assms by (rule read_back_legacy)
  moreover have "acc_data (b' j) = acc_data (b j)" if "j \<noteq> k" for j
    using assms(2) that by (auto simp: write_legacy_def write_bytes_Inr)
  ultimately show ?thesis
    by (auto simp: fibers_def fun_eq_iff)
qed

lemma write_lamports:
  "write_versioned env k s b = Inr b' \<Longrightarrow> lamports (b' j) = lamports (b j)"
  "write_legacy env k s' b = Inr b' \<Longrightarrow> lamports (b' j) = lamports (b j)"
  by (auto simp: write_versioned_def write_legacy_def write_bytes_Inr)

lemma closed_data_no_fiber:
  assumes "borsh_laws env"
  shows "\<exists>e. try_deserialize_fiber env (closed_data d) = Inl e"
  using closed_not_fiber [OF assms]
  by (auto simp: closed_data_def try_deserialize_fiber_def)

lemma sweep_fibers:
  assumes "borsh_laws env" and "sweep_fiber_lamports fiber thread b = Inr b'"
  shows "fibers env b' = (fibers env b)(fiber := None)"
proof -
  obtain e where "try_deserialize_fiber env (closed_data (acc_data (b fiber))) = Inl e"
    using closed_data_no_fiber [OF assms(1)] by blast
  then show ?thesis
    using assms(2) by (auto simp: sweep_fiber_lamports_def res_simps fibers_set_data)
qed

lemma sweep_lamports:
  assumes "sweep_fiber_lamports fiber thread b = Inr b'" and "fiber \<noteq> thread"
  shows "lamports (b' fiber) = 0"
    and "unat (lamports (b' thread)) = unat (lamports (b thread)) + unat (lamports (b fiber))"
    and "k \<noteq> fiber \<Longrightarrow> k \<noteq> thread \<Longrightarrow> lamports (b' k) = lamports (b k)"
  using assms by (auto simp: sweep_fiber_lamports_def res_simps checked_add_Some)

lemma sweep_total:
  assumes "sweep_fiber_lamports fiber thread b = Inr b'" and "fiber \<noteq> thread"
    and A: "finite A" "fiber \<in> A" "thread \<in> A"
  shows "total A b' = total A b"
proof -
  obtain s where s: "unat s = unat (lamports (b thread)) + unat (lamports (b fiber))"
    and b': "b' = set_data fiber (closed_data (acc_data (b fiber))) (set_lamports fiber 0 (set_lamports thread s b))"
    using assms(1) by (auto simp: sweep_fiber_lamports_def res_simps checked_add_Some)
  have "total A (set_lamports thread s b) + unat (lamports (b thread)) = total A b + unat s"
    using A by (intro total_set_lamports)
  moreover have "total A (set_lamports fiber 0 (set_lamports thread s b))
      + unat (lamports (set_lamports thread s b fiber)) = total A (set_lamports thread s b) + unat (0 :: u64)"
    using A by (intro total_set_lamports)
  ultimately show ?thesis
    using s assms(2) by (simp add: b')
qed

section \<open>Initialisation and creation\<close>

text \<open>Every successful creation stores a fiber with exactly the arguments.\<close>

definition stores :: "fiber_env \<Rightarrow> Fiber \<Rightarrow> pubkey \<Rightarrow> CompiledInstructionV0 \<Rightarrow> u64 \<Rightarrow> pubkey list \<Rightarrow> bool" where
  "stores env f t c fee lts \<longleftrightarrow> fiber_thread f = t \<and>
     fiber_compiled_instruction f = to_vec_compiled env c \<and>
     fiber_priority_fee f = fee \<and> fiber_lookup_tables f = lts"

lemma initialize_fiber_Inr:
  "initialize_fiber env fiber t i ix fee lts b = Inr b' \<longleftrightarrow>
     length lts \<le> MAX_LOOKUP_TABLES_PER_FIBER \<and> fiber_pubkey env t i = fiber \<and>
     minimum_balance env FIBER_SPACE \<le> lamports (b fiber) \<and>
     (\<exists>b1. system_allocate env fiber FIBER_SPACE b = Inr b1 \<and>
       (\<exists>b2. system_assign env fiber FIBER_PROGRAM_ID b1 = Inr b2 \<and>
         (\<exists>c. compile_instruction (key_order env) ix = Inr c \<and>
           write_versioned env fiber
             \<lparr>fv_version = CURRENT_FIBER_VERSION, fv_thread = t,
              fv_compiled_instruction = to_vec_compiled env c, fv_last_executed = 0, fv_exec_count = 0,
              fv_priority_fee = fee, fv_lookup_tables = lts\<rparr> b2 = Inr b')))"
  by (simp add: initialize_fiber_def res_simps fiber_pubkey_def Let_def case_prod_unfold)

lemma initialize_fiber_fibers:
  assumes "borsh_laws env" and "system_laws env"
    and "initialize_fiber env fiber t i ix fee lts b = Inr b'"
  shows "\<exists>c f. compile_instruction (key_order env) ix = Inr c \<and> stores env f t c fee lts \<and>
    length lts \<le> MAX_LOOKUP_TABLES_PER_FIBER \<and> fiber = fiber_pubkey env t i \<and>
    fibers env b' = (fibers env b)(fiber \<mapsto> f) \<and> (\<forall>k. lamports (b' k) = lamports (b k))"
proof -
  let ?s = "\<lambda>c. \<lparr>fv_version = CURRENT_FIBER_VERSION, fv_thread = t,
      fv_compiled_instruction = to_vec_compiled env c, fv_last_executed = 0, fv_exec_count = 0,
      fv_priority_fee = fee, fv_lookup_tables = lts\<rparr>"
  from assms(3) obtain b1 b2 c where
    alloc: "system_allocate env fiber FIBER_SPACE b = Inr b1" and
    assign: "system_assign env fiber FIBER_PROGRAM_ID b1 = Inr b2" and
    comp: "compile_instruction (key_order env) ix = Inr c" and
    wr: "write_versioned env fiber (?s c) b2 = Inr b'" and
    pda: "fiber = fiber_pubkey env t i" and lts: "length lts \<le> MAX_LOOKUP_TABLES_PER_FIBER"
    unfolding initialize_fiber_Inr by blast
  have b1: "b1 = set_data fiber (replicate FIBER_SPACE 0) b"
    and b2: "b2 = b1(fiber := (b1 fiber)\<lparr>acc_owner := FIBER_PROGRAM_ID\<rparr>)"
    using assms(2) alloc assign by (auto simp: system_laws_def)
  have other: "fibers env b2 k = fibers env b k" if "k \<noteq> fiber" for k
    using that by (simp add: b2 b1 fibers_def)
  have "fibers env b' = (fibers env b2)(fiber \<mapsto> V1 (?s c))"
    by (rule fibers_write_versioned [OF assms(1) wr])
  then have "fibers env b' = (fibers env b)(fiber \<mapsto> V1 (?s c))"
    using other by (simp add: fun_eq_iff del: fibers_Some)
  moreover have "lamports (b' k) = lamports (b k)" for k
    using write_lamports(1) [OF wr, of k] by (simp add: b2 b1)
  moreover have "stores env (V1 (?s c)) t c fee lts"
    by (simp add: stores_def)
  ultimately show ?thesis
    using comp pda lts by blast
qed

lemma create_fiber_fibers:
  assumes laws: "borsh_laws env" "system_laws env"
    and ok: "create_fiber env signers t fiber i ix fee lts b = Inr b'"
  shows "\<exists>c f. compile_instruction (key_order env) ix = Inr c \<and> stores env f t c fee lts \<and>
    length lts \<le> MAX_LOOKUP_TABLES_PER_FIBER \<and>
    fibers env b' = (fibers env b)(fiber \<mapsto> f) \<and> (\<forall>k. lamports (b' k) = lamports (b k))"
proof (cases "acc_data (b fiber) = []")
  case True
  with ok have "initialize_fiber env fiber t i ix fee lts b = Inr b'"
    by (auto simp: create_fiber_def res_simps)
  from initialize_fiber_fibers [OF laws this] show ?thesis
    by blast
next
  case False
  with ok obtain c r where c: "compile_instruction (key_order env) ix = Inr c"
    and r: "try_deserialize_fiber env (acc_data (b fiber)) = Inr r"
    and lts: "length lts \<le> MAX_LOOKUP_TABLES_PER_FIBER"
    by (auto simp: create_fiber_def res_simps)
  show ?thesis
  proof (cases r)
    case (Legacy s)
    with ok False c r have "lts = []" and
      wr: "write_legacy env fiber (s\<lparr>fs_thread := t, fs_compiled_instruction := to_vec_compiled env c,
        fs_priority_fee := fee, fs_last_executed := 0, fs_exec_count := 0\<rparr>) b = Inr b'"
      by (auto simp: create_fiber_def res_simps)
    then have "stores env (Legacy (s\<lparr>fs_thread := t, fs_compiled_instruction := to_vec_compiled env c,
        fs_priority_fee := fee, fs_last_executed := 0, fs_exec_count := 0\<rparr>)) t c fee lts"
      by (simp add: stores_def)
    then show ?thesis
      using c lts fibers_write_legacy [OF laws(1) wr] write_lamports(2) [OF wr] by blast
  next
    case (V1 s)
    with ok False c r have
      wr: "write_versioned env fiber (s\<lparr>fv_version := CURRENT_FIBER_VERSION, fv_thread := t,
        fv_compiled_instruction := to_vec_compiled env c, fv_priority_fee := fee,
        fv_last_executed := 0, fv_exec_count := 0, fv_lookup_tables := lts\<rparr>) b = Inr b'"
      by (auto simp: create_fiber_def res_simps)
    have "stores env (V1 (s\<lparr>fv_version := CURRENT_FIBER_VERSION, fv_thread := t,
        fv_compiled_instruction := to_vec_compiled env c, fv_priority_fee := fee,
        fv_last_executed := 0, fv_exec_count := 0, fv_lookup_tables := lts\<rparr>)) t c fee lts"
      by (simp add: stores_def)
    then show ?thesis
      using c lts fibers_write_versioned [OF laws(1) wr] write_lamports(1) [OF wr] by blast
  qed
qed

text \<open>What \<open>get_instruction\<close> does to the stored accounts for a given executor.\<close>

definition substitute_payer :: "pubkey \<Rightarrow> Instruction \<Rightarrow> Instruction" where
  "substitute_payer executor ix =
     ix\<lparr>ix_accounts := map (\<lambda>acc. if am_pubkey acc = PAYER_PUBKEY
                                then acc\<lparr>am_pubkey := executor\<rparr> else acc) (ix_accounts ix)\<rparr>"

lemma get_instruction_stores:
  assumes "borsh_laws env" and "stores env f t c fee lts" and "decompile_instruction c = Inr ix"
  shows "get_instruction env f executor = Inr (substitute_payer executor ix)"
  using assms
  by (cases f) (auto simp: stores_def borsh_laws_def decompile_with_payer_def substitute_payer_def)

section \<open>Closing, swapping and updating\<close>

lemma close_fiber_Inr:
  assumes "close_fiber env signers t fiber b = Inr b'"
  obtains f where "t \<in> set signers" "fibers env b fiber = Some f" "fiber_thread f = t"
    "sweep_fiber_lamports fiber t b = Inr b'"
  using assms by (auto simp: close_fiber_def res_simps)

text \<open>
  The same shape with another instruction and fee and fresh statistics: what \<open>swap\<close>
  leaves at its target and (with the caller as thread) \<open>update\<close> at its fiber.
\<close>

fun with_content :: "bytes \<Rightarrow> u64 \<Rightarrow> pubkey list \<Rightarrow> Fiber \<Rightarrow> Fiber" where
  "with_content compiled fee lts (Legacy s) =
     Legacy (s\<lparr>fs_compiled_instruction := compiled, fs_priority_fee := fee,
               fs_last_executed := 0, fs_exec_count := 0\<rparr>)"
| "with_content compiled fee lts (V1 s) =
     V1 (s\<lparr>fv_version := CURRENT_FIBER_VERSION, fv_compiled_instruction := compiled,
           fv_priority_fee := fee, fv_lookup_tables := lts, fv_last_executed := 0, fv_exec_count := 0\<rparr>)"

lemma update_fiber_correct:
  assumes laws: "borsh_laws env" and ok: "update_fiber env signers t fiber i ix fee lts b = Inr b'"
    and present: "fibers env b fiber = Some f"
  shows "fiber = fiber_pubkey env t i \<and> t \<in> set signers \<and>
    (\<exists>compiled g. apply_instruction_update env ix = Inr compiled \<and>
       fibers env b' = (fibers env b)(fiber \<mapsto> g) \<and>
       is_legacy g = is_legacy f \<and> fiber_thread g = t \<and>
       fiber_compiled_instruction g = compiled \<and>
       fiber_priority_fee g = (case fee of Some p \<Rightarrow> p | None \<Rightarrow> fiber_priority_fee f) \<and>
       fiber_lookup_tables g = (case lts of Some l \<Rightarrow> l | None \<Rightarrow> fiber_lookup_tables f)) \<and>
    (\<forall>k. lamports (b' k) = lamports (b k))"
proof -
  have r: "try_deserialize_fiber env (acc_data (b fiber)) = Inr f" and ne: "acc_data (b fiber) \<noteq> []"
    using present try_deserialize_fiber_length by fastforce+
  show ?thesis
  proof (cases f)
    case (Legacy s)
    with ok r ne obtain compiled where c: "apply_instruction_update env ix = Inr compiled"
      and lts: "lts = None \<or> lts = Some []" and pre: "fiber = fiber_pubkey env t i" "t \<in> set signers"
      and wr: "write_legacy env fiber (s\<lparr>fs_thread := t, fs_compiled_instruction := compiled,
        fs_priority_fee := (case fee of Some fee \<Rightarrow> fee | None \<Rightarrow> fs_priority_fee s),
        fs_last_executed := 0, fs_exec_count := 0\<rparr>) b = Inr b'"
      by (auto simp: update_fiber_def res_simps split: option.splits)
    show ?thesis
      using c lts pre Legacy fibers_write_legacy [OF laws wr] write_lamports(2) [OF wr]
      by (auto split: option.splits)
  next
    case (V1 s)
    with ok r ne obtain compiled where c: "apply_instruction_update env ix = Inr compiled"
      and pre: "fiber = fiber_pubkey env t i" "t \<in> set signers"
      and wr: "write_versioned env fiber (s\<lparr>fv_version := CURRENT_FIBER_VERSION, fv_thread := t,
        fv_compiled_instruction := compiled,
        fv_priority_fee := (case fee of Some fee \<Rightarrow> fee | None \<Rightarrow> fv_priority_fee s),
        fv_lookup_tables := (case lts of Some lt \<Rightarrow> lt | None \<Rightarrow> fv_lookup_tables s),
        fv_last_executed := 0, fv_exec_count := 0\<rparr>) b = Inr b'"
      by (auto simp: update_fiber_def res_simps split: option.splits)
    show ?thesis
      using c pre V1 fibers_write_versioned [OF laws wr] write_lamports(1) [OF wr]
      by (auto split: option.splits)
  qed
qed

section \<open>Lamports\<close>

text \<open>No instruction of the fiber program creates or destroys lamports.\<close>

lemma total_same_lamports: "(\<And>k. lamports (b' k) = lamports (b k)) \<Longrightarrow> total A b' = total A b"
  by (simp add: total_def)

lemma create_fiber_total:
  assumes "borsh_laws env" and "system_laws env"
    and "create_fiber env signers t fiber i ix fee lts b = Inr b'"
  shows "total A b' = total A b"
  using create_fiber_fibers [OF assms] by (blast intro: total_same_lamports)

lemma update_fiber_lamports:
  assumes "borsh_laws env" and "system_laws env"
    and "update_fiber env signers t fiber i ix fee lts b = Inr b'"
  shows "lamports (b' k) = lamports (b k)"
proof (cases "fibers env b fiber")
  case (Some f)
  then show ?thesis using update_fiber_correct [OF assms(1,3)] by blast
next
  case None
  then have "acc_data (b fiber) = []"
    using assms(3) by (auto simp: update_fiber_def res_simps fibers_def split: if_splits sum.splits)
  with assms(3) obtain ix' fee' lts' where "initialize_fiber env fiber t i ix' fee' lts' b = Inr b'"
    by (auto simp: update_fiber_def res_simps)
  with initialize_fiber_fibers [OF assms(1,2)] show ?thesis by blast
qed

lemma close_fiber_total:
  assumes "close_fiber env signers t fiber b = Inr b'" and "fiber \<noteq> t"
    and "finite A" "fiber \<in> A" "t \<in> A"
  shows "total A b' = total A b"
  using assms by (auto elim!: close_fiber_Inr intro: sweep_total)

section \<open>The interface the thread program uses\<close>

text \<open>
  The thread program relies on closing a fiber in three ways: only fibers of the closing
  thread close, a closed fiber is gone and nothing else changed, and its lamports arrive
  at the thread. Closing a list of fibers one after the other is the loop of
  \<open>thread_close\<close>; what it achieves follows from these laws alone.
\<close>

fun close_each :: "(pubkey \<Rightarrow> 's \<Rightarrow> error + 's) \<Rightarrow> pubkey list \<Rightarrow> 's \<Rightarrow> error + 's" where
  "close_each close [] s = Inr s"
| "close_each close (k # ks) s = then_do (close k s) (close_each close ks)"

locale fiber_closing =
  fixes view :: "'s \<Rightarrow> pubkey \<Rightarrow> Fiber option"
    and balance :: "'s \<Rightarrow> pubkey \<Rightarrow> nat"
    and close :: "pubkey \<Rightarrow> pubkey \<Rightarrow> 's \<Rightarrow> error + 's"
  assumes close_owner: "close t k s = Inr s' \<Longrightarrow> \<exists>f. view s k = Some f \<and> fiber_thread f = t"
    and close_view: "close t k s = Inr s' \<Longrightarrow> view s' = (view s)(k := None)"
    and close_balance: "close t k s = Inr s' \<Longrightarrow> k \<noteq> t \<Longrightarrow> balance s' = (balance s)(k := 0, t := balance s t + balance s k)"
begin

lemma close_each_view:
  "close_each (close t) ks s = Inr s' \<Longrightarrow> view s' j = (if j \<in> set ks then None else view s j)"
  by (induction ks arbitrary: s) (auto simp: res_simps close_view)

lemma close_each_owner:
  "close_each (close t) ks s = Inr s' \<Longrightarrow>
     distinct ks \<and> (\<forall>k\<in>set ks. \<exists>f. view s k = Some f \<and> fiber_thread f = t)"
proof (induction ks arbitrary: s)
  case Nil
  then show ?case by simp
next
  case (Cons k ks)
  then obtain s1 where s1: "close t k s = Inr s1" and rest: "close_each (close t) ks s1 = Inr s'"
    by (auto simp: res_simps)
  have IH: "distinct ks \<and> (\<forall>k\<in>set ks. \<exists>f. view s1 k = Some f \<and> fiber_thread f = t)"
    by (rule Cons.IH [OF rest])
  have v: "view s1 = (view s)(k := None)" by (rule close_view [OF s1])
  with IH have k: "k \<notin> set ks" by force
  have "\<exists>f. view s j = Some f \<and> fiber_thread f = t" if "j \<in> set (k # ks)" for j
    using that IH k close_owner [OF s1] by (cases "j = k") (auto simp: v)
  with IH k show ?case by simp
qed

lemma close_each_other:
  "close_each (close t) ks s = Inr s' \<Longrightarrow> t \<notin> set ks \<Longrightarrow> j \<notin> set ks \<Longrightarrow> j \<noteq> t \<Longrightarrow> balance s' j = balance s j"
proof (induction ks arbitrary: s)
  case Nil
  then show ?case by simp
next
  case (Cons k ks)
  then obtain s1 where "close t k s = Inr s1" "close_each (close t) ks s1 = Inr s'"
    by (auto simp: res_simps)
  with Cons show ?case using close_balance by fastforce
qed

lemma close_each_balance:
  "close_each (close t) ks s = Inr s' \<Longrightarrow> t \<notin> set ks \<Longrightarrow>
     balance s' t = balance s t + sum_list (map (balance s) ks)"
proof (induction ks arbitrary: s)
  case Nil
  then show ?case by simp
next
  case (Cons k ks)
  then obtain s1 where s1: "close t k s = Inr s1" and rest: "close_each (close t) ks s1 = Inr s'"
    by (auto simp: res_simps)
  have b1: "balance s1 = (balance s)(k := 0, t := balance s t + balance s k)"
    using close_balance [OF s1] Cons.prems(2) by auto
  have "k \<notin> set ks"
    using close_each_owner [OF Cons.prems(1)] by simp
  then have "sum_list (map (balance s1) ks) = sum_list (map (balance s) ks)"
    using Cons.prems(2) by (intro arg_cong [of _ _ sum_list] map_cong) (auto simp: b1)
  moreover have "balance s1 t = balance s t + balance s k"
    by (simp add: b1)
  ultimately show ?case
    using Cons.IH [OF rest] Cons.prems(2) by simp
qed

end

text \<open>The fiber program's own \<open>close\<close> keeps these laws, for every environment that keeps Borsh's.\<close>

lemma fiber_closing_close_fiber:
  assumes "borsh_laws env"
  shows "fiber_closing (fibers env) (\<lambda>b k. unat (lamports (b k))) (\<lambda>t. close_fiber env signers t)"
proof
  fix t k s s'
  assume ok: "close_fiber env signers t k s = Inr s'"
  then show "\<exists>f. fibers env s k = Some f \<and> fiber_thread f = t"
    by (auto elim!: close_fiber_Inr)
  show "fibers env s' = (fibers env s)(k := None)"
    using ok sweep_fibers [OF assms] by (auto elim!: close_fiber_Inr)
  show "(\<lambda>k. unat (lamports (s' k))) = (\<lambda>k. unat (lamports (s k)))(k := 0, t := unat (lamports (s t)) + unat (lamports (s k)))"
    if "k \<noteq> t"
    using ok that by (auto elim!: close_fiber_Inr simp: fun_eq_iff sweep_lamports)
qed

end
