(* ===== verification/F64.thy ===== *)
theory F64
  imports Prelude Complex_Main "HOL-Library.Log_Nat"
begin

text \<open>
  The \<open>f64\<close> arithmetic the sources use (commission decay, latency averages). A finite
  double is the rational number it denotes; every operation computes exactly and rounds
  to the nearest number with a 53-bit significand, ties to even, as IEEE 754 prescribes.
  The exponent range is not bounded in the model: the sources' values are integers below
  \<open>2^64\<close>, quotients of such and products of such with a factor of at most one, far
  inside the normal range, and no operation of theirs divides by zero.
\<close>

section \<open>Rounding\<close>

text \<open>The exponent of the leading bit of a positive rational.\<close>

definition ilog2 :: "rat \<Rightarrow> int" where
  "ilog2 x =
     (let (a, b) = quotient_of x;
          k = int (floorlog 2 (nat a)) - int (floorlog 2 (nat b))
      in if 2 powi k \<le> x then k else k - 1)"

definition round_half_even :: "rat \<Rightarrow> int" where
  "round_half_even x =
     (let f = \<lfloor>x\<rfloor>; d = x - of_int f
      in if d < 1 / 2 then f else if 1 / 2 < d then f + 1 else if even f then f else f + 1)"

definition f64_round :: "rat \<Rightarrow> rat" where
  "f64_round x =
     (if x = 0 then 0
      else let u = 2 powi (ilog2 \<bar>x\<bar> - 52) in of_int (round_half_even (x / u)) * u)"

section \<open>Operations\<close>

definition f64_of_int :: "int \<Rightarrow> rat" where
  "f64_of_int n = f64_round (of_int n)"

definition f64_of_u64 :: "u64 \<Rightarrow> rat" where
  "f64_of_u64 w = f64_of_int (uint w)"

definition f64_add :: "rat \<Rightarrow> rat \<Rightarrow> rat" where "f64_add a b = f64_round (a + b)"

definition f64_sub :: "rat \<Rightarrow> rat \<Rightarrow> rat" where "f64_sub a b = f64_round (a - b)"

definition f64_mul :: "rat \<Rightarrow> rat \<Rightarrow> rat" where "f64_mul a b = f64_round (a * b)"

definition f64_div :: "rat \<Rightarrow> rat \<Rightarrow> rat" where "f64_div a b = f64_round (a / b)"

text \<open>\<open>as u64\<close> truncates and saturates.\<close>

definition f64_as_u64 :: "rat \<Rightarrow> u64" where
  "f64_as_u64 x = (if x \<le> 0 then 0 else if 2 ^ 64 \<le> \<lfloor>x\<rfloor> then - 1 else word_of_int \<lfloor>x\<rfloor>)"

section \<open>Rounding is monotone and exact on small integers\<close>

lemma powi_mult: "(2::rat) powi i * 2 powi j = 2 powi (i + j)"
  by (simp add: power_int_add)

lemma ilog2_bounds:
  assumes "0 < x"
  shows "2 powi ilog2 x \<le> x" and "x < 2 powi (ilog2 x + 1)"
proof -
  obtain a b where ab: "quotient_of x = (a, b)" by fastforce
  have b: "0 < b" and x: "x = of_int a / of_int b"
    using ab quotient_of_denom_pos quotient_of_div by auto
  with assms have a: "0 < a" by (simp add: zero_less_divide_iff)
  define p where "p = floorlog 2 (nat a)"
  define q where "q = floorlog 2 (nat b)"
  have pa: "2 ^ (p - 1) \<le> nat a" "nat a < 2 ^ p" and p1: "1 \<le> p"
    using a floorlog_bounds [of "nat a" 2] floorlog_eq_zero_iff [of 2 "nat a"] by (auto simp: p_def)
  have qb: "2 ^ (q - 1) \<le> nat b" "nat b < 2 ^ q" and q1: "1 \<le> q"
    using b floorlog_bounds [of "nat b" 2] floorlog_eq_zero_iff [of 2 "nat b"] by (auto simp: q_def)
  have A: "(2::rat) powi (int p - 1) \<le> of_int a" "of_int a < (2::rat) powi int p"
  proof -
    have "(2::rat) powi (int p - 1) = of_nat (2 ^ (p - 1))"
      using p1 by (simp add: power_int_def nat_diff_distrib')
    also have "\<dots> \<le> of_nat (nat a)" using pa(1) of_nat_mono by blast
    finally show "(2::rat) powi (int p - 1) \<le> of_int a" using a by simp
    have "of_nat (nat a) < (of_nat (2 ^ p) :: rat)" using pa(2) of_nat_less_iff by blast
    then show "of_int a < (2::rat) powi int p" using a by simp
  qed
  have B: "(2::rat) powi (int q - 1) \<le> of_int b" "of_int b < (2::rat) powi int q"
  proof -
    have "(2::rat) powi (int q - 1) = of_nat (2 ^ (q - 1))"
      using q1 by (simp add: power_int_def nat_diff_distrib')
    also have "\<dots> \<le> of_nat (nat b)" using qb(1) of_nat_mono by blast
    finally show "(2::rat) powi (int q - 1) \<le> of_int b" using b by simp
    have "of_nat (nat b) < (of_nat (2 ^ q) :: rat)" using qb(2) of_nat_less_iff by blast
    then show "of_int b < (2::rat) powi int q" using b by simp
  qed
  have lo: "(2::rat) powi (int p - int q - 1) < x"
  proof -
    have "(2::rat) powi (int p - int q - 1) * of_int b < 2 powi (int p - int q - 1) * 2 powi int q"
      using B(2) by (intro mult_strict_left_mono) simp_all
    also have "\<dots> = 2 powi (int p - 1)"
      unfolding powi_mult by (rule arg_cong [of _ _ "power_int 2"]) simp
    also have "\<dots> \<le> of_int a" by (rule A(1))
    finally show ?thesis using b by (simp add: x field_simps)
  qed
  have hi: "x < 2 powi (int p - int q + 1)"
  proof -
    have "of_int a < (2::rat) powi int p" by (rule A(2))
    also have "\<dots> = 2 powi (int p - int q + 1) * 2 powi (int q - 1)"
      unfolding powi_mult by (rule arg_cong [of _ _ "power_int 2"]) simp
    also have "\<dots> \<le> 2 powi (int p - int q + 1) * of_int b"
      using B(1) by (intro mult_left_mono) simp_all
    finally show ?thesis using b by (simp add: x field_simps)
  qed
  have e: "ilog2 x = (if 2 powi (int p - int q) \<le> x then int p - int q else int p - int q - 1)"
    by (simp add: ilog2_def ab p_def q_def)
  show "2 powi ilog2 x \<le> x" using lo by (simp add: e)
  show "x < 2 powi (ilog2 x + 1)" using hi by (simp add: e)
qed

lemma powi_le_iff: "(2::rat) powi i \<le> 2 powi j \<longleftrightarrow> i \<le> j"
proof -
  have "(2::rat) powi i \<le> 2 powi j" if "i \<le> j" for i j
    using that by (intro power_int_increasing) simp_all
  moreover have "(2::rat) powi i < 2 powi j" if "i < j" for i j
    using that by (intro power_int_strict_increasing) simp_all
  ultimately show ?thesis by (meson leD not_le_imp_less)
qed

lemma ilog2_mono: "0 < x \<Longrightarrow> x \<le> y \<Longrightarrow> ilog2 x \<le> ilog2 y"
proof -
  assume x: "0 < x" "x \<le> y"
  have "(2::rat) powi ilog2 x < 2 powi (ilog2 y + 1)"
    using ilog2_bounds(1) [OF x(1)] ilog2_bounds(2) [of y] x by simp
  then have "\<not> ilog2 y + 1 \<le> ilog2 x"
    using powi_le_iff [of "ilog2 y + 1" "ilog2 x"] by simp
  then show ?thesis by simp
qed

lemma round_half_even_of_int [simp]: "round_half_even (of_int n) = n"
  by (simp add: round_half_even_def)

lemma round_half_even_mono: "x \<le> y \<Longrightarrow> round_half_even x \<le> round_half_even y"
proof -
  assume xy: "x \<le> y"
  then have fl: "\<lfloor>x\<rfloor> \<le> \<lfloor>y\<rfloor>" by (rule floor_mono)
  have r: "\<lfloor>z\<rfloor> \<le> round_half_even z \<and> round_half_even z \<le> \<lfloor>z\<rfloor> + 1" for z
    by (simp add: round_half_even_def Let_def)
  show ?thesis
  proof (cases "\<lfloor>x\<rfloor> = \<lfloor>y\<rfloor>")
    case True
    then show ?thesis using xy by (auto simp: round_half_even_def Let_def)
  next
    case False
    with fl have "\<lfloor>x\<rfloor> + 1 \<le> \<lfloor>y\<rfloor>" by simp
    then show ?thesis using r [of x] r [of y] by linarith
  qed
qed

lemma round_half_even_between:
  "of_int m \<le> x \<Longrightarrow> m \<le> round_half_even x" "x \<le> of_int n \<Longrightarrow> round_half_even x \<le> n"
  using round_half_even_mono [of "of_int m" x] round_half_even_mono [of x "of_int n"] by simp_all

lemma f64_round_0 [simp]: "f64_round 0 = 0"
  by (simp add: f64_round_def)

text \<open>The rounded value stays in its binade.\<close>

lemma f64_round_binade:
  assumes "0 < x"
  shows "2 powi ilog2 x \<le> f64_round x" and "f64_round x \<le> 2 powi (ilog2 x + 1)"
proof -
  define u where "u = (2::rat) powi (ilog2 x - 52)"
  have u: "0 < u" by (simp add: u_def)
  have c: "of_int (2 ^ 52) = (2::rat) powi 52" "of_int (2 ^ 53) = (2::rat) powi 53"
    by simp_all
  have s: "of_int (2 ^ 52) * u = 2 powi ilog2 x" "of_int (2 ^ 53) * u = 2 powi (ilog2 x + 1)"
    unfolding c u_def powi_mult by (rule arg_cong [of _ _ "power_int 2"], simp)+
  have "of_int (2 ^ 52) \<le> x / u" "x / u \<le> of_int (2 ^ 53)"
    using ilog2_bounds [OF assms] u s by (simp_all add: pos_le_divide_eq pos_divide_le_eq del: of_int_power of_int_numeral)
  then have "2 ^ 52 \<le> round_half_even (x / u)" and "round_half_even (x / u) \<le> 2 ^ 53"
    by (blast intro: round_half_even_between)+
  then have "of_int (2 ^ 52) * u \<le> of_int (round_half_even (x / u)) * u"
    "of_int (round_half_even (x / u)) * u \<le> of_int (2 ^ 53) * u"
    using u by (simp_all only: mult_le_cancel_right_pos of_int_le_iff)
  moreover have "f64_round x = of_int (round_half_even (x / u)) * u"
    using assms by (simp add: f64_round_def u_def Let_def)
  ultimately show "2 powi ilog2 x \<le> f64_round x" and "f64_round x \<le> 2 powi (ilog2 x + 1)"
    unfolding s by (simp_all only:)
qed

lemma f64_round_nonneg: "0 \<le> x \<Longrightarrow> 0 \<le> f64_round x"
proof (cases "x = 0")
  case False
  assume "0 \<le> x"
  with False have "0 < x" by simp
  moreover have "(0::rat) < 2 powi ilog2 x" by simp
  ultimately show ?thesis using f64_round_binade(1) [of x] by linarith
qed simp

lemma f64_round_mono:
  assumes "0 \<le> x" and "x \<le> y"
  shows "f64_round x \<le> f64_round y"
proof (cases "x = 0")
  case True
  with assms show ?thesis by (simp add: f64_round_nonneg)
next
  case False
  with assms have x: "0 < x" and y: "0 < y" by simp_all
  have le: "ilog2 x \<le> ilog2 y" using x assms(2) by (rule ilog2_mono)
  show ?thesis
  proof (cases "ilog2 x = ilog2 y")
    case True
    define u where "u = (2::rat) powi (ilog2 x - 52)"
    have "x / u \<le> y / u" using assms(2) by (simp add: u_def divide_right_mono)
    then have "round_half_even (x / u) \<le> round_half_even (y / u)" by (rule round_half_even_mono)
    then have "of_int (round_half_even (x / u)) * u \<le> of_int (round_half_even (y / u)) * u"
      by (simp add: u_def)
    then show ?thesis using x y True by (simp add: f64_round_def u_def Let_def)
  next
    case False
    with le have "(2::rat) powi (ilog2 x + 1) \<le> 2 powi ilog2 y"
      by (simp add: powi_le_iff)
    with f64_round_binade [OF x] f64_round_binade [OF y] show ?thesis by linarith
  qed
qed

lemma f64_round_int:
  assumes "0 \<le> n" and "n \<le> 2 ^ 53"
  shows "f64_round (of_int n) = of_int n"
proof (cases "n = 0")
  case False
  with assms have n: "0 < (of_int n :: rat)" by simp
  define u where "u = (2::rat) powi (ilog2 (of_int n) - 52)"
  have "\<exists>m. of_int n / u = of_int m"
  proof (cases "n = 2 ^ 53")
    case True
    have "ilog2 (of_int n) = 53"
    proof -
      have "(2::rat) powi ilog2 (of_int n) \<le> 2 powi 53" "(2::rat) powi 53 < 2 powi (ilog2 (of_int n) + 1)"
        using ilog2_bounds [OF n] by (simp_all add: True)
      then show ?thesis
        using powi_le_iff [of "ilog2 (of_int n)" 53] powi_le_iff [of "ilog2 (of_int n) + 1" 53] by linarith
    qed
    then have "of_int n / u = of_int (2 ^ 52)" by (simp add: u_def True)
    then show ?thesis by blast
  next
    case False
    with assms have "(of_int n :: rat) < of_int (2 ^ 53)" by (simp only: of_int_less_iff)
    then have "(2::rat) powi ilog2 (of_int n) < 2 powi 53"
      using ilog2_bounds(1) [OF n] by simp
    then have "ilog2 (of_int n) < 53" using powi_le_iff [of 53 "ilog2 (of_int n)"] by linarith
    then have "1 / u = of_int (2 ^ nat (52 - ilog2 (of_int n)))"
      by (simp add: u_def power_int_def divide_simps power_inverse)
    then have "of_int n / u = of_int (n * 2 ^ nat (52 - ilog2 (of_int n)))"
      by (metis divide_inverse inverse_eq_divide mult.commute mult_1 of_int_mult)
    then show ?thesis by blast
  qed
  then obtain m where m: "of_int n / u = of_int m" by blast
  have "u \<noteq> 0" by (simp add: u_def)
  then have "of_int n = of_int m * u" using m by (simp add: field_simps)
  then show ?thesis using n m by (simp add: f64_round_def u_def Let_def)
qed simp

lemma f64_round_1 [simp]: "f64_round 1 = 1"
  using f64_round_int [of 1] by simp

lemma f64_round_le_1: "0 \<le> x \<Longrightarrow> x \<le> 1 \<Longrightarrow> f64_round x \<le> 1"
  using f64_round_mono [of x 1] by simp

lemma unat_word_of_int: "0 \<le> n \<Longrightarrow> n < 2 ^ 64 \<Longrightarrow> unat (word_of_int n :: u64) = nat n"
  by (simp add: unat_eq_nat_uint uint_word_of_int)

lemma f64_as_u64_mono: "x \<le> y \<Longrightarrow> unat (f64_as_u64 x) \<le> unat (f64_as_u64 y)"
proof -
  assume xy: "x \<le> y"
  have top: "unat (w :: u64) \<le> unat (- 1 :: u64)" for w
    by (simp add: word_le_nat_alt [symmetric])
  have fl: "\<lfloor>x\<rfloor> \<le> \<lfloor>y\<rfloor>" using xy by (rule floor_mono)
  show ?thesis
  proof (cases "x \<le> 0 \<or> 2 ^ 64 \<le> \<lfloor>y\<rfloor>")
    case True
    then show ?thesis using xy top by (auto simp: f64_as_u64_def)
  next
    case False
    then have "0 \<le> \<lfloor>x\<rfloor>" "\<lfloor>x\<rfloor> < 2 ^ 64" "0 \<le> \<lfloor>y\<rfloor>" "\<lfloor>y\<rfloor> < 2 ^ 64" "\<not> y \<le> 0"
      using fl xy by linarith+
    with False fl show ?thesis by (simp add: f64_as_u64_def unat_word_of_int nat_mono)
  qed
qed

lemma f64_as_u64_of_int: "0 \<le> n \<Longrightarrow> n < 2 ^ 64 \<Longrightarrow> unat (f64_as_u64 (of_int n)) = nat n"
  by (simp add: f64_as_u64_def unat_word_of_int)

end
