(* ===== verification/Thread_Config.thy ===== *)
theory Thread_Config
  imports Solana F64
begin

text \<open>
  \<open>programs/thread/src/state/config.rs\<close> with the two instructions that write the global
  configuration (\<open>instructions/config_init.rs\<close>, \<open>instructions/config_update.rs\<close>):
  the commission an executor earns, how it decays with the delay of an execution, how it
  is split, and the invariant the updates keep.

  Signed and unsigned arithmetic that can overflow is checked and panics; the commission
  factor is an \<open>f64\<close> (theory \<open>F64\<close>).
\<close>

record PaymentDetails =
  fee_payer_reimbursement :: u64
  executor_commission :: u64
  core_team_fee :: u64

record ThreadConfig =
  cfg_version :: u64
  cfg_bump :: u8
  cfg_admin :: pubkey
  cfg_paused :: bool
  commission_fee :: u64
  executor_fee_bps :: u64
  core_team_bps :: u64
  grace_period_seconds :: i64
  fee_decay_seconds :: i64

section \<open>Commission\<close>

definition calculate_commission_multiplier :: "ThreadConfig \<Rightarrow> i64 \<Rightarrow> error + rat" where
  "calculate_commission_multiplier cfg time_since_ready =
     (if time_since_ready \<le> grace_period_seconds cfg then Inr 1
      else then_do (ok_or (i64_checked (grace_period_seconds cfg + fee_decay_seconds cfg)) Panic) (\<lambda>end_time.
        if time_since_ready \<le> end_time then
          then_do (ok_or (i64_checked (time_since_ready - grace_period_seconds cfg)) Panic) (\<lambda>into.
            let time_into_decay = f64_of_int into;
                decay_progress = f64_div time_into_decay (f64_of_int (fee_decay_seconds cfg))
            in Inr (f64_sub 1 decay_progress))
        else Inr 0))"

definition calculate_effective_commission :: "ThreadConfig \<Rightarrow> i64 \<Rightarrow> error + u64" where
  "calculate_effective_commission cfg time_since_ready =
     then_do (calculate_commission_multiplier cfg time_since_ready) (\<lambda>multiplier.
       Inr (f64_as_u64 (f64_mul (f64_of_u64 (commission_fee cfg)) multiplier)))"

definition calculate_executor_fee :: "ThreadConfig \<Rightarrow> u64 \<Rightarrow> error + u64" where
  "calculate_executor_fee cfg effective_commission =
     then_do (ok_or (checked_mul effective_commission (executor_fee_bps cfg)) Panic) (\<lambda>p. Inr (p div 10000))"

definition calculate_core_team_fee :: "ThreadConfig \<Rightarrow> u64 \<Rightarrow> error + u64" where
  "calculate_core_team_fee cfg effective_commission =
     then_do (ok_or (checked_mul effective_commission (core_team_bps cfg)) Panic) (\<lambda>p. Inr (p div 10000))"

section \<open>Payments\<close>

definition should_pay :: "i64 \<Rightarrow> bool" where
  "should_pay balance_change \<longleftrightarrow> balance_change \<le> 0"

definition calculate_reimbursement :: "i64 \<Rightarrow> u64" where
  "calculate_reimbursement balance_change =
     (if balance_change < 0 then word_of_int (- balance_change)
      else if balance_change > 0 then 0 else 5000)"

definition calculate_payments :: "ThreadConfig \<Rightarrow> i64 \<Rightarrow> i64 \<Rightarrow> bool \<Rightarrow> error + PaymentDetails" where
  "calculate_payments cfg time_since_ready balance_change forgo_commission =
     then_do (calculate_effective_commission cfg time_since_ready) (\<lambda>effective_commission.
     then_do (if should_pay balance_change then
                then_do (if \<not> forgo_commission then calculate_executor_fee cfg effective_commission else Inr 0)
                  (\<lambda>commission. Inr (calculate_reimbursement balance_change, commission))
              else Inr (0, 0)) (\<lambda>(reimbursement, commission).
     then_do (calculate_core_team_fee cfg effective_commission) (\<lambda>team.
       Inr \<lparr>fee_payer_reimbursement = reimbursement, executor_commission = commission,
            core_team_fee = team\<rparr>)))"

section \<open>Writing the configuration\<close>

text \<open>The fields \<open>config_init\<close> sets in the account Anchor has just created at its derived address.\<close>

definition config_init :: "pubkey \<Rightarrow> u8 \<Rightarrow> ThreadConfig" where
  "config_init admin bump =
     \<lparr>cfg_version = 1, cfg_bump = bump, cfg_admin = admin, cfg_paused = False,
      commission_fee = 1000, executor_fee_bps = 9000, core_team_bps = 1000,
      grace_period_seconds = 5, fee_decay_seconds = 295\<rparr>"

record ConfigUpdateParams =
  up_admin :: "pubkey option"
  up_paused :: "bool option"
  up_commission_fee :: "u64 option"
  up_executor_fee_bps :: "u64 option"
  up_core_team_bps :: "u64 option"
  up_grace_period_seconds :: "i64 option"
  up_fee_decay_seconds :: "i64 option"

text \<open>
  \<open>admin\<close> is the address in the \<open>admin\<close> slot; it must have signed and be the stored
  admin. The handler works on the in-memory copy, which is written back when it returns.
\<close>

definition config_update :: "pubkey list \<Rightarrow> pubkey \<Rightarrow> ConfigUpdateParams \<Rightarrow> ThreadConfig \<Rightarrow> error + ThreadConfig" where
  "config_update signers admin params c0 =
     then_do (require (admin \<in> set signers) AccountNotSigner) (\<lambda>_.
     then_do (require (admin = cfg_admin c0) (ThreadErr InvalidAuthority)) (\<lambda>_.
     let c1 = (case up_admin params of Some new_admin \<Rightarrow> c0\<lparr>cfg_admin := new_admin\<rparr> | None \<Rightarrow> c0);
         c2 = (case up_paused params of Some p \<Rightarrow> c1\<lparr>cfg_paused := p\<rparr> | None \<Rightarrow> c1);
         c3 = (case up_commission_fee params of Some fee \<Rightarrow> c2\<lparr>commission_fee := fee\<rparr> | None \<Rightarrow> c2) in
     then_do (case up_executor_fee_bps params of
                Some bps \<Rightarrow> then_do (require (bps \<le> 10000) (ThreadErr InvalidFeePercentage)) (\<lambda>_.
                              Inr (c3\<lparr>executor_fee_bps := bps\<rparr>))
              | None \<Rightarrow> Inr c3) (\<lambda>c4.
     then_do (case up_core_team_bps params of
                Some bps \<Rightarrow> then_do (require (bps \<le> 10000) (ThreadErr InvalidFeePercentage)) (\<lambda>_.
                              Inr (c4\<lparr>core_team_bps := bps\<rparr>))
              | None \<Rightarrow> Inr c4) (\<lambda>c5.
     then_do (case up_grace_period_seconds params of
                Some g \<Rightarrow> then_do (require (0 \<le> g \<and> g \<le> 60) (ThreadErr InvalidFeePercentage)) (\<lambda>_.
                              Inr (c5\<lparr>grace_period_seconds := g\<rparr>))
              | None \<Rightarrow> Inr c5) (\<lambda>c6.
     then_do (case up_fee_decay_seconds params of
                Some d \<Rightarrow> then_do (require (0 \<le> d \<and> d \<le> 600) (ThreadErr InvalidFeePercentage)) (\<lambda>_.
                              Inr (c6\<lparr>fee_decay_seconds := d\<rparr>))
              | None \<Rightarrow> Inr c6) (\<lambda>c7.
     then_do (ok_or (checked_add (executor_fee_bps c7) (core_team_bps c7)) Panic) (\<lambda>total_fees.
     then_do (require (total_fees = 10000) (ThreadErr InvalidFeePercentage)) (\<lambda>_.
       Inr c7))))))))"

section \<open>The invariant of the configuration\<close>

definition config_inv :: "ThreadConfig \<Rightarrow> bool" where
  "config_inv c \<longleftrightarrow> unat (executor_fee_bps c) + unat (core_team_bps c) = 10000 \<and>
     0 \<le> grace_period_seconds c \<and> grace_period_seconds c \<le> 60 \<and>
     0 \<le> fee_decay_seconds c \<and> fee_decay_seconds c \<le> 600"

lemma config_init_inv: "config_inv (config_init admin bump)"
  by (simp add: config_inv_def config_init_def)


text \<open>Every successful update keeps the invariant, and only the stored admin can make one.\<close>

lemma checked_field:
  "(case x of None \<Rightarrow> Inr c | Some v \<Rightarrow> then_do (require (P v) e) (\<lambda>_. Inr (f v))) = Inr c' \<longleftrightarrow>
     x = None \<and> c' = c \<or> (\<exists>v. x = Some v \<and> P v \<and> c' = f v)"
  by (auto simp: res_simps split: option.splits)

lemma config_update_inv:
  assumes inv: "config_inv c" and ok: "config_update signers admin params c = Inr c'"
  shows "config_inv c'"
proof -
  define c3 where "c3 = (let
      c1 = (case up_admin params of Some new_admin \<Rightarrow> c\<lparr>cfg_admin := new_admin\<rparr> | None \<Rightarrow> c);
      c2 = (case up_paused params of Some p \<Rightarrow> c1\<lparr>cfg_paused := p\<rparr> | None \<Rightarrow> c1)
    in case up_commission_fee params of Some fee \<Rightarrow> c2\<lparr>commission_fee := fee\<rparr> | None \<Rightarrow> c2)"
  have c3: "grace_period_seconds c3 = grace_period_seconds c" "fee_decay_seconds c3 = fee_decay_seconds c"
    by (simp_all add: c3_def Let_def split: option.splits)
  obtain c4 c5 c6 where
    "up_executor_fee_bps params = None \<and> c4 = c3 \<or> (\<exists>v. c4 = c3\<lparr>executor_fee_bps := v\<rparr>)"
    "up_core_team_bps params = None \<and> c5 = c4 \<or> (\<exists>v. c5 = c4\<lparr>core_team_bps := v\<rparr>)"
    "c6 = c5 \<or> (\<exists>v. (0 \<le> v \<and> v \<le> 60) \<and> c6 = c5\<lparr>grace_period_seconds := v\<rparr>)"
    "c' = c6 \<or> (\<exists>v. (0 \<le> v \<and> v \<le> 600) \<and> c' = c6\<lparr>fee_decay_seconds := v\<rparr>)"
    and tot: "unat (executor_fee_bps c') + unat (core_team_bps c') = 10000"
    using ok unfolding config_update_def c3_def [symmetric] Let_def then_do_eq_Inr require_eq_Inr
      checked_field ok_or_eq_Inr checked_add_Some c3_def [unfolded Let_def, symmetric]
    by auto
  then show ?thesis using inv c3 by (auto simp: config_inv_def)
qed

lemma config_update_authority:
  "config_update signers admin params c = Inr c' \<Longrightarrow> admin \<in> set signers \<and> admin = cfg_admin c"
  by (simp only: config_update_def then_do_eq_Inr require_eq_Inr) blast

definition config_started :: "ThreadConfig \<Rightarrow> bool" where
  "config_started c \<longleftrightarrow> (\<exists>admin bump. c = config_init admin bump)"

definition config_step :: "ThreadConfig \<Rightarrow> ThreadConfig \<Rightarrow> bool" where
  "config_step c c' \<longleftrightarrow> (\<exists>signers admin params. config_update signers admin params c = Inr c')"

interpretation config_life: invariant_system config_started config_step config_inv
  by unfold_locales (auto simp: config_started_def config_step_def config_init_inv intro: config_update_inv)

section \<open>The multiplier\<close>

text \<open>Under the invariant no operation of the multiplier overflows.\<close>

lemma multiplier_cases:
  assumes "config_inv c"
  shows "calculate_commission_multiplier c t =
    (if t \<le> grace_period_seconds c then Inr 1
     else if t \<le> grace_period_seconds c + fee_decay_seconds c
     then Inr (f64_round (1 - f64_round (of_int (t - grace_period_seconds c) / of_int (fee_decay_seconds c))))
     else Inr 0)"
proof (cases "grace_period_seconds c < t \<and> t \<le> grace_period_seconds c + fee_decay_seconds c")
  case True
  then have "f64_round (of_int (t - grace_period_seconds c)) = of_int (t - grace_period_seconds c)"
    using assms by (intro f64_round_int) (auto simp: config_inv_def)
  moreover have "f64_round (of_int (fee_decay_seconds c)) = of_int (fee_decay_seconds c)"
    using assms by (intro f64_round_int) (auto simp: config_inv_def)
  ultimately have "f64_of_int (t - grace_period_seconds c) = of_int (t - grace_period_seconds c)"
    and "f64_of_int (fee_decay_seconds c) = of_int (fee_decay_seconds c)"
    by (simp_all only: f64_of_int_def)
  with True assms show ?thesis
    by (simp add: calculate_commission_multiplier_def config_inv_def arith_defs f64_sub_def f64_div_def)
next
  case False
  with assms show ?thesis
    by (auto simp: calculate_commission_multiplier_def config_inv_def arith_defs)
qed

definition decay :: "ThreadConfig \<Rightarrow> i64 \<Rightarrow> rat" where
  "decay c t = projr (calculate_commission_multiplier c t)"

lemma multiplier_decay:
  "config_inv c \<Longrightarrow> calculate_commission_multiplier c t = Inr (decay c t)"
  by (simp add: multiplier_cases decay_def)

lemma decay_progress_range:
  assumes "config_inv c" and "grace_period_seconds c < t" and "t \<le> grace_period_seconds c + fee_decay_seconds c"
  shows "0 \<le> f64_round (of_int (t - grace_period_seconds c) / of_int (fee_decay_seconds c))"
    and "f64_round (of_int (t - grace_period_seconds c) / of_int (fee_decay_seconds c)) \<le> 1"
proof -
  let ?x = "of_int (t - grace_period_seconds c) / of_int (fee_decay_seconds c) :: rat"
  have "0 \<le> ?x" and "?x \<le> 1"
    using assms by (simp_all add: divide_simps of_int_le_iff [symmetric] del: of_int_le_iff of_int_diff)
  then show "0 \<le> f64_round ?x" and "f64_round ?x \<le> 1"
    by (simp_all add: f64_round_nonneg f64_round_le_1)
qed

lemma decay_range:
  assumes "config_inv c"
  shows "0 \<le> decay c t" and "decay c t \<le> 1"
  using decay_progress_range [OF assms, of t]
  by (auto simp: decay_def multiplier_cases [OF assms] intro: f64_round_nonneg f64_round_le_1)

lemma decay_antimono:
  assumes inv: "config_inv c" and "t \<le> t'"
  shows "decay c t' \<le> decay c t"
proof (cases "grace_period_seconds c < t \<and> t' \<le> grace_period_seconds c + fee_decay_seconds c")
  case True
  let ?x = "\<lambda>t. f64_round (of_int (t - grace_period_seconds c) / of_int (fee_decay_seconds c))"
  have "of_int (t - grace_period_seconds c) / of_int (fee_decay_seconds c)
      \<le> (of_int (t' - grace_period_seconds c) / of_int (fee_decay_seconds c) :: rat)"
    using True assms by (intro divide_right_mono) (auto simp: config_inv_def)
  then have "?x t \<le> ?x t'"
    using True assms by (intro f64_round_mono) auto
  then have "f64_round (1 - ?x t') \<le> f64_round (1 - ?x t)"
    using decay_progress_range [OF inv, of t'] True assms(2) by (intro f64_round_mono) auto
  then show ?thesis using True assms(2) by (simp add: decay_def multiplier_cases [OF inv])
next
  case False
  then consider "t \<le> grace_period_seconds c" | "grace_period_seconds c + fee_decay_seconds c < t'"
    by linarith
  then show ?thesis
  proof cases
    case 1
    then have "decay c t = 1" by (simp add: decay_def multiplier_cases [OF inv])
    then show ?thesis using decay_range [OF inv] by simp
  next
    case 2
    then have "decay c t' = 0" using inv by (auto simp: decay_def multiplier_cases [OF inv] config_inv_def)
    then show ?thesis using decay_range [OF inv] by simp
  qed
qed

section \<open>The effective commission\<close>

definition commission :: "ThreadConfig \<Rightarrow> i64 \<Rightarrow> u64" where
  "commission c t = f64_as_u64 (f64_mul (f64_of_u64 (commission_fee c)) (decay c t))"

lemma effective_commission:
  "config_inv c \<Longrightarrow> calculate_effective_commission c t = Inr (commission c t)"
  by (simp add: calculate_effective_commission_def multiplier_decay commission_def)

lemma f64_of_u64_nonneg: "0 \<le> f64_of_u64 w"
  unfolding f64_of_u64_def f64_of_int_def by (rule f64_round_nonneg) (simp only: of_int_0_le_iff, simp)

lemma commission_antimono:
  assumes "config_inv c" and "t \<le> t'"
  shows "unat (commission c t') \<le> unat (commission c t)"
  unfolding commission_def f64_mul_def
  using decay_antimono [OF assms] decay_range [OF assms(1)] f64_of_u64_nonneg
  by (intro f64_as_u64_mono f64_round_mono mult_left_mono) simp_all

lemma f64_of_u64_exact: "unat w \<le> 2 ^ 53 \<Longrightarrow> f64_round (of_int (uint w)) = of_int (uint (w :: u64))"
proof (rule f64_round_int)
  assume "unat w \<le> 2 ^ 53"
  then have "int (unat w) \<le> int (2 ^ 53)" by (simp only: of_nat_le_iff)
  then show "uint w \<le> 2 ^ 53" by (simp add: of_nat_unat)
qed simp

lemma f64_as_u64_uint: "f64_as_u64 (of_int (uint w)) = w"
proof -
  have "unat (f64_as_u64 (of_int (uint w))) = nat (uint w)"
    by (rule f64_as_u64_of_int) (use uint_bounded [of w] in simp_all)
  then show ?thesis by (metis nat_uint_eq unsigned_word_eqI)
qed

lemma commission_in_grace:
  assumes "config_inv c" and "t \<le> grace_period_seconds c" and fee: "unat (commission_fee c) \<le> 2 ^ 53"
  shows "commission c t = commission_fee c"
proof -
  have "decay c t = 1" using assms by (simp add: decay_def multiplier_cases)
  then show ?thesis
    by (simp only: commission_def f64_mul_def f64_of_u64_def f64_of_int_def mult_1_right
        f64_of_u64_exact [OF fee] f64_as_u64_uint)
qed

lemma commission_le_fee:
  assumes "config_inv c" and "unat (commission_fee c) \<le> 2 ^ 53"
  shows "unat (commission c t) \<le> unat (commission_fee c)"
proof (cases "t \<le> grace_period_seconds c")
  case True
  then show ?thesis using commission_in_grace [OF assms(1)] assms(2) by simp
next
  case False
  then have "unat (commission c t) \<le> unat (commission c (grace_period_seconds c))"
    using assms(1) by (intro commission_antimono) simp_all
  then show ?thesis using commission_in_grace [OF assms(1) order.refl assms(2)] by simp
qed

lemma commission_after_decay:
  assumes "config_inv c" and "grace_period_seconds c + fee_decay_seconds c < t"
  shows "commission c t = 0"
proof -
  have "decay c t = 0"
    using assms by (auto simp: decay_def multiplier_cases config_inv_def)
  then show ?thesis by (simp add: commission_def f64_mul_def f64_as_u64_def)
qed

section \<open>Splitting the commission\<close>

lemma fee_split:
  assumes "calculate_executor_fee c e = Inr x" and "calculate_core_team_fee c e = Inr y"
  shows "unat x = unat e * unat (executor_fee_bps c) div 10000"
    and "unat y = unat e * unat (core_team_bps c) div 10000"
  using assms
  by (auto simp: calculate_executor_fee_def calculate_core_team_fee_def res_simps unat_div
      dest!: checked_mul_Some)


lemma div_split:
  assumes "p + q = (e::nat) * 10000"
  shows "p div 10000 + q div 10000 \<le> e" and "e \<le> p div 10000 + q div 10000 + 1"
  using assms by linarith+

lemma fee_split_total:
  assumes "config_inv c" and "calculate_executor_fee c e = Inr x" and "calculate_core_team_fee c e = Inr y"
  shows "unat x + unat y \<le> unat e" and "unat e \<le> unat x + unat y + 1"
proof -
  have "unat e * unat (executor_fee_bps c) + unat e * unat (core_team_bps c) = unat e * 10000"
    using assms(1) by (simp add: add_mult_distrib2 [symmetric] config_inv_def)
  from div_split [OF this] show "unat x + unat y \<le> unat e" and "unat e \<le> unat x + unat y + 1"
    using fee_split [OF assms(2,3)] by simp_all
qed

lemma fees_defined:
  assumes "config_inv c" and "unat e * 10000 < 2 ^ 64"
  shows "\<exists>x. calculate_executor_fee c e = Inr x" and "\<exists>y. calculate_core_team_fee c e = Inr y"
proof -
  have "unat e * unat (executor_fee_bps c) \<le> unat e * 10000" "unat e * unat (core_team_bps c) \<le> unat e * 10000"
    using assms(1) by (simp_all add: config_inv_def)
  with assms(2) have "unat e * unat (executor_fee_bps c) < 2 ^ 64" "unat e * unat (core_team_bps c) < 2 ^ 64"
    by linarith+
  then show "\<exists>x. calculate_executor_fee c e = Inr x" and "\<exists>y. calculate_core_team_fee c e = Inr y"
    by (simp_all add: calculate_executor_fee_def calculate_core_team_fee_def checked_mul_exact)
qed

end
