(* ===== verification/Cron_Fields.thy ===== *)
theory Cron_Fields
  imports Prelude
begin

text \<open>
  \<open>crates/cron/src/time_unit\<close>, \<open>specifier.rs\<close>, \<open>ordinal.rs\<close> and the
  \<open>FromField\<close> implementation of \<open>parsing.rs\<close>: the seven fields of a cron expression
  and the sets of ordinals their specifiers denote.

  A type that implements the trait \<open>TimeUnitField\<close> is the record of the trait's
  required constants; the trait's provided methods take that record. A \<open>BTreeSet\<close> of
  ordinals is the strictly increasing list of its elements, the order in which the
  sources iterate it. Error messages are values that carry the arguments of the message.
\<close>

type_synonym Ordinal = nat

type_synonym OrdinalSet = "nat list"

datatype Specifier = All | Point Ordinal | Range Ordinal Ordinal | NamedRange string string

datatype RootSpecifier = RootSpecifier Specifier | Period Specifier nat | NamedPoint string

datatype cron_error =
    NamesUnsupported string string
  | BelowMinimum string Ordinal Ordinal
  | AboveMaximum string Ordinal Ordinal
  | InvalidRange string Ordinal Ordinal
  | InvalidNamedRange string string string
  | ZeroStep
  | InvalidDayName string
  | InvalidMonthName string

section \<open>The trait and its implementations\<close>

record time_unit =
  unit_name :: string
  inclusive_min :: Ordinal
  inclusive_max :: Ordinal
  ordinal_from_name :: "string \<Rightarrow> cron_error + Ordinal"

type_synonym unit_field = "OrdinalSet option"

definition supported_ordinals :: "time_unit \<Rightarrow> OrdinalSet" where
  "supported_ordinals u = [inclusive_min u ..< inclusive_max u + 1]"

definition ordinals :: "time_unit \<Rightarrow> unit_field \<Rightarrow> OrdinalSet" where
  "ordinals u f = (case f of Some ordinal_set \<Rightarrow> ordinal_set | None \<Rightarrow> supported_ordinals u)"

definition unit_includes :: "time_unit \<Rightarrow> unit_field \<Rightarrow> Ordinal \<Rightarrow> bool" where
  "unit_includes u f ordinal \<longleftrightarrow> ordinal \<in> set (ordinals u f)"

definition unit_count :: "time_unit \<Rightarrow> unit_field \<Rightarrow> nat" where
  "unit_count u f = length (ordinals u f)"

definition unit_is_all :: "time_unit \<Rightarrow> unit_field \<Rightarrow> bool" where
  "unit_is_all u f \<longleftrightarrow> length (ordinals u f) = inclusive_max u - inclusive_min u + 1"

definition no_names :: "string \<Rightarrow> string \<Rightarrow> cron_error + Ordinal" where
  "no_names unit nm = Inl (NamesUnsupported unit nm)"

text \<open>\<open>to_lowercase\<close> on the ASCII letters the grammar admits in a name.\<close>

definition lower_char :: "char \<Rightarrow> char" where
  "lower_char c = (if 65 \<le> (of_char c :: nat) \<and> (of_char c :: nat) \<le> 90
                   then char_of ((of_char c :: nat) + 32) else c)"

definition to_lowercase :: "string \<Rightarrow> string" where
  "to_lowercase = map lower_char"

definition day_from_name :: "string \<Rightarrow> cron_error + Ordinal" where
  "day_from_name nm =
     (let n = to_lowercase nm in
      if n \<in> {''sun'', ''sunday''} then Inr 1
      else if n \<in> {''mon'', ''monday''} then Inr 2
      else if n \<in> {''tue'', ''tues'', ''tuesday''} then Inr 3
      else if n \<in> {''wed'', ''wednesday''} then Inr 4
      else if n \<in> {''thu'', ''thurs'', ''thursday''} then Inr 5
      else if n \<in> {''fri'', ''friday''} then Inr 6
      else if n \<in> {''sat'', ''saturday''} then Inr 7
      else Inl (InvalidDayName nm))"

definition month_from_name :: "string \<Rightarrow> cron_error + Ordinal" where
  "month_from_name nm =
     (let n = to_lowercase nm in
      if n \<in> {''jan'', ''january''} then Inr 1
      else if n \<in> {''feb'', ''february''} then Inr 2
      else if n \<in> {''mar'', ''march''} then Inr 3
      else if n \<in> {''apr'', ''april''} then Inr 4
      else if n \<in> {''may''} then Inr 5
      else if n \<in> {''jun'', ''june''} then Inr 6
      else if n \<in> {''jul'', ''july''} then Inr 7
      else if n \<in> {''aug'', ''august''} then Inr 8
      else if n \<in> {''sep'', ''september''} then Inr 9
      else if n \<in> {''oct'', ''october''} then Inr 10
      else if n \<in> {''nov'', ''november''} then Inr 11
      else if n \<in> {''dec'', ''december''} then Inr 12
      else Inl (InvalidMonthName nm))"

definition Seconds :: time_unit where
  "Seconds = \<lparr>unit_name = ''Seconds'', inclusive_min = 0, inclusive_max = 59,
     ordinal_from_name = no_names ''Seconds''\<rparr>"

definition Minutes :: time_unit where
  "Minutes = \<lparr>unit_name = ''Minutes'', inclusive_min = 0, inclusive_max = 59,
     ordinal_from_name = no_names ''Minutes''\<rparr>"

definition Hours :: time_unit where
  "Hours = \<lparr>unit_name = ''Hours'', inclusive_min = 0, inclusive_max = 23,
     ordinal_from_name = no_names ''Hours''\<rparr>"

definition DaysOfMonth :: time_unit where
  "DaysOfMonth = \<lparr>unit_name = ''Days of Month'', inclusive_min = 1, inclusive_max = 31,
     ordinal_from_name = no_names ''Days of Month''\<rparr>"

definition Months :: time_unit where
  "Months = \<lparr>unit_name = ''Months'', inclusive_min = 1, inclusive_max = 12,
     ordinal_from_name = month_from_name\<rparr>"

definition DaysOfWeek :: time_unit where
  "DaysOfWeek = \<lparr>unit_name = ''Days of Week'', inclusive_min = 1, inclusive_max = 7,
     ordinal_from_name = day_from_name\<rparr>"

definition Years :: time_unit where
  "Years = \<lparr>unit_name = ''Years'', inclusive_min = 1970, inclusive_max = 2100,
     ordinal_from_name = no_names ''Years''\<rparr>"

section \<open>From specifiers to ordinals\<close>

definition validate_ordinal :: "time_unit \<Rightarrow> Ordinal \<Rightarrow> cron_error + Ordinal" where
  "validate_ordinal u i =
     (if i < inclusive_min u then Inl (BelowMinimum (unit_name u) (inclusive_min u) i)
      else if i > inclusive_max u then Inl (AboveMaximum (unit_name u) (inclusive_max u) i)
      else Inr i)"

definition range_ordinals :: "time_unit \<Rightarrow> Ordinal \<Rightarrow> Ordinal \<Rightarrow> cron_error \<Rightarrow> cron_error + OrdinalSet" where
  "range_ordinals u start stop e =
     (case (validate_ordinal u start, validate_ordinal u stop) of
        (Inr s, Inr t) \<Rightarrow> if s \<le> t then Inr [s ..< t + 1] else Inl e
      | _ \<Rightarrow> Inl e)"

fun ordinals_from_specifier :: "time_unit \<Rightarrow> Specifier \<Rightarrow> cron_error + OrdinalSet" where
  "ordinals_from_specifier u All = Inr (supported_ordinals u)"
| "ordinals_from_specifier u (Point ordinal) = Inr [ordinal]"
| "ordinals_from_specifier u (Range start stop) =
     range_ordinals u start stop (InvalidRange (unit_name u) start stop)"
| "ordinals_from_specifier u (NamedRange start_name end_name) =
     then_do (ordinal_from_name u start_name) (\<lambda>start.
     then_do (ordinal_from_name u end_name) (\<lambda>stop.
       range_ordinals u start stop (InvalidNamedRange (unit_name u) start_name end_name)))"

text \<open>\<open>Iterator::step_by\<close>: the elements at the multiples of the step.\<close>

fun step_by :: "nat \<Rightarrow> 'a list \<Rightarrow> 'a list" where
  "step_by n [] = []"
| "step_by n (x # xs) = x # step_by n (drop (n - 1) xs)"

definition period_base :: "time_unit \<Rightarrow> Specifier \<Rightarrow> cron_error + OrdinalSet" where
  "period_base u start =
     (case start of
        Point p \<Rightarrow> then_do (validate_ordinal u p) (\<lambda>s. Inr [s ..< inclusive_max u + 1])
      | specifier \<Rightarrow> ordinals_from_specifier u specifier)"

fun ordinals_from_root_specifier :: "time_unit \<Rightarrow> RootSpecifier \<Rightarrow> cron_error + OrdinalSet" where
  "ordinals_from_root_specifier u (RootSpecifier specifier) = ordinals_from_specifier u specifier"
| "ordinals_from_root_specifier u (Period start step) =
     then_do (period_base u start) (\<lambda>base_set.
       if step = 0 then Inl ZeroStep else Inr (step_by step base_set))"
| "ordinals_from_root_specifier u (NamedPoint nm) =
     then_do (ordinal_from_name u nm) (\<lambda>i. Inr [i])"

text \<open>\<open>BTreeSet::insert\<close>, and the two nested loops of \<open>from_field\<close>.\<close>

fun btree_insert :: "nat \<Rightarrow> OrdinalSet \<Rightarrow> OrdinalSet" where
  "btree_insert x [] = [x]"
| "btree_insert x (y # ys) = (if x < y then x # y # ys else if x = y then y # ys else y # btree_insert x ys)"

fun insert_validated :: "time_unit \<Rightarrow> Ordinal list \<Rightarrow> OrdinalSet \<Rightarrow> cron_error + OrdinalSet" where
  "insert_validated u [] acc = Inr acc"
| "insert_validated u (x # xs) acc =
     then_do (validate_ordinal u x) (\<lambda>i. insert_validated u xs (btree_insert i acc))"

fun collect_specifiers :: "time_unit \<Rightarrow> RootSpecifier list \<Rightarrow> OrdinalSet \<Rightarrow> cron_error + OrdinalSet" where
  "collect_specifiers u [] acc = Inr acc"
| "collect_specifiers u (sp # sps) acc =
     then_do (ordinals_from_root_specifier u sp) (\<lambda>os.
     then_do (insert_validated u os acc) (\<lambda>acc'. collect_specifiers u sps acc'))"

definition from_field :: "time_unit \<Rightarrow> RootSpecifier list \<Rightarrow> cron_error + unit_field" where
  "from_field u specifiers =
     (if specifiers = [RootSpecifier All] then Inr None
      else then_do (collect_specifiers u specifiers []) (\<lambda>os. Inr (Some os)))"

section \<open>What a field denotes\<close>

text \<open>
  The meaning of a specifier as a set, written from the cron grammar: a period runs
  through the base interval from its first element in steps.
\<close>

fun base_interval :: "time_unit \<Rightarrow> Specifier \<Rightarrow> (nat \<times> nat) option" where
  "base_interval u All = Some (inclusive_min u, inclusive_max u)"
| "base_interval u (Point p) = Some (p, p)"
| "base_interval u (Range a b) = (if a \<le> b then Some (a, b) else None)"
| "base_interval u (NamedRange m n) =
     (case (ordinal_from_name u m, ordinal_from_name u n) of
        (Inr a, Inr b) \<Rightarrow> if a \<le> b then Some (a, b) else None | _ \<Rightarrow> None)"

fun denotes :: "time_unit \<Rightarrow> RootSpecifier \<Rightarrow> nat \<Rightarrow> bool" where
  "denotes u (RootSpecifier sp) x = (case base_interval u sp of Some (a, b) \<Rightarrow> a \<le> x \<and> x \<le> b | None \<Rightarrow> False)"
| "denotes u (Period (Point p) step) x = (p \<le> x \<and> x \<le> inclusive_max u \<and> step dvd x - p)"
| "denotes u (Period sp step) x =
     (case base_interval u sp of Some (a, b) \<Rightarrow> a \<le> x \<and> x \<le> b \<and> step dvd x - a | None \<Rightarrow> False)"
| "denotes u (NamedPoint nm) x = (ordinal_from_name u nm = Inr x)"

definition ordinal_set :: "time_unit \<Rightarrow> OrdinalSet \<Rightarrow> bool" where
  "ordinal_set u xs \<longleftrightarrow> sorted_wrt (<) xs \<and> (\<forall>x\<in>set xs. inclusive_min u \<le> x \<and> x \<le> inclusive_max u)"

declare upt_Suc [simp del]

lemma upt_single [simp]: "[x ..< Suc x] = [x]"
  by (simp add: upt_Suc)

lemma validate_ordinal_Inr [simp]:
  "validate_ordinal u i = Inr j \<longleftrightarrow> j = i \<and> inclusive_min u \<le> i \<and> i \<le> inclusive_max u"
  by (auto simp: validate_ordinal_def)

lemma range_ordinals_Inr:
  "range_ordinals u a b e = Inr os \<longleftrightarrow>
     inclusive_min u \<le> a \<and> a \<le> b \<and> b \<le> inclusive_max u \<and> os = [a ..< b + 1]"
  by (auto simp: range_ordinals_def validate_ordinal_def)

lemma set_btree_insert [simp]: "set (btree_insert x xs) = insert x (set xs)"
  by (induction xs) auto

lemma sorted_btree_insert: "sorted_wrt (<) xs \<Longrightarrow> sorted_wrt (<) (btree_insert x xs)"
  by (induction xs) auto

lemma set_step_by_upt:
  assumes "0 < n"
  shows "set (step_by n [a ..< b]) = {x. a \<le> x \<and> x < b \<and> n dvd x - a}"
proof (induction "b - a" arbitrary: a rule: less_induct)
  case less
  show ?case
  proof (cases "a < b")
    case True
    then have e: "[a ..< b] = a # [Suc a ..< b]" by (rule upt_conv_Cons)
    have d: "drop (n - 1) [Suc a ..< b] = [a + n ..< b]"
      using assms by simp
    have IH: "set (step_by n [a + n ..< b]) = {x. a + n \<le> x \<and> x < b \<and> n dvd x - (a + n)}"
      using less [of "a + n"] True assms by simp
    have "x = a \<or> a + n \<le> x \<and> n dvd x - (a + n) \<longleftrightarrow> a \<le> x \<and> n dvd x - a" for x
    proof
      assume "x = a \<or> a + n \<le> x \<and> n dvd x - (a + n)"
      then show "a \<le> x \<and> n dvd x - a"
        by (auto simp: le_iff_add)
    next
      assume *: "a \<le> x \<and> n dvd x - a"
      then obtain k where "x = a + n * k" by (metis dvdE le_add_diff_inverse)
      then show "x = a \<or> a + n \<le> x \<and> n dvd x - (a + n)"
        by (cases k) simp_all
    qed
    then show ?thesis unfolding e using d IH True by auto
  next
    case False
    then show ?thesis by auto
  qed
qed

lemma insert_validated_Inr:
  "insert_validated u xs acc = Inr acc' \<Longrightarrow> sorted_wrt (<) acc \<Longrightarrow>
     sorted_wrt (<) acc' \<and> set acc' = set acc \<union> set xs \<and>
     (\<forall>x\<in>set xs. inclusive_min u \<le> x \<and> x \<le> inclusive_max u)"
  by (induction xs arbitrary: acc) (auto simp: res_simps sorted_btree_insert)

text \<open>The contract of a time unit, and what it makes of every field.\<close>

locale time_unit_field =
  fixes u :: time_unit
  assumes bounds: "inclusive_min u \<le> inclusive_max u"
    and names: "ordinal_from_name u nm = Inr i \<Longrightarrow> inclusive_min u \<le> i \<and> i \<le> inclusive_max u"
begin

lemma specifier_interval:
  "ordinals_from_specifier u sp = Inr os \<Longrightarrow>
     \<exists>a b. base_interval u sp = Some (a, b) \<and> a \<le> b \<and> os = [a ..< b + 1]"
  using bounds
  by (cases sp) (auto simp: supported_ordinals_def res_simps range_ordinals_Inr)

lemma root_specifier_denotes:
  assumes "ordinals_from_root_specifier u sp = Inr os"
  shows "set os = Collect (denotes u sp)"
proof (cases sp)
  case (RootSpecifier s)
  with assms specifier_interval [of s os] show ?thesis by auto
next
  case (Period s n)
  with assms obtain base where base: "period_base u s = Inr base" and n: "0 < n" and os: "os = step_by n base"
    by (auto simp: res_simps split: if_splits)
  show ?thesis
  proof (cases s)
    case (Point p)
    with base have "base = [p ..< inclusive_max u + 1]"
      by (auto simp: period_base_def res_simps)
    then show ?thesis using Period Point os set_step_by_upt [OF n] by auto
  next
    case All
    with base specifier_interval [of s base] obtain a b where "base_interval u s = Some (a, b)" "base = [a ..< b + 1]"
      by (auto simp: period_base_def)
    then show ?thesis using Period All os set_step_by_upt [OF n] by auto
  next
    case (Range x y)
    with base specifier_interval [of s base] obtain a b where "base_interval u s = Some (a, b)" "base = [a ..< b + 1]"
      by (auto simp: period_base_def)
    then show ?thesis using Period Range os set_step_by_upt [OF n] by auto
  next
    case (NamedRange x y)
    with base specifier_interval [of s base] obtain a b where "base_interval u s = Some (a, b)" "base = [a ..< b + 1]"
      by (auto simp: period_base_def)
    then show ?thesis using Period NamedRange os set_step_by_upt [OF n] by auto
  qed
next
  case (NamedPoint nm)
  with assms show ?thesis by (auto simp: res_simps)
qed

lemma collect_specifiers_denotes:
  "collect_specifiers u sps acc = Inr os \<Longrightarrow> ordinal_set u acc \<Longrightarrow>
     ordinal_set u os \<and> set os = set acc \<union> {x. \<exists>sp\<in>set sps. denotes u sp x}"
proof (induction sps arbitrary: acc)
  case Nil
  then show ?case by simp
next
  case (Cons sp sps)
  then obtain xs acc' where xs: "ordinals_from_root_specifier u sp = Inr xs"
    and acc': "insert_validated u xs acc = Inr acc'" and rest: "collect_specifiers u sps acc' = Inr os"
    by (auto simp: res_simps)
  have "ordinal_set u acc'" "set acc' = set acc \<union> set xs"
    using insert_validated_Inr [OF acc'] Cons.prems(2) by (auto simp: ordinal_set_def)
  with Cons.IH [OF rest] root_specifier_denotes [OF xs] show ?case by auto
qed

lemma from_field_denotes:
  assumes "from_field u sps = Inr f"
  shows "ordinal_set u (ordinals u f) \<and> set (ordinals u f) = {x. \<exists>sp\<in>set sps. denotes u sp x}"
proof (cases "sps = [RootSpecifier All]")
  case True
  with assms have "f = None" by (simp add: from_field_def)
  with True show ?thesis
    by (auto simp: ordinals_def supported_ordinals_def ordinal_set_def sorted_wrt_upt)
next
  case False
  with assms obtain os where "collect_specifiers u sps [] = Inr os" "f = Some os"
    by (auto simp: from_field_def res_simps)
  with collect_specifiers_denotes [of sps "[]" os] show ?thesis
    by (simp add: ordinals_def ordinal_set_def)
qed

lemma all_ordinal_set: "ordinal_set u (ordinals u None)"
  by (auto simp: ordinals_def supported_ordinals_def ordinal_set_def sorted_wrt_upt)

lemma set_all: "set (ordinals u None) = {inclusive_min u .. inclusive_max u}"
  by (auto simp: ordinals_def supported_ordinals_def)

lemma single_ordinal_set:
  "inclusive_min u \<le> i \<Longrightarrow> i \<le> inclusive_max u \<Longrightarrow> ordinal_set u (ordinals u (Some [i]))"
  by (simp add: ordinals_def ordinal_set_def)

end

lemmas unit_defs = Seconds_def Minutes_def Hours_def DaysOfMonth_def Months_def DaysOfWeek_def Years_def

lemma unit_bounds [simp]:
  "inclusive_min Seconds = 0" "inclusive_max Seconds = 59" "inclusive_min Minutes = 0" "inclusive_max Minutes = 59"
  "inclusive_min Hours = 0" "inclusive_max Hours = 23" "inclusive_min DaysOfMonth = 1" "inclusive_max DaysOfMonth = 31"
  "inclusive_min Months = 1" "inclusive_max Months = 12" "inclusive_min DaysOfWeek = 1" "inclusive_max DaysOfWeek = 7"
  "inclusive_min Years = 1970" "inclusive_max Years = 2100"
  by (simp_all add: unit_defs)

lemma month_from_name_range: "month_from_name nm = Inr i \<Longrightarrow> 1 \<le> i \<and> i \<le> 12"
  by (auto simp: month_from_name_def Let_def split: if_splits)

lemma day_from_name_range: "day_from_name nm = Inr i \<Longrightarrow> 1 \<le> i \<and> i \<le> 7"
  by (auto simp: day_from_name_def Let_def split: if_splits)

interpretation seconds: time_unit_field Seconds
  by unfold_locales (simp_all add: unit_defs no_names_def)

interpretation minutes: time_unit_field Minutes
  by unfold_locales (simp_all add: unit_defs no_names_def)

interpretation hours: time_unit_field Hours
  by unfold_locales (simp_all add: unit_defs no_names_def)

interpretation days_of_month: time_unit_field DaysOfMonth
  by unfold_locales (simp_all add: unit_defs no_names_def)

interpretation months: time_unit_field Months
  by unfold_locales (use month_from_name_range in \<open>simp_all add: unit_defs\<close>)

interpretation days_of_week: time_unit_field DaysOfWeek
  by unfold_locales (use day_from_name_range in \<open>simp_all add: unit_defs\<close>)

interpretation years: time_unit_field Years
  by unfold_locales (simp_all add: unit_defs no_names_def)

end
