(* ===== verification/Cron_Schedule.thy ===== *)
theory Cron_Schedule
  imports Solana Cron_Fields "HOL-Library.Product_Lexorder"
begin

text \<open>
  \<open>crates/cron/src/queries.rs\<close> and \<open>schedule.rs\<close>: the search for the next (and the
  previous) instant a schedule matches. The six nested loops, the \<open>first_*\<close> flags the
  query carries through them, the \<open>continue 'day_loop\<close> on a wrong weekday and the panic
  of \<open>BTreeSet::range\<close> on an empty interval are modelled as they stand.

  The \<open>chrono\<close> crate is a parameter: a UTC \<open>DateTime\<close> is the record of its calendar
  components (years of the common era, whole seconds), and \<open>chrono\<close> the operations the
  search uses. \<open>chrono_laws\<close> states what it relies on.
\<close>

record DateTime =
  dt_year :: nat
  dt_month :: nat
  dt_day :: nat
  dt_hour :: nat
  dt_minute :: nat
  dt_second :: nat

record chrono =
  plus_one_second :: "DateTime \<Rightarrow> DateTime"
  minus_one_second :: "DateTime \<Rightarrow> DateTime"
  number_from_sunday :: "DateTime \<Rightarrow> nat"
  with_ymd_and_hms :: "nat \<Rightarrow> nat \<Rightarrow> nat \<Rightarrow> nat \<Rightarrow> nat \<Rightarrow> nat \<Rightarrow> DateTime option"
  from_timestamp :: "i64 \<Rightarrow> DateTime option"
  timestamp :: "DateTime \<Rightarrow> i64"

record ScheduleFields =
  sf_years :: unit_field
  sf_days_of_week :: unit_field
  sf_months :: unit_field
  sf_days_of_month :: unit_field
  sf_hours :: unit_field
  sf_minutes :: unit_field
  sf_seconds :: unit_field

section \<open>Queries\<close>

text \<open>\<open>NextAfterQuery\<close> and \<open>PrevFromQuery\<close> have the same fields.\<close>

record Query =
  initial_datetime :: DateTime
  first_month :: bool
  first_day_of_month :: bool
  first_hour :: bool
  first_minute :: bool
  first_second :: bool

definition NextAfterQuery_from :: "chrono \<Rightarrow> DateTime \<Rightarrow> Query" where
  "NextAfterQuery_from ch after =
     \<lparr>initial_datetime = plus_one_second ch after, first_month = True, first_day_of_month = True,
      first_hour = True, first_minute = True, first_second = True\<rparr>"

definition PrevFromQuery_from :: "chrono \<Rightarrow> DateTime \<Rightarrow> Query" where
  "PrevFromQuery_from ch before =
     \<lparr>initial_datetime = minus_one_second ch before, first_month = True, first_day_of_month = True,
      first_hour = True, first_minute = True, first_second = True\<rparr>"

definition reset_second :: "Query \<Rightarrow> Query" where
  "reset_second q = q\<lparr>first_second := False\<rparr>"

definition reset_minute :: "Query \<Rightarrow> Query" where
  "reset_minute q = reset_second (q\<lparr>first_minute := False\<rparr>)"

definition reset_hour :: "Query \<Rightarrow> Query" where
  "reset_hour q = reset_minute (q\<lparr>first_hour := False\<rparr>)"

definition reset_day_of_month :: "Query \<Rightarrow> Query" where
  "reset_day_of_month q = reset_hour (q\<lparr>first_day_of_month := False\<rparr>)"

definition reset_month :: "Query \<Rightarrow> Query" where
  "reset_month q = reset_day_of_month (q\<lparr>first_month := False\<rparr>)"

definition year_bound :: "Query \<Rightarrow> nat" where
  "year_bound q = dt_year (initial_datetime q)"

definition month_lower_bound :: "Query \<Rightarrow> nat \<times> Query" where
  "month_lower_bound q = (if first_month q then (dt_month (initial_datetime q), q\<lparr>first_month := False\<rparr>)
                          else (inclusive_min Months, q))"

definition day_of_month_lower_bound :: "Query \<Rightarrow> nat \<times> Query" where
  "day_of_month_lower_bound q =
     (if first_day_of_month q then (dt_day (initial_datetime q), q\<lparr>first_day_of_month := False\<rparr>)
      else (inclusive_min DaysOfMonth, q))"

definition hour_lower_bound :: "Query \<Rightarrow> nat \<times> Query" where
  "hour_lower_bound q = (if first_hour q then (dt_hour (initial_datetime q), q\<lparr>first_hour := False\<rparr>)
                         else (inclusive_min Hours, q))"

definition minute_lower_bound :: "Query \<Rightarrow> nat \<times> Query" where
  "minute_lower_bound q = (if first_minute q then (dt_minute (initial_datetime q), q\<lparr>first_minute := False\<rparr>)
                           else (inclusive_min Minutes, q))"

definition second_lower_bound :: "Query \<Rightarrow> nat \<times> Query" where
  "second_lower_bound q = (if first_second q then (dt_second (initial_datetime q), q\<lparr>first_second := False\<rparr>)
                           else (inclusive_min Seconds, q))"

definition month_upper_bound :: "Query \<Rightarrow> nat \<times> Query" where
  "month_upper_bound q = (if first_month q then (dt_month (initial_datetime q), q\<lparr>first_month := False\<rparr>)
                          else (inclusive_max Months, q))"

definition day_of_month_upper_bound :: "Query \<Rightarrow> nat \<times> Query" where
  "day_of_month_upper_bound q =
     (if first_day_of_month q then (dt_day (initial_datetime q), q\<lparr>first_day_of_month := False\<rparr>)
      else (inclusive_max DaysOfMonth, q))"

definition hour_upper_bound :: "Query \<Rightarrow> nat \<times> Query" where
  "hour_upper_bound q = (if first_hour q then (dt_hour (initial_datetime q), q\<lparr>first_hour := False\<rparr>)
                         else (inclusive_max Hours, q))"

definition minute_upper_bound :: "Query \<Rightarrow> nat \<times> Query" where
  "minute_upper_bound q = (if first_minute q then (dt_minute (initial_datetime q), q\<lparr>first_minute := False\<rparr>)
                           else (inclusive_max Minutes, q))"

definition second_upper_bound :: "Query \<Rightarrow> nat \<times> Query" where
  "second_upper_bound q = (if first_second q then (dt_second (initial_datetime q), q\<lparr>first_second := False\<rparr>)
                           else (inclusive_max Seconds, q))"

section \<open>Calendar\<close>

definition is_leap_year :: "nat \<Rightarrow> bool" where
  "is_leap_year year \<longleftrightarrow> 4 dvd year \<and> (\<not> 100 dvd year \<or> 400 dvd year)"

definition days_in_month :: "nat \<Rightarrow> nat \<Rightarrow> nat" where
  "days_in_month month year =
     (if month \<in> {9, 4, 6, 11} then 30
      else if month = 2 then (if is_leap_year year then 29 else 28) else 31)"

section \<open>Loops\<close>

text \<open>
  How a loop body ends: normally, by \<open>continue 'day_loop\<close>, or by \<open>return Some(..)\<close>.
  \<open>then_reset\<close> is the \<open>query.reset_*()\<close> behind a loop, which only a normal end reaches.
\<close>

datatype flow = Normal | ContinueDay | Return DateTime

fun for_loop :: "('a \<Rightarrow> 'q \<Rightarrow> error + 'q \<times> flow) \<Rightarrow> 'a list \<Rightarrow> 'q \<Rightarrow> error + 'q \<times> flow" where
  "for_loop body [] q = Inr (q, Normal)"
| "for_loop body (x # xs) q =
     then_do (body x q) (\<lambda>(q', fl). if fl = Normal then for_loop body xs q' else Inr (q', fl))"

definition then_reset :: "('q \<Rightarrow> 'q) \<Rightarrow> error + 'q \<times> flow \<Rightarrow> error + 'q \<times> flow" where
  "then_reset reset r = then_do r (\<lambda>(q, fl). Inr (if fl = Normal then reset q else q, fl))"

text \<open>\<open>BTreeSet::range\<close> over a closed interval panics when its start is above its end.\<close>

definition btree_range :: "nat \<Rightarrow> nat \<Rightarrow> OrdinalSet \<Rightarrow> error + nat list" where
  "btree_range lo hi os = (if hi < lo then Inl Panic else Inr (filter (\<lambda>x. lo \<le> x \<and> x \<le> hi) os))"

definition second_body :: "chrono \<Rightarrow> ScheduleFields \<Rightarrow> nat \<Rightarrow> nat \<Rightarrow> nat \<Rightarrow> nat \<Rightarrow> nat \<Rightarrow> nat \<Rightarrow> Query \<Rightarrow> error + Query \<times> flow" where
  "second_body ch s year month day hour minute second q =
     then_do (ok_or (with_ymd_and_hms ch year month day hour minute second) Panic) (\<lambda>candidate.
       if number_from_sunday ch candidate \<notin> set (ordinals DaysOfWeek (sf_days_of_week s))
       then Inr (q, ContinueDay) else Inr (q, Return candidate))"

definition next_minute_body :: "chrono \<Rightarrow> ScheduleFields \<Rightarrow> nat \<Rightarrow> nat \<Rightarrow> nat \<Rightarrow> nat \<Rightarrow> nat \<Rightarrow> Query \<Rightarrow> error + Query \<times> flow" where
  "next_minute_body ch s year month day hour minute q =
     (let (start, q1) = second_lower_bound q;
          q2 = (if start \<notin> set (ordinals Seconds (sf_seconds s)) then reset_second q1 else q1) in
      then_do (btree_range start (inclusive_max Seconds) (ordinals Seconds (sf_seconds s))) (\<lambda>range.
        then_reset reset_minute (for_loop (second_body ch s year month day hour minute) range q2)))"

definition next_hour_body :: "chrono \<Rightarrow> ScheduleFields \<Rightarrow> nat \<Rightarrow> nat \<Rightarrow> nat \<Rightarrow> nat \<Rightarrow> Query \<Rightarrow> error + Query \<times> flow" where
  "next_hour_body ch s year month day hour q =
     (let (start, q1) = minute_lower_bound q;
          q2 = (if start \<notin> set (ordinals Minutes (sf_minutes s)) then reset_minute q1 else q1) in
      then_do (btree_range start (inclusive_max Minutes) (ordinals Minutes (sf_minutes s))) (\<lambda>range.
        then_reset reset_hour (for_loop (next_minute_body ch s year month day hour) range q2)))"

definition catch_continue :: "error + Query \<times> flow \<Rightarrow> error + Query \<times> flow" where
  "catch_continue r = then_do r (\<lambda>(q, fl). Inr (q, if fl = ContinueDay then Normal else fl))"

definition next_day_body :: "chrono \<Rightarrow> ScheduleFields \<Rightarrow> nat \<Rightarrow> nat \<Rightarrow> nat \<Rightarrow> Query \<Rightarrow> error + Query \<times> flow" where
  "next_day_body ch s year month day q =
     (let (start, q1) = hour_lower_bound q;
          q2 = (if start \<notin> set (ordinals Hours (sf_hours s)) then reset_hour q1 else q1) in
      then_do (btree_range start (inclusive_max Hours) (ordinals Hours (sf_hours s))) (\<lambda>range.
        catch_continue (then_reset reset_day_of_month (for_loop (next_hour_body ch s year month day) range q2))))"

definition next_month_body :: "chrono \<Rightarrow> ScheduleFields \<Rightarrow> nat \<Rightarrow> nat \<Rightarrow> Query \<Rightarrow> error + Query \<times> flow" where
  "next_month_body ch s year month q =
     (let (start, q1) = day_of_month_lower_bound q;
          q2 = (if start \<notin> set (ordinals DaysOfMonth (sf_days_of_month s)) then reset_day_of_month q1 else q1);
          day_of_month_end = days_in_month month year in
      then_do (btree_range start day_of_month_end (ordinals DaysOfMonth (sf_days_of_month s))) (\<lambda>range.
        then_reset reset_month (for_loop (next_day_body ch s year month) range q2)))"

definition next_year_body :: "chrono \<Rightarrow> ScheduleFields \<Rightarrow> nat \<Rightarrow> Query \<Rightarrow> error + Query \<times> flow" where
  "next_year_body ch s year q =
     (let (start, q1) = month_lower_bound q;
          q2 = (if start \<notin> set (ordinals Months (sf_months s)) then reset_month q1 else q1) in
      then_do (btree_range start (inclusive_max Months) (ordinals Months (sf_months s))) (\<lambda>range.
        for_loop (next_month_body ch s year) range q2))"

definition returned :: "error + Query \<times> flow \<Rightarrow> error + DateTime option" where
  "returned r = then_do r (\<lambda>(_, fl). Inr (case fl of Return c \<Rightarrow> Some c | _ \<Rightarrow> None))"

definition next_after :: "chrono \<Rightarrow> ScheduleFields \<Rightarrow> DateTime \<Rightarrow> error + DateTime option" where
  "next_after ch s after =
     (let query = NextAfterQuery_from ch after in
      returned (for_loop (next_year_body ch s)
        (filter (\<lambda>y. year_bound query \<le> y) (ordinals Years (sf_years s))) query))"

text \<open>The search backwards, with the bounds from above and the ranges reversed.\<close>

definition prev_minute_body :: "chrono \<Rightarrow> ScheduleFields \<Rightarrow> nat \<Rightarrow> nat \<Rightarrow> nat \<Rightarrow> nat \<Rightarrow> nat \<Rightarrow> Query \<Rightarrow> error + Query \<times> flow" where
  "prev_minute_body ch s year month day hour minute q =
     (let (start, q1) = second_upper_bound q;
          q2 = (if start \<notin> set (ordinals Seconds (sf_seconds s)) then reset_second q1 else q1) in
      then_do (btree_range (inclusive_min Seconds) start (ordinals Seconds (sf_seconds s))) (\<lambda>range.
        then_reset reset_minute (for_loop (second_body ch s year month day hour minute) (rev range) q2)))"

definition prev_hour_body :: "chrono \<Rightarrow> ScheduleFields \<Rightarrow> nat \<Rightarrow> nat \<Rightarrow> nat \<Rightarrow> nat \<Rightarrow> Query \<Rightarrow> error + Query \<times> flow" where
  "prev_hour_body ch s year month day hour q =
     (let (start, q1) = minute_upper_bound q;
          q2 = (if start \<notin> set (ordinals Minutes (sf_minutes s)) then reset_minute q1 else q1) in
      then_do (btree_range (inclusive_min Minutes) start (ordinals Minutes (sf_minutes s))) (\<lambda>range.
        then_reset reset_hour (for_loop (prev_minute_body ch s year month day hour) (rev range) q2)))"

definition prev_day_body :: "chrono \<Rightarrow> ScheduleFields \<Rightarrow> nat \<Rightarrow> nat \<Rightarrow> nat \<Rightarrow> Query \<Rightarrow> error + Query \<times> flow" where
  "prev_day_body ch s year month day q =
     (let (start, q1) = hour_upper_bound q;
          q2 = (if start \<notin> set (ordinals Hours (sf_hours s)) then reset_hour q1 else q1) in
      then_do (btree_range (inclusive_min Hours) start (ordinals Hours (sf_hours s))) (\<lambda>range.
        catch_continue (then_reset reset_day_of_month (for_loop (prev_hour_body ch s year month day) (rev range) q2))))"

definition prev_month_body :: "chrono \<Rightarrow> ScheduleFields \<Rightarrow> nat \<Rightarrow> nat \<Rightarrow> Query \<Rightarrow> error + Query \<times> flow" where
  "prev_month_body ch s year month q =
     (let (start, q1) = day_of_month_upper_bound q;
          q2 = (if start \<notin> set (ordinals DaysOfMonth (sf_days_of_month s)) then reset_day_of_month q1 else q1);
          day_of_month_end = min (days_in_month month year) start in
      then_do (btree_range (inclusive_min DaysOfMonth) day_of_month_end (ordinals DaysOfMonth (sf_days_of_month s))) (\<lambda>range.
        then_reset reset_month (for_loop (prev_day_body ch s year month) (rev range) q2)))"

definition prev_year_body :: "chrono \<Rightarrow> ScheduleFields \<Rightarrow> nat \<Rightarrow> Query \<Rightarrow> error + Query \<times> flow" where
  "prev_year_body ch s year q =
     (let (start, q1) = month_upper_bound q;
          q2 = (if start \<notin> set (ordinals Months (sf_months s)) then reset_month q1 else q1) in
      then_do (btree_range (inclusive_min Months) start (ordinals Months (sf_months s))) (\<lambda>range.
        for_loop (prev_month_body ch s year) (rev range) q2))"

definition prev_before :: "chrono \<Rightarrow> ScheduleFields \<Rightarrow> DateTime \<Rightarrow> error + DateTime option" where
  "prev_before ch s before =
     (let query = PrevFromQuery_from ch before in
      returned (for_loop (prev_year_body ch s)
        (rev (filter (\<lambda>y. y \<le> year_bound query) (ordinals Years (sf_years s)))) query))"

definition schedule_includes :: "chrono \<Rightarrow> ScheduleFields \<Rightarrow> DateTime \<Rightarrow> bool" where
  "schedule_includes ch s dt \<longleftrightarrow>
     unit_includes Years (sf_years s) (dt_year dt) \<and>
     unit_includes Months (sf_months s) (dt_month dt) \<and>
     unit_includes DaysOfWeek (sf_days_of_week s) (number_from_sunday ch dt) \<and>
     unit_includes DaysOfMonth (sf_days_of_month s) (dt_day dt) \<and>
     unit_includes Hours (sf_hours s) (dt_hour dt) \<and>
     unit_includes Minutes (sf_minutes s) (dt_minute dt) \<and>
     unit_includes Seconds (sf_seconds s) (dt_second dt)"

section \<open>The iterator\<close>

record ScheduleIterator =
  is_done :: bool
  iter_schedule :: ScheduleFields
  previous_datetime :: DateTime

definition schedule_after :: "ScheduleFields \<Rightarrow> DateTime \<Rightarrow> ScheduleIterator" where
  "schedule_after s starting_datetime =
     \<lparr>is_done = False, iter_schedule = s, previous_datetime = starting_datetime\<rparr>"

definition iterator_next :: "chrono \<Rightarrow> ScheduleIterator \<Rightarrow> error + DateTime option \<times> ScheduleIterator" where
  "iterator_next ch it =
     (if is_done it then Inr (None, it)
      else then_do (next_after ch (iter_schedule it) (previous_datetime it)) (\<lambda>n.
        case n of
          Some next_datetime \<Rightarrow> Inr (Some next_datetime, it\<lparr>previous_datetime := next_datetime\<rparr>)
        | None \<Rightarrow> Inr (None, it\<lparr>is_done := True\<rparr>)))"

definition iterator_next_back :: "chrono \<Rightarrow> ScheduleIterator \<Rightarrow> error + DateTime option \<times> ScheduleIterator" where
  "iterator_next_back ch it =
     (if is_done it then Inr (None, it)
      else then_do (prev_before ch (iter_schedule it) (previous_datetime it)) (\<lambda>n.
        case n of
          Some prev_datetime \<Rightarrow> Inr (Some prev_datetime, it\<lparr>previous_datetime := prev_datetime\<rparr>)
        | None \<Rightarrow> Inr (None, it\<lparr>is_done := True\<rparr>)))"

section \<open>Shorthands\<close>

definition ScheduleFields_new :: "unit_field \<Rightarrow> unit_field \<Rightarrow> unit_field \<Rightarrow> unit_field \<Rightarrow> unit_field \<Rightarrow> unit_field \<Rightarrow> unit_field \<Rightarrow> ScheduleFields" where
  "ScheduleFields_new seconds minutes hours days_of_month months days_of_week years =
     \<lparr>sf_years = years, sf_days_of_week = days_of_week, sf_months = months,
      sf_days_of_month = days_of_month, sf_hours = hours, sf_minutes = minutes, sf_seconds = seconds\<rparr>"

definition from_ordinal :: "Ordinal \<Rightarrow> unit_field" where
  "from_ordinal ordinal = Some [ordinal]"

definition shorthand_yearly :: ScheduleFields where
  "shorthand_yearly = ScheduleFields_new (from_ordinal 0) (from_ordinal 0) (from_ordinal 0) (from_ordinal 1) (from_ordinal 1) None None"

definition shorthand_monthly :: ScheduleFields where
  "shorthand_monthly = ScheduleFields_new (from_ordinal 0) (from_ordinal 0) (from_ordinal 0) (from_ordinal 1) None None None"

definition shorthand_weekly :: ScheduleFields where
  "shorthand_weekly = ScheduleFields_new (from_ordinal 0) (from_ordinal 0) (from_ordinal 0) None None (from_ordinal 1) None"

definition shorthand_daily :: ScheduleFields where
  "shorthand_daily = ScheduleFields_new (from_ordinal 0) (from_ordinal 0) (from_ordinal 0) None None None None"

definition shorthand_hourly :: ScheduleFields where
  "shorthand_hourly = ScheduleFields_new (from_ordinal 0) (from_ordinal 0) None None None None None"

text \<open>
  The tail of \<open>longhand\<close>: the seven fields of a parsed expression (the year may be
  absent) become a schedule, in the order of the expression.
\<close>

definition longhand_fields :: "RootSpecifier list \<Rightarrow> RootSpecifier list \<Rightarrow> RootSpecifier list \<Rightarrow> RootSpecifier list \<Rightarrow> RootSpecifier list \<Rightarrow> RootSpecifier list \<Rightarrow> RootSpecifier list option \<Rightarrow> cron_error + ScheduleFields" where
  "longhand_fields sec mi h md mon wd yr =
     then_do (from_field Seconds sec) (\<lambda>seconds.
     then_do (from_field Minutes mi) (\<lambda>minutes.
     then_do (from_field Hours h) (\<lambda>hours.
     then_do (from_field DaysOfMonth md) (\<lambda>days_of_month.
     then_do (from_field Months mon) (\<lambda>months.
     then_do (from_field DaysOfWeek wd) (\<lambda>days_of_week.
     then_do (case yr of Some y \<Rightarrow> from_field Years y | None \<Rightarrow> Inr None) (\<lambda>years.
       Inr (ScheduleFields_new seconds minutes hours days_of_month months days_of_week years))))))))"

end
