(* ===== verification/Cron_Search.thy ===== *)
theory Cron_Search
  imports Cron_Schedule
begin

text \<open>
  Correctness of the cron search: \<open>next_after\<close> returns the earliest matching instant
  after its argument and \<open>prev_before\<close> the latest before it. Every loop of the search is
  an instance of one fact about a loop whose first round is constrained by the query and
  whose later rounds are not; the two directions differ only in the order.
\<close>

section \<open>The states of a query\<close>

text \<open>
  Inside the search a query is always in one of six states: the flags from some level
  downwards are still set, or none is.
\<close>

definition flags :: "DateTime \<Rightarrow> nat \<Rightarrow> Query" where
  "flags i k = \<lparr>initial_datetime = i, first_month = (k \<le> 0), first_day_of_month = (k \<le> 1),
     first_hour = (k \<le> 2), first_minute = (k \<le> 3), first_second = (k \<le> 4)\<rparr>"

lemmas query_defs = reset_month_def reset_day_of_month_def reset_hour_def reset_minute_def reset_second_def
  month_lower_bound_def day_of_month_lower_bound_def hour_lower_bound_def minute_lower_bound_def
  second_lower_bound_def month_upper_bound_def day_of_month_upper_bound_def hour_upper_bound_def
  minute_upper_bound_def second_upper_bound_def flags_def

lemma flags_reset:
  "reset_second (flags i 5) = flags i 5" "reset_minute (flags i 5) = flags i 5"
  "reset_minute (flags i 4) = flags i 5" "reset_hour (flags i 5) = flags i 5" "reset_hour (flags i 3) = flags i 5"
  "reset_day_of_month (flags i 5) = flags i 5" "reset_day_of_month (flags i 2) = flags i 5"
  "reset_month (flags i 5) = flags i 5" "reset_month (flags i 1) = flags i 5"
  by (simp_all add: query_defs)

lemma flags_lower:
  "month_lower_bound (flags i 0) = (dt_month i, flags i 1)" "month_lower_bound (flags i 5) = (1, flags i 5)"
  "day_of_month_lower_bound (flags i 1) = (dt_day i, flags i 2)" "day_of_month_lower_bound (flags i 5) = (1, flags i 5)"
  "hour_lower_bound (flags i 2) = (dt_hour i, flags i 3)" "hour_lower_bound (flags i 5) = (0, flags i 5)"
  "minute_lower_bound (flags i 3) = (dt_minute i, flags i 4)" "minute_lower_bound (flags i 5) = (0, flags i 5)"
  "second_lower_bound (flags i 4) = (dt_second i, flags i 5)" "second_lower_bound (flags i 5) = (0, flags i 5)"
  by (simp_all add: query_defs unit_defs)

lemma flags_upper:
  "month_upper_bound (flags i 0) = (dt_month i, flags i 1)" "month_upper_bound (flags i 5) = (12, flags i 5)"
  "day_of_month_upper_bound (flags i 1) = (dt_day i, flags i 2)" "day_of_month_upper_bound (flags i 5) = (31, flags i 5)"
  "hour_upper_bound (flags i 2) = (dt_hour i, flags i 3)" "hour_upper_bound (flags i 5) = (23, flags i 5)"
  "minute_upper_bound (flags i 3) = (dt_minute i, flags i 4)" "minute_upper_bound (flags i 5) = (59, flags i 5)"
  "second_upper_bound (flags i 4) = (dt_second i, flags i 5)" "second_upper_bound (flags i 5) = (59, flags i 5)"
  by (simp_all add: query_defs unit_defs)

lemma flags_start:
  "NextAfterQuery_from ch t = flags (plus_one_second ch t) 0"
  "PrevFromQuery_from ch t = flags (minus_one_second ch t) 0"
  by (simp_all add: NextAfterQuery_from_def PrevFromQuery_from_def flags_def)

section \<open>One level of the search\<close>

text \<open>
  \<open>yields le emit A fl\<close>: the flow \<open>fl\<close> is normal if there is no candidate, and the
  emission of the \<open>le\<close>-least candidate otherwise. \<open>lexle\<close> orders a candidate of a
  level by the level's ordinal first.
\<close>

definition yields :: "('c \<Rightarrow> 'c \<Rightarrow> bool) \<Rightarrow> ('c \<Rightarrow> flow) \<Rightarrow> 'c set \<Rightarrow> flow \<Rightarrow> bool" where
  "yields le emit A fl \<longleftrightarrow> (A = {} \<and> fl = Normal) \<or> (\<exists>c\<in>A. (\<forall>a\<in>A. le c a) \<and> fl = emit c)"

definition lexle :: "('a \<Rightarrow> 'a \<Rightarrow> bool) \<Rightarrow> ('c \<Rightarrow> 'c \<Rightarrow> bool) \<Rightarrow> 'a \<times> 'c \<Rightarrow> 'a \<times> 'c \<Rightarrow> bool" where
  "lexle lt le p q \<longleftrightarrow> lt (fst p) (fst q) \<or> fst p = fst q \<and> le (snd p) (snd q)"

text \<open>A run of a body in state \<open>q\<close>: it does not fail, leaves no flag set, and yields.\<close>

definition runs :: "error + 'q \<times> flow \<Rightarrow> 'q \<Rightarrow> ('c \<Rightarrow> 'c \<Rightarrow> bool) \<Rightarrow> ('c \<Rightarrow> flow) \<Rightarrow> 'c set \<Rightarrow> bool" where
  "runs r q le emit A \<longleftrightarrow> (\<exists>fl. r = Inr (q, fl) \<and> yields le emit A fl)"

lemma yields_lex_Cons:
  assumes y1: "yields le (emit x) B fl1" and y2: "yields (lexle lt le) (case_prod emit) A fl2"
    and lt: "\<And>z c. (z, c) \<in> A \<Longrightarrow> lt x z" and n: "\<And>c. emit x c \<noteq> Normal"
  shows "yields (lexle lt le) (case_prod emit) ({x} \<times> B \<union> A) (if fl1 = Normal then fl2 else fl1)"
proof (cases "B = {}")
  case True
  then have "fl1 = Normal" using y1 by (auto simp: yields_def)
  then show ?thesis using y2 True by simp
next
  case False
  then obtain c where c: "c \<in> B" "\<forall>a\<in>B. le c a" "fl1 = emit x c" using y1 by (auto simp: yields_def)
  then have "\<forall>a\<in>{x} \<times> B \<union> A. lexle lt le (x, c) a" using lt by (auto simp: lexle_def)
  then show ?thesis using c n by (auto simp: yields_def intro!: bexI [of _ "(x, c)"])
qed

text \<open>A loop whose first round starts with the query in another state than the later ones.\<close>

lemma for_loop_stale:
  assumes "sorted_wrt lt xs" and "\<And>x. x \<in> set xs \<Longrightarrow> runs (body x q) q le (emit x) (R x)"
    and n: "\<And>x c. emit x c \<noteq> Normal"
  shows "runs (for_loop body xs q) q (lexle lt le) (case_prod emit) (Sigma (set xs) R)"
  using assms(1,2)
proof (induction xs)
  case Nil
  then show ?case by (simp add: runs_def yields_def)
next
  case (Cons x xs)
  then obtain fl1 where b: "body x q = Inr (q, fl1)" and y1: "yields le (emit x) (R x) fl1"
    by (auto simp: runs_def)
  obtain fl2 where l: "for_loop body xs q = Inr (q, fl2)"
    and y2: "yields (lexle lt le) (case_prod emit) (Sigma (set xs) R) fl2"
    using Cons by (auto simp: runs_def)
  have "yields (lexle lt le) (case_prod emit) ({x} \<times> R x \<union> Sigma (set xs) R) (if fl1 = Normal then fl2 else fl1)"
    using y1 y2 by (rule yields_lex_Cons) (use Cons.prems n in auto)
  moreover have "Sigma (set (x # xs)) R = {x} \<times> R x \<union> Sigma (set xs) R" by auto
  ultimately show ?case using b l by (auto simp: runs_def)
qed

lemma for_loop_fresh:
  assumes sorted: "sorted_wrt lt xs" and xs: "set xs = {x \<in> X. x = start \<or> lt start x}"
    and irr: "\<And>x. \<not> lt x x" and trans: "\<And>x y z. lt x y \<Longrightarrow> lt y z \<Longrightarrow> lt x z"
    and stale: "\<And>x. x \<in> set xs \<Longrightarrow> runs (body x q) q le (emit x) (R x)"
    and fresh: "start \<in> X \<Longrightarrow> runs (body start q') q le (emit start) {c \<in> R start. le lb c}"
    and n: "\<And>x c. emit x c \<noteq> Normal"
  shows "runs (for_loop body xs (if start \<in> X then q' else q)) q (lexle lt le) (case_prod emit)
    {p \<in> Sigma X R. lexle lt le (start, lb) p}"
proof (cases "start \<in> X")
  case False
  then have "{p \<in> Sigma X R. lexle lt le (start, lb) p} = Sigma (set xs) R"
    by (auto simp: xs lexle_def)
  moreover have "runs (for_loop body xs q) q (lexle lt le) (case_prod emit) (Sigma (set xs) R)"
    using sorted stale n by (rule for_loop_stale)
  ultimately show ?thesis using False by simp
next
  case True
  then have "start \<in> set xs" by (simp add: xs)
  then obtain y ys where ys: "xs = y # ys" by (cases xs) auto
  have y: "y = start"
  proof (rule ccontr)
    assume "y \<noteq> start"
    moreover have "y \<in> set xs" by (simp add: ys)
    ultimately have "lt start y" by (auto simp: xs)
    moreover have "lt y start" using sorted \<open>start \<in> set xs\<close> \<open>y \<noteq> start\<close> by (auto simp: ys)
    ultimately show False using trans irr by blast
  qed
  have "set ys = set xs - {start}"
    using sorted irr by (auto simp: ys y)
  then have set_ys: "set ys = {x \<in> X. lt start x}"
    using irr by (auto simp: xs)
  obtain fl1 where b: "body start q' = Inr (q, fl1)" and y1: "yields le (emit start) {c \<in> R start. le lb c} fl1"
    using fresh [OF True] by (auto simp: runs_def)
  have "runs (for_loop body ys q) q (lexle lt le) (case_prod emit) (Sigma (set ys) R)"
    using sorted stale n by (intro for_loop_stale) (auto simp: ys)
  then obtain fl2 where l: "for_loop body ys q = Inr (q, fl2)"
    and y2: "yields (lexle lt le) (case_prod emit) (Sigma (set ys) R) fl2"
    by (auto simp: runs_def)
  have "yields (lexle lt le) (case_prod emit) ({start} \<times> {c \<in> R start. le lb c} \<union> Sigma (set ys) R)
      (if fl1 = Normal then fl2 else fl1)"
    using y1 y2 by (rule yields_lex_Cons) (use set_ys n in auto)
  moreover have "{p \<in> Sigma X R. lexle lt le (start, lb) p} = {start} \<times> {c \<in> R start. le lb c} \<union> Sigma (set ys) R"
    using True irr by (auto simp: lexle_def set_ys)
  ultimately show ?thesis using b l True by (auto simp: runs_def ys y)
qed

section \<open>Ranges and resets\<close>

lemma sorted_wrt_filter: "sorted_wrt lt xs \<Longrightarrow> sorted_wrt lt (filter P xs)"
  by (induction xs) auto

lemma runs_then_reset: "runs r q le e A \<Longrightarrow> f q = q \<Longrightarrow> runs (then_reset f r) q le e A"
  by (auto simp: runs_def then_reset_def)

text \<open>A wrong weekday turns every candidate of the day into \<open>continue 'day_loop\<close>.\<close>

lemma runs_catch_continue:
  assumes "runs r q le (\<lambda>c. if w then Return (g c) else ContinueDay) A"
  shows "runs (catch_continue r) q le (\<lambda>c. Return (g c)) (if w then A else {})"
  using assms by (cases w) (force simp: runs_def yields_def catch_continue_def)+

text \<open>
  A level of the search: the range, the loop over it in the direction \<open>dir\<close>, the reset.
  It is entered without a pending bound or with one, and asks each next finer level in
  the same two ways.
\<close>

definition solves :: "bool \<Rightarrow> (Query \<Rightarrow> error + Query \<times> flow) \<Rightarrow> DateTime \<Rightarrow> nat \<Rightarrow> ('c \<Rightarrow> 'c \<Rightarrow> bool) \<Rightarrow> ('c \<Rightarrow> flow) \<Rightarrow> 'c set \<Rightarrow> 'c \<Rightarrow> bool" where
  "solves here f i k le emit A lb \<longleftrightarrow>
     runs (f (flags i 5)) (flags i 5) le emit A \<and>
     (here \<longrightarrow> runs (f (flags i k)) (flags i 5) le emit {c \<in> A. le lb c})"

lemma solves_weaken: "solves True f i k le emit A lb \<Longrightarrow> solves here f i k le emit A lb"
  by (simp add: solves_def)

text \<open>The directions: ascending ranges as they are, or the reversed ones with the order reversed.\<close>

definition direction :: "(nat list \<Rightarrow> nat list) \<Rightarrow> (nat \<Rightarrow> nat \<Rightarrow> bool) \<Rightarrow> bool" where
  "direction dir lt \<longleftrightarrow> dir = (\<lambda>r. r) \<and> lt = (<) \<or> dir = rev \<and> lt = (>)"

lemma directionD:
  assumes "direction dir lt"
  shows "\<not> lt x x" and "lt x y \<Longrightarrow> lt y z \<Longrightarrow> lt x z" and "set (dir r) = set r"
    and "sorted_wrt (<) os \<Longrightarrow> sorted_wrt lt (dir (filter P os))"
  using assms by (auto simp: direction_def sorted_wrt_filter sorted_wrt_rev)

lemma level:
  assumes dir: "direction dir lt" and os: "sorted_wrt (<) os"
    and f5: "f (flags i 5) = then_do (btree_range lo hi os) (\<lambda>r. then_reset g (for_loop body (dir r) (flags i 5)))"
    and fk: "here \<Longrightarrow> f (flags i k) = then_do (btree_range lo' hi' os)
        (\<lambda>r. then_reset g (for_loop body (dir r) (if start \<in> X then flags i k' else flags i 5)))"
    and le: "lo \<le> hi" and le': "here \<Longrightarrow> lo' \<le> hi'"
    and X: "{x \<in> set os. lo \<le> x \<and> x \<le> hi} = X"
    and X': "here \<Longrightarrow> {x \<in> set os. lo' \<le> x \<and> x \<le> hi'} = {x \<in> X. x = start \<or> lt start x}"
    and sub: "\<And>x. x \<in> X \<Longrightarrow> solves (here \<and> x = start) (body x) i k' le (emit x) (R x) lb"
    and n: "\<And>x c. emit x c \<noteq> Normal" and g: "g (flags i 5) = flags i 5"
  shows "solves here f i k (lexle lt le) (case_prod emit) (Sigma X R) (start, lb)"
  unfolding solves_def
proof (intro conjI impI)
  let ?r = "\<lambda>lo hi. dir (filter (\<lambda>x. lo \<le> x \<and> x \<le> hi) os)"
  have stale: "runs (body x (flags i 5)) (flags i 5) le (emit x) (R x)" if "x \<in> X" for x
    using sub that by (simp add: solves_def)
  have "runs (for_loop body (?r lo hi) (flags i 5)) (flags i 5) (lexle lt le) (case_prod emit) (Sigma (set (?r lo hi)) R)"
    by (rule for_loop_stale [OF directionD(4) [OF dir os]])
       (use X stale n in \<open>auto simp: directionD(3) [OF dir]\<close>)
  then show "runs (f (flags i 5)) (flags i 5) (lexle lt le) (case_prod emit) (Sigma X R)"
    using le g by (simp add: f5 btree_range_def directionD(3) [OF dir] X runs_then_reset)
  assume here: here
  have "runs (for_loop body (?r lo' hi') (if start \<in> X then flags i k' else flags i 5)) (flags i 5)
      (lexle lt le) (case_prod emit) {p \<in> Sigma X R. lexle lt le (start, lb) p}"
    by (rule for_loop_fresh [OF directionD(4) [OF dir os]])
       (use X' [OF here] stale sub here n in \<open>auto simp: directionD(1,3) [OF dir] solves_def intro: directionD(2) [OF dir]\<close>)
  then show "runs (f (flags i k)) (flags i 5) (lexle lt le) (case_prod emit) {c \<in> Sigma X R. lexle lt le (start, lb) c}"
    using le' [OF here] g by (simp add: fk [OF here] btree_range_def runs_then_reset)
qed

lemma then_reset_id [simp]: "then_reset (\<lambda>q. q) r = r"
  by (cases r) (auto simp: then_reset_def)

section \<open>Candidates\<close>

definition dt :: "nat \<Rightarrow> nat \<Rightarrow> nat \<Rightarrow> nat \<Rightarrow> nat \<Rightarrow> nat \<Rightarrow> DateTime" where
  "dt y mo d h mi s = \<lparr>dt_year = y, dt_month = mo, dt_day = d, dt_hour = h, dt_minute = mi, dt_second = s\<rparr>"

lemma dt_simps [simp]:
  "dt_year (dt y mo d h mi s) = y" "dt_month (dt y mo d h mi s) = mo" "dt_day (dt y mo d h mi s) = d"
  "dt_hour (dt y mo d h mi s) = h" "dt_minute (dt y mo d h mi s) = mi" "dt_second (dt y mo d h mi s) = s"
  by (simp_all add: dt_def)

definition valid_dt :: "DateTime \<Rightarrow> bool" where
  "valid_dt c \<longleftrightarrow> 1 \<le> dt_month c \<and> dt_month c \<le> 12 \<and> 1 \<le> dt_day c \<and>
     dt_day c \<le> days_in_month (dt_month c) (dt_year c) \<and>
     dt_hour c \<le> 23 \<and> dt_minute c \<le> 59 \<and> dt_second c \<le> 59"

text \<open>Instants are ordered by their components.\<close>

definition dt_key :: "DateTime \<Rightarrow> nat \<times> nat \<times> nat \<times> nat \<times> nat \<times> nat \<times> unit" where
  "dt_key c = (dt_year c, dt_month c, dt_day c, dt_hour c, dt_minute c, dt_second c, ())"

text \<open>What the search relies on in \<open>chrono\<close>.\<close>

definition candidate_law :: "chrono \<Rightarrow> bool" where
  "candidate_law ch \<longleftrightarrow>
     (\<forall>y mo d h mi s. valid_dt (dt y mo d h mi s) \<longrightarrow> with_ymd_and_hms ch y mo d h mi s = Some (dt y mo d h mi s))"

definition weekday_law :: "chrono \<Rightarrow> bool" where
  "weekday_law ch \<longleftrightarrow>
     (\<forall>y mo d h mi s. number_from_sunday ch (dt y mo d h mi s) = number_from_sunday ch (dt y mo d 0 0 0)) \<and>
     (\<forall>c. 1 \<le> number_from_sunday ch c \<and> number_from_sunday ch c \<le> 7)"

definition next_second_law :: "chrono \<Rightarrow> bool" where
  "next_second_law ch \<longleftrightarrow>
     (\<forall>a. valid_dt a \<longrightarrow> valid_dt (plus_one_second ch a) \<and>
        (\<forall>c. valid_dt c \<longrightarrow> (dt_key a < dt_key c \<longleftrightarrow> dt_key (plus_one_second ch a) \<le> dt_key c)))"

definition prev_second_law :: "chrono \<Rightarrow> bool" where
  "prev_second_law ch \<longleftrightarrow>
     (\<forall>a. valid_dt a \<and> 1 \<le> dt_year a \<longrightarrow> valid_dt (minus_one_second ch a) \<and>
        (\<forall>c. valid_dt c \<longrightarrow> (dt_key c < dt_key a \<longleftrightarrow> dt_key c \<le> dt_key (minus_one_second ch a))))"

definition timestamp_law :: "chrono \<Rightarrow> bool" where
  "timestamp_law ch \<longleftrightarrow>
     (\<forall>a c. valid_dt a \<and> valid_dt c \<longrightarrow> (timestamp ch a < timestamp ch c \<longleftrightarrow> dt_key a < dt_key c)) \<and>
     (\<forall>t a. from_timestamp ch t = Some a \<longrightarrow> valid_dt a \<and> timestamp ch a = t)"

definition chrono_laws :: "chrono \<Rightarrow> bool" where
  "chrono_laws ch \<longleftrightarrow> candidate_law ch \<and> weekday_law ch \<and> next_second_law ch \<and> prev_second_law ch \<and> timestamp_law ch"

lemma chrono_weekday:
  "chrono_laws ch \<Longrightarrow> number_from_sunday ch (dt y mo d h mi s) = number_from_sunday ch (dt y mo d 0 0 0)"
  unfolding chrono_laws_def weekday_law_def by blast

lemma chrono_candidate:
  "chrono_laws ch \<Longrightarrow> valid_dt (dt y mo d h mi s) \<Longrightarrow> with_ymd_and_hms ch y mo d h mi s = Some (dt y mo d h mi s)"
  by (simp add: chrono_laws_def candidate_law_def)

lemma chrono_next:
  assumes "chrono_laws ch" and "valid_dt a"
  shows "valid_dt (plus_one_second ch a)"
    and "valid_dt c \<Longrightarrow> dt_key a < dt_key c \<longleftrightarrow> dt_key (plus_one_second ch a) \<le> dt_key c"
  using assms unfolding chrono_laws_def next_second_law_def by blast+

lemma chrono_prev:
  assumes "chrono_laws ch" and "valid_dt a" and "1 \<le> dt_year a"
  shows "valid_dt (minus_one_second ch a)"
    and "valid_dt c \<Longrightarrow> dt_key c < dt_key a \<longleftrightarrow> dt_key c \<le> dt_key (minus_one_second ch a)"
  using assms unfolding chrono_laws_def prev_second_law_def by blast+

lemma chrono_timestamp:
  assumes "chrono_laws ch"
  shows "valid_dt a \<Longrightarrow> valid_dt c \<Longrightarrow> timestamp ch a < timestamp ch c \<longleftrightarrow> dt_key a < dt_key c"
    and "from_timestamp ch t = Some a \<Longrightarrow> valid_dt a \<and> timestamp ch a = t"
  using assms unfolding chrono_laws_def timestamp_law_def by blast+

definition fields_ok :: "ScheduleFields \<Rightarrow> bool" where
  "fields_ok s \<longleftrightarrow> ordinal_set Years (ordinals Years (sf_years s)) \<and>
     ordinal_set Months (ordinals Months (sf_months s)) \<and>
     ordinal_set DaysOfMonth (ordinals DaysOfMonth (sf_days_of_month s)) \<and>
     ordinal_set Hours (ordinals Hours (sf_hours s)) \<and>
     ordinal_set Minutes (ordinals Minutes (sf_minutes s)) \<and>
     ordinal_set Seconds (ordinals Seconds (sf_seconds s))"

definition weekday_ok :: "chrono \<Rightarrow> ScheduleFields \<Rightarrow> nat \<Rightarrow> nat \<Rightarrow> nat \<Rightarrow> bool" where
  "weekday_ok ch s y mo d \<longleftrightarrow> number_from_sunday ch (dt y mo d 0 0 0) \<in> set (ordinals DaysOfWeek (sf_days_of_week s))"

definition sec_set :: "ScheduleFields \<Rightarrow> (nat \<times> unit) set" where
  "sec_set s = (SIGMA x : set (ordinals Seconds (sf_seconds s)). UNIV)"

definition min_set :: "ScheduleFields \<Rightarrow> (nat \<times> nat \<times> unit) set" where
  "min_set s = (SIGMA x : set (ordinals Minutes (sf_minutes s)). sec_set s)"

definition time_set :: "ScheduleFields \<Rightarrow> (nat \<times> nat \<times> nat \<times> unit) set" where
  "time_set s = (SIGMA x : set (ordinals Hours (sf_hours s)). min_set s)"

definition day_set :: "chrono \<Rightarrow> ScheduleFields \<Rightarrow> nat \<Rightarrow> nat \<Rightarrow> (nat \<times> nat \<times> nat \<times> nat \<times> unit) set" where
  "day_set ch s y mo = (SIGMA d : {d \<in> set (ordinals DaysOfMonth (sf_days_of_month s)). d \<le> days_in_month mo y}.
     if weekday_ok ch s y mo d then time_set s else {})"

definition month_set :: "chrono \<Rightarrow> ScheduleFields \<Rightarrow> nat \<Rightarrow> (nat \<times> nat \<times> nat \<times> nat \<times> nat \<times> unit) set" where
  "month_set ch s y = (SIGMA mo : set (ordinals Months (sf_months s)). day_set ch s y mo)"

definition all_set :: "chrono \<Rightarrow> ScheduleFields \<Rightarrow> (nat \<times> nat \<times> nat \<times> nat \<times> nat \<times> nat \<times> unit) set" where
  "all_set ch s = (SIGMA y : set (ordinals Years (sf_years s)). month_set ch s y)"

lemmas cand_sets = sec_set_def min_set_def time_set_def day_set_def month_set_def all_set_def

definition of_key :: "nat \<times> nat \<times> nat \<times> nat \<times> nat \<times> nat \<times> unit \<Rightarrow> DateTime" where
  "of_key k = (case k of (y, mo, d, h, mi, s, _) \<Rightarrow> dt y mo d h mi s)"

lemma of_key_dt_key [simp]: "of_key (dt_key c) = c" "dt_key (of_key k) = k"
  by (cases c; cases k; simp add: of_key_def dt_key_def dt_def)+

lemma key_image: "k \<in> dt_key ` S \<longleftrightarrow> of_key k \<in> S"
  by (metis image_iff of_key_dt_key)

text \<open>The candidate set is the set of instants the schedule includes.\<close>

lemma all_set_iff:
  assumes "chrono_laws ch" and "fields_ok s"
  shows "k \<in> all_set ch s \<longleftrightarrow> valid_dt (of_key k) \<and> schedule_includes ch s (of_key k)"
proof -
  obtain y mo d h mi sec where k: "k = (y, mo, d, h, mi, sec, ())" by (cases k) auto
  have w: "number_from_sunday ch (dt y mo d h mi sec) = number_from_sunday ch (dt y mo d 0 0 0)"
    using assms(1) by (rule chrono_weekday)
  have m: "k \<in> all_set ch s \<longleftrightarrow> y \<in> set (ordinals Years (sf_years s)) \<and> mo \<in> set (ordinals Months (sf_months s)) \<and>
      d \<in> set (ordinals DaysOfMonth (sf_days_of_month s)) \<and> d \<le> days_in_month mo y \<and> weekday_ok ch s y mo d \<and>
      h \<in> set (ordinals Hours (sf_hours s)) \<and> mi \<in> set (ordinals Minutes (sf_minutes s)) \<and>
      sec \<in> set (ordinals Seconds (sf_seconds s))"
    unfolding k by (simp add: cand_sets)
  have b: "x \<in> set (ordinals Months (sf_months s)) \<Longrightarrow> 1 \<le> x \<and> x \<le> 12"
    "x \<in> set (ordinals DaysOfMonth (sf_days_of_month s)) \<Longrightarrow> 1 \<le> x"
    "x \<in> set (ordinals Hours (sf_hours s)) \<Longrightarrow> x \<le> 23"
    "x \<in> set (ordinals Minutes (sf_minutes s)) \<Longrightarrow> x \<le> 59"
    "x \<in> set (ordinals Seconds (sf_seconds s)) \<Longrightarrow> x \<le> 59" for x
    using assms(2) by (simp_all add: fields_ok_def ordinal_set_def)
  have e: "of_key k = dt y mo d h mi sec" by (simp add: k of_key_def)
  show ?thesis
    unfolding m e schedule_includes_def unit_includes_def valid_dt_def dt_simps w weekday_ok_def
    using b by blast
qed

section \<open>The levels\<close>

definition emit_time :: "chrono \<Rightarrow> ScheduleFields \<Rightarrow> nat \<Rightarrow> nat \<Rightarrow> nat \<Rightarrow> nat \<Rightarrow> nat \<Rightarrow> nat \<Rightarrow> unit \<Rightarrow> flow" where
  "emit_time ch s y mo d h mi sec _ = (if weekday_ok ch s y mo d then Return (dt y mo d h mi sec) else ContinueDay)"

abbreviation emit_min where "emit_min ch s y mo d h mi \<equiv> case_prod (emit_time ch s y mo d h mi)"
abbreviation emit_hour where "emit_hour ch s y mo d h \<equiv> case_prod (emit_min ch s y mo d h)"
abbreviation emit_day where "emit_day y mo d \<equiv> (\<lambda>(h, mi, sec, _ :: unit). Return (dt y mo d h mi sec))"

lemma emit_not_Normal [simp]:
  "emit_time ch s y mo d h mi sec x \<noteq> Normal" "emit_min ch s y mo d h mi p \<noteq> Normal"
  "emit_hour ch s y mo d h p2 \<noteq> Normal"
  by (simp_all add: emit_time_def split: prod.splits)

lemma second_runs:
  assumes "chrono_laws ch" and "valid_dt (dt y mo d h mi sec)"
  shows "runs (second_body ch s y mo d h mi sec q) q (\<le>) (emit_time ch s y mo d h mi sec) UNIV"
  using chrono_candidate [OF assms] chrono_weekday [OF assms(1), of y mo d h mi sec]
  by (simp add: second_body_def runs_def yields_def emit_time_def weekday_ok_def)

text \<open>The end of a day body: a wrong weekday discards the candidates of the day.\<close>

lemma solves_catch:
  assumes "\<And>q. f' q = catch_continue (f q)"
    and "solves True f i k le (case_prod (emit_hour ch s y mo d)) A lb"
  shows "solves True f' i k le (emit_day y mo d) (if weekday_ok ch s y mo d then A else {}) lb"
proof -
  have e: "case_prod (emit_hour ch s y mo d) = (\<lambda>c. if weekday_ok ch s y mo d then
      Return ((\<lambda>(h, mi, sec, _ :: unit). dt y mo d h mi sec) c) else ContinueDay)"
    and e': "emit_day y mo d = (\<lambda>c. Return ((\<lambda>(h, mi, sec, _ :: unit). dt y mo d h mi sec) c))"
    by (auto simp: emit_time_def fun_eq_iff)
  have A: "{c \<in> (if w then A else {}). le lb c} = (if w then {c \<in> A. le lb c} else {})" for w
    by simp
  have "runs (f (flags i 5)) (flags i 5) le (case_prod (emit_hour ch s y mo d)) A"
    and "runs (f (flags i k)) (flags i 5) le (case_prod (emit_hour ch s y mo d)) {c \<in> A. le lb c}"
    using assms(2) by (simp_all add: solves_def)
  from this [unfolded e, THEN runs_catch_continue] show ?thesis
    unfolding solves_def assms(1) e' A by blast
qed

lemma fields_okD:
  assumes "fields_ok s"
  shows "ordinal_set Years (ordinals Years (sf_years s))" "ordinal_set Months (ordinals Months (sf_months s))"
    "ordinal_set DaysOfMonth (ordinals DaysOfMonth (sf_days_of_month s))" "ordinal_set Hours (ordinals Hours (sf_hours s))"
    "ordinal_set Minutes (ordinals Minutes (sf_minutes s))" "ordinal_set Seconds (ordinals Seconds (sf_seconds s))"
  using assms by (simp_all add: fields_ok_def)

lemmas level_simps = flags_lower flags_upper flags_reset
  flags_lower [unfolded One_nat_def] flags_upper [unfolded One_nat_def] flags_reset [unfolded One_nat_def] valid_dt_def ordinal_set_def direction_def

subsection \<open>Forwards\<close>

lemma next_minute_solves:
  assumes laws: "chrono_laws ch" and ok: "fields_ok s" and v: "valid_dt (dt y mo d h mi 0)" and i: "valid_dt i"
  shows "solves True (next_minute_body ch s y mo d h mi) i 4 (lexle (<) (\<le>)) (emit_min ch s y mo d h mi) (sec_set s) (dt_second i, ())"
  unfolding sec_set_def
proof (rule level [where dir = "\<lambda>r. r" and lo = 0 and hi = 59 and lo' = "dt_second i" and hi' = 59
      and os = "ordinals Seconds (sf_seconds s)" and g = reset_minute and k' = 5])
  fix x
  assume "x \<in> set (ordinals Seconds (sf_seconds s))"
  then have "valid_dt (dt y mo d h mi x)" using v fields_okD(6) [OF ok] by (auto simp: level_simps)
  from second_runs [OF laws this, of s "flags i 5"]
  show "solves (True \<and> x = dt_second i) (second_body ch s y mo d h mi x) i 5 (\<le>) (emit_time ch s y mo d h mi x) UNIV ()"
    by (auto simp: solves_def)
qed (use i fields_okD(6) [OF ok] in \<open>auto simp: level_simps next_minute_body_def\<close>)

lemma next_hour_solves:
  assumes laws: "chrono_laws ch" and ok: "fields_ok s" and v: "valid_dt (dt y mo d h 0 0)" and i: "valid_dt i"
  shows "solves True (next_hour_body ch s y mo d h) i 3 (lexle (<) (lexle (<) (\<le>)))
    (emit_hour ch s y mo d h) (min_set s) (dt_minute i, dt_second i, ())"
  unfolding min_set_def
proof (rule level [where dir = "\<lambda>r. r" and lo = 0 and hi = 59 and lo' = "dt_minute i" and hi' = 59
      and os = "ordinals Minutes (sf_minutes s)" and g = reset_hour and k' = 4])
  fix x
  assume "x \<in> set (ordinals Minutes (sf_minutes s))"
  then have "valid_dt (dt y mo d h x 0)" using v fields_okD(5) [OF ok] by (auto simp: level_simps)
  from next_minute_solves [OF laws ok this i]
  show "solves (True \<and> x = dt_minute i) (next_minute_body ch s y mo d h x) i 4 (lexle (<) (\<le>))
      (emit_min ch s y mo d h x) (sec_set s) (dt_second i, ())"
    by (rule solves_weaken)
qed (use i fields_okD(5) [OF ok] in \<open>auto simp: level_simps next_hour_body_def\<close>)

lemma next_day_solves:
  assumes laws: "chrono_laws ch" and ok: "fields_ok s" and v: "valid_dt (dt y mo d 0 0 0)" and i: "valid_dt i"
  shows "solves True (next_day_body ch s y mo d) i 2 (lexle (<) (lexle (<) (lexle (<) (\<le>)))) (emit_day y mo d)
    (if weekday_ok ch s y mo d then time_set s else {}) (dt_hour i, dt_minute i, dt_second i, ())"
proof -
  let ?os = "ordinals Hours (sf_hours s)"
  define f where "f q = (let (start, q1) = hour_lower_bound q;
          q2 = (if start \<notin> set ?os then reset_hour q1 else q1) in
      then_do (btree_range start (inclusive_max Hours) ?os) (\<lambda>range.
        then_reset reset_day_of_month (for_loop (next_hour_body ch s y mo d) range q2)))" for q
  have f: "next_day_body ch s y mo d q = catch_continue (f q)" for q
    by (cases "btree_range (fst (hour_lower_bound q)) (inclusive_max Hours) ?os")
      (simp_all add: next_day_body_def f_def catch_continue_def Let_def case_prod_unfold)
  have "solves True f i 2 (lexle (<) (lexle (<) (lexle (<) (\<le>)))) (case_prod (emit_hour ch s y mo d))
    (time_set s) (dt_hour i, dt_minute i, dt_second i, ())"
    unfolding time_set_def
  proof (rule level [where dir = "\<lambda>r. r" and lo = 0 and hi = 23 and lo' = "dt_hour i" and hi' = 23
        and os = ?os and g = reset_day_of_month and k' = 3])
    fix x
    assume "x \<in> set ?os"
    then have "valid_dt (dt y mo d x 0 0)" using v fields_okD(4) [OF ok] by (auto simp: level_simps)
    from next_hour_solves [OF laws ok this i]
    show "solves (True \<and> x = dt_hour i) (next_hour_body ch s y mo d x) i 3 (lexle (<) (lexle (<) (\<le>)))
        (emit_hour ch s y mo d x) (min_set s) (dt_minute i, dt_second i, ())"
      by (rule solves_weaken)
  qed (use i fields_okD(4) [OF ok] in \<open>auto simp: level_simps f_def\<close>)
  then show ?thesis by (rule solves_catch [OF f])
qed

lemma next_month_solves:
  assumes laws: "chrono_laws ch" and ok: "fields_ok s" and mo: "1 \<le> mo" "mo \<le> 12" and i: "valid_dt i"
  shows "solves (y = dt_year i \<and> mo = dt_month i) (next_month_body ch s y mo) i 1
    (lexle (<) (lexle (<) (lexle (<) (lexle (<) (\<le>))))) (case_prod (emit_day y mo)) (day_set ch s y mo)
    (dt_day i, dt_hour i, dt_minute i, dt_second i, ())"
  unfolding day_set_def
proof (rule level [where dir = "\<lambda>r. r" and lo = 1 and hi = "days_in_month mo y" and lo' = "dt_day i"
      and hi' = "days_in_month mo y" and os = "ordinals DaysOfMonth (sf_days_of_month s)" and g = reset_month and k' = 2])
  fix x
  assume "x \<in> {d \<in> set (ordinals DaysOfMonth (sf_days_of_month s)). d \<le> days_in_month mo y}"
  then have "valid_dt (dt y mo x 0 0 0)" using mo fields_okD(3) [OF ok] by (auto simp: level_simps)
  from next_day_solves [OF laws ok this i]
  show "solves ((y = dt_year i \<and> mo = dt_month i) \<and> x = dt_day i) (next_day_body ch s y mo x) i 2
      (lexle (<) (lexle (<) (lexle (<) (\<le>)))) (emit_day y mo x)
      (if weekday_ok ch s y mo x then time_set s else {}) (dt_hour i, dt_minute i, dt_second i, ())"
    by (rule solves_weaken)
next
  show "1 \<le> days_in_month mo y" by (simp add: days_in_month_def)
qed (use i fields_okD(3) [OF ok] in \<open>auto simp: level_simps next_month_body_def\<close>)

lemma next_year_solves:
  assumes laws: "chrono_laws ch" and ok: "fields_ok s" and i: "valid_dt i"
  shows "solves (y = dt_year i) (next_year_body ch s y) i 0
    (lexle (<) (lexle (<) (lexle (<) (lexle (<) (lexle (<) (\<le>)))))) (case_prod (\<lambda>mo. case_prod (emit_day y mo)))
    (month_set ch s y) (dt_month i, dt_day i, dt_hour i, dt_minute i, dt_second i, ())"
  unfolding month_set_def
proof (rule level [where dir = "\<lambda>r. r" and lo = 1 and hi = 12 and lo' = "dt_month i"
      and hi' = 12 and os = "ordinals Months (sf_months s)" and g = "\<lambda>q. q" and k' = 1])
  fix x
  assume "x \<in> set (ordinals Months (sf_months s))"
  then have "1 \<le> x" "x \<le> 12" using fields_okD(2) [OF ok] by (auto simp: level_simps)
  from next_month_solves [OF laws ok this i]
  show "solves (y = dt_year i \<and> x = dt_month i) (next_month_body ch s y x) i 1
      (lexle (<) (lexle (<) (lexle (<) (lexle (<) (\<le>))))) (case_prod (emit_day y x)) (day_set ch s y x)
      (dt_day i, dt_hour i, dt_minute i, dt_second i, ())" .
qed (use i fields_okD(2) [OF ok] in \<open>auto simp: level_simps next_year_body_def\<close>)

subsection \<open>Backwards\<close>

lemma days_in_month_le: "days_in_month mo y \<le> 31"
  by (simp add: days_in_month_def)

lemma prev_minute_solves:
  assumes laws: "chrono_laws ch" and ok: "fields_ok s" and v: "valid_dt (dt y mo d h mi 0)" and i: "valid_dt i"
  shows "solves True (prev_minute_body ch s y mo d h mi) i 4 (lexle (>) (\<le>)) (emit_min ch s y mo d h mi) (sec_set s) (dt_second i, ())"
  unfolding sec_set_def
proof (rule level [where dir = rev and lo = 0 and hi = 59 and lo' = 0 and hi' = "dt_second i"
      and os = "ordinals Seconds (sf_seconds s)" and g = reset_minute and k' = 5])
  fix x
  assume "x \<in> set (ordinals Seconds (sf_seconds s))"
  then have "valid_dt (dt y mo d h mi x)" using v fields_okD(6) [OF ok] by (auto simp: level_simps)
  from second_runs [OF laws this, of s "flags i 5"]
  show "solves (True \<and> x = dt_second i) (second_body ch s y mo d h mi x) i 5 (\<le>) (emit_time ch s y mo d h mi x) UNIV ()"
    by (auto simp: solves_def)
qed (use i fields_okD(6) [OF ok] in \<open>auto simp: level_simps prev_minute_body_def\<close>)

lemma prev_hour_solves:
  assumes laws: "chrono_laws ch" and ok: "fields_ok s" and v: "valid_dt (dt y mo d h 0 0)" and i: "valid_dt i"
  shows "solves True (prev_hour_body ch s y mo d h) i 3 (lexle (>) (lexle (>) (\<le>)))
    (emit_hour ch s y mo d h) (min_set s) (dt_minute i, dt_second i, ())"
  unfolding min_set_def
proof (rule level [where dir = rev and lo = 0 and hi = 59 and lo' = 0 and hi' = "dt_minute i"
      and os = "ordinals Minutes (sf_minutes s)" and g = reset_hour and k' = 4])
  fix x
  assume "x \<in> set (ordinals Minutes (sf_minutes s))"
  then have "valid_dt (dt y mo d h x 0)" using v fields_okD(5) [OF ok] by (auto simp: level_simps)
  from prev_minute_solves [OF laws ok this i]
  show "solves (True \<and> x = dt_minute i) (prev_minute_body ch s y mo d h x) i 4 (lexle (>) (\<le>))
      (emit_min ch s y mo d h x) (sec_set s) (dt_second i, ())"
    by (rule solves_weaken)
qed (use i fields_okD(5) [OF ok] in \<open>auto simp: level_simps prev_hour_body_def\<close>)

lemma prev_day_solves:
  assumes laws: "chrono_laws ch" and ok: "fields_ok s" and v: "valid_dt (dt y mo d 0 0 0)" and i: "valid_dt i"
  shows "solves True (prev_day_body ch s y mo d) i 2 (lexle (>) (lexle (>) (lexle (>) (\<le>)))) (emit_day y mo d)
    (if weekday_ok ch s y mo d then time_set s else {}) (dt_hour i, dt_minute i, dt_second i, ())"
proof -
  let ?os = "ordinals Hours (sf_hours s)"
  define f where "f q = (let (start, q1) = hour_upper_bound q;
          q2 = (if start \<notin> set ?os then reset_hour q1 else q1) in
      then_do (btree_range (inclusive_min Hours) start ?os) (\<lambda>range.
        then_reset reset_day_of_month (for_loop (prev_hour_body ch s y mo d) (rev range) q2)))" for q
  have f: "prev_day_body ch s y mo d q = catch_continue (f q)" for q
    by (cases "btree_range (inclusive_min Hours) (fst (hour_upper_bound q)) ?os")
      (simp_all add: prev_day_body_def f_def catch_continue_def Let_def case_prod_unfold)
  have "solves True f i 2 (lexle (>) (lexle (>) (lexle (>) (\<le>)))) (case_prod (emit_hour ch s y mo d))
    (time_set s) (dt_hour i, dt_minute i, dt_second i, ())"
    unfolding time_set_def
  proof (rule level [where dir = rev and lo = 0 and hi = 23 and lo' = 0 and hi' = "dt_hour i"
        and os = ?os and g = reset_day_of_month and k' = 3])
    fix x
    assume "x \<in> set ?os"
    then have "valid_dt (dt y mo d x 0 0)" using v fields_okD(4) [OF ok] by (auto simp: level_simps)
    from prev_hour_solves [OF laws ok this i]
    show "solves (True \<and> x = dt_hour i) (prev_hour_body ch s y mo d x) i 3 (lexle (>) (lexle (>) (\<le>)))
        (emit_hour ch s y mo d x) (min_set s) (dt_minute i, dt_second i, ())"
      by (rule solves_weaken)
  qed (use i fields_okD(4) [OF ok] in \<open>auto simp: level_simps f_def\<close>)
  then show ?thesis by (rule solves_catch [OF f])
qed

lemma prev_month_solves:
  assumes laws: "chrono_laws ch" and ok: "fields_ok s" and mo: "1 \<le> mo" "mo \<le> 12" and i: "valid_dt i"
  shows "solves (y = dt_year i \<and> mo = dt_month i) (prev_month_body ch s y mo) i 1
    (lexle (>) (lexle (>) (lexle (>) (lexle (>) (\<le>))))) (case_prod (emit_day y mo)) (day_set ch s y mo)
    (dt_day i, dt_hour i, dt_minute i, dt_second i, ())"
  unfolding day_set_def
proof (rule level [where dir = rev and lo = 1 and hi = "days_in_month mo y" and lo' = 1
      and hi' = "dt_day i" and os = "ordinals DaysOfMonth (sf_days_of_month s)" and g = reset_month and k' = 2])
  fix x
  assume "x \<in> {d \<in> set (ordinals DaysOfMonth (sf_days_of_month s)). d \<le> days_in_month mo y}"
  then have "valid_dt (dt y mo x 0 0 0)" using mo fields_okD(3) [OF ok] by (auto simp: level_simps)
  from prev_day_solves [OF laws ok this i]
  show "solves ((y = dt_year i \<and> mo = dt_month i) \<and> x = dt_day i) (prev_day_body ch s y mo x) i 2
      (lexle (>) (lexle (>) (lexle (>) (\<le>)))) (emit_day y mo x)
      (if weekday_ok ch s y mo x then time_set s else {}) (dt_hour i, dt_minute i, dt_second i, ())"
    by (rule solves_weaken)
next
  show "1 \<le> days_in_month mo y" by (simp add: days_in_month_def)
qed (use i fields_okD(3) [OF ok] in \<open>auto simp: level_simps prev_month_body_def min_absorb1 [OF days_in_month_le] min_absorb2\<close>)

lemma prev_year_solves:
  assumes laws: "chrono_laws ch" and ok: "fields_ok s" and i: "valid_dt i"
  shows "solves (y = dt_year i) (prev_year_body ch s y) i 0
    (lexle (>) (lexle (>) (lexle (>) (lexle (>) (lexle (>) (\<le>)))))) (case_prod (\<lambda>mo. case_prod (emit_day y mo)))
    (month_set ch s y) (dt_month i, dt_day i, dt_hour i, dt_minute i, dt_second i, ())"
  unfolding month_set_def
proof (rule level [where dir = rev and lo = 1 and hi = 12 and lo' = 1
      and hi' = "dt_month i" and os = "ordinals Months (sf_months s)" and g = "\<lambda>q. q" and k' = 1])
  fix x
  assume "x \<in> set (ordinals Months (sf_months s))"
  then have "1 \<le> x" "x \<le> 12" using fields_okD(2) [OF ok] by (auto simp: level_simps)
  from prev_month_solves [OF laws ok this i]
  show "solves (y = dt_year i \<and> x = dt_month i) (prev_month_body ch s y x) i 1
      (lexle (>) (lexle (>) (lexle (>) (lexle (>) (\<le>))))) (case_prod (emit_day y x)) (day_set ch s y x)
      (dt_day i, dt_hour i, dt_minute i, dt_second i, ())" .
qed (use i fields_okD(2) [OF ok] in \<open>auto simp: level_simps prev_year_body_def\<close>)

section \<open>The search as a whole\<close>

lemma lexle_up: "lexle (<) (\<le>) = ((\<le>) :: nat \<times> 'b::linorder \<Rightarrow> _)"
  by (auto simp: lexle_def less_eq_prod_def fun_eq_iff)

lemma lexle_down: "lexle (>) (\<lambda>x y. y \<le> x) = (\<lambda>(p :: nat \<times> 'b::linorder) q. q \<le> p)"
  by (auto simp: lexle_def less_eq_prod_def fun_eq_iff)

lemma next_runs:
  assumes laws: "chrono_laws ch" and ok: "fields_ok s" and i: "valid_dt i"
    and year: "dt_year i \<in> set (ordinals Years (sf_years s)) \<or> (\<forall>y\<in>set (ordinals Years (sf_years s)). y < dt_year i)"
  shows "\<exists>q fl. for_loop (next_year_body ch s) (filter (\<lambda>y. dt_year i \<le> y) (ordinals Years (sf_years s))) (flags i 0) = Inr (q, fl) \<and>
    yields (\<le>) (\<lambda>k. Return (of_key k)) {k \<in> all_set ch s. dt_key i \<le> k} fl"
proof (cases "dt_year i \<in> set (ordinals Years (sf_years s))")
  case True
  let ?Y = "ordinals Years (sf_years s)"
  have "runs (for_loop (next_year_body ch s) (filter (\<lambda>y. dt_year i \<le> y) ?Y) (if dt_year i \<in> set ?Y then flags i 0 else flags i 5))
      (flags i 5) (lexle (<) (lexle (<) (lexle (<) (lexle (<) (lexle (<) (lexle (<) (\<le>)))))))
      (case_prod (\<lambda>y. case_prod (\<lambda>mo. case_prod (emit_day y mo)))) {p \<in> Sigma (set ?Y) (month_set ch s).
        lexle (<) (lexle (<) (lexle (<) (lexle (<) (lexle (<) (lexle (<) (\<le>))))))
          (dt_year i, dt_month i, dt_day i, dt_hour i, dt_minute i, dt_second i, ()) p}"
    by (rule for_loop_fresh)
      (use next_year_solves [OF laws ok i] fields_okD(1) [OF ok] in
        \<open>auto simp: solves_def ordinal_set_def sorted_wrt_filter split: prod.splits\<close>)
  moreover have "case_prod (\<lambda>y. case_prod (\<lambda>mo. case_prod (emit_day y mo))) = (\<lambda>k. Return (of_key k))"
    by (auto simp: of_key_def fun_eq_iff)
  ultimately show ?thesis
    using True by (auto simp: runs_def lexle_up all_set_def dt_key_def)
next
  case False
  with year have y: "\<forall>y\<in>set (ordinals Years (sf_years s)). y < dt_year i" by blast
  then have "filter (\<lambda>y. dt_year i \<le> y) (ordinals Years (sf_years s)) = []"
    by (auto simp: filter_empty_conv)
  moreover have "{k \<in> all_set ch s. dt_key i \<le> k} = {}"
    using y by (fastforce simp: all_set_def dt_key_def less_eq_prod_def)
  ultimately show ?thesis by (simp add: yields_def)
qed

lemma lexle_down_unit: "lexle (>) (\<le>) = (\<lambda>(p :: nat \<times> unit) q. q \<le> p)"
  by (auto simp: lexle_def less_eq_prod_def fun_eq_iff)

lemma prev_runs:
  assumes laws: "chrono_laws ch" and ok: "fields_ok s" and i: "valid_dt i"
    and year: "dt_year i \<in> set (ordinals Years (sf_years s)) \<or> (\<forall>y\<in>set (ordinals Years (sf_years s)). dt_year i < y)"
  shows "\<exists>q fl. for_loop (prev_year_body ch s) (rev (filter (\<lambda>y. y \<le> dt_year i) (ordinals Years (sf_years s)))) (flags i 0) = Inr (q, fl) \<and>
    yields (\<lambda>k l. l \<le> k) (\<lambda>k. Return (of_key k)) {k \<in> all_set ch s. k \<le> dt_key i} fl"
proof (cases "dt_year i \<in> set (ordinals Years (sf_years s))")
  case True
  let ?Y = "ordinals Years (sf_years s)"
  have "runs (for_loop (prev_year_body ch s) (rev (filter (\<lambda>y. y \<le> dt_year i) ?Y)) (if dt_year i \<in> set ?Y then flags i 0 else flags i 5))
      (flags i 5) (lexle (>) (lexle (>) (lexle (>) (lexle (>) (lexle (>) (lexle (>) (\<le>)))))))
      (case_prod (\<lambda>y. case_prod (\<lambda>mo. case_prod (emit_day y mo)))) {p \<in> Sigma (set ?Y) (month_set ch s).
        lexle (>) (lexle (>) (lexle (>) (lexle (>) (lexle (>) (lexle (>) (\<le>))))))
          (dt_year i, dt_month i, dt_day i, dt_hour i, dt_minute i, dt_second i, ()) p}"
    by (rule for_loop_fresh)
      (use prev_year_solves [OF laws ok i] fields_okD(1) [OF ok] in
        \<open>auto simp: solves_def ordinal_set_def sorted_wrt_filter sorted_wrt_rev split: prod.splits\<close>)
  moreover have "case_prod (\<lambda>y. case_prod (\<lambda>mo. case_prod (emit_day y mo))) = (\<lambda>k. Return (of_key k))"
    by (auto simp: of_key_def fun_eq_iff)
  ultimately show ?thesis
    unfolding lexle_down_unit lexle_down using True by (auto simp: runs_def all_set_def dt_key_def)
next
  case False
  with year have y: "\<forall>y\<in>set (ordinals Years (sf_years s)). dt_year i < y" by blast
  then have "filter (\<lambda>y. y \<le> dt_year i) (ordinals Years (sf_years s)) = []"
    by (auto simp: filter_empty_conv)
  moreover have "{k \<in> all_set ch s. k \<le> dt_key i} = {}"
    using y by (fastforce simp: all_set_def dt_key_def less_eq_prod_def)
  ultimately show ?thesis by (simp add: yields_def)
qed

text \<open>
  The specification: the earliest instant of the schedule strictly after a given one,
  and the latest strictly before it.
\<close>

definition earliest_after :: "chrono \<Rightarrow> ScheduleFields \<Rightarrow> DateTime \<Rightarrow> DateTime option \<Rightarrow> bool" where
  "earliest_after ch s t r \<longleftrightarrow>
     (let M = {c. valid_dt c \<and> schedule_includes ch s c \<and> dt_key t < dt_key c} in
      case r of None \<Rightarrow> M = {} | Some c \<Rightarrow> c \<in> M \<and> (\<forall>c'\<in>M. dt_key c \<le> dt_key c'))"

definition latest_before :: "chrono \<Rightarrow> ScheduleFields \<Rightarrow> DateTime \<Rightarrow> DateTime option \<Rightarrow> bool" where
  "latest_before ch s t r \<longleftrightarrow>
     (let M = {c. valid_dt c \<and> schedule_includes ch s c \<and> dt_key c < dt_key t} in
      case r of None \<Rightarrow> M = {} | Some c \<Rightarrow> c \<in> M \<and> (\<forall>c'\<in>M. dt_key c' \<le> dt_key c))"

lemma next_after_earliest:
  assumes laws: "chrono_laws ch" and ok: "fields_ok s" and t: "valid_dt t"
    and year: "dt_year (plus_one_second ch t) \<in> set (ordinals Years (sf_years s)) \<or>
      (\<forall>y\<in>set (ordinals Years (sf_years s)). y < dt_year (plus_one_second ch t))"
  shows "\<exists>r. next_after ch s t = Inr r \<and> earliest_after ch s t r"
proof -
  let ?i = "plus_one_second ch t"
  have i: "valid_dt ?i" using laws t by (rule chrono_next)
  obtain q fl where l: "for_loop (next_year_body ch s) (filter (\<lambda>y. dt_year ?i \<le> y) (ordinals Years (sf_years s))) (flags ?i 0) = Inr (q, fl)"
    and y: "yields (\<le>) (\<lambda>k. Return (of_key k)) {k \<in> all_set ch s. dt_key ?i \<le> k} fl"
    using next_runs [OF laws ok i year] by blast
  have M: "{k \<in> all_set ch s. dt_key ?i \<le> k} = dt_key ` {c. valid_dt c \<and> schedule_includes ch s c \<and> dt_key t < dt_key c}"
  proof (rule set_eqI)
    fix k
    have "dt_key t < k \<longleftrightarrow> dt_key ?i \<le> k" if "valid_dt (of_key k)"
      using chrono_next(2) [OF laws t that] by (simp only: of_key_dt_key)
    then show "k \<in> {k \<in> all_set ch s. dt_key ?i \<le> k} \<longleftrightarrow>
        k \<in> dt_key ` {c. valid_dt c \<and> schedule_includes ch s c \<and> dt_key t < dt_key c}"
      unfolding key_image mem_Collect_eq all_set_iff [OF laws ok] of_key_dt_key by blast
  qed
  have e: "next_after ch s t = Inr (case fl of Return c \<Rightarrow> Some c | _ \<Rightarrow> None)"
    using l by (simp add: next_after_def flags_start year_bound_def flags_def returned_def)
  show ?thesis
    using y unfolding M yields_def e earliest_after_def Let_def by (auto split: flow.splits)
qed

lemma prev_before_latest:
  assumes laws: "chrono_laws ch" and ok: "fields_ok s" and t: "valid_dt t" "1 \<le> dt_year t"
    and year: "dt_year (minus_one_second ch t) \<in> set (ordinals Years (sf_years s)) \<or>
      (\<forall>y\<in>set (ordinals Years (sf_years s)). dt_year (minus_one_second ch t) < y)"
  shows "\<exists>r. prev_before ch s t = Inr r \<and> latest_before ch s t r"
proof -
  let ?i = "minus_one_second ch t"
  have i: "valid_dt ?i" using laws t by (rule chrono_prev)
  obtain q fl where l: "for_loop (prev_year_body ch s) (rev (filter (\<lambda>y. y \<le> dt_year ?i) (ordinals Years (sf_years s)))) (flags ?i 0) = Inr (q, fl)"
    and y: "yields (\<lambda>k l. l \<le> k) (\<lambda>k. Return (of_key k)) {k \<in> all_set ch s. k \<le> dt_key ?i} fl"
    using prev_runs [OF laws ok i year] by blast
  have M: "{k \<in> all_set ch s. k \<le> dt_key ?i} = dt_key ` {c. valid_dt c \<and> schedule_includes ch s c \<and> dt_key c < dt_key t}"
  proof (rule set_eqI)
    fix k
    have "k < dt_key t \<longleftrightarrow> k \<le> dt_key ?i" if "valid_dt (of_key k)"
      using chrono_prev(2) [OF laws t that] by (simp only: of_key_dt_key)
    then show "k \<in> {k \<in> all_set ch s. k \<le> dt_key ?i} \<longleftrightarrow>
        k \<in> dt_key ` {c. valid_dt c \<and> schedule_includes ch s c \<and> dt_key c < dt_key t}"
      unfolding key_image mem_Collect_eq all_set_iff [OF laws ok] of_key_dt_key by blast
  qed
  have e: "prev_before ch s t = Inr (case fl of Return c \<Rightarrow> Some c | _ \<Rightarrow> None)"
    using l by (simp add: prev_before_def flags_start year_bound_def flags_def returned_def)
  show ?thesis
    using y unfolding M yields_def e latest_before_def Let_def by (auto split: flow.splits)
qed

section \<open>Schedules the parser builds\<close>

lemma longhand_fields_ok:
  "longhand_fields sec mi h md mon wd yr = Inr s \<Longrightarrow> fields_ok s"
  unfolding longhand_fields_def then_do_eq_Inr
  using seconds.from_field_denotes minutes.from_field_denotes hours.from_field_denotes
    days_of_month.from_field_denotes months.from_field_denotes years.from_field_denotes years.all_ordinal_set
  by (cases yr) (auto simp: fields_ok_def ScheduleFields_new_def)

lemma shorthand_fields_ok:
  "fields_ok shorthand_yearly" "fields_ok shorthand_monthly" "fields_ok shorthand_weekly"
  "fields_ok shorthand_daily" "fields_ok shorthand_hourly"
  using months.all_ordinal_set days_of_month.all_ordinal_set hours.all_ordinal_set years.all_ordinal_set
  by (simp_all add: fields_ok_def shorthand_yearly_def shorthand_monthly_def shorthand_weekly_def
      shorthand_daily_def shorthand_hourly_def ScheduleFields_new_def from_ordinal_def
      seconds.single_ordinal_set minutes.single_ordinal_set hours.single_ordinal_set
      days_of_month.single_ordinal_set months.single_ordinal_set)

lemma all_years: "set (ordinals Years None) = {1970 .. 2100}"
  using years.set_all by (simp only: unit_bounds)

text \<open>With the year left open the search is exact for every instant up to the end of 2100.\<close>

lemma next_after_open_year:
  assumes "chrono_laws ch" and "fields_ok s" and "valid_dt t" and "sf_years s = None"
    and "1970 \<le> dt_year (plus_one_second ch t)"
  shows "\<exists>r. next_after ch s t = Inr r \<and> earliest_after ch s t r"
  using assms by (intro next_after_earliest) (auto simp: all_years)

section \<open>Years that are not in the schedule\<close>

text \<open>
  When the instant's year is not in the schedule the search starts the first later year at
  the instant's own month, day and time instead of at the beginning of that year.
\<close>

definition new_year_2020 :: ScheduleFields where
  "new_year_2020 = ScheduleFields_new (from_ordinal 0) (from_ordinal 0) (from_ordinal 0) (from_ordinal 1)
     (from_ordinal 1) None (from_ordinal 2020)"

lemma new_year_2020_simps [simp]:
  "sf_years new_year_2020 = Some [2020]" "sf_months new_year_2020 = Some [1]" "sf_days_of_month new_year_2020 = Some [1]"
  "sf_days_of_week new_year_2020 = None"
  "sf_hours new_year_2020 = Some [0]" "sf_minutes new_year_2020 = Some [0]" "sf_seconds new_year_2020 = Some [0]"
  by (simp_all add: new_year_2020_def ScheduleFields_new_def from_ordinal_def)

lemma new_year_2020_missed:
  assumes laws: "chrono_laws ch" and t: "valid_dt t" "dt_year (plus_one_second ch t) = 2017" "dt_month (plus_one_second ch t) = 6"
  shows "next_after ch new_year_2020 t = Inr None \<and>
    valid_dt (dt 2020 1 1 0 0 0) \<and> schedule_includes ch new_year_2020 (dt 2020 1 1 0 0 0) \<and>
    dt_key t < dt_key (dt 2020 1 1 0 0 0)"
proof -
  have v: "valid_dt (dt 2020 1 1 0 0 0)" by (simp add: valid_dt_def days_in_month_def)
  have "dt_key (plus_one_second ch t) \<le> dt_key (dt 2020 1 1 0 0 0)"
    using t by (simp add: dt_key_def)
  then have "dt_key t < dt_key (dt 2020 1 1 0 0 0)" using chrono_next(2) [OF laws t(1) v] by blast
  moreover have "number_from_sunday ch (dt 2020 1 1 0 0 0) \<in> {1 .. 7}"
    using laws by (simp add: chrono_laws_def weekday_law_def)
  then have "schedule_includes ch new_year_2020 (dt 2020 1 1 0 0 0)"
    by (simp add: schedule_includes_def unit_includes_def days_of_week.set_all ordinals_def [of Years] ordinals_def [of Months]
        ordinals_def [of DaysOfMonth] ordinals_def [of Hours] ordinals_def [of Minutes] ordinals_def [of Seconds])
  moreover have "next_after ch new_year_2020 t = Inr None"
    using t by (simp add: next_after_def year_bound_def flags_start flags_def ordinals_def next_year_body_def
        btree_range_def returned_def month_lower_bound_def)
  ultimately show ?thesis using v by blast
qed

text \<open>The same start in February 29 makes the range of days empty, which panics.\<close>

lemma leap_day_panics:
  assumes "dt_year (plus_one_second ch t) = 2016" "dt_month (plus_one_second ch t) = 2" "dt_day (plus_one_second ch t) = 29"
    and "sf_years s = Some [2017]" and "sf_months s = None"
  shows "next_after ch s t = Inl Panic"
proof -
  have "btree_range 2 12 (ordinals Months None) = Inr [2, 3, 4, 5, 6, 7, 8, 9, 10, 11, 12]"
    by (simp add: btree_range_def ordinals_def supported_ordinals_def upt_rec)
  moreover have "2 \<in> set (ordinals Months None)"
    by (simp add: ordinals_def supported_ordinals_def)
  moreover have "days_in_month 2 2017 = 28"
    by (simp add: days_in_month_def is_leap_year_def)
  ultimately show ?thesis
    using assms by (simp add: next_after_def year_bound_def flags_start flags_def ordinals_def [of Years] next_year_body_def
        returned_def month_lower_bound_def next_month_body_def day_of_month_lower_bound_def btree_range_def [of 29])
qed

end
