(* ===== verification/Thread_State.thy ===== *)
theory Thread_State
  imports Fiber_Program Thread_Config Cron_Search
begin

text \<open>
  \<open>programs/thread/src/state/thread.rs\<close>, \<open>utils.rs\<close>, \<open>constants.rs\<close> and the
  \<open>ThreadId\<close> of \<open>lib.rs\<close>: the thread account, its triggers and schedule, the cursor
  over its fibers, trigger validation, rescheduling, payments and the durable nonce.

  A handler works on the deserialised copy of the thread that Anchor hands to it
  (\<open>Thread\<close>) next to the account store (\<open>bank\<close>) that holds every account's lamports and
  data; an account argument is its address. A cross-program invocation changes the store
  but not the copy. What the repository does not contain enters through \<open>thread_env\<close>.
\<close>

section \<open>Data\<close>

datatype Trigger =
    Account pubkey u64 u64
  | Immediate u64
  | Timestamp i64 u64
  | Interval i64 bool u64
  | Cron string bool u64
  | Slot u64
  | Epoch u64

datatype Schedule = OnChange u64 | Timed i64 i64 | Block u64 u64

datatype Signal =
    Signal_None
  | Chain
  | Close
  | Repeat
  | Next u8
  | Update "bool option" "Trigger option" "u8 option"

record Thread =
  th_version :: u8
  th_bump :: u8
  th_authority :: pubkey
  th_id :: bytes
  th_name :: string
  th_created_at :: i64
  th_trigger :: Trigger
  th_schedule :: Schedule
  th_fiber_ids :: "u8 list"
  th_fiber_cursor :: u8
  th_fiber_next_id :: u8
  th_fiber_signal :: Signal
  th_paused :: bool
  th_exec_count :: u64
  th_last_executor :: pubkey
  th_nonce_account :: pubkey
  th_last_nonce :: string
  th_close_fiber :: bytes

record Clock =
  clk_slot :: u64
  clk_epoch :: u64
  unix_timestamp :: i64

datatype ThreadId = Id_Bytes bytes | Id_Pubkey pubkey

definition CURRENT_THREAD_VERSION :: u8 where "CURRENT_THREAD_VERSION = 1"

text \<open>The bytes of \<open>thread_config\<close> and \<open>thread\<close>, and the decoded program ids.\<close>

definition SEED_CONFIG :: bytes where
  "SEED_CONFIG = [116, 104, 114, 101, 97, 100, 95, 99, 111, 110, 102, 105, 103]"

definition SEED_THREAD :: bytes where
  "SEED_THREAD = [116, 104, 114, 101, 97, 100]"

definition THREAD_PROGRAM_ID :: pubkey where
  "THREAD_PROGRAM_ID = [143, 213, 68, 94, 203, 55, 55, 20, 74, 217, 226, 165, 237, 234, 91, 138,
     213, 0, 116, 229, 96, 122, 196, 80, 237, 223, 60, 170, 202, 206, 93, 77]"

definition SYSTEM_PROGRAM_ID :: pubkey where "SYSTEM_PROGRAM_ID = pubkey_default"

text \<open>
  The code outside the repository: the two hashes of \<open>DefaultHasher\<close> the sources form,
  the cron grammar, \<open>chrono\<close>, the runtime's \<open>invoke_signed\<close> with \<open>get_return_data\<close>
  (the new store and what the callee returned), the system program's nonce and transfer
  instructions, Borsh for the thread types, program derived addresses with a known bump,
  Anchor's \<open>close\<close> constraint and its instruction discriminators.
\<close>

record thread_env =
  fenv :: fiber_env
  chron :: chrono
  parse_schedule :: "string \<Rightarrow> ScheduleFields option"
  hash_jitter :: "i64 \<Rightarrow> pubkey \<Rightarrow> u64"
  hash_slice :: "bytes \<Rightarrow> u64"
  invoke_signed :: "Instruction \<Rightarrow> pubkey list \<Rightarrow> pubkey list \<Rightarrow> bank \<Rightarrow> error + bank \<times> (pubkey \<times> bytes) option"
  advance_nonce_account :: "pubkey \<Rightarrow> pubkey \<Rightarrow> pubkey \<Rightarrow> bank \<Rightarrow> error + bank"
  create_nonce_account :: "pubkey \<Rightarrow> pubkey \<Rightarrow> pubkey \<Rightarrow> pubkey \<Rightarrow> u64 \<Rightarrow> pubkey \<Rightarrow> bank \<Rightarrow> error + bank"
  NONCE_STATE_SIZE :: nat
  system_transfer :: "pubkey \<Rightarrow> pubkey \<Rightarrow> u64 \<Rightarrow> bank \<Rightarrow> error + bank"
  close_account :: "pubkey \<Rightarrow> pubkey \<Rightarrow> bank \<Rightarrow> error + bank"
  create_program_address :: "bytes list \<Rightarrow> pubkey \<Rightarrow> pubkey option"
  try_from_slice_signal :: "bytes \<Rightarrow> Signal option"
  to_vec_thread :: "Thread \<Rightarrow> bytes"
  from_utf8_lossy :: "bytes \<Rightarrow> string"
  pubkey_to_string :: "pubkey \<Rightarrow> string"
  DISC_DELETE_THREAD :: bytes
  DISC_CLOSE_THREAD :: bytes

section \<open>Thread identifiers\<close>

fun thread_id_bytes :: "ThreadId \<Rightarrow> bytes" where
  "thread_id_bytes (Id_Bytes bs) = bs"
| "thread_id_bytes (Id_Pubkey k) = k"

fun thread_id_len :: "ThreadId \<Rightarrow> nat" where
  "thread_id_len (Id_Bytes bs) = length bs"
| "thread_id_len (Id_Pubkey _) = 32"

fun thread_id_to_name :: "thread_env \<Rightarrow> ThreadId \<Rightarrow> string" where
  "thread_id_to_name env (Id_Bytes bs) = from_utf8_lossy env bs"
| "thread_id_to_name env (Id_Pubkey k) = pubkey_to_string env k"

definition thread_pubkey :: "thread_env \<Rightarrow> pubkey \<Rightarrow> bytes \<Rightarrow> error + pubkey" where
  "thread_pubkey env authority id_bytes =
     then_do (require (length id_bytes \<le> 32) Panic) (\<lambda>_.
       Inr (fst (find_program_address (fenv env) [SEED_THREAD, authority, id_bytes] THREAD_PROGRAM_ID)))"

definition get_seed_bytes :: "Thread \<Rightarrow> bytes list" where
  "get_seed_bytes th = [SEED_THREAD, th_authority th, th_id th, [th_bump th]]"

text \<open>Anchor's \<open>seeds = [SEED_THREAD, authority, id], bump = thread.bump\<close>.\<close>

definition thread_seeds_ok :: "thread_env \<Rightarrow> pubkey \<Rightarrow> Thread \<Rightarrow> bool" where
  "thread_seeds_ok env key th \<longleftrightarrow> create_program_address env (get_seed_bytes th) THREAD_PROGRAM_ID = Some key"

definition config_seeds_ok :: "thread_env \<Rightarrow> pubkey \<Rightarrow> ThreadConfig \<Rightarrow> bool" where
  "config_seeds_ok env key cfg \<longleftrightarrow>
     create_program_address env [SEED_CONFIG, [cfg_bump cfg]] THREAD_PROGRAM_ID = Some key"

section \<open>The cursor\<close>

definition has_nonce_account :: "Thread \<Rightarrow> bool" where
  "has_nonce_account th \<longleftrightarrow> th_nonce_account th \<noteq> SYSTEM_PROGRAM_ID \<and> th_nonce_account th \<noteq> THREAD_PROGRAM_ID"

definition next_fiber_index :: "Thread \<Rightarrow> u8" where
  "next_fiber_index th =
     (if th_fiber_ids th = [] then 0
      else case position (\<lambda>x. x = th_fiber_cursor th) (th_fiber_ids th) of
        Some current_pos \<Rightarrow> th_fiber_ids th ! ((current_pos + 1) mod length (th_fiber_ids th))
      | None \<Rightarrow> hd (th_fiber_ids th))"

definition advance_to_next_fiber :: "Thread \<Rightarrow> Thread" where
  "advance_to_next_fiber th =
     (if th_fiber_ids th = [] then th\<lparr>th_fiber_cursor := 0\<rparr>
      else case position (\<lambda>x. x = th_fiber_cursor th) (th_fiber_ids th) of
        Some current_pos \<Rightarrow>
          th\<lparr>th_fiber_cursor := th_fiber_ids th ! ((current_pos + 1) mod length (th_fiber_ids th))\<rparr>
      | None \<Rightarrow> th\<lparr>th_fiber_cursor := hd (th_fiber_ids th)\<rparr>)"

definition fiber_at_index :: "thread_env \<Rightarrow> pubkey \<Rightarrow> u8 \<Rightarrow> pubkey" where
  "fiber_at_index env key fiber_index =
     fst (find_program_address (fenv env) [SEED_THREAD_FIBER, key, [fiber_index]] FIBER_PROGRAM_ID)"

definition current_fiber :: "thread_env \<Rightarrow> pubkey \<Rightarrow> Thread \<Rightarrow> pubkey" where
  "current_fiber env key th = fiber_at_index env key (th_fiber_cursor th)"

definition next_fiber :: "thread_env \<Rightarrow> pubkey \<Rightarrow> Thread \<Rightarrow> pubkey" where
  "next_fiber env key th =
     (let next_index =
        (if th_fiber_ids th = [] then 0
         else case position (\<lambda>x. x = th_fiber_cursor th) (th_fiber_ids th) of
           Some current_pos \<Rightarrow> th_fiber_ids th ! ((current_pos + 1) mod length (th_fiber_ids th))
         | None \<Rightarrow> hd (th_fiber_ids th))
      in fiber_at_index env key next_index)"

definition is_ready :: "Thread \<Rightarrow> u64 \<Rightarrow> i64 \<Rightarrow> bool" where
  "is_ready th current_slot current_timestamp =
     (case th_schedule th of
        Timed _ next \<Rightarrow> next \<le> current_timestamp
      | Block _ next \<Rightarrow> (case th_trigger th of Slot _ \<Rightarrow> next \<le> current_slot | _ \<Rightarrow> False)
      | OnChange _ \<Rightarrow> False)"

definition validate_for_execution :: "Thread \<Rightarrow> error + unit" where
  "validate_for_execution th =
     then_do (require (th_fiber_ids th \<noteq> []) (ThreadErr ThreadHasNoFibersToExecute)) (\<lambda>_.
       require (th_fiber_cursor th \<in> set (th_fiber_ids th)) (ThreadErr InvalidExecIndex))"

section \<open>Time\<close>

definition next_timestamp :: "thread_env \<Rightarrow> i64 \<Rightarrow> string \<Rightarrow> error + i64 option" where
  "next_timestamp env after schedule =
     then_do (ok_or (parse_schedule env schedule) Panic) (\<lambda>s.
     then_do (ok_or (from_timestamp (chron env) after) Panic) (\<lambda>t.
     then_do (next_after (chron env) s t) (\<lambda>n. Inr (map_option (timestamp (chron env)) n))))"

definition calculate_jitter_offset :: "thread_env \<Rightarrow> i64 \<Rightarrow> pubkey \<Rightarrow> u64 \<Rightarrow> i64" where
  "calculate_jitter_offset env prev_timestamp key jitter =
     (if jitter = 0 then 0 else u64_as_i64 (hash_jitter env prev_timestamp key mod jitter))"

definition get_last_started_at :: "Thread \<Rightarrow> i64" where
  "get_last_started_at th =
     (case th_schedule th of Timed prev _ \<Rightarrow> prev | Block prev _ \<Rightarrow> u64_as_i64 prev | OnChange _ \<Rightarrow> th_created_at th)"

text \<open>
  The hash of the watched bytes: a window end above \<open>usize\<close> and a window that starts
  behind the data both panic.
\<close>

definition account_data_hash :: "thread_env \<Rightarrow> u64 \<Rightarrow> u64 \<Rightarrow> bytes \<Rightarrow> error + u64" where
  "account_data_hash env offset sz data =
     then_do (ok_or (checked_add offset sz) Panic) (\<lambda>range_end.
       if length data > unat range_end
       then Inr (hash_slice env (take (unat sz) (drop (unat offset) data)))
       else if unat offset \<le> length data then Inr (hash_slice env (drop (unat offset) data))
       else Inl Panic)"

definition validate_trigger :: "thread_env \<Rightarrow> Clock \<Rightarrow> pubkey list \<Rightarrow> pubkey \<Rightarrow> bank \<Rightarrow> Thread \<Rightarrow> error + i64" where
  "validate_trigger env clock remaining_accounts key b th =
     (let last_started_at = get_last_started_at th;
          now = unix_timestamp clock;
          failed = ThreadErr TriggerConditionFailed;
          timed = (case th_schedule th of Timed _ next \<Rightarrow> Inr next | _ \<Rightarrow> Inl failed) in
      then_do
       (case th_trigger th of
          Immediate jitter \<Rightarrow>
            Inr (i64_saturating_add now (calculate_jitter_offset env last_started_at key jitter))
        | Timestamp unix_ts jitter \<Rightarrow>
            let trigger_time = i64_saturating_add unix_ts (calculate_jitter_offset env last_started_at key jitter) in
            then_do (require (trigger_time \<le> now) failed) (\<lambda>_. Inr trigger_time)
        | Slot slot \<Rightarrow>
            then_do (require (slot \<le> clk_slot clock) failed) (\<lambda>_.
            then_do (ok_or (i64_checked (u64_as_i64 (clk_slot clock - slot) * 400)) Panic) (\<lambda>ms.
              ok_or (i64_checked (now - (if 0 \<le> ms then ms div 1000 else - ((- ms) div 1000)))) Panic))
        | Epoch epoch \<Rightarrow>
            then_do (require (epoch \<le> clk_epoch clock) failed) (\<lambda>_. Inr now)
        | Interval _ _ _ \<Rightarrow>
            then_do timed (\<lambda>trigger_time.
            then_do (require (trigger_time \<le> now) failed) (\<lambda>_. Inr trigger_time))
        | Cron _ _ _ \<Rightarrow>
            then_do timed (\<lambda>trigger_time.
            then_do (require (trigger_time \<le> now) failed) (\<lambda>_. Inr trigger_time))
        | Account address offset sz \<Rightarrow>
            (case remaining_accounts of
               [] \<Rightarrow> Inl failed
             | account_info # _ \<Rightarrow>
                 then_do (require (address = account_info) failed) (\<lambda>_.
                 then_do (account_data_hash env offset sz (acc_data (b account_info))) (\<lambda>data_hash.
                 then_do (case th_schedule th of
                            OnChange prior_hash \<Rightarrow> require (data_hash \<noteq> prior_hash) failed
                          | _ \<Rightarrow> Inr ()) (\<lambda>_. Inr now)))))
       (\<lambda>trigger_ready_time. Inr (i64_saturating_sub now trigger_ready_time)))"

definition update_schedule :: "thread_env \<Rightarrow> Clock \<Rightarrow> pubkey list \<Rightarrow> pubkey \<Rightarrow> bank \<Rightarrow> Thread \<Rightarrow> error + Thread" where
  "update_schedule env clock remaining_accounts key b th =
     (let now = unix_timestamp clock in
      then_do
       (case th_trigger th of
          Account _ offset sz \<Rightarrow>
            (case remaining_accounts of
               [] \<Rightarrow> Inl (ThreadErr TriggerConditionFailed)
             | account_info # _ \<Rightarrow>
                 then_do (account_data_hash env offset sz (acc_data (b account_info))) (\<lambda>data_hash.
                   Inr (OnChange data_hash)))
        | Cron schedule _ jitter \<Rightarrow>
            then_do (next_timestamp env now schedule) (\<lambda>n.
            then_do (ok_or n (ThreadErr TriggerConditionFailed)) (\<lambda>next_cron.
              Inr (Timed now (i64_saturating_add next_cron (calculate_jitter_offset env now key jitter)))))
        | Immediate _ \<Rightarrow> Inr (Timed now 0)
        | Slot slot \<Rightarrow> Inr (Block (clk_slot clock) slot)
        | Epoch epoch \<Rightarrow> Inr (Block (clk_epoch clock) epoch)
        | Interval seconds _ jitter \<Rightarrow>
            Inr (Timed now (i64_saturating_add (i64_saturating_add now seconds)
                              (calculate_jitter_offset env now key jitter)))
        | Timestamp unix_ts _ \<Rightarrow> Inr (Timed now unix_ts))
       (\<lambda>s. Inr (th\<lparr>th_schedule := s\<rparr>)))"

section \<open>Payments and nonce\<close>

definition transfer_lamports :: "pubkey \<Rightarrow> pubkey \<Rightarrow> u64 \<Rightarrow> bank \<Rightarrow> error + bank" where
  "transfer_lamports from to amount b =
     (if amount = 0 then Inr b else move_lamports from to amount PE_InsufficientFunds PE_ArithmeticOverflow b)"

definition distribute_payments :: "pubkey \<Rightarrow> pubkey \<Rightarrow> pubkey \<Rightarrow> PaymentDetails \<Rightarrow> bank \<Rightarrow> error + bank" where
  "distribute_payments thread_account executor admin payments b =
     then_do (ok_or (checked_add (fee_payer_reimbursement payments) (executor_commission payments)) Panic)
       (\<lambda>total_executor_payment.
     then_do (if total_executor_payment > 0 then transfer_lamports thread_account executor total_executor_payment b
              else Inr b) (\<lambda>b1.
       if core_team_fee payments > 0 then transfer_lamports thread_account admin (core_team_fee payments) b1
       else Inr b1))"

definition advance_nonce_if_required :: "thread_env \<Rightarrow> Thread \<Rightarrow> pubkey \<Rightarrow> pubkey option \<Rightarrow> pubkey option \<Rightarrow> bank \<Rightarrow> error + bank" where
  "advance_nonce_if_required env th thread_account nonce_account recent_blockhashes b =
     (if \<not> has_nonce_account th then Inr b
      else case (nonce_account, recent_blockhashes) of
        (Some nonce_acc, Some recent_bh) \<Rightarrow> advance_nonce_account env nonce_acc recent_bh thread_account b
      | _ \<Rightarrow> Inl (ThreadErr NonceRequired))"

section \<open>Laws of the cursor\<close>

lemma advance_eq: "advance_to_next_fiber th = th\<lparr>th_fiber_cursor := next_fiber_index th\<rparr>"
  by (cases "position (\<lambda>x. x = th_fiber_cursor th) (th_fiber_ids th)")
     (simp_all add: advance_to_next_fiber_def next_fiber_index_def del: position_None)

lemma next_fiber_eq: "next_fiber env key th = fiber_at_index env key (next_fiber_index th)"
  by (simp add: next_fiber_def next_fiber_index_def)

lemma next_fiber_index_in: "th_fiber_ids th \<noteq> [] \<Longrightarrow> next_fiber_index th \<in> set (th_fiber_ids th)"
  by (auto simp: next_fiber_index_def split: option.splits)

text \<open>From the \<open>i\<close>-th fiber, \<open>n\<close> advances lead to the \<open>(i + n)\<close>-th, cyclically.\<close>

lemma advance_nth:
  assumes "distinct (th_fiber_ids th)" and "i < length (th_fiber_ids th)" and "th_fiber_cursor th = th_fiber_ids th ! i"
  shows "next_fiber_index th = th_fiber_ids th ! ((i + 1) mod length (th_fiber_ids th))"
  using position_distinct [OF assms(1,2)] assms by (auto simp: next_fiber_index_def)

lemma advance_cycle:
  assumes "distinct (th_fiber_ids th)" and "i < length (th_fiber_ids th)" and "th_fiber_cursor th = th_fiber_ids th ! i"
  shows "th_fiber_cursor ((advance_to_next_fiber ^^ n) th) = th_fiber_ids th ! ((i + n) mod length (th_fiber_ids th)) \<and>
    th_fiber_ids ((advance_to_next_fiber ^^ n) th) = th_fiber_ids th"
proof (induction n)
  case 0
  then show ?case using assms by simp
next
  case (Suc n)
  let ?th = "(advance_to_next_fiber ^^ n) th" and ?l = "length (th_fiber_ids th)"
  have "(i + n) mod ?l < ?l" using assms(2) by (intro mod_less_divisor) linarith
  then have "next_fiber_index ?th = th_fiber_ids th ! (((i + n) mod ?l + 1) mod ?l)"
    using advance_nth [of ?th "(i + n) mod ?l"] Suc assms(1) by simp
  moreover have "((i + n) mod ?l + 1) mod ?l = (i + Suc n) mod ?l"
    by (simp add: mod_Suc_eq)
  ultimately show ?case using Suc by (simp add: advance_eq [of ?th])
qed

section \<open>Jitter\<close>

lemma u64_as_i64_nonneg:
  assumes "unat w < 2 ^ 63"
  shows "u64_as_i64 w = int (unat w)"
proof -
  have "int (unat w) < int (2 ^ 63)" using assms by (simp only: of_nat_less_iff)
  then have "uint w < 2 ^ 63" by simp
  moreover have "0 \<le> uint w" by simp
  ultimately have "signed_take_bit 63 (uint w) = uint w"
    by (intro signed_take_bit_int_eq_self) linarith+
  then show ?thesis by (simp add: u64_as_i64_def sint_uint)
qed

lemma jitter_range:
  assumes "unat jitter \<le> 2 ^ 63"
  shows "0 \<le> calculate_jitter_offset env t key jitter"
    and "calculate_jitter_offset env t key jitter \<le> int (unat jitter)"
proof -
  let ?h = "hash_jitter env t key mod jitter"
  have "u64_as_i64 ?h = int (unat ?h) \<and> unat ?h < unat jitter" if "jitter \<noteq> 0"
  proof -
    have "unat ?h < unat jitter"
      using that by (simp add: unat_mod unat_gt_0)
    moreover from this have "u64_as_i64 ?h = int (unat ?h)"
      using assms by (intro u64_as_i64_nonneg) simp
    ultimately show ?thesis by simp
  qed
  then show "0 \<le> calculate_jitter_offset env t key jitter"
    and "calculate_jitter_offset env t key jitter \<le> int (unat jitter)"
    unfolding calculate_jitter_offset_def by (auto simp del: of_nat_unat)
qed

section \<open>Validation and rescheduling\<close>

text \<open>No time-based trigger fires early, and the delay it reports is how late it is.\<close>

lemma validate_timed:
  assumes "th_trigger th = Interval secs skip jitter \<or> th_trigger th = Cron cron skip jitter"
  shows "validate_trigger env clock rem key b th =
    (case th_schedule th of
       Timed _ next \<Rightarrow> if next \<le> unix_timestamp clock then Inr (i64_saturating_sub (unix_timestamp clock) next)
                      else Inl (ThreadErr TriggerConditionFailed)
     | _ \<Rightarrow> Inl (ThreadErr TriggerConditionFailed))"
  using assms by (auto simp: validate_trigger_def Let_def split: Schedule.splits)

text \<open>The next time an interval trigger is armed for.\<close>

lemma interval_next_bounds:
  assumes "unat jitter \<le> 2 ^ 63" and "in_i64 (now + secs + int (unat jitter))" and "in_i64 (now + secs)"
  shows "now + secs \<le> i64_saturating_add (i64_saturating_add now secs) (calculate_jitter_offset env t key jitter)"
    and "i64_saturating_add (i64_saturating_add now secs) (calculate_jitter_offset env t key jitter) \<le> now + secs + int (unat jitter)"
  using jitter_range [OF assms(1), of env t key] assms(2,3) by (auto simp: arith_defs)

lemma update_schedule_Interval:
  assumes "th_trigger th = Interval secs skip jitter"
  shows "update_schedule env clock rem key b th = Inr (th\<lparr>th_schedule := Timed (unix_timestamp clock)
    (i64_saturating_add (i64_saturating_add (unix_timestamp clock) secs)
       (calculate_jitter_offset env (unix_timestamp clock) key jitter))\<rparr>)"
  using assms by (simp add: update_schedule_def Let_def)

text \<open>What the thread program relies on in the parser: the schedules it returns are well formed.\<close>

definition parser_laws :: "thread_env \<Rightarrow> bool" where
  "parser_laws env \<longleftrightarrow> (\<forall>str s. parse_schedule env str = Some s \<longrightarrow> fields_ok s)"

text \<open>With the year open, the next timestamp is that of the earliest instant after now.\<close>

lemma next_timestamp_earliest:
  assumes "chrono_laws (chron env)" and "parser_laws env"
    and p: "parse_schedule env str = Some s" "sf_years s = None"
    and t: "from_timestamp (chron env) now = Some t" "1970 \<le> dt_year (plus_one_second (chron env) t)"
  obtains r where "next_timestamp env now str = Inr (map_option (timestamp (chron env)) r)"
    "earliest_after (chron env) s t r"
proof -
  have "valid_dt t" using chrono_timestamp(2) [OF assms(1) t(1)] by blast
  moreover have "fields_ok s" using assms(2) p(1) by (simp add: parser_laws_def)
  ultimately obtain r where "next_after (chron env) s t = Inr r" "earliest_after (chron env) s t r"
    using next_after_open_year [OF assms(1) _ _ p(2) t(2)] by blast
  with p t show thesis by (intro that) (simp_all add: next_timestamp_def)
qed

lemma next_timestamp_later:
  assumes "chrono_laws (chron env)" and "parser_laws env"
    and p: "parse_schedule env str = Some s" "sf_years s = None"
    and t: "from_timestamp (chron env) now = Some t" "1970 \<le> dt_year (plus_one_second (chron env) t)"
    and n: "next_timestamp env now str = Inr (Some n)"
  shows "now < n"
proof -
  obtain r where r: "next_timestamp env now str = Inr (map_option (timestamp (chron env)) r)"
    and e: "earliest_after (chron env) s t r"
    using assms by (rule_tac next_timestamp_earliest)
  from r n obtain c where c: "r = Some c" "n = timestamp (chron env) c" by (cases r) auto
  have "valid_dt t \<and> timestamp (chron env) t = now" using chrono_timestamp(2) [OF assms(1) t(1)] .
  moreover have "valid_dt c" "dt_key t < dt_key c" using e c(1) by (auto simp: earliest_after_def Let_def)
  ultimately show ?thesis using chrono_timestamp(1) [OF assms(1), of t c] c(2) by simp
qed

text \<open>An account trigger that has just been rescheduled waits for the watched bytes to change.\<close>

lemma account_trigger_once:
  assumes "th_trigger th = Account address offset sz" and "update_schedule env clock (address # rem) key b th = Inr th'"
    and "acc_data (b' address) = acc_data (b address)"
  shows "validate_trigger env clock' (address # rem') key b' th' = Inl (ThreadErr TriggerConditionFailed)"
  using assms by (auto simp: update_schedule_def validate_trigger_def Let_def res_simps)

text \<open>A slot trigger looks at the clock only: neither the schedule nor anything else disarms it.\<close>

lemma slot_trigger_same:
  assumes "th_trigger th = Slot slot" and "th_trigger th' = Slot slot"
  shows "validate_trigger env clock rem' key' b' th' = validate_trigger env clock rem key b th"
  using assms by (simp add: validate_trigger_def Let_def)

section \<open>Lamports\<close>

lemma transfer_lamports_total:
  "transfer_lamports from to amount b = Inr b' \<Longrightarrow> finite A \<Longrightarrow> from \<in> A \<Longrightarrow> to \<in> A \<Longrightarrow> total A b' = total A b"
  by (auto simp: transfer_lamports_def move_lamports_total split: if_splits)

lemma transfer_lamports_effect:
  assumes "transfer_lamports from to amount b = Inr b'" and "from \<noteq> to"
  shows "unat (lamports (b' from)) + unat amount = unat (lamports (b from))"
    and "unat (lamports (b' to)) = unat (lamports (b to)) + unat amount"
    and "k \<noteq> from \<Longrightarrow> k \<noteq> to \<Longrightarrow> lamports (b' k) = lamports (b k)"
  using assms move_lamports_effect [OF _ assms(2)] move_lamports_frame(3)
  by (auto simp: transfer_lamports_def split: if_splits)

lemma transfer_lamports_frame:
  assumes "transfer_lamports from to amount b = Inr b'"
  shows "acc_data (b' k) = acc_data (b k)" and "acc_owner (b' k) = acc_owner (b k)"
  using assms move_lamports_frame by (auto simp: transfer_lamports_def split: if_splits)

lemma transfer_if:
  "(if 0 < amount then transfer_lamports from to amount b else Inr b) = transfer_lamports from to amount b"
  by (simp add: transfer_lamports_def word_greater_zero_iff)

lemma distribute_payments_Inr:
  assumes "distribute_payments t e a p b = Inr b'"
  obtains tot b1 where "unat tot = unat (fee_payer_reimbursement p) + unat (executor_commission p)"
    "transfer_lamports t e tot b = Inr b1" "transfer_lamports t a (core_team_fee p) b1 = Inr b'"
  using assms that
  unfolding distribute_payments_def transfer_if by (auto simp: res_simps checked_add_Some)

lemma distribute_payments_total:
  assumes "distribute_payments t e a p b = Inr b'" and "finite A" "t \<in> A" "e \<in> A" "a \<in> A"
  shows "total A b' = total A b"
  using assms by (auto elim!: distribute_payments_Inr simp: transfer_lamports_total)

text \<open>With three different accounts everything paid leaves the thread and arrives.\<close>

lemma distribute_payments_effect:
  assumes "distribute_payments t e a p b = Inr b'" and "t \<noteq> e" "t \<noteq> a" "e \<noteq> a"
  shows "unat (lamports (b' e)) = unat (lamports (b e)) + unat (fee_payer_reimbursement p) + unat (executor_commission p)"
    and "unat (lamports (b' a)) = unat (lamports (b a)) + unat (core_team_fee p)"
    and "unat (lamports (b' t)) + unat (fee_payer_reimbursement p) + unat (executor_commission p) + unat (core_team_fee p)
      = unat (lamports (b t))"
proof -
  obtain tot b1 where tot: "unat tot = unat (fee_payer_reimbursement p) + unat (executor_commission p)"
    and 1: "transfer_lamports t e tot b = Inr b1" and 2: "transfer_lamports t a (core_team_fee p) b1 = Inr b'"
    using assms(1) by (rule distribute_payments_Inr)
  note e1 = transfer_lamports_effect [OF 1 assms(2)] and e2 = transfer_lamports_effect [OF 2 assms(3)]
  show "unat (lamports (b' e)) = unat (lamports (b e)) + unat (fee_payer_reimbursement p) + unat (executor_commission p)"
    using e1(2) e2(3) [of e] assms tot by simp
  show "unat (lamports (b' a)) = unat (lamports (b a)) + unat (core_team_fee p)"
    using e2(2) e1(3) [of a] assms by simp
  show "unat (lamports (b' t)) + unat (fee_payer_reimbursement p) + unat (executor_commission p) + unat (core_team_fee p)
      = unat (lamports (b t))"
    using e1(1) e2(1) tot by simp
qed

end
