(* ===== verification/Thread_Instructions.thy ===== *)
theory Thread_Instructions
  imports Thread_State
begin

text \<open>
  The handlers of \<open>programs/thread/src/instructions\<close> except execution: creating,
  updating, closing, deleting a thread, withdrawing from it, and managing its fibers
  through the fiber program. The account constraints of each \<open>Accounts\<close> struct are the
  checks at its head; \<open>signers\<close> are the addresses that signed the instruction, \<open>key\<close> is
  the thread's address. In a call of the fiber program the thread is the signer.
\<close>

section \<open>Shared pieces\<close>

text \<open>The account constraints of the handlers an authority or the thread itself may call.\<close>

definition authority_or_thread :: "thread_env \<Rightarrow> pubkey list \<Rightarrow> pubkey \<Rightarrow> pubkey \<Rightarrow> Thread \<Rightarrow> error + unit" where
  "authority_or_thread env signers authority key th =
     then_do (require (authority \<in> set signers) AccountNotSigner) (\<lambda>_.
     then_do (require (authority = th_authority th \<or> authority = key) ConstraintRaw) (\<lambda>_.
       require (thread_seeds_ok env key th) ConstraintSeeds))"

definition deletes_thread :: "thread_env \<Rightarrow> SerializableInstruction \<Rightarrow> bool" where
  "deletes_thread env ix \<longleftrightarrow> si_program_id ix = THREAD_PROGRAM_ID \<and> 8 \<le> length (si_data ix) \<and>
     take 8 (si_data ix) = DISC_DELETE_THREAD env"

text \<open>Pre-funding moves the fiber's rent out of the thread when the account is empty.\<close>

definition prefund_fiber :: "thread_env \<Rightarrow> pubkey \<Rightarrow> pubkey \<Rightarrow> bank \<Rightarrow> error + bank" where
  "prefund_fiber env key fiber b =
     (if acc_data (b fiber) = []
      then move_lamports key fiber (minimum_balance (fenv env) FIBER_SPACE) Panic Panic b
      else Inr b)"

definition push_sorted :: "u8 \<Rightarrow> u8 list \<Rightarrow> u8 list" where
  "push_sorted i ids = sort (ids @ [i])"

section \<open>Fibers of a thread\<close>

definition fiber_create :: "thread_env \<Rightarrow> pubkey list \<Rightarrow> pubkey \<Rightarrow> pubkey \<Rightarrow> pubkey \<Rightarrow> u8 \<Rightarrow> SerializableInstruction \<Rightarrow> u64 \<Rightarrow> pubkey list \<Rightarrow> Thread \<Rightarrow> bank \<Rightarrow> error + Thread \<times> bank" where
  "fiber_create env signers authority key fiber fiber_index instruction priority_fee lookup_tables th b =
     then_do (authority_or_thread env signers authority key th) (\<lambda>_.
     then_do (require (\<not> deletes_thread env instruction) (ThreadErr InvalidInstruction)) (\<lambda>_.
     then_do (prefund_fiber env key fiber b) (\<lambda>b1.
     then_do (create_fiber (fenv env) [key] key fiber fiber_index (instruction_from instruction) priority_fee lookup_tables b1) (\<lambda>b2.
     let th1 = (if fiber_index \<notin> set (th_fiber_ids th)
                then th\<lparr>th_fiber_ids := push_sorted fiber_index (th_fiber_ids th)\<rparr> else th);
         th2 = (if th_fiber_next_id th1 \<le> fiber_index
                then th1\<lparr>th_fiber_next_id := u8_saturating_add fiber_index 1\<rparr> else th1)
     in Inr (th2, b2)))))"

definition fiber_update :: "thread_env \<Rightarrow> pubkey list \<Rightarrow> pubkey \<Rightarrow> pubkey \<Rightarrow> pubkey \<Rightarrow> u8 \<Rightarrow> SerializableInstruction option \<Rightarrow> u64 option \<Rightarrow> bool \<Rightarrow> pubkey list option \<Rightarrow> Thread \<Rightarrow> bank \<Rightarrow> error + Thread \<times> bank" where
  "fiber_update env signers authority key fiber fiber_index instruction priority_fee track lookup_tables th b =
     then_do (authority_or_thread env signers authority key th) (\<lambda>_.
     then_do (case instruction of
                Some ix \<Rightarrow> require (\<not> deletes_thread env ix) (ThreadErr InvalidInstruction)
              | None \<Rightarrow> Inr ()) (\<lambda>_.
     let th1 = (if track \<and> fiber_index \<notin> set (th_fiber_ids th) then
                  let th0 = th\<lparr>th_fiber_ids := push_sorted fiber_index (th_fiber_ids th)\<rparr> in
                  if th_fiber_next_id th0 \<le> fiber_index
                  then th0\<lparr>th_fiber_next_id := u8_saturating_add fiber_index 1\<rparr> else th0
                else th) in
     then_do (prefund_fiber env key fiber b) (\<lambda>b1.
     then_do (update_fiber (fenv env) [key] key fiber fiber_index (map_option instruction_from instruction)
                priority_fee lookup_tables b1) (\<lambda>b2.
       Inr (th1, b2)))))"

definition fiber_close :: "thread_env \<Rightarrow> pubkey list \<Rightarrow> pubkey \<Rightarrow> pubkey \<Rightarrow> pubkey \<Rightarrow> u8 \<Rightarrow> Thread \<Rightarrow> bank \<Rightarrow> error + Thread \<times> bank" where
  "fiber_close env signers authority key fiber fiber_index th b =
     then_do (authority_or_thread env signers authority key th) (\<lambda>_.
     then_do (require (fiber_index \<in> set (th_fiber_ids th)) (ThreadErr InvalidFiberIndex)) (\<lambda>_.
     let th1 = (if th_fiber_cursor th = fiber_index \<and> length (th_fiber_ids th) > 1
                then advance_to_next_fiber th else th);
         th2 = th1\<lparr>th_fiber_ids := filter (\<lambda>x. x \<noteq> fiber_index) (th_fiber_ids th1)\<rparr>;
         th3 = (if th_fiber_ids th2 = [] then th2\<lparr>th_fiber_cursor := 0\<rparr> else th2) in
     then_do (close_fiber (fenv env) [key] key fiber b) (\<lambda>b1. Inr (th3, b1))))"

definition fiber_swap :: "thread_env \<Rightarrow> pubkey list \<Rightarrow> pubkey \<Rightarrow> pubkey \<Rightarrow> pubkey \<Rightarrow> pubkey \<Rightarrow> u8 \<Rightarrow> Thread \<Rightarrow> bank \<Rightarrow> error + Thread \<times> bank" where
  "fiber_swap env signers authority key target source source_fiber_index th b =
     then_do (authority_or_thread env signers authority key th) (\<lambda>_.
     then_do (require (source_fiber_index \<in> set (th_fiber_ids th)) (ThreadErr InvalidFiberIndex)) (\<lambda>_.
     then_do (swap_fiber (fenv env) [key] key target source b) (\<lambda>b1.
     let th1 = th\<lparr>th_fiber_ids := filter (\<lambda>x. x \<noteq> source_fiber_index) (th_fiber_ids th)\<rparr>;
         th2 = (if th_fiber_cursor th1 = source_fiber_index then
                  if th_fiber_ids th1 = [] then th1\<lparr>th_fiber_cursor := 0\<rparr>
                  else th1\<lparr>th_fiber_cursor := th_fiber_ids th1 ! 0\<rparr>
                else th1)
     in Inr (th2, b1))))"

section \<open>Creating and updating a thread\<close>

text \<open>The schedule a new trigger starts with (\<open>thread_create.rs\<close> and, the same, \<open>thread_update.rs\<close>).\<close>

definition initial_schedule :: "thread_env \<Rightarrow> Clock \<Rightarrow> pubkey \<Rightarrow> Trigger \<Rightarrow> error + Schedule" where
  "initial_schedule env clock key trigger =
     (let now = unix_timestamp clock in
      case trigger of
        Account _ _ _ \<Rightarrow> Inr (OnChange 0)
      | Cron schedule _ jitter \<Rightarrow>
          then_do (next_timestamp env now schedule) (\<lambda>n.
            let base_next = (case n of Some t \<Rightarrow> t | None \<Rightarrow> now) in
            Inr (Timed now (i64_saturating_add base_next (calculate_jitter_offset env now key jitter))))
      | Immediate _ \<Rightarrow> Inr (Timed now now)
      | Slot slot \<Rightarrow> Inr (Block (clk_slot clock) slot)
      | Epoch epoch \<Rightarrow> Inr (Block (clk_epoch clock) epoch)
      | Interval seconds _ jitter \<Rightarrow>
          Inr (Timed now (i64_saturating_add (i64_saturating_add now seconds) (calculate_jitter_offset env now key jitter)))
      | Timestamp unix_ts _ \<Rightarrow> Inr (Timed now unix_ts))"

text \<open>The stored \<open>thread_close\<close> instruction: its account metas in the order of the \<open>Accounts\<close> struct.\<close>

definition close_instruction :: "thread_env \<Rightarrow> pubkey \<Rightarrow> pubkey \<Rightarrow> Instruction" where
  "close_instruction env key authority =
     \<lparr>program_id = THREAD_PROGRAM_ID,
      ix_accounts = [\<lparr>am_pubkey = key, is_signer = True, is_writable = False\<rparr>,
                     \<lparr>am_pubkey = authority, is_signer = False, is_writable = True\<rparr>,
                     \<lparr>am_pubkey = key, is_signer = False, is_writable = True\<rparr>,
                     \<lparr>am_pubkey = FIBER_PROGRAM_ID, is_signer = False, is_writable = False\<rparr>],
      ix_data = DISC_CLOSE_THREAD env\<rparr>"

text \<open>The optional accounts of \<open>ThreadCreate\<close>.\<close>

record create_accounts =
  ca_authority :: pubkey
  ca_payer :: pubkey
  ca_thread :: pubkey
  ca_nonce_account :: "pubkey option"
  ca_recent_blockhashes :: "pubkey option"
  ca_rent :: "pubkey option"
  ca_fiber :: "pubkey option"
  ca_fiber_program :: bool

definition create_nonce :: "thread_env \<Rightarrow> pubkey list \<Rightarrow> create_accounts \<Rightarrow> bank \<Rightarrow> error + pubkey \<times> bank" where
  "create_nonce env signers ca b =
     (case ca_nonce_account ca of
        Some nonce_account \<Rightarrow>
          then_do (require (nonce_account \<in> set signers) AccountNotSigner) (\<lambda>_.
          then_do (ok_or (ca_recent_blockhashes ca) (ThreadErr InvalidNonceAccount)) (\<lambda>recent_blockhashes.
          then_do (ok_or (ca_rent ca) (ThreadErr InvalidNonceAccount)) (\<lambda>rent_program.
          then_do (create_nonce_account env (ca_payer ca) nonce_account recent_blockhashes rent_program
                     (minimum_balance (fenv env) (NONCE_STATE_SIZE env)) (ca_thread ca) b) (\<lambda>b1.
            Inr (nonce_account, b1)))))
      | None \<Rightarrow> Inr (THREAD_PROGRAM_ID, b))"

text \<open>The optional fiber 0 of a new thread.\<close>

definition create_first_fiber :: "thread_env \<Rightarrow> create_accounts \<Rightarrow> SerializableInstruction option \<Rightarrow> u64 option \<Rightarrow> pubkey list \<Rightarrow> Thread \<Rightarrow> bank \<Rightarrow> error + Thread \<times> bank" where
  "create_first_fiber env ca instruction priority_fee lookup_tables th b =
     (case instruction of
        Some ix \<Rightarrow>
          then_do (require (\<not> deletes_thread env ix) (ThreadErr InvalidInstruction)) (\<lambda>_.
          then_do (ok_or (ca_fiber ca) (ThreadErr MissingFiberAccount)) (\<lambda>fiber.
          then_do (require (ca_fiber_program ca) (ThreadErr MissingFiberAccount)) (\<lambda>_.
          then_do (prefund_fiber env (ca_thread ca) fiber b) (\<lambda>b1.
          then_do (create_fiber (fenv env) [ca_thread ca] (ca_thread ca) fiber 0 (instruction_from ix)
                     (case priority_fee of Some fee \<Rightarrow> fee | None \<Rightarrow> 0) lookup_tables b1) (\<lambda>b2.
            Inr (th\<lparr>th_fiber_next_id := 1, th_fiber_ids := [0], th_fiber_cursor := 0\<rparr>, b2))))))
      | None \<Rightarrow> Inr (th\<lparr>th_fiber_next_id := 0, th_fiber_ids := [], th_fiber_cursor := 0\<rparr>, b))"

text \<open>
  \<open>th0\<close> is the copy Anchor's \<open>init_if_needed\<close> hands over: the zeroed account it has just
  created, or the thread that was there before.
\<close>

definition thread_create :: "thread_env \<Rightarrow> pubkey list \<Rightarrow> create_accounts \<Rightarrow> Clock \<Rightarrow> u64 \<Rightarrow> ThreadId \<Rightarrow> Trigger \<Rightarrow> bool option \<Rightarrow> SerializableInstruction option \<Rightarrow> u64 option \<Rightarrow> pubkey list \<Rightarrow> Thread \<Rightarrow> bank \<Rightarrow> error + Thread \<times> bank" where
  "thread_create env signers ca clock amount id' trigger paused instruction priority_fee lookup_tables th0 b =
     (let (expected, bump) = find_program_address (fenv env)
            [SEED_THREAD, ca_authority ca, thread_id_bytes id'] THREAD_PROGRAM_ID in
     then_do (require (ca_authority ca \<in> set signers) AccountNotSigner) (\<lambda>_.
     then_do (require (ca_payer ca \<in> set signers) AccountNotSigner) (\<lambda>_.
     then_do (require (ca_thread ca = expected) ConstraintSeeds) (\<lambda>_.
     then_do (create_nonce env signers ca b) (\<lambda>(nonce, b1).
     then_do (initial_schedule env clock (ca_thread ca) trigger) (\<lambda>schedule.
     let th1 = th0\<lparr>th_nonce_account := nonce,
                   th_version := CURRENT_THREAD_VERSION,
                   th_authority := ca_authority ca,
                   th_bump := bump,
                   th_created_at := unix_timestamp clock,
                   th_name := thread_id_to_name env id',
                   th_id := thread_id_bytes id',
                   th_paused := (case paused of Some p \<Rightarrow> p | None \<Rightarrow> False),
                   th_trigger := trigger,
                   th_schedule := schedule,
                   th_exec_count := 0,
                   th_last_executor := pubkey_default,
                   th_fiber_signal := Signal_None\<rparr> in
     then_do (compile_instruction (key_order (fenv env)) (close_instruction env (ca_thread ca) (ca_authority ca))) (\<lambda>compiled.
     let th2 = th1\<lparr>th_close_fiber := to_vec_compiled (fenv env) compiled\<rparr> in
     then_do (system_transfer env (ca_payer ca) (ca_thread ca) amount b1) (\<lambda>b2.
       create_first_fiber env ca instruction priority_fee lookup_tables th2 b2))))))))"

record ThreadUpdateParams =
  tu_paused :: "bool option"
  tu_trigger :: "Trigger option"

definition thread_update :: "thread_env \<Rightarrow> pubkey list \<Rightarrow> pubkey \<Rightarrow> pubkey \<Rightarrow> Clock \<Rightarrow> ThreadUpdateParams \<Rightarrow> Thread \<Rightarrow> error + Thread" where
  "thread_update env signers authority key clock params th =
     then_do (require (authority \<in> set signers) AccountNotSigner) (\<lambda>_.
     then_do (require (authority = th_authority th) ConstraintRaw) (\<lambda>_.
     then_do (require (thread_seeds_ok env key th) ConstraintSeeds) (\<lambda>_.
     let th1 = (case tu_paused params of Some p \<Rightarrow> th\<lparr>th_paused := p\<rparr> | None \<Rightarrow> th) in
     then_do (case tu_trigger params of
                Some trigger \<Rightarrow>
                  then_do (initial_schedule env clock key trigger) (\<lambda>s.
                    Inr (th1\<lparr>th_trigger := trigger, th_schedule := s\<rparr>))
              | None \<Rightarrow> Inr th1) (\<lambda>th2.
       Inr (if tu_trigger params \<noteq> None \<and> tu_paused params = None then th2\<lparr>th_paused := False\<rparr> else th2)))))"

section \<open>Withdrawing, deleting, closing\<close>

definition thread_withdraw :: "thread_env \<Rightarrow> pubkey list \<Rightarrow> pubkey \<Rightarrow> pubkey \<Rightarrow> pubkey \<Rightarrow> u64 \<Rightarrow> Thread \<Rightarrow> bank \<Rightarrow> error + bank" where
  "thread_withdraw env signers authority pay_to key amount th b =
     then_do (require (authority \<in> set signers) AccountNotSigner) (\<lambda>_.
     then_do (require (authority = th_authority th) ConstraintHasOne) (\<lambda>_.
     then_do (require (thread_seeds_ok env key th) ConstraintSeeds) (\<lambda>_.
     let data_len = 8 + length (to_vec_thread env th);
         minimum_rent = minimum_balance (fenv env) data_len in
     then_do (ok_or (checked_sub (lamports (b key)) amount) Panic) (\<lambda>post_balance.
     then_do (require (post_balance > minimum_rent) (ThreadErr WithdrawalTooLarge)) (\<lambda>_.
       move_lamports key pay_to amount Panic Panic b)))))"

definition thread_delete :: "thread_env \<Rightarrow> pubkey list \<Rightarrow> pubkey \<Rightarrow> pubkey \<Rightarrow> pubkey \<Rightarrow> ThreadConfig \<Rightarrow> bank \<Rightarrow> error + bank" where
  "thread_delete env signers admin config_key key config b =
     then_do (require (admin \<in> set signers) AccountNotSigner) (\<lambda>_.
     then_do (require (admin = cfg_admin config) (ThreadErr InvalidConfigAdmin)) (\<lambda>_.
     then_do (require (config_seeds_ok env config_key config) ConstraintSeeds) (\<lambda>_.
     then_do (move_lamports key admin (lamports (b key)) Panic Panic b) (\<lambda>b1.
       Inr (set_data key (replicate (length (acc_data (b1 key))) 0) b1)))))"

text \<open>The loop over \<open>remaining_accounts\<close>: what is left of \<open>fiber_ids\<close>, and the store.\<close>

fun close_fibers :: "thread_env \<Rightarrow> pubkey \<Rightarrow> bool \<Rightarrow> pubkey list \<Rightarrow> u8 list \<Rightarrow> bank \<Rightarrow> error + u8 list \<times> bank" where
  "close_fibers env key fiber_program [] ids b = Inr (ids, b)"
| "close_fibers env key fiber_program (account # rest) ids b =
     then_do (try_deserialize_fiber (fenv env) (acc_data (b account))) (\<lambda>fiber_read.
     then_do (require (fiber_thread fiber_read = key) (ThreadErr InvalidFiberAccount)) (\<lambda>_.
     then_do (ok_or (position (\<lambda>idx. fiber_pubkey (fenv env) key idx = account) ids) (ThreadErr InvalidFiberAccount)) (\<lambda>pos.
     then_do (require fiber_program (ThreadErr MissingFiberAccounts)) (\<lambda>_.
     then_do (close_fiber (fenv env) [key] key account b) (\<lambda>b1.
       close_fibers env key fiber_program rest (remove_nth pos ids) b1)))))"

definition thread_close :: "thread_env \<Rightarrow> pubkey list \<Rightarrow> pubkey \<Rightarrow> pubkey \<Rightarrow> pubkey \<Rightarrow> bool \<Rightarrow> pubkey list \<Rightarrow> Thread \<Rightarrow> bank \<Rightarrow> error + bank" where
  "thread_close env signers authority close_to key fiber_program remaining_accounts th b =
     then_do (authority_or_thread env signers authority key th) (\<lambda>_.
     then_do (require (acc_owner (b close_to) = SYSTEM_PROGRAM_ID) AccountNotSystemOwned) (\<lambda>_.
     then_do (close_fibers env key fiber_program remaining_accounts (th_fiber_ids th) b) (\<lambda>(ids, b1).
     then_do (require (ids = []) (ThreadErr MissingFiberAccounts)) (\<lambda>_.
       close_account env key close_to b1))))"

text \<open>\<open>thread_memo\<close> hands the caller's signal back as return data.\<close>

definition thread_memo :: "pubkey list \<Rightarrow> pubkey \<Rightarrow> Signal option \<Rightarrow> error + Signal" where
  "thread_memo signers signer signal =
     then_do (require (signer \<in> set signers) AccountNotSigner) (\<lambda>_.
       Inr (case signal of Some response \<Rightarrow> response | None \<Rightarrow> Signal_None))"

section \<open>The invariant of a thread\<close>

text \<open>
  The fiber indices are strictly increasing and below the next free one (which saturates),
  and between transactions only \<open>Chain\<close> and \<open>Close\<close> are pending.
\<close>

definition ids_ok :: "u8 list \<Rightarrow> u8 \<Rightarrow> bool" where
  "ids_ok ids next_id \<longleftrightarrow> sorted_wrt (<) ids \<and> (\<forall>i\<in>set ids. i < next_id \<or> next_id = 255)"

definition thread_inv :: "Thread \<Rightarrow> bool" where
  "thread_inv th \<longleftrightarrow> ids_ok (th_fiber_ids th) (th_fiber_next_id th) \<and> th_fiber_signal th \<in> {Signal_None, Chain, Close}"

lemma ids_ok_Nil [simp]: "ids_ok [] n"
  by (simp add: ids_ok_def)

lemma ids_ok_filter: "ids_ok ids n \<Longrightarrow> ids_ok (filter P ids) n"
  by (auto simp: ids_ok_def sorted_wrt_filter)

lemma push_sorted_strict:
  "sorted_wrt (<) ids \<Longrightarrow> i \<notin> set ids \<Longrightarrow> sorted_wrt (<) (push_sorted i ids)"
  by (simp add: push_sorted_def strict_sorted_iff)

lemma set_push_sorted [simp]: "set (push_sorted i ids) = insert i (set ids)"
  by (simp add: push_sorted_def)

lemma u8_saturating_add_1: "i < u8_saturating_add i 1 \<or> u8_saturating_add i 1 = 255"
proof (cases "unat i + 1 < 256")
  case True
  then have "unat (i + 1) = unat i + 1" by (simp add: unat_word_ariths)
  then show ?thesis using True by (simp add: u8_saturating_add_def word_less_nat_alt)
next
  case False
  then show ?thesis by (simp add: u8_saturating_add_def)
qed

lemma word8_le_255: "(w :: u8) \<le> 255"
proof -
  have "unat w < 2 ^ LENGTH(8)" by (rule unsigned_less)
  then show ?thesis by (simp add: word_le_nat_alt)
qed

text \<open>Tracking a fiber index, as \<open>fiber_create\<close> and \<open>fiber_update\<close> do.\<close>

lemma ids_ok_push:
  assumes "ids_ok ids n" and "i \<notin> set ids"
  shows "ids_ok (push_sorted i ids) (if n \<le> i then u8_saturating_add i 1 else n)"
proof -
  have "j < u8_saturating_add i 1 \<or> u8_saturating_add i 1 = 255" if "j \<in> set ids" "n \<le> i" for j
  proof -
    have "j < n \<or> n = 255" using assms(1) that(1) by (auto simp: ids_ok_def)
    moreover have "j \<le> i" if "n = 255" using that \<open>n \<le> i\<close> word8_le_255 [of j] by simp
    ultimately have "j \<le> i" using \<open>n \<le> i\<close> by auto
    then show ?thesis using u8_saturating_add_1 [of i] by auto
  qed
  then show ?thesis
    using assms u8_saturating_add_1 [of i] by (auto simp: ids_ok_def push_sorted_strict)
qed

lemma ids_ok_bump:
  assumes "ids_ok ids n" and "n \<le> i"
  shows "ids_ok ids (u8_saturating_add i 1)"
proof -
  have "j < u8_saturating_add i 1 \<or> u8_saturating_add i 1 = 255" if "j \<in> set ids" for j
  proof -
    have "j < n \<or> n = 255" using assms(1) that by (auto simp: ids_ok_def)
    moreover have "j \<le> i" if "n = 255" using that \<open>n \<le> i\<close> word8_le_255 [of j] by simp
    ultimately have "j \<le> i" using \<open>n \<le> i\<close> by auto
    then show ?thesis using u8_saturating_add_1 [of i] by auto
  qed
  then show ?thesis using assms(1) by (simp add: ids_ok_def)
qed

lemma fiber_create_inv:
  "fiber_create env sg a key fiber i ix fee lts th b = Inr (th', b') \<Longrightarrow> thread_inv th \<Longrightarrow> thread_inv th'"
  using ids_ok_push [of "th_fiber_ids th" "th_fiber_next_id th" i]
    ids_ok_bump [of "th_fiber_ids th" "th_fiber_next_id th" i]
  by (auto simp: fiber_create_def res_simps Let_def thread_inv_def split: if_splits)

lemma fiber_update_inv:
  "fiber_update env sg a key fiber i ix fee track lts th b = Inr (th', b') \<Longrightarrow> thread_inv th \<Longrightarrow> thread_inv th'"
  using ids_ok_push [of "th_fiber_ids th" "th_fiber_next_id th" i]
  by (auto simp: fiber_update_def res_simps Let_def thread_inv_def split: if_splits)

lemma fiber_close_inv:
  "fiber_close env sg a key fiber i th b = Inr (th', b') \<Longrightarrow> thread_inv th \<Longrightarrow> thread_inv th'"
  by (auto simp: fiber_close_def res_simps Let_def thread_inv_def advance_eq ids_ok_filter split: if_splits)

lemma fiber_swap_inv:
  "fiber_swap env sg a key tg src i th b = Inr (th', b') \<Longrightarrow> thread_inv th \<Longrightarrow> thread_inv th'"
  by (auto simp: fiber_swap_def res_simps Let_def thread_inv_def ids_ok_filter split: if_splits)

lemma thread_update_inv:
  "thread_update env sg a key clock params th = Inr th' \<Longrightarrow> thread_inv th \<Longrightarrow> thread_inv th'"
  by (auto simp: thread_update_def res_simps Let_def thread_inv_def split: option.splits)

lemma create_first_fiber_inv:
  "create_first_fiber env ca ix fee lts th b = Inr (th', b') \<Longrightarrow> th_fiber_signal th = Signal_None \<Longrightarrow> thread_inv th'"
  by (auto simp: create_first_fiber_def res_simps thread_inv_def ids_ok_def split: option.splits)

lemma thread_create_inv:
  "thread_create env sg ca clock amount i trigger paused ix fee lts th0 b = Inr (th', b') \<Longrightarrow> thread_inv th'"
  unfolding thread_create_def Let_def case_prod_unfold then_do_eq_Inr
  by (elim exE conjE) (erule create_first_fiber_inv, simp)

section \<open>Closing a thread\<close>

text \<open>
  A successful loop is the fiber program's \<open>close\<close> on each account in turn, and the
  accounts are the addresses of the fiber indices it took out.
\<close>

lemma close_fibers_Inr:
  "close_fibers env key fp accs ids b = Inr (ids', b') \<Longrightarrow>
     close_each (close_fiber (fenv env) [key] key) accs b = Inr b' \<and>
     image_mset (fiber_pubkey (fenv env) key) (mset ids) = mset accs + image_mset (fiber_pubkey (fenv env) key) (mset ids')"
proof (induction accs arbitrary: ids b)
  case Nil
  then show ?case by simp
next
  case (Cons a accs)
  then obtain pos b1 where pos: "position (\<lambda>idx. fiber_pubkey (fenv env) key idx = a) ids = Some pos"
    and b1: "close_fiber (fenv env) [key] key a b = Inr b1"
    and rest: "close_fibers env key fp accs (remove_nth pos ids) b1 = Inr (ids', b')"
    by (auto simp: res_simps)
  have "pos < length ids" and a: "fiber_pubkey (fenv env) key (ids ! pos) = a"
    using position_SomeD [OF pos] by auto
  then have "mset ids = add_mset (ids ! pos) (mset (remove_nth pos ids))"
    by (intro mset_remove_nth)
  with Cons.IH [OF rest] b1 a show ?case by simp
qed

text \<open>What \<open>close = close_to\<close> does to the thread account.\<close>

definition close_laws :: "thread_env \<Rightarrow> bool" where
  "close_laws env \<longleftrightarrow> (\<forall>k d b b'. close_account env k d b = Inr b' \<longrightarrow> k \<noteq> d \<longrightarrow>
     lamports (b' k) = 0 \<and> acc_data (b' k) = [] \<and> acc_owner (b' k) = SYSTEM_PROGRAM_ID \<and>
     unat (lamports (b' d)) = unat (lamports (b d)) + unat (lamports (b k)) \<and>
     (\<forall>j. j \<noteq> k \<longrightarrow> j \<noteq> d \<longrightarrow> b' j = b j) \<and> acc_data (b' d) = acc_data (b d) \<and> acc_owner (b' d) = acc_owner (b d))"

lemma thread_close_Inr:
  assumes "thread_close env sg a close_to key fp accs th b = Inr b'"
  obtains b1 where "a \<in> set sg" "a = th_authority th \<or> a = key" "thread_seeds_ok env key th"
    "acc_owner (b close_to) = SYSTEM_PROGRAM_ID"
    "close_fibers env key fp accs (th_fiber_ids th) b = Inr ([], b1)" "close_account env key close_to b1 = Inr b'"
  using assms by (auto simp: thread_close_def authority_or_thread_def res_simps)

lemma thread_close_effect:
  assumes laws: "borsh_laws (fenv env)" and cl: "close_laws env"
    and ok: "thread_close env sg a close_to key fp accs th b = Inr b'"
    and ne: "key \<noteq> close_to" "key \<notin> set accs" "close_to \<notin> set accs"
  shows "mset accs = image_mset (fiber_pubkey (fenv env) key) (mset (th_fiber_ids th))"
    and "distinct accs" and "\<forall>k\<in>set accs. \<exists>f. fibers (fenv env) b k = Some f \<and> fiber_thread f = key"
    and "\<forall>k\<in>set accs. fibers (fenv env) b' k = None"
    and "unat (lamports (b' close_to)) =
      unat (lamports (b close_to)) + unat (lamports (b key)) + sum_list (map (\<lambda>k. unat (lamports (b k))) accs)"
    and "lamports (b' key) = 0" and "acc_data (b' key) = []"
proof -
  obtain b1 where cf: "close_fibers env key fp accs (th_fiber_ids th) b = Inr ([], b1)"
    and ca: "close_account env key close_to b1 = Inr b'"
    using ok by (rule thread_close_Inr)
  have each: "close_each (close_fiber (fenv env) [key] key) accs b = Inr b1"
    and ms: "image_mset (fiber_pubkey (fenv env) key) (mset (th_fiber_ids th)) = mset accs"
    using close_fibers_Inr [OF cf] by simp_all
  note closing = fiber_closing_close_fiber [OF laws, of "[key]"]
  from ms show "mset accs = image_mset (fiber_pubkey (fenv env) key) (mset (th_fiber_ids th))" by simp
  show "distinct accs" and "\<forall>k\<in>set accs. \<exists>f. fibers (fenv env) b k = Some f \<and> fiber_thread f = key"
    using fiber_closing.close_each_owner [OF closing each] by blast+
  have closed: "lamports (b' key) = 0" "acc_data (b' key) = []" "\<And>j. j \<noteq> key \<Longrightarrow> j \<noteq> close_to \<Longrightarrow> b' j = b1 j"
    "unat (lamports (b' close_to)) = unat (lamports (b1 close_to)) + unat (lamports (b1 key))"
    using cl ca ne(1) unfolding close_laws_def by blast+
  show "lamports (b' key) = 0" and "acc_data (b' key) = []" by (rule closed)+
  show "\<forall>k\<in>set accs. fibers (fenv env) b' k = None"
  proof
    fix k
    assume k: "k \<in> set accs"
    then have "b' k = b1 k" using ne by (intro closed(3)) auto
    moreover have "fibers (fenv env) b1 k = None"
      using fiber_closing.close_each_view [OF closing each, of k] k by simp
    ultimately show "fibers (fenv env) b' k = None" by (simp add: fibers_def)
  qed
  show "unat (lamports (b' close_to)) =
      unat (lamports (b close_to)) + unat (lamports (b key)) + sum_list (map (\<lambda>k. unat (lamports (b k))) accs)"
    using fiber_closing.close_each_balance [OF closing each ne(2)]
      fiber_closing.close_each_other [OF closing each ne(2,3)] ne(1) closed(4) by simp
qed

section \<open>Authority and lamports\<close>

lemma authority_required:
  "fiber_create env sg a key fiber i ix fee lts th b = Inr r \<Longrightarrow> a \<in> set sg \<and> (a = th_authority th \<or> a = key)"
  "fiber_update env sg a key fiber i oix ofee track olts th b = Inr r \<Longrightarrow> a \<in> set sg \<and> (a = th_authority th \<or> a = key)"
  "fiber_close env sg a key fiber i th b = Inr r \<Longrightarrow> a \<in> set sg \<and> (a = th_authority th \<or> a = key)"
  "fiber_swap env sg a key tg src i th b = Inr r \<Longrightarrow> a \<in> set sg \<and> (a = th_authority th \<or> a = key)"
  "thread_close env sg a ct key fp accs th b = Inr b' \<Longrightarrow> a \<in> set sg \<and> (a = th_authority th \<or> a = key)"
  "thread_update env sg a key clock params th = Inr th' \<Longrightarrow> a \<in> set sg \<and> a = th_authority th"
  "thread_withdraw env sg a pay key amount th b = Inr b' \<Longrightarrow> a \<in> set sg \<and> a = th_authority th"
  unfolding fiber_create_def fiber_update_def fiber_close_def fiber_swap_def thread_close_def
    authority_or_thread_def thread_update_def thread_withdraw_def then_do_eq_Inr require_eq_Inr
  by blast+

lemma thread_withdraw_Inr:
  assumes "thread_withdraw env sg a pay key amount th b = Inr b'"
  shows "move_lamports key pay amount Panic Panic b = Inr b'"
    and "unat amount \<le> unat (lamports (b key))"
    and "unat (minimum_balance (fenv env) (8 + length (to_vec_thread env th))) < unat (lamports (b key)) - unat amount"
  using assms
  by (auto simp: thread_withdraw_def res_simps Let_def checked_sub_Some word_less_nat_alt)

lemma prefund_total:
  "prefund_fiber env key fiber b = Inr b' \<Longrightarrow> finite A \<Longrightarrow> key \<in> A \<Longrightarrow> fiber \<in> A \<Longrightarrow> total A b' = total A b"
  by (auto simp: prefund_fiber_def move_lamports_total split: if_splits)

lemma fiber_create_total:
  assumes "borsh_laws (fenv env)" and "system_laws (fenv env)"
    and "fiber_create env sg a key fiber i ix fee lts th b = Inr (th', b')" and "finite A" "key \<in> A" "fiber \<in> A"
  shows "total A b' = total A b"
proof -
  obtain b1 where "prefund_fiber env key fiber b = Inr b1"
    and "create_fiber (fenv env) [key] key fiber i (instruction_from ix) fee lts b1 = Inr b'"
    using assms(3) by (auto simp: fiber_create_def res_simps Let_def)
  then show ?thesis
    using prefund_total assms create_fiber_total [OF assms(1,2)] by metis
qed

lemma fiber_update_total:
  assumes "borsh_laws (fenv env)" and "system_laws (fenv env)"
    and "fiber_update env sg a key fiber i ix fee track lts th b = Inr (th', b')" and "finite A" "key \<in> A" "fiber \<in> A"
  shows "total A b' = total A b"
proof -
  obtain b1 where "prefund_fiber env key fiber b = Inr b1"
    and "update_fiber (fenv env) [key] key fiber i (map_option instruction_from ix) fee lts b1 = Inr b'"
    using assms(3) by (auto simp: fiber_update_def res_simps Let_def)
  then show ?thesis
    using prefund_total assms update_fiber_lamports [OF assms(1,2)] total_same_lamports by metis
qed

end
