(* ===== verification/Thread_Exec.thy ===== *)
theory Thread_Exec
  imports Thread_Instructions
begin

text \<open>
  \<open>programs/thread/src/instructions/thread_exec.rs\<close>: one execution of a thread. The
  handler is split along its own section comments (close path, checks, fiber, signal,
  payments, thread state, finalisation) and composed in their order. The fiber's
  instruction runs behind \<open>invoke_signed\<close> of the environment: an arbitrary program that
  may change the store, fail, and leave return data.
\<close>

record exec_accounts =
  ea_executor :: pubkey
  ea_thread :: pubkey
  ea_fiber :: pubkey
  ea_config :: pubkey
  ea_admin :: pubkey
  ea_nonce_account :: "pubkey option"
  ea_recent_blockhashes :: "pubkey option"

definition exec_account_infos :: "exec_accounts \<Rightarrow> pubkey list" where
  "exec_account_infos ea =
     [ea_executor ea, ea_thread ea, ea_fiber ea, ea_config ea, ea_admin ea] @
     (case ea_nonce_account ea of Some k \<Rightarrow> [k] | None \<Rightarrow> []) @
     (case ea_recent_blockhashes ea of Some k \<Rightarrow> [k] | None \<Rightarrow> []) @ [SYSTEM_PROGRAM_ID]"

text \<open>The constraints of \<open>ThreadExec\<close>.\<close>

definition exec_constraints :: "thread_env \<Rightarrow> pubkey list \<Rightarrow> exec_accounts \<Rightarrow> ThreadConfig \<Rightarrow> Thread \<Rightarrow> error + unit" where
  "exec_constraints env signers ea config th =
     then_do (require (ea_executor ea \<in> set signers) AccountNotSigner) (\<lambda>_.
     then_do (require (thread_seeds_ok env (ea_thread ea) th) ConstraintSeeds) (\<lambda>_.
     then_do (require (\<not> th_paused th) (ThreadErr ThreadPaused)) (\<lambda>_.
     then_do (require (th_fiber_ids th \<noteq> []) (ThreadErr InvalidThreadState)) (\<lambda>_.
     then_do (require (config_seeds_ok env (ea_config ea) config) ConstraintSeeds) (\<lambda>_.
       require (ea_admin ea = cfg_admin config) (ThreadErr InvalidConfigAdmin))))))"

text \<open>The close path: the stored instruction, with the thread's fibers appended.\<close>

definition close_with_fibers :: "thread_env \<Rightarrow> pubkey \<Rightarrow> Thread \<Rightarrow> error + Instruction" where
  "close_with_fibers env key th =
     then_do (ok_or (try_from_slice_compiled (fenv env) (th_close_fiber th)) BorshError) (\<lambda>compiled.
     then_do (decompile_instruction compiled) (\<lambda>instruction.
       Inr (instruction\<lparr>ix_accounts := ix_accounts instruction @
              map (\<lambda>fiber_idx. \<lparr>am_pubkey = fiber_pubkey (fenv env) key fiber_idx,
                                is_signer = False, is_writable = True\<rparr>) (th_fiber_ids th)\<rparr>)))"

definition exec_close_path :: "thread_env \<Rightarrow> pubkey \<Rightarrow> pubkey list \<Rightarrow> Thread \<Rightarrow> bank \<Rightarrow> error + Thread \<times> bank" where
  "exec_close_path env key all_account_infos th b =
     then_do (close_with_fibers env key th) (\<lambda>instruction.
     then_do (invoke_signed env instruction all_account_infos [key] b) (\<lambda>(b1, _).
       Inr (th, b1)))"

text \<open>The fiber to run: the account must be the address of the index and hold a fiber of this thread.\<close>

definition load_fiber_instruction :: "thread_env \<Rightarrow> exec_accounts \<Rightarrow> u8 \<Rightarrow> bank \<Rightarrow> error + Instruction" where
  "load_fiber_instruction env ea fiber_cursor b =
     then_do (require (ea_fiber ea = fiber_at_index env (ea_thread ea) fiber_cursor) (ThreadErr WrongFiberIndex)) (\<lambda>_.
     then_do (try_deserialize_fiber (fenv env) (acc_data (b (ea_fiber ea)))) (\<lambda>fiber_read.
     then_do (require (fiber_thread fiber_read = ea_thread ea) (ThreadErr InvalidFiberAccount)) (\<lambda>_.
       get_instruction (fenv env) fiber_read (ea_executor ea))))"

definition parse_signal :: "thread_env \<Rightarrow> Instruction \<Rightarrow> (pubkey \<times> bytes) option \<Rightarrow> Signal" where
  "parse_signal env instruction return_data =
     (case return_data of
        None \<Rightarrow> Signal_None
      | Some (pid, data) \<Rightarrow>
          if pid = program_id instruction
          then (case try_from_slice_signal env data of Some s \<Rightarrow> s | None \<Rightarrow> Signal_None)
          else Signal_None)"

definition downgrade_chain :: "Thread \<Rightarrow> u8 \<Rightarrow> Signal \<Rightarrow> Signal" where
  "downgrade_chain th fiber_cursor signal =
     (let last_fiber = (if th_fiber_ids th = [] then fiber_cursor else last (th_fiber_ids th))
      in if signal = Chain \<and> last_fiber = fiber_cursor then Signal_None else signal)"

text \<open>Payments, when the chain ends. The forgone fee is computed for the log, and can overflow there.\<close>

definition settle :: "exec_accounts \<Rightarrow> ThreadConfig \<Rightarrow> i64 \<Rightarrow> bool \<Rightarrow> u64 \<Rightarrow> bank \<Rightarrow> error + bank" where
  "settle ea config time_since_ready forgo_commission executor_lamports_start b =
     then_do (ok_or (i64_checked (u64_as_i64 (lamports (b (ea_executor ea))) - u64_as_i64 executor_lamports_start)) Panic)
       (\<lambda>balance_change.
     then_do (calculate_payments config time_since_ready balance_change forgo_commission) (\<lambda>payments.
     then_do (if forgo_commission \<and> executor_commission payments = 0 then
                then_do (calculate_effective_commission config time_since_ready) (\<lambda>effective_commission.
                then_do (calculate_executor_fee config effective_commission) (\<lambda>_. Inr ()))
              else Inr ()) (\<lambda>_.
       distribute_payments (ea_thread ea) (ea_executor ea) (ea_admin ea) payments b)))"

definition apply_signal :: "Signal \<Rightarrow> Thread \<Rightarrow> Thread" where
  "apply_signal signal th0 =
     (let th = th0\<lparr>th_fiber_signal := Signal_None\<rparr> in
      case signal of
        Chain \<Rightarrow> th\<lparr>th_fiber_signal := Chain\<rparr>
      | Close \<Rightarrow> th\<lparr>th_fiber_signal := Close\<rparr>
      | Next index \<Rightarrow> th\<lparr>th_fiber_cursor := index\<rparr>
      | Update paused trigger index \<Rightarrow>
          let th1 = (case paused of Some p \<Rightarrow> th\<lparr>th_paused := p\<rparr> | None \<Rightarrow> th);
              th2 = (case trigger of Some t \<Rightarrow> th1\<lparr>th_trigger := t\<rparr> | None \<Rightarrow> th1);
              th3 = (if trigger \<noteq> None \<and> paused = None then th2\<lparr>th_paused := False\<rparr> else th2)
          in (case index of Some i \<Rightarrow> th3\<lparr>th_fiber_cursor := i\<rparr> | None \<Rightarrow> advance_to_next_fiber th3)
      | Repeat \<Rightarrow> th
      | Signal_None \<Rightarrow> advance_to_next_fiber th)"

text \<open>Immediate triggers close the thread, timestamp triggers pause it, unless the fiber chains on.\<close>

definition after_fire :: "Trigger \<Rightarrow> Signal \<Rightarrow> Thread \<Rightarrow> Thread" where
  "after_fire fired_trigger signal th =
     (let th1 = (case fired_trigger of
                   Immediate _ \<Rightarrow> if signal \<noteq> Chain then th\<lparr>th_fiber_signal := Close\<rparr> else th
                 | _ \<Rightarrow> th) in
      case fired_trigger of
        Timestamp _ _ \<Rightarrow>
          if signal \<noteq> Chain then
            (case signal of
               Update (Some False) _ _ \<Rightarrow> th1
             | _ \<Rightarrow> th1\<lparr>th_paused := True\<rparr>)
          else th1
      | _ \<Rightarrow> th1)"

definition exec_finalize :: "thread_env \<Rightarrow> Clock \<Rightarrow> pubkey list \<Rightarrow> exec_accounts \<Rightarrow> Signal \<Rightarrow> Thread \<Rightarrow> bank \<Rightarrow> error + Thread" where
  "exec_finalize env clock remaining_accounts ea signal th b =
     then_do (if signal \<noteq> Chain then update_schedule env clock remaining_accounts (ea_thread ea) b th else Inr th) (\<lambda>th1.
     then_do (ok_or (checked_add (th_exec_count th1) 1) Panic) (\<lambda>n.
       Inr (th1\<lparr>th_exec_count := n, th_last_executor := ea_executor ea\<rparr>)))"

definition thread_exec :: "thread_env \<Rightarrow> pubkey list \<Rightarrow> exec_accounts \<Rightarrow> Clock \<Rightarrow> bool \<Rightarrow> u8 \<Rightarrow> pubkey list \<Rightarrow> ThreadConfig \<Rightarrow> Thread \<Rightarrow> bank \<Rightarrow> error + Thread \<times> bank" where
  "thread_exec env signers ea clock forgo_commission fiber_cursor remaining_accounts config th b =
     then_do (exec_constraints env signers ea config th) (\<lambda>_.
     let key = ea_thread ea;
         all_account_infos = exec_account_infos ea @ remaining_accounts;
         executor_lamports_start = lamports (b (ea_executor ea)) in
     then_do (require (\<not> cfg_paused config) (ThreadErr GlobalPauseActive)) (\<lambda>_.
     if th_fiber_signal th = Close then exec_close_path env key all_account_infos th b
     else
       let is_chained = (th_fiber_signal th = Chain);
           th1 = (if is_chained then th\<lparr>th_fiber_cursor := fiber_cursor\<rparr> else th) in
       then_do (validate_for_execution th1) (\<lambda>_.
       then_do (advance_nonce_if_required env th1 key (ea_nonce_account ea) (ea_recent_blockhashes ea) b) (\<lambda>b1.
       then_do (if is_chained then Inr 0 else validate_trigger env clock remaining_accounts key b1 th1) (\<lambda>time_since_ready.
       then_do (load_fiber_instruction env ea fiber_cursor b1) (\<lambda>instruction.
       then_do (invoke_signed env instruction all_account_infos [key] b1) (\<lambda>(b2, return_data).
       then_do (require (acc_data (b2 (ea_executor ea)) = []) (ThreadErr UnauthorizedWrite)) (\<lambda>_.
       let signal = downgrade_chain th1 fiber_cursor (parse_signal env instruction return_data) in
       then_do (if signal \<noteq> Chain then settle ea config time_since_ready forgo_commission executor_lamports_start b2
                else Inr b2) (\<lambda>b3.
       let th2 = after_fire (th_trigger th1) signal (apply_signal signal th1) in
       then_do (exec_finalize env clock remaining_accounts ea signal th2 b3) (\<lambda>th3.
         Inr (th3, b3)))))))))))"

section \<open>What a successful execution went through\<close>

text \<open>
  The data of a successful execution: the copy after the cursor sync, the store after the
  nonce, the fiber's instruction, what its invocation left and returned, the signal after
  the downgrade, and the store after the payments.
\<close>

definition executed :: "thread_env \<Rightarrow> pubkey list \<Rightarrow> exec_accounts \<Rightarrow> Clock \<Rightarrow> bool \<Rightarrow> u8 \<Rightarrow> pubkey list \<Rightarrow> ThreadConfig \<Rightarrow> Thread \<Rightarrow> bank \<Rightarrow>
    Thread \<Rightarrow> bank \<Rightarrow> i64 \<Rightarrow> Instruction \<Rightarrow> bank \<Rightarrow> (pubkey \<times> bytes) option \<Rightarrow> Signal \<Rightarrow> Thread \<Rightarrow> bank \<Rightarrow> bool" where
  "executed env sg ea clock forgo cur rem cfg th b th1 b1 tsr ix b2 ret signal th' b' \<longleftrightarrow>
     th1 = (if th_fiber_signal th = Chain then th\<lparr>th_fiber_cursor := cur\<rparr> else th) \<and>
     validate_for_execution th1 = Inr () \<and>
     advance_nonce_if_required env th1 (ea_thread ea) (ea_nonce_account ea) (ea_recent_blockhashes ea) b = Inr b1 \<and>
     (if th_fiber_signal th = Chain then tsr = 0 else validate_trigger env clock rem (ea_thread ea) b1 th1 = Inr tsr) \<and>
     load_fiber_instruction env ea cur b1 = Inr ix \<and>
     invoke_signed env ix (exec_account_infos ea @ rem) [ea_thread ea] b1 = Inr (b2, ret) \<and>
     acc_data (b2 (ea_executor ea)) = [] \<and>
     signal = downgrade_chain th1 cur (parse_signal env ix ret) \<and>
     (if signal = Chain then b' = b2 else settle ea cfg tsr forgo (lamports (b (ea_executor ea))) b2 = Inr b') \<and>
     exec_finalize env clock rem ea signal (after_fire (th_trigger th1) signal (apply_signal signal th1)) b' = Inr th'"

lemma thread_exec_cases:
  assumes "thread_exec env sg ea clock forgo cur rem cfg th b = Inr (th', b')"
  shows "exec_constraints env sg ea cfg th = Inr () \<and> \<not> cfg_paused cfg \<and>
    (if th_fiber_signal th = Close
     then exec_close_path env (ea_thread ea) (exec_account_infos ea @ rem) th b = Inr (th', b')
     else \<exists>th1 b1 tsr ix b2 ret signal. executed env sg ea clock forgo cur rem cfg th b th1 b1 tsr ix b2 ret signal th' b')"
proof (cases "th_fiber_signal th = Close")
  case True
  then show ?thesis using assms by (simp add: thread_exec_def res_simps Let_def)
next
  case False
  define th1 where "th1 = (if th_fiber_signal th = Chain then th\<lparr>th_fiber_cursor := cur\<rparr> else th)"
  from assms False obtain b1 tsr ix b2 ret where
    c: "exec_constraints env sg ea cfg th = Inr ()" "\<not> cfg_paused cfg" "validate_for_execution th1 = Inr ()"
    "advance_nonce_if_required env th1 (ea_thread ea) (ea_nonce_account ea) (ea_recent_blockhashes ea) b = Inr b1"
    "(if th_fiber_signal th = Chain then Inr 0 else validate_trigger env clock rem (ea_thread ea) b1 th1) = Inr tsr"
    "load_fiber_instruction env ea cur b1 = Inr ix"
    "invoke_signed env ix (exec_account_infos ea @ rem) [ea_thread ea] b1 = Inr (b2, ret)"
    "acc_data (b2 (ea_executor ea)) = []" and
    rest: "then_do (if downgrade_chain th1 cur (parse_signal env ix ret) \<noteq> Chain
          then settle ea cfg tsr forgo (lamports (b (ea_executor ea))) b2 else Inr b2) (\<lambda>b3.
        then_do (exec_finalize env clock rem ea (downgrade_chain th1 cur (parse_signal env ix ret))
          (after_fire (th_trigger th1) (downgrade_chain th1 cur (parse_signal env ix ret))
            (apply_signal (downgrade_chain th1 cur (parse_signal env ix ret)) th1)) b3) (\<lambda>th3. Inr (th3, b3))) = Inr (th', b')"
    unfolding thread_exec_def Let_def th1_def [symmetric] by (auto simp: res_simps)
  show ?thesis
    using False c rest unfolding executed_def th1_def [symmetric]
    by (auto simp: res_simps split: if_splits intro!: exI [of _ th1] exI [of _ b1] exI [of _ tsr] exI [of _ ix] exI [of _ b2] exI [of _ ret])
qed

lemma exec_constraints_Inr:
  "exec_constraints env sg ea cfg th = Inr () \<longleftrightarrow>
     ea_executor ea \<in> set sg \<and> thread_seeds_ok env (ea_thread ea) th \<and> \<not> th_paused th \<and> th_fiber_ids th \<noteq> [] \<and>
     config_seeds_ok env (ea_config ea) cfg \<and> ea_admin ea = cfg_admin cfg"
  by (simp add: exec_constraints_def res_simps)

section \<open>The thread after an execution\<close>

text \<open>What no execution touches.\<close>

definition same_identity :: "Thread \<Rightarrow> Thread \<Rightarrow> bool" where
  "same_identity th th' \<longleftrightarrow> th_authority th' = th_authority th \<and> th_id th' = th_id th \<and> th_bump th' = th_bump th \<and>
     th_fiber_ids th' = th_fiber_ids th \<and> th_fiber_next_id th' = th_fiber_next_id th \<and>
     th_close_fiber th' = th_close_fiber th \<and> th_nonce_account th' = th_nonce_account th"

lemma apply_signal_frame:
  "same_identity th (apply_signal signal th)" "th_exec_count (apply_signal signal th) = th_exec_count th"
  by (auto simp: same_identity_def apply_signal_def Let_def advance_eq split: Signal.splits option.splits)

lemma after_fire_frame:
  "same_identity th (after_fire trigger signal th)" "th_exec_count (after_fire trigger signal th) = th_exec_count th"
  "th_trigger (after_fire trigger signal th) = th_trigger th" "th_schedule (after_fire trigger signal th) = th_schedule th"
  "th_fiber_cursor (after_fire trigger signal th) = th_fiber_cursor th"
  by (auto simp: same_identity_def after_fire_def Let_def split: Trigger.splits Signal.splits option.splits bool.splits)

lemma update_schedule_frame:
  "update_schedule env clock rem key b th = Inr th' \<Longrightarrow> \<exists>s. th' = th\<lparr>th_schedule := s\<rparr>"
  by (auto simp: update_schedule_def Let_def res_simps)

lemma exec_finalize_frame:
  assumes "exec_finalize env clock rem ea signal th b = Inr th'"
  shows "same_identity th th'" and "unat (th_exec_count th') = unat (th_exec_count th) + 1"
    and "th_last_executor th' = ea_executor ea" and "th_fiber_signal th' = th_fiber_signal th"
    and "th_paused th' = th_paused th" and "th_fiber_cursor th' = th_fiber_cursor th" and "th_trigger th' = th_trigger th"
  using assms
  by (auto simp: exec_finalize_def res_simps checked_add_Some same_identity_def dest!: update_schedule_frame split: if_splits)

lemma same_identity_trans: "same_identity a b \<Longrightarrow> same_identity b c \<Longrightarrow> same_identity a c"
  by (simp add: same_identity_def)

lemma executed_thread:
  assumes "executed env sg ea clock forgo cur rem cfg th b th1 b1 tsr ix b2 ret signal th' b'"
  shows "same_identity th th'" and "unat (th_exec_count th') = unat (th_exec_count th) + 1"
    and "th_last_executor th' = ea_executor ea"
    and "th_fiber_signal th' = th_fiber_signal (after_fire (th_trigger th) signal (apply_signal signal th1))"
    and "th_paused th' = th_paused (after_fire (th_trigger th) signal (apply_signal signal th1))"
    and "th_fiber_cursor th' = th_fiber_cursor (apply_signal signal th1)"
    and "th_trigger th' = th_trigger (apply_signal signal th1)"
proof -
  let ?th2 = "after_fire (th_trigger th1) signal (apply_signal signal th1)"
  have fin: "exec_finalize env clock rem ea signal ?th2 b' = Inr th'"
    and th1: "th1 = (if th_fiber_signal th = Chain then th\<lparr>th_fiber_cursor := cur\<rparr> else th)"
    using assms unfolding executed_def by blast+
  have t: "th_trigger th1 = th_trigger th" "th_exec_count th1 = th_exec_count th" "same_identity th th1"
    by (simp_all add: th1 same_identity_def)
  note f = exec_finalize_frame [OF fin] and a = after_fire_frame [where th = "apply_signal signal th1" and trigger = "th_trigger th1" and signal = signal]
  have "same_identity th ?th2" by (rule same_identity_trans [OF same_identity_trans [OF t(3) apply_signal_frame(1)] a(1)])
  then show "same_identity th th'" by (rule same_identity_trans [OF _ f(1)])
  show "unat (th_exec_count th') = unat (th_exec_count th) + 1"
    using f(2) a(2) apply_signal_frame(2) [of signal th1] t(2) by simp
  show "th_last_executor th' = ea_executor ea" by (rule f(3))
  show "th_fiber_signal th' = th_fiber_signal (after_fire (th_trigger th) signal (apply_signal signal th1))"
    and "th_paused th' = th_paused (after_fire (th_trigger th) signal (apply_signal signal th1))"
    using f(4,5) t(1) by simp_all
  show "th_fiber_cursor th' = th_fiber_cursor (apply_signal signal th1)"
    and "th_trigger th' = th_trigger (apply_signal signal th1)"
    using f(6,7) a(3,5) by simp_all
qed

text \<open>Only \<open>Chain\<close> and \<open>Close\<close> survive; an immediate trigger always ends in \<open>Close\<close>.\<close>

lemma signal_after:
  "th_fiber_signal (after_fire trigger signal (apply_signal signal th)) =
     (if signal = Chain then Chain
      else if signal = Close \<or> (\<exists>j. trigger = Immediate j) then Close else Signal_None)"
  by (auto simp: after_fire_def apply_signal_def Let_def advance_eq split: Trigger.splits Signal.splits option.splits bool.splits)

lemma paused_after_timestamp:
  assumes "trigger = Timestamp ts j" and "signal \<noteq> Chain" and "\<And>t i. signal \<noteq> Update (Some False) t i"
  shows "th_paused (after_fire trigger signal (apply_signal signal th))"
  using assms by (auto simp: after_fire_def apply_signal_def Let_def split: Signal.splits option.splits bool.splits)

lemma thread_exec_inv:
  assumes "thread_exec env sg ea clock forgo cur rem cfg th b = Inr (th', b')" and "thread_inv th"
  shows "thread_inv th'"
proof (cases "th_fiber_signal th = Close")
  case True
  with thread_exec_cases [OF assms(1)] have "th' = th"
    by (auto simp: exec_close_path_def res_simps)
  with assms(2) show ?thesis by simp
next
  case False
  with thread_exec_cases [OF assms(1)] obtain th1 b1 tsr ix b2 ret signal where
    "executed env sg ea clock forgo cur rem cfg th b th1 b1 tsr ix b2 ret signal th' b'" by auto
  note e = executed_thread [OF this]
  show ?thesis using assms(2) e(1,4) by (auto simp: thread_inv_def same_identity_def signal_after)
qed

section \<open>Payments of an execution\<close>

text \<open>What the runtime guarantees of an invocation: lamports are moved, never made.\<close>

definition invoke_conserves :: "thread_env \<Rightarrow> pubkey set \<Rightarrow> bool" where
  "invoke_conserves env A \<longleftrightarrow>
     (\<forall>ix accs sg b b' ret. invoke_signed env ix accs sg b = Inr (b', ret) \<longrightarrow> total A b' = total A b) \<and>
     (\<forall>n r k b b'. advance_nonce_account env n r k b = Inr b' \<longrightarrow> total A b' = total A b)"

lemma settle_Inr:
  assumes "settle ea cfg tsr forgo start b = Inr b'"
  obtains change payments where "change = u64_as_i64 (lamports (b (ea_executor ea))) - u64_as_i64 start"
    "calculate_payments cfg tsr change forgo = Inr payments"
    "distribute_payments (ea_thread ea) (ea_executor ea) (ea_admin ea) payments b = Inr b'"
  using assms by (auto simp: settle_def res_simps)

lemma executed_total:
  assumes "executed env sg ea clock forgo cur rem cfg th b th1 b1 tsr ix b2 ret signal th' b'"
    and inv: "invoke_conserves env A" and A: "finite A" "ea_thread ea \<in> A" "ea_executor ea \<in> A" "ea_admin ea \<in> A"
  shows "total A b' = total A b"
proof -
  have nonce: "advance_nonce_if_required env th1 (ea_thread ea) (ea_nonce_account ea) (ea_recent_blockhashes ea) b = Inr b1"
    and call: "invoke_signed env ix (exec_account_infos ea @ rem) [ea_thread ea] b1 = Inr (b2, ret)"
    and pay: "if signal = Chain then b' = b2 else settle ea cfg tsr forgo (lamports (b (ea_executor ea))) b2 = Inr b'"
    using assms(1) unfolding executed_def by blast+
  have "total A b1 = total A b"
    using nonce inv by (auto simp: advance_nonce_if_required_def invoke_conserves_def split: if_splits option.splits)
  moreover have "total A b2 = total A b1" using call inv unfolding invoke_conserves_def by blast
  moreover have "total A b' = total A b2"
    using pay A by (auto elim!: settle_Inr intro: distribute_payments_total split: if_splits)
  ultimately show ?thesis by simp
qed

lemma calculate_payments_Inr:
  assumes "config_inv c" and "calculate_payments c t change forgo = Inr p"
  shows "fee_payer_reimbursement p = (if change \<le> 0 then calculate_reimbursement change else 0)"
    and "unat (executor_commission p) =
      (if change \<le> 0 \<and> \<not> forgo then unat (commission c t) * unat (executor_fee_bps c) div 10000 else 0)"
    and "unat (core_team_fee p) = unat (commission c t) * unat (core_team_bps c) div 10000"
  using assms
  by (auto simp: calculate_payments_def res_simps effective_commission should_pay_def calculate_executor_fee_def
      calculate_core_team_fee_def unat_div split: if_splits dest!: checked_mul_Some)

end
