(* ===== verification/Thread_Lifecycle.thy ===== *)
theory Thread_Lifecycle
  imports Thread_Exec
begin

text \<open>
  A thread over its lifetime: from its creation, any sequence of the thread program's
  instructions on it, interleaved with anything the rest of the chain does to the account
  store. The invariant of the single handlers becomes an invariant of every reachable
  state, and a thread's identity never changes.
\<close>

definition created :: "thread_env \<Rightarrow> pubkey \<Rightarrow> Thread \<times> bank \<Rightarrow> bool" where
  "created env key s \<longleftrightarrow> (\<exists>sg ca clock amount i trigger paused ix fee lts th0 b.
     ca_thread ca = key \<and> thread_create env sg ca clock amount i trigger paused ix fee lts th0 b = Inr s)"

inductive thread_step :: "thread_env \<Rightarrow> pubkey \<Rightarrow> Thread \<times> bank \<Rightarrow> Thread \<times> bank \<Rightarrow> bool"
  for env :: thread_env and key :: pubkey where
  step_exec: "ea_thread ea = key \<Longrightarrow> thread_exec env sg ea clock forgo cur rem cfg th b = Inr (th', b') \<Longrightarrow>
    thread_step env key (th, b) (th', b')"
| step_update: "thread_update env sg a key clock params th = Inr th' \<Longrightarrow> thread_step env key (th, b) (th', b)"
| step_withdraw: "thread_withdraw env sg a pay key amount th b = Inr b' \<Longrightarrow> thread_step env key (th, b) (th, b')"
| step_fiber_create: "fiber_create env sg a key fiber i ix fee lts th b = Inr (th', b') \<Longrightarrow>
    thread_step env key (th, b) (th', b')"
| step_fiber_update: "fiber_update env sg a key fiber i oix ofee track olts th b = Inr (th', b') \<Longrightarrow>
    thread_step env key (th, b) (th', b')"
| step_fiber_close: "fiber_close env sg a key fiber i th b = Inr (th', b') \<Longrightarrow> thread_step env key (th, b) (th', b')"
| step_fiber_swap: "fiber_swap env sg a key tgt src i th b = Inr (th', b') \<Longrightarrow> thread_step env key (th, b) (th', b')"
| step_other: "thread_step env key (th, b) (th, b')"

inductive_cases thread_stepE: "thread_step env key (th, b) (th', b')"

lemma thread_step_inv:
  "thread_step env key s s' \<Longrightarrow> thread_inv (fst s) \<Longrightarrow> thread_inv (fst s')"
  by (induction rule: thread_step.induct)
    (auto intro: thread_exec_inv thread_update_inv fiber_create_inv fiber_update_inv fiber_close_inv fiber_swap_inv)

interpretation lifecycle: invariant_system "created env key" "thread_step env key" "\<lambda>s. thread_inv (fst s)" for env key
proof
  show "created env key s \<Longrightarrow> thread_inv (fst s)" for s
    by (cases s) (auto simp: created_def intro: thread_create_inv)
  show "thread_inv (fst s) \<Longrightarrow> thread_step env key s t \<Longrightarrow> thread_inv (fst t)" for s t
    by (rule thread_step_inv)
qed

section \<open>Identity\<close>

definition identity_of :: "Thread \<Rightarrow> pubkey \<times> bytes \<times> u8 \<times> pubkey \<times> bytes" where
  "identity_of th = (th_authority th, th_id th, th_bump th, th_nonce_account th, th_close_fiber th)"

lemma thread_exec_identity:
  assumes "thread_exec env sg ea clock forgo cur rem cfg th b = Inr (th', b')"
  shows "identity_of th' = identity_of th" and "unat (th_exec_count th) \<le> unat (th_exec_count th')"
proof -
  have "identity_of th' = identity_of th \<and> unat (th_exec_count th) \<le> unat (th_exec_count th')"
  proof (cases "th_fiber_signal th = Close")
    case True
    with thread_exec_cases [OF assms] have "th' = th" by (auto simp: exec_close_path_def res_simps)
    then show ?thesis by simp
  next
    case False
    with thread_exec_cases [OF assms] obtain th1 b1 tsr ix b2 ret signal where
      "executed env sg ea clock forgo cur rem cfg th b th1 b1 tsr ix b2 ret signal th' b'" by auto
    then show ?thesis using executed_thread(1,2) by (fastforce simp: identity_of_def same_identity_def)
  qed
  then show "identity_of th' = identity_of th" and "unat (th_exec_count th) \<le> unat (th_exec_count th')" by blast+
qed

lemma fiber_ops_identity:
  "fiber_create env sg a key fiber i ix fee lts th b = Inr (th', b') \<Longrightarrow>
     identity_of th' = identity_of th \<and> th_exec_count th' = th_exec_count th"
  "fiber_update env sg a key fiber i oix ofee track olts th b = Inr (th', b') \<Longrightarrow>
     identity_of th' = identity_of th \<and> th_exec_count th' = th_exec_count th"
  "fiber_close env sg a key fiber i th b = Inr (th', b') \<Longrightarrow>
     identity_of th' = identity_of th \<and> th_exec_count th' = th_exec_count th"
  "fiber_swap env sg a key tgt src i th b = Inr (th', b') \<Longrightarrow>
     identity_of th' = identity_of th \<and> th_exec_count th' = th_exec_count th"
  "thread_update env sg a key clock params th = Inr th' \<Longrightarrow>
     identity_of th' = identity_of th \<and> th_exec_count th' = th_exec_count th"
  by (auto simp: fiber_create_def fiber_update_def fiber_close_def fiber_swap_def thread_update_def advance_eq
      res_simps Let_def identity_of_def split: if_splits option.splits)

lemma thread_step_identity:
  "thread_step env key s s' \<Longrightarrow>
     identity_of (fst s') = identity_of (fst s) \<and> unat (th_exec_count (fst s)) \<le> unat (th_exec_count (fst s'))"
  by (induction rule: thread_step.induct) (auto simp: thread_exec_identity dest: fiber_ops_identity)

interpretation identity: invariant_system "\<lambda>s. s = s0" "thread_step env key"
  "\<lambda>s. identity_of (fst s) = identity_of (fst s0) \<and> unat (th_exec_count (fst s0)) \<le> unat (th_exec_count (fst s))"
  for s0 env key
proof
  show "identity_of (fst t) = identity_of (fst s0) \<and> unat (th_exec_count (fst s0)) \<le> unat (th_exec_count (fst t))"
    if "identity_of (fst s) = identity_of (fst s0) \<and> unat (th_exec_count (fst s0)) \<le> unat (th_exec_count (fst s))"
      "thread_step env key s t" for s t
    using that thread_step_identity [OF that(2)] by simp
qed simp

end
