(* ===== verification/Sample_Env.thy ===== *)
theory Sample_Env
  imports Thread_Lifecycle
begin

text \<open>
  A concrete environment that keeps every law the development assumes of the code outside
  the repository: length-prefixed encoders for Borsh, a calendar for \<open>chrono\<close>, a runtime
  whose invocations do nothing. It shows that the assumptions can hold together and is
  what the witnesses evaluate.
\<close>

section \<open>Encoders\<close>

text \<open>A natural number in unary, a list by its length and its elements.\<close>

definition enc_nat :: "nat \<Rightarrow> bytes" where "enc_nat n = replicate n 1 @ [0]"

fun dec_nat :: "bytes \<Rightarrow> (nat \<times> bytes) option" where
  "dec_nat [] = None"
| "dec_nat (b # bs) = (if b = 0 then Some (0, bs) else map_option (map_prod Suc id) (dec_nat bs))"

lemma dec_enc_nat [simp]: "dec_nat (enc_nat n @ r) = Some (n, r)"
  by (induction n) (simp_all add: enc_nat_def)

definition enc_word :: "'a::len word \<Rightarrow> bytes" where "enc_word w = enc_nat (unat w)"

definition dec_word :: "bytes \<Rightarrow> ('a::len word \<times> bytes) option" where
  "dec_word bs = map_option (map_prod of_nat id) (dec_nat bs)"

lemma dec_enc_word [simp]: "dec_word (enc_word w @ r) = Some (w, r)"
  by (simp add: dec_word_def enc_word_def)

definition enc_int :: "int \<Rightarrow> bytes" where
  "enc_int i = (if i < 0 then 1 else 0) # enc_nat (nat \<bar>i\<bar>)"

fun dec_int :: "bytes \<Rightarrow> (int \<times> bytes) option" where
  "dec_int [] = None"
| "dec_int (s # bs) = map_option (map_prod (\<lambda>n. if s = 0 then int n else - int n) id) (dec_nat bs)"

lemma dec_enc_int [simp]: "dec_int (enc_int i @ r) = Some (i, r)"
  by (simp add: enc_int_def)

fun dec_many :: "(bytes \<Rightarrow> ('a \<times> bytes) option) \<Rightarrow> nat \<Rightarrow> bytes \<Rightarrow> ('a list \<times> bytes) option" where
  "dec_many dec 0 bs = Some ([], bs)"
| "dec_many dec (Suc n) bs = Option.bind (dec bs) (\<lambda>(x, r). map_option (map_prod ((#) x) id) (dec_many dec n r))"

definition enc_list :: "('a \<Rightarrow> bytes) \<Rightarrow> 'a list \<Rightarrow> bytes" where
  "enc_list enc xs = enc_nat (length xs) @ concat (map enc xs)"

definition dec_list :: "(bytes \<Rightarrow> ('a \<times> bytes) option) \<Rightarrow> bytes \<Rightarrow> ('a list \<times> bytes) option" where
  "dec_list dec bs = Option.bind (dec_nat bs) (\<lambda>(n, r). dec_many dec n r)"

lemma dec_many_enc:
  assumes "\<And>x r. dec (enc x @ r) = Some (x, r)"
  shows "dec_many dec (length xs) (concat (map enc xs) @ r) = Some (xs, r)"
  by (induction xs) (simp_all add: assms)

lemma dec_enc_list:
  assumes "\<And>x r. dec (enc x @ r) = Some (x, r)"
  shows "dec_list dec (enc_list enc xs @ r) = Some (xs, r)"
  using dec_many_enc [of dec enc, OF assms] by (simp add: dec_list_def enc_list_def)

definition enc_byte :: "u8 \<Rightarrow> bytes" where "enc_byte b = [b]"

fun dec_byte :: "bytes \<Rightarrow> (u8 \<times> bytes) option" where
  "dec_byte [] = None"
| "dec_byte (b # bs) = Some (b, bs)"

definition enc_bytes :: "bytes \<Rightarrow> bytes" where "enc_bytes = enc_list enc_byte"

definition dec_bytes :: "bytes \<Rightarrow> (bytes \<times> bytes) option" where "dec_bytes = dec_list dec_byte"

lemma dec_enc_bytes [simp]: "dec_bytes (enc_bytes bs @ r) = Some (bs, r)"
  unfolding dec_bytes_def enc_bytes_def by (rule dec_enc_list) (simp add: enc_byte_def)

definition enc_keys :: "pubkey list \<Rightarrow> bytes" where "enc_keys = enc_list enc_bytes"

definition dec_keys :: "bytes \<Rightarrow> (pubkey list \<times> bytes) option" where "dec_keys = dec_list dec_bytes"

lemma dec_enc_keys [simp]: "dec_keys (enc_keys ks @ r) = Some (ks, r)"
  unfolding dec_keys_def enc_keys_def by (rule dec_enc_list) simp

section \<open>The stored types\<close>

definition enc_data :: "CompiledInstructionData \<Rightarrow> bytes" where
  "enc_data d = enc_byte (program_id_index d) @ enc_bytes (cid_accounts d) @ enc_bytes (cid_data d)"

definition dec_data :: "bytes \<Rightarrow> (CompiledInstructionData \<times> bytes) option" where
  "dec_data bs =
     Option.bind (dec_byte bs) (\<lambda>(p, r1).
     Option.bind (dec_bytes r1) (\<lambda>(a, r2).
     Option.bind (dec_bytes r2) (\<lambda>(d, r3).
       Some (\<lparr>program_id_index = p, cid_accounts = a, cid_data = d\<rparr>, r3))))"

lemma dec_enc_data [simp]: "dec_data (enc_data d @ r) = Some (d, r)"
  by (simp add: dec_data_def enc_data_def enc_byte_def)

definition enc_compiled :: "CompiledInstructionV0 \<Rightarrow> bytes" where
  "enc_compiled c = enc_byte (num_ro_signers c) @ enc_byte (num_rw_signers c) @ enc_byte (num_rw c) @
     enc_list enc_data (instructions c) @ enc_keys (ci_accounts c)"

definition dec_compiled :: "bytes \<Rightarrow> CompiledInstructionV0 option" where
  "dec_compiled bs =
     Option.bind (dec_byte bs) (\<lambda>(a, r1).
     Option.bind (dec_byte r1) (\<lambda>(b, r2).
     Option.bind (dec_byte r2) (\<lambda>(c, r3).
     Option.bind (dec_list dec_data r3) (\<lambda>(i, r4).
     Option.bind (dec_keys r4) (\<lambda>(k, r5).
       if r5 = [] then Some \<lparr>num_ro_signers = a, num_rw_signers = b, num_rw = c, instructions = i, ci_accounts = k\<rparr>
       else None)))))"

lemma dec_enc_compiled [simp]: "dec_compiled (enc_compiled c) = Some c"
proof -
  have "dec_list dec_data (enc_list enc_data xs @ r) = Some (xs, r)" for xs r
    by (rule dec_enc_list) simp
  then show ?thesis
    using dec_enc_keys [of "ci_accounts c" "[]"] by (simp add: dec_compiled_def enc_compiled_def enc_byte_def)
qed

definition enc_legacy :: "FiberState \<Rightarrow> bytes" where
  "enc_legacy s = enc_bytes (fs_thread s) @ enc_bytes (fs_compiled_instruction s) @ enc_int (fs_last_executed s) @
     enc_word (fs_exec_count s) @ enc_word (fs_priority_fee s)"

definition dec_legacy :: "bytes \<Rightarrow> FiberState option" where
  "dec_legacy bs =
     Option.bind (dec_bytes bs) (\<lambda>(t, r1).
     Option.bind (dec_bytes r1) (\<lambda>(c, r2).
     Option.bind (dec_int r2) (\<lambda>(l, r3).
     Option.bind (dec_word r3) (\<lambda>(e, r4).
     Option.bind (dec_word r4) (\<lambda>(p, r5).
       Some \<lparr>fs_thread = t, fs_compiled_instruction = c, fs_last_executed = l, fs_exec_count = e, fs_priority_fee = p\<rparr>)))))"

definition enc_versioned :: "FiberVersionedState \<Rightarrow> bytes" where
  "enc_versioned s = enc_byte (fv_version s) @ enc_bytes (fv_thread s) @ enc_bytes (fv_compiled_instruction s) @
     enc_int (fv_last_executed s) @ enc_word (fv_exec_count s) @ enc_word (fv_priority_fee s) @ enc_keys (fv_lookup_tables s)"

definition dec_versioned :: "bytes \<Rightarrow> FiberVersionedState option" where
  "dec_versioned bs =
     Option.bind (dec_byte bs) (\<lambda>(v, r0).
     Option.bind (dec_bytes r0) (\<lambda>(t, r1).
     Option.bind (dec_bytes r1) (\<lambda>(c, r2).
     Option.bind (dec_int r2) (\<lambda>(l, r3).
     Option.bind (dec_word r3) (\<lambda>(e, r4).
     Option.bind (dec_word r4) (\<lambda>(p, r5).
     Option.bind (dec_keys r5) (\<lambda>(k, r6).
       Some \<lparr>fv_version = v, fv_thread = t, fv_compiled_instruction = c, fv_last_executed = l, fv_exec_count = e,
             fv_priority_fee = p, fv_lookup_tables = k\<rparr>)))))))"

lemma dec_enc_legacy [simp]: "dec_legacy (enc_legacy s @ r) = Some s"
  by (simp add: dec_legacy_def enc_legacy_def)

lemma dec_enc_versioned [simp]: "dec_versioned (enc_versioned s @ r) = Some s"
  by (simp add: dec_versioned_def enc_versioned_def enc_byte_def)

section \<open>The fiber program's environment\<close>

definition sample_fiber_env :: fiber_env where
  "sample_fiber_env = \<lparr>
     find_program_address = (\<lambda>seeds pid. (concat seeds @ take 1 pid, 255)),
     minimum_balance = (\<lambda>n. of_nat n),
     key_order = (\<lambda>ks. ks),
     to_vec_compiled = enc_compiled,
     try_from_slice_compiled = dec_compiled,
     to_vec_legacy = enc_legacy,
     deserialize_legacy = dec_legacy,
     to_vec_versioned = enc_versioned,
     deserialize_versioned = dec_versioned,
     DISC_LEGACY = [1, 1, 1, 1, 1, 1, 1, 1],
     DISC_VERSIONED = [2, 2, 2, 2, 2, 2, 2, 2],
     system_allocate = (\<lambda>k n b. Inr (set_data k (replicate n 0) b)),
     system_assign = (\<lambda>k p b. Inr (b(k := (b k)\<lparr>acc_owner := p\<rparr>)))\<rparr>"

lemma sample_borsh: "borsh_laws sample_fiber_env"
proof -
  have "[2, 2, 2, 2, 2, 2, 2, 2] \<noteq> replicate 8 (255 :: u8)" "[1, 1, 1, 1, 1, 1, 1, 1] \<noteq> replicate 8 (255 :: u8)"
    by code_simp+
  then show ?thesis by (simp add: borsh_laws_def sample_fiber_env_def)
qed

lemma sample_hash_map: "hash_map_laws sample_fiber_env"
  by (simp add: hash_map_laws_def sample_fiber_env_def)

lemma sample_system: "system_laws sample_fiber_env"
  by (simp add: system_laws_def sample_fiber_env_def)

text \<open>Closing fibers keeps its contract in every environment that keeps Borsh's laws, and in this one.\<close>

locale borsh_env =
  fixes env :: fiber_env and signers :: "pubkey list"
  assumes laws: "borsh_laws env"

sublocale borsh_env \<subseteq> fiber_closing "fibers env" "\<lambda>b k. unat (lamports (b k))" "close_fiber env signers"
  using fiber_closing_close_fiber [OF laws] .

interpretation sample: borsh_env sample_fiber_env signers for signers
  by unfold_locales (rule sample_borsh)

section \<open>A calendar\<close>

definition cal_next :: "DateTime \<Rightarrow> DateTime" where
  "cal_next a =
     (let y = dt_year a; mo = dt_month a; d = dt_day a; h = dt_hour a; mi = dt_minute a; s = dt_second a in
      if s < 59 then dt y mo d h mi (s + 1)
      else if mi < 59 then dt y mo d h (mi + 1) 0
      else if h < 23 then dt y mo d (h + 1) 0 0
      else if d < days_in_month mo y then dt y mo (d + 1) 0 0 0
      else if mo < 12 then dt y (mo + 1) 1 0 0 0
      else dt (y + 1) 1 1 0 0 0)"

definition cal_prev :: "DateTime \<Rightarrow> DateTime" where
  "cal_prev a =
     (let y = dt_year a; mo = dt_month a; d = dt_day a; h = dt_hour a; mi = dt_minute a; s = dt_second a in
      if 0 < s then dt y mo d h mi (s - 1)
      else if 0 < mi then dt y mo d h (mi - 1) 59
      else if 0 < h then dt y mo d (h - 1) 59 59
      else if 1 < d then dt y mo (d - 1) 23 59 59
      else if 1 < mo then dt y (mo - 1) (days_in_month (mo - 1) y) 23 59 59
      else dt (y - 1) 12 31 23 59 59)"

text \<open>Days since 1 March of year 0, and the weekday (Sunday is 1).\<close>

definition cal_days :: "nat \<Rightarrow> nat \<Rightarrow> nat \<Rightarrow> nat" where
  "cal_days y mo d =
     (let y' = (if mo \<le> 2 then y - 1 else y); m' = (if mo \<le> 2 then mo + 9 else mo - 3) in
      365 * y' + y' div 4 - y' div 100 + y' div 400 + (153 * m' + 2) div 5 + (d - 1))"

definition cal_weekday :: "DateTime \<Rightarrow> nat" where
  "cal_weekday a = (cal_days (dt_year a) (dt_month a) (dt_day a) + 3) mod 7 + 1"

text \<open>A clock that numbers the seconds in the order of the calendar, with room for 32 days a month.\<close>

definition cal_stamp :: "DateTime \<Rightarrow> nat" where
  "cal_stamp a = ((((dt_year a * 13 + dt_month a) * 32 + dt_day a) * 24 + dt_hour a) * 60 + dt_minute a) * 60 + dt_second a"

definition cal_of_stamp :: "nat \<Rightarrow> DateTime" where
  "cal_of_stamp n =
     dt (n div (60 * 60 * 24 * 32 * 13)) (n div (60 * 60 * 24 * 32) mod 13) (n div (60 * 60 * 24) mod 32)
        (n div (60 * 60) mod 24) (n div 60 mod 60) (n mod 60)"

definition sample_chrono :: chrono where
  "sample_chrono = \<lparr>
     plus_one_second = cal_next,
     minus_one_second = cal_prev,
     number_from_sunday = cal_weekday,
     with_ymd_and_hms = (\<lambda>y mo d h mi s. if valid_dt (dt y mo d h mi s) then Some (dt y mo d h mi s) else None),
     from_timestamp = (\<lambda>t. if 0 \<le> t \<and> valid_dt (cal_of_stamp (nat t)) \<and> int (cal_stamp (cal_of_stamp (nat t))) = t
                            then Some (cal_of_stamp (nat t)) else None),
     timestamp = (\<lambda>a. int (cal_stamp a))\<rparr>"

lemma days_in_month_pos: "1 \<le> days_in_month mo y"
  by (simp add: days_in_month_def)

lemma cal_next_law: "next_second_law sample_chrono"
  unfolding next_second_law_def
proof (intro allI impI conjI)
  fix a :: DateTime
  assume a: "valid_dt a"
  have x: "days_in_month 12 y = 31" "1 \<le> days_in_month mo y" for mo y by (simp_all add: days_in_month_def)
  show "valid_dt (plus_one_second sample_chrono a)"
    using a x by (auto simp: sample_chrono_def cal_next_def Let_def valid_dt_def)
  fix c :: DateTime
  assume c: "valid_dt c"
  show "dt_key a < dt_key c \<longleftrightarrow> dt_key (plus_one_second sample_chrono a) \<le> dt_key c"
    using a c x
    by (cases "dt_year c = dt_year a \<and> dt_month c = dt_month a")
      (auto simp: sample_chrono_def cal_next_def Let_def valid_dt_def dt_key_def less_prod_def less_eq_prod_def)
qed

lemma cal_prev_law: "prev_second_law sample_chrono"
  unfolding prev_second_law_def
proof (intro allI impI conjI)
  fix a :: DateTime
  assume a: "valid_dt a \<and> 1 \<le> dt_year a"
  have x: "days_in_month 12 y = 31" "1 \<le> days_in_month mo y" for mo y by (simp_all add: days_in_month_def)
  have d: "dt_day a \<le> 31" using a days_in_month_le by (auto simp: valid_dt_def intro: le_trans)
  show "valid_dt (minus_one_second sample_chrono a)"
    using a x by (auto simp: sample_chrono_def cal_prev_def Let_def valid_dt_def)
  fix c :: DateTime
  assume c: "valid_dt c"
  show "dt_key c < dt_key a \<longleftrightarrow> dt_key c \<le> dt_key (minus_one_second sample_chrono a)"
    using a c x d
    by (cases "dt_year c = dt_year a \<and> dt_month c = dt_month a - 1")
      (auto simp: sample_chrono_def cal_prev_def Let_def valid_dt_def dt_key_def less_prod_def less_eq_prod_def)
qed

lemma digit_less:
  assumes "x < k" and "y < (k :: nat)"
  shows "a * k + x < b * k + y \<longleftrightarrow> a < b \<or> a = b \<and> x < y"
proof (cases a b rule: linorder_cases)
  case less
  then have "Suc a * k \<le> b * k" by (intro mult_right_mono) simp_all
  then show ?thesis using less assms by simp
next
  case greater
  then have "Suc b * k \<le> a * k" by (intro mult_right_mono) simp_all
  then show ?thesis using greater assms by simp
qed simp

lemma cal_stamp_less:
  assumes "valid_dt a" and "valid_dt c"
  shows "cal_stamp a < cal_stamp c \<longleftrightarrow> dt_key a < dt_key c"
proof -
  have d: "dt_day x < 32 \<and> dt_month x < 13 \<and> dt_hour x < 24 \<and> dt_minute x < 60 \<and> dt_second x < 60" if "valid_dt x" for x
    using that days_in_month_le [of "dt_month x" "dt_year x"] by (auto simp: valid_dt_def)
  note da = d [OF assms(1)] and dc = d [OF assms(2)]
  show ?thesis
    using da dc unfolding cal_stamp_def
    by (simp add: digit_less dt_key_def less_prod_def del: add_mult_distrib) arith
qed

lemma sample_chrono_laws: "chrono_laws sample_chrono"
  unfolding chrono_laws_def
proof (intro conjI)
  show "candidate_law sample_chrono" by (simp add: candidate_law_def sample_chrono_def)
  have "cal_weekday c \<le> 7" for c
  proof -
    have "(cal_days (dt_year c) (dt_month c) (dt_day c) + 3) mod 7 < 7" by (rule mod_less_divisor) simp
    then show ?thesis by (simp only: cal_weekday_def)
  qed
  then show "weekday_law sample_chrono" by (simp add: weekday_law_def sample_chrono_def cal_weekday_def)
  show "timestamp_law sample_chrono"
    by (auto simp: timestamp_law_def sample_chrono_def cal_stamp_less split: if_splits)
qed (rule cal_next_law cal_prev_law)+

section \<open>The thread program's environment\<close>

text \<open>A parser that knows the shorthands, and invocations that succeed and change nothing.\<close>

definition sample_parse :: "string \<Rightarrow> ScheduleFields option" where
  "sample_parse str =
     (if str = ''@yearly'' then Some shorthand_yearly
      else if str = ''@monthly'' then Some shorthand_monthly
      else if str = ''@weekly'' then Some shorthand_weekly
      else if str = ''@daily'' then Some shorthand_daily
      else if str = ''@hourly'' then Some shorthand_hourly else None)"

definition sample_close :: "pubkey \<Rightarrow> pubkey \<Rightarrow> bank \<Rightarrow> error + bank" where
  "sample_close k d b =
     then_do (move_lamports k d (lamports (b k)) Panic Panic b) (\<lambda>b1.
       Inr (b1(k := (b1 k)\<lparr>acc_data := [], acc_owner := SYSTEM_PROGRAM_ID\<rparr>)))"

definition sample_env :: thread_env where
  "sample_env = \<lparr>
     fenv = sample_fiber_env,
     chron = sample_chrono,
     parse_schedule = sample_parse,
     hash_jitter = (\<lambda>t k. of_nat (length k)),
     hash_slice = (\<lambda>bs. of_nat (length (filter (\<lambda>x. x \<noteq> 0) bs))),
     invoke_signed = (\<lambda>ix accs sg b. Inr (b, None)),
     advance_nonce_account = (\<lambda>n r k b. Inr b),
     create_nonce_account = (\<lambda>f n r p l k b. Inr b),
     NONCE_STATE_SIZE = 80,
     system_transfer = (\<lambda>f t n b. move_lamports f t n PE_InsufficientFunds PE_ArithmeticOverflow b),
     close_account = sample_close,
     create_program_address = (\<lambda>seeds pid. Some (concat (butlast seeds) @ take 1 pid)),
     try_from_slice_signal = (\<lambda>bs. None),
     to_vec_thread = (\<lambda>th. th_id th),
     from_utf8_lossy = (\<lambda>bs. []),
     pubkey_to_string = (\<lambda>k. []),
     DISC_DELETE_THREAD = [3, 3, 3, 3, 3, 3, 3, 3],
     DISC_CLOSE_THREAD = [4, 4, 4, 4, 4, 4, 4, 4]\<rparr>"

lemma sample_env_simps [simp]:
  "fenv sample_env = sample_fiber_env" "chron sample_env = sample_chrono" "parse_schedule sample_env = sample_parse"
  by (simp_all add: sample_env_def)

lemma sample_parser: "parser_laws sample_env"
  by (auto simp: parser_laws_def sample_parse_def shorthand_fields_ok split: if_splits)

lemma sample_close_laws: "close_laws sample_env"
  unfolding close_laws_def
proof (intro allI impI)
  fix k d b b'
  assume "close_account sample_env k d b = Inr b'" and ne: "k \<noteq> d"
  then obtain b1 where m: "move_lamports k d (lamports (b k)) Panic Panic b = Inr b1"
    and b': "b' = b1(k := (b1 k)\<lparr>acc_data := [], acc_owner := SYSTEM_PROGRAM_ID\<rparr>)"
    by (auto simp: sample_env_def sample_close_def res_simps)
  have "unat (lamports (b1 k)) = 0" using move_lamports_effect(1) [OF m ne] by simp
  then have "lamports (b1 k) = 0" by (simp add: unat_eq_zero)
  moreover have "b1 j = b j" if "j \<noteq> k" "j \<noteq> d" for j
    using m that by (auto simp: move_lamports_def res_simps Let_def set_lamports_def)
  ultimately show "lamports (b' k) = 0 \<and> acc_data (b' k) = [] \<and> acc_owner (b' k) = SYSTEM_PROGRAM_ID \<and>
      unat (lamports (b' d)) = unat (lamports (b d)) + unat (lamports (b k)) \<and>
      (\<forall>j. j \<noteq> k \<longrightarrow> j \<noteq> d \<longrightarrow> b' j = b j) \<and> acc_data (b' d) = acc_data (b d) \<and> acc_owner (b' d) = acc_owner (b d)"
    using move_lamports_effect(2) [OF m ne] move_lamports_frame(1,2) [OF m] ne by (simp add: b')
qed

lemma sample_invoke: "invoke_conserves sample_env A"
  by (simp add: invoke_conserves_def sample_env_def)

end
