(* ===== verification/Properties_Cron.thy ===== *)
theory Properties_Cron
  imports Sample_Env
begin

text \<open>
  The properties of the cron crate: what a field denotes, that the search returns the
  earliest matching instant after (the latest before) a given one, that every schedule
  built from an expression qualifies, and the two ways the search goes wrong when the
  year of the instant is not in the schedule.
\<close>

section \<open>Fields\<close>

text \<open>
  C13: For each of the seven units, a field that is accepted includes exactly the ordinals
  its specifiers denote (single values, ranges, named ranges, periods counted from the
  first element of their base), all inside the unit's bounds, in strictly increasing order.
\<close>

theorem field_denotes:
  assumes "u \<in> {Seconds, Minutes, Hours, DaysOfMonth, Months, DaysOfWeek, Years}" and "from_field u sps = Inr f"
  shows "ordinal_set u (ordinals u f) \<and> (\<forall>x. unit_includes u f x \<longleftrightarrow> (\<exists>sp\<in>set sps. denotes u sp x))"
proof -
  have "ordinal_set u (ordinals u f) \<and> set (ordinals u f) = {x. \<exists>sp\<in>set sps. denotes u sp x}"
    using assms(1)
    by (elim insertE emptyE)
      (use assms(2) in \<open>simp_all add: seconds.from_field_denotes minutes.from_field_denotes hours.from_field_denotes
        days_of_month.from_field_denotes months.from_field_denotes days_of_week.from_field_denotes
        years.from_field_denotes\<close>)
  then show ?thesis by (simp add: unit_includes_def)
qed

theorem field_denotes_witness:
  "\<exists>f. from_field DaysOfWeek [RootSpecifier (NamedRange ''Mon'' ''FRI''), Period (Point 5) 2] = Inr f \<and>
    (\<forall>x. unit_includes DaysOfWeek f x \<longleftrightarrow>
      (\<exists>sp. sp \<in> {RootSpecifier (NamedRange ''Mon'' ''FRI''), Period (Point 5) 2} \<and> denotes DaysOfWeek sp x))"
proof -
  have "from_field DaysOfWeek [RootSpecifier (NamedRange ''Mon'' ''FRI''), Period (Point 5) 2] = Inr (Some [2, 3, 4, 5, 6, 7])"
    by code_simp
  then show ?thesis using field_denotes [of DaysOfWeek] by (fastforce simp: Bex_def)
qed

section \<open>Searching\<close>

text \<open>
  C12: If the second after the given instant lies in a year of the schedule, or in none and
  later than all of them, \<open>next_after\<close> terminates without a panic and returns the earliest
  instant of the schedule strictly after the given one, or none if there is none.
\<close>

theorem next_after_is_earliest:
  assumes "chrono_laws ch" and "fields_ok s" and "valid_dt t"
    and "dt_year (plus_one_second ch t) \<in> set (ordinals Years (sf_years s)) \<or>
      (\<forall>y\<in>set (ordinals Years (sf_years s)). y < dt_year (plus_one_second ch t))"
  shows "\<exists>r. next_after ch s t = Inr r \<and> earliest_after ch s t r"
  using assms by (rule next_after_earliest)

text \<open>
  Symmetrically \<open>prev_before\<close> returns the latest instant of the schedule strictly before
  the given one, or none if there is none.
\<close>

theorem prev_before_is_latest:
  assumes "chrono_laws ch" and "fields_ok s" and "valid_dt t" and "1 \<le> dt_year t"
    and "dt_year (minus_one_second ch t) \<in> set (ordinals Years (sf_years s)) \<or>
      (\<forall>y\<in>set (ordinals Years (sf_years s)). dt_year (minus_one_second ch t) < y)"
  shows "\<exists>r. prev_before ch s t = Inr r \<and> latest_before ch s t r"
  using assms by (rule prev_before_latest)

lemma sample_instant:
  "valid_dt (dt 2024 2 28 12 30 0)" "plus_one_second sample_chrono (dt 2024 2 28 12 30 0) = dt 2024 2 28 12 30 1"
  "minus_one_second sample_chrono (dt 2024 2 28 12 30 0) = dt 2024 2 28 12 29 59"
  by (simp_all add: valid_dt_def days_in_month_def sample_chrono_def cal_next_def cal_prev_def)

lemma shorthand_daily_years: "sf_years shorthand_daily = None"
  by (simp add: shorthand_daily_def ScheduleFields_new_def)

theorem next_after_is_earliest_witness:
  "\<exists>r. next_after sample_chrono shorthand_daily (dt 2024 2 28 12 30 0) = Inr r \<and>
    earliest_after sample_chrono shorthand_daily (dt 2024 2 28 12 30 0) r"
  using sample_chrono_laws shorthand_fields_ok(4) sample_instant(1)
  by (rule next_after_is_earliest) (simp add: sample_instant shorthand_daily_years all_years)

theorem prev_before_is_latest_witness:
  "\<exists>r. prev_before sample_chrono shorthand_daily (dt 2024 2 28 12 30 0) = Inr r \<and>
    latest_before sample_chrono shorthand_daily (dt 2024 2 28 12 30 0) r"
  using sample_chrono_laws shorthand_fields_ok(4) sample_instant(1)
  by (rule prev_before_is_latest) (simp_all add: sample_instant shorthand_daily_years all_years)

text \<open>
  Iterating a schedule built from an expression without a year field: while it yields,
  each item is the earliest instant of the schedule after the previous one, so the items
  strictly increase; and once it has returned none it returns none for ever.
\<close>

theorem iterator_next_increases:
  assumes "chrono_laws ch" and "longhand_fields sec mi h md mon wd None = Inr s" and "iter_schedule it = s"
    and "valid_dt (previous_datetime it)" and "1970 \<le> dt_year (plus_one_second ch (previous_datetime it))"
  shows "\<exists>r it'. iterator_next ch it = Inr (r, it') \<and> iter_schedule it' = s \<and>
    (case r of
       Some c \<Rightarrow> \<not> is_done it \<and> previous_datetime it' = c \<and> valid_dt c \<and> schedule_includes ch s c \<and>
                 dt_key (previous_datetime it) < dt_key c \<and> earliest_after ch s (previous_datetime it) r
     | None \<Rightarrow> is_done it' \<and> iterator_next ch it' = Inr (None, it'))"
proof -
  have "sf_years s = None"
    using assms(2) by (auto simp: longhand_fields_def res_simps ScheduleFields_new_def)
  then obtain r where r: "next_after ch s (previous_datetime it) = Inr r" "earliest_after ch s (previous_datetime it) r"
    using next_after_open_year [OF assms(1) longhand_fields_ok [OF assms(2)] assms(4) _ assms(5)] by blast
  show ?thesis
  proof (cases r)
    case None
    then show ?thesis using r(1) assms(3) by (auto simp: iterator_next_def)
  next
    case (Some c)
    then show ?thesis using r assms(3) by (auto simp: iterator_next_def earliest_after_def Let_def)
  qed
qed

theorem iterator_next_increases_witness:
  "\<exists>r it'. iterator_next sample_chrono (schedule_after (ScheduleFields_new (Some [0]) (Some [0]) (Some [0]) None None None None)
      (dt 2024 2 28 12 30 0)) = Inr (r, it') \<and>
    (r = None \<longrightarrow> is_done it')"
proof -
  let ?it = "schedule_after (ScheduleFields_new (Some [0]) (Some [0]) (Some [0]) None None None None) (dt 2024 2 28 12 30 0)"
  have l: "longhand_fields [RootSpecifier (Point 0)] [RootSpecifier (Point 0)] [RootSpecifier (Point 0)]
      [RootSpecifier All] [RootSpecifier All] [RootSpecifier All] None = Inr (iter_schedule ?it)"
    by (simp add: longhand_fields_def from_field_def ScheduleFields_new_def schedule_after_def validate_ordinal_def)
  have p: "previous_datetime ?it = dt 2024 2 28 12 30 0" by (simp add: schedule_after_def)
  have v: "valid_dt (previous_datetime ?it)" "1970 \<le> dt_year (plus_one_second sample_chrono (previous_datetime ?it))"
    using sample_instant by (simp_all add: p)
  show ?thesis
    using iterator_next_increases [OF sample_chrono_laws l refl v] by fastforce
qed

section \<open>Years outside the schedule\<close>

text \<open>
  C36: From any instant in June 2017, the schedule of midnight on 1 January 2020 has no next
  instant according to \<open>next_after\<close>, although that midnight is later and included: the
  first later year is searched from the instant's own month on.
\<close>

theorem next_after_misses_later_year:
  assumes "chrono_laws ch" and "valid_dt t"
    and "dt_year (plus_one_second ch t) = 2017" and "dt_month (plus_one_second ch t) = 6"
  shows "next_after ch new_year_2020 t = Inr None \<and>
    valid_dt (dt 2020 1 1 0 0 0) \<and> schedule_includes ch new_year_2020 (dt 2020 1 1 0 0 0) \<and>
    dt_key t < dt_key (dt 2020 1 1 0 0 0)"
  using assms by (rule new_year_2020_missed)

theorem next_after_misses_later_year_witness:
  "next_after sample_chrono new_year_2020 (dt 2017 6 15 0 0 0) = Inr None \<and>
    schedule_includes sample_chrono new_year_2020 (dt 2020 1 1 0 0 0)"
  using next_after_misses_later_year [OF sample_chrono_laws, of "dt 2017 6 15 0 0 0"]
  by (simp add: valid_dt_def days_in_month_def sample_chrono_def cal_next_def)

text \<open>
  From any instant whose next second is on 29 February 2016, a schedule for the year
  2017 and every month panics: the range of days from 29 to 28 is refused.
\<close>

theorem next_after_leap_day_panics:
  assumes "dt_year (plus_one_second ch t) = 2016" and "dt_month (plus_one_second ch t) = 2"
    and "dt_day (plus_one_second ch t) = 29" and "sf_years s = Some [2017]" and "sf_months s = None"
  shows "next_after ch s t = Inl Panic"
  using assms by (rule leap_day_panics)

theorem next_after_leap_day_panics_witness:
  "next_after sample_chrono (ScheduleFields_new (from_ordinal 0) (from_ordinal 0) (from_ordinal 0) None None None (from_ordinal 2017))
     (dt 2016 2 29 10 0 0) = Inl Panic"
  by (rule next_after_leap_day_panics)
    (simp_all add: sample_chrono_def cal_next_def ScheduleFields_new_def from_ordinal_def)

end
