(* ===== verification/Rpc_Pool.thy ===== *)
theory Rpc_Pool
  imports F64
begin

text \<open>
  \<open>crates/client/src/rpc/endpoint.rs\<close>, \<open>pool.rs\<close>, \<open>health.rs\<close> and the endpoint part of
  \<open>config.rs\<close>: the health of an endpoint, selection by strategy, failover and health
  checks. The shared \<open>Arc<EndpointState>\<close>s are the entries of the pool's list, named by
  their position, so that recording an outcome reaches the pool's own endpoint. Instants
  and durations are nanoseconds. The HTTP client and the JSON parsers are parameters.
\<close>

section \<open>Endpoints\<close>

datatype EndpointRole = Submission | Datasource | Both

fun can_submit_role :: "EndpointRole \<Rightarrow> bool" where
  "can_submit_role Submission = True"
| "can_submit_role Both = True"
| "can_submit_role Datasource = False"

fun can_fetch_role :: "EndpointRole \<Rightarrow> bool" where
  "can_fetch_role Datasource = True"
| "can_fetch_role Both = True"
| "can_fetch_role Submission = False"

record EndpointConfig =
  ec_url :: string
  ec_ws_url :: "string option"
  ec_priority :: u8
  ec_role :: EndpointRole

definition EndpointConfig_new :: "string \<Rightarrow> EndpointConfig" where
  "EndpointConfig_new url = \<lparr>ec_url = url, ec_ws_url = None, ec_priority = 100, ec_role = Both\<rparr>"

text \<open>\<open>str::replace\<close> with a pattern that is not empty: left to right, without overlap.\<close>

function str_replace :: "string \<Rightarrow> string \<Rightarrow> string \<Rightarrow> string" where
  "str_replace pat rep s =
     (case s of
        [] \<Rightarrow> []
      | c # cs \<Rightarrow>
          if pat \<noteq> [] \<and> take (length pat) s = pat then rep @ str_replace pat rep (drop (length pat) s)
          else c # str_replace pat rep cs)"
  by pat_completeness auto
termination
  by (relation "measure (\<lambda>(pat, rep, s). length s)") auto

declare str_replace.simps [simp del]

definition ws_url :: "EndpointConfig \<Rightarrow> string" where
  "ws_url config =
     (case ec_ws_url config of
        Some u \<Rightarrow> u
      | None \<Rightarrow> str_replace ''http://'' ''ws://'' (str_replace ''https://'' ''wss://'' (ec_url config)))"

datatype EndpointHealth = Healthy | Degraded | Unhealthy

record EndpointState =
  ep_config :: EndpointConfig
  health :: EndpointHealth
  consecutive_failures :: u64
  consecutive_successes :: u64
  total_requests :: u64
  successful_requests :: u64
  failed_requests :: u64
  avg_latency_us :: u64
  last_success :: "nat option"
  last_failure :: "nat option"
  latency_samples :: u64

definition endpoint_new :: "EndpointConfig \<Rightarrow> EndpointState" where
  "endpoint_new config = \<lparr>ep_config = config, health = Healthy, consecutive_failures = 0, consecutive_successes = 0,
     total_requests = 0, successful_requests = 0, failed_requests = 0, avg_latency_us = 0, last_success = None,
     last_failure = None, latency_samples = 0\<rparr>"

definition can_submit :: "EndpointState \<Rightarrow> bool" where
  "can_submit e = can_submit_role (ec_role (ep_config e))"

definition can_fetch :: "EndpointState \<Rightarrow> bool" where
  "can_fetch e = can_fetch_role (ec_role (ep_config e))"

definition is_available :: "EndpointState \<Rightarrow> bool" where
  "is_available e \<longleftrightarrow> health e = Healthy \<or> health e = Degraded"

text \<open>The moving average with \<open>alpha = 0.2\<close>, in doubles; \<open>as_micros() as u64\<close> keeps the low 64 bits.\<close>

definition update_latency :: "nat \<Rightarrow> EndpointState \<Rightarrow> EndpointState" where
  "update_latency latency e =
     (let latency_us = (of_nat (latency div 1000) :: u64);
          samples = latency_samples e;
          e1 = e\<lparr>latency_samples := samples + 1\<rparr>
      in if samples = 0 then e1\<lparr>avg_latency_us := latency_us\<rparr>
         else e1\<lparr>avg_latency_us :=
           f64_as_u64 (f64_add (f64_mul (f64_of_u64 (avg_latency_us e)) (f64_round (8 / 10)))
                               (f64_mul (f64_of_u64 latency_us) (f64_round (2 / 10))))\<rparr>)"

definition maybe_upgrade_health :: "EndpointState \<Rightarrow> EndpointState" where
  "maybe_upgrade_health e =
     (let successes = consecutive_successes e in
      if health e = Unhealthy \<and> 3 \<le> successes then e\<lparr>health := Degraded\<rparr>
      else if health e = Degraded \<and> 5 \<le> successes then e\<lparr>health := Healthy\<rparr>
      else e)"

definition maybe_downgrade_health :: "EndpointState \<Rightarrow> EndpointState" where
  "maybe_downgrade_health e =
     (let failures = consecutive_failures e in
      if health e = Healthy \<and> 3 \<le> failures then e\<lparr>health := Degraded\<rparr>
      else if health e = Degraded \<and> 5 \<le> failures then e\<lparr>health := Unhealthy\<rparr>
      else e)"

definition record_success :: "nat \<Rightarrow> nat \<Rightarrow> EndpointState \<Rightarrow> EndpointState" where
  "record_success now latency e =
     maybe_upgrade_health
       ((update_latency latency
           (e\<lparr>total_requests := total_requests e + 1, successful_requests := successful_requests e + 1,
              consecutive_successes := consecutive_successes e + 1, consecutive_failures := 0\<rparr>))
        \<lparr>last_success := Some now\<rparr>)"

definition record_failure :: "nat \<Rightarrow> EndpointState \<Rightarrow> EndpointState" where
  "record_failure now e =
     maybe_downgrade_health
       (e\<lparr>total_requests := total_requests e + 1, failed_requests := failed_requests e + 1,
          consecutive_failures := consecutive_failures e + 1, consecutive_successes := 0,
          last_failure := Some now\<rparr>)"

definition mark_unhealthy :: "EndpointState \<Rightarrow> EndpointState" where
  "mark_unhealthy e = e\<lparr>health := Unhealthy\<rparr>"

definition mark_degraded :: "EndpointState \<Rightarrow> EndpointState" where
  "mark_degraded e = e\<lparr>health := Degraded\<rparr>"

definition mark_healthy :: "EndpointState \<Rightarrow> EndpointState" where
  "mark_healthy e = e\<lparr>health := Healthy, consecutive_failures := 0\<rparr>"

definition reset_stats :: "EndpointState \<Rightarrow> EndpointState" where
  "reset_stats e = e\<lparr>total_requests := 0, successful_requests := 0, failed_requests := 0, avg_latency_us := 0,
     latency_samples := 0, consecutive_failures := 0, consecutive_successes := 0\<rparr>"

section \<open>The pool\<close>

datatype LoadBalanceStrategy = RoundRobin | WeightedRoundRobin | LeastLatency | Priority

record RpcPool =
  endpoints :: "EndpointState list"
  load_balance_strategy :: LoadBalanceStrategy
  round_robin_idx :: u64

definition pool_new :: "EndpointConfig list \<Rightarrow> LoadBalanceStrategy \<Rightarrow> string + RpcPool" where
  "pool_new endpoint_configs strategy =
     (if endpoint_configs = [] then Inl ''At least one endpoint is required''
      else Inr \<lparr>endpoints = map endpoint_new endpoint_configs, load_balance_strategy = strategy, round_robin_idx = 0\<rparr>)"

definition available_endpoints :: "bool \<Rightarrow> RpcPool \<Rightarrow> nat list" where
  "available_endpoints read_only pool =
     filter (\<lambda>i. let e = endpoints pool ! i in (if read_only then can_fetch e else can_submit e) \<and> is_available e)
       [0..<length (endpoints pool)]"

definition select_endpoints :: "bool \<Rightarrow> RpcPool \<Rightarrow> nat list \<times> RpcPool" where
  "select_endpoints read_only pool =
     (let available = available_endpoints read_only pool in
      if available = [] then ([], pool)
      else case load_balance_strategy pool of
        RoundRobin \<Rightarrow>
          let idx = round_robin_idx pool;
              start = unat idx mod length available
          in (map (\<lambda>i. available ! ((start + i) mod length available)) [0..<length available],
              pool\<lparr>round_robin_idx := idx + 1\<rparr>)
      | Priority \<Rightarrow> (sort_key (\<lambda>i. ec_priority (ep_config (endpoints pool ! i))) available, pool)
      | LeastLatency \<Rightarrow> (sort_key (\<lambda>i. avg_latency_us (endpoints pool ! i)) available, pool)
      | WeightedRoundRobin \<Rightarrow> (sort_key (\<lambda>i. ec_priority (ep_config (endpoints pool ! i))) available, pool))"

definition on_endpoint :: "nat \<Rightarrow> (EndpointState \<Rightarrow> EndpointState) \<Rightarrow> RpcPool \<Rightarrow> RpcPool" where
  "on_endpoint i f pool = pool\<lparr>endpoints := (endpoints pool)[i := f (endpoints pool ! i)]\<rparr>"

text \<open>What one request needs from outside: the HTTP exchange and the JSON parsers.\<close>

datatype rpc_error = NoHealthyEndpoints | HttpError | TransportError | RpcErrorResponse string | JsonParseError | RpcPanic

text \<open>
  A response is its UTF-8 bytes. The message about one that cannot be parsed quotes its first
  500 bytes; cutting a string inside a character panics, which unwinds out of the request.
\<close>

definition is_char_boundary :: "string \<Rightarrow> nat \<Rightarrow> bool" where
  "is_char_boundary s i \<longleftrightarrow> i = length s \<or> i < length s \<and> (i = 0 \<or> \<not> (128 \<le> (of_char (s ! i) :: nat) \<and> (of_char (s ! i) :: nat) < 192))"

record 'r rpc_env =
  http_post :: "string \<Rightarrow> nat \<Rightarrow> (bool \<times> string option) option"
  parse_rpc_error :: "string \<Rightarrow> string option"
  parse_response :: "string \<Rightarrow> 'r option"
  http_latency :: "string \<Rightarrow> nat \<Rightarrow> nat"

definition execute_request :: "'r rpc_env \<Rightarrow> string \<Rightarrow> nat \<Rightarrow> rpc_error + 'r" where
  "execute_request env url now =
     (case http_post env url now of
        None \<Rightarrow> Inl TransportError
      | Some (status_ok, body) \<Rightarrow>
          if \<not> status_ok then Inl HttpError
          else (case body of
              None \<Rightarrow> Inl TransportError
            | Some txt \<Rightarrow>
                (case parse_rpc_error env txt of
                   Some message \<Rightarrow> Inl (RpcErrorResponse message)
                 | None \<Rightarrow> (case parse_response env txt of
                        Some r \<Rightarrow> Inr r
                      | None \<Rightarrow> if is_char_boundary txt (min (length txt) 500) then Inl JsonParseError else Inl RpcPanic))))"

text \<open>The loop over the selected endpoints; the clock moves on by each request's latency.\<close>

fun try_endpoints :: "'r rpc_env \<Rightarrow> nat \<Rightarrow> nat list \<Rightarrow> rpc_error \<Rightarrow> RpcPool \<Rightarrow> (rpc_error + 'r) \<times> RpcPool" where
  "try_endpoints env now [] last_error pool = (Inl last_error, pool)"
| "try_endpoints env now (i # is) last_error pool =
     (let url = ec_url (ep_config (endpoints pool ! i));
          elapsed = http_latency env url now in
      case execute_request env url now of
        Inr response \<Rightarrow> (Inr response, on_endpoint i (record_success (now + elapsed) elapsed) pool)
      | Inl e \<Rightarrow>
          if e = RpcPanic then (Inl RpcPanic, pool)
          else try_endpoints env (now + elapsed) is e (on_endpoint i (record_failure (now + elapsed)) pool))"

definition execute_with_failover :: "'r rpc_env \<Rightarrow> nat \<Rightarrow> bool \<Rightarrow> RpcPool \<Rightarrow> (rpc_error + 'r) \<times> RpcPool" where
  "execute_with_failover env now read_only pool =
     (let (selected, pool1) = select_endpoints read_only pool in
      if selected = [] then (Inl NoHealthyEndpoints, pool1)
      else try_endpoints env now selected NoHealthyEndpoints pool1)"

definition healthy_count :: "RpcPool \<Rightarrow> nat" where
  "healthy_count pool = length (filter (\<lambda>e. health e = Healthy) (endpoints pool))"

definition pool_mark :: "(EndpointState \<Rightarrow> EndpointState) \<Rightarrow> string \<Rightarrow> RpcPool \<Rightarrow> RpcPool" where
  "pool_mark mark url pool =
     (case position (\<lambda>e. ec_url (ep_config e) = url) (endpoints pool) of
        Some i \<Rightarrow> on_endpoint i mark pool
      | None \<Rightarrow> pool)"

definition pool_mark_unhealthy :: "string \<Rightarrow> RpcPool \<Rightarrow> RpcPool" where
  "pool_mark_unhealthy = pool_mark mark_unhealthy"

definition pool_mark_healthy :: "string \<Rightarrow> RpcPool \<Rightarrow> RpcPool" where
  "pool_mark_healthy = pool_mark mark_healthy"

section \<open>Health checks\<close>

definition str_contains :: "string \<Rightarrow> string \<Rightarrow> bool" where
  "str_contains s pat \<longleftrightarrow> list_ex (\<lambda>n. take (length pat) (drop n s) = pat) [0..<Suc (length s)]"

text \<open>The characters \<open>\"result\":\"ok\"\<close>, the same with a blank, and \<open>\"error\"\<close>.\<close>

definition quoted :: "string \<Rightarrow> string" where "quoted s = CHR 0x22 # s @ [CHR 0x22]"

definition healthy_response :: "string \<Rightarrow> bool" where
  "healthy_response txt \<longleftrightarrow>
     (if str_contains txt (quoted ''result'' @ '':'' @ quoted ''ok'') \<or> str_contains txt (quoted ''result'' @ '': '' @ quoted ''ok'')
      then True
      else \<not> str_contains txt (quoted ''error''))"

definition check_endpoint :: "'r rpc_env \<Rightarrow> nat \<Rightarrow> EndpointState \<Rightarrow> nat \<times> EndpointState" where
  "check_endpoint env now e =
     (let url = ec_url (ep_config e); elapsed = http_latency env url now; done = now + elapsed in
      (done,
       case http_post env url now of
         Some (True, Some txt) \<Rightarrow> if healthy_response txt then record_success done elapsed e else record_failure done e
       | _ \<Rightarrow> record_failure done e))"

fun check_all_endpoints :: "'r rpc_env \<Rightarrow> nat \<Rightarrow> EndpointState list \<Rightarrow> EndpointState list" where
  "check_all_endpoints env now [] = []"
| "check_all_endpoints env now (e # es) =
     (let (done, e1) = check_endpoint env now e in e1 # check_all_endpoints env done es)"

section \<open>Selection\<close>

lemma mset_rotation:
  assumes "xs \<noteq> []"
  shows "mset (map (\<lambda>i. xs ! ((k + i) mod length xs)) [0..<length xs]) = mset xs"
proof -
  have "map (\<lambda>i. xs ! ((k + i) mod length xs)) [0..<length xs] = rotate k xs"
    by (rule nth_equalityI) (simp_all add: nth_rotate)
  moreover have "mset (rotate k xs) = mset (take (k mod length xs) xs) + mset (drop (k mod length xs) xs)"
    by (simp add: rotate_drop_take)
  moreover have "\<dots> = mset xs" by (metis append_take_drop_id mset_append)
  ultimately show ?thesis by simp
qed

text \<open>Every usable endpoint is tried once, in some order, and no other.\<close>

lemma select_endpoints_mset:
  "mset (fst (select_endpoints read_only pool)) = mset (available_endpoints read_only pool)"
  using mset_rotation [of "available_endpoints read_only pool" "unat (round_robin_idx pool) mod length (available_endpoints read_only pool)"]
  by (auto simp: select_endpoints_def Let_def split: LoadBalanceStrategy.splits)

lemma available_distinct: "distinct (available_endpoints read_only pool)"
  by (simp add: available_endpoints_def)

lemma available_iff:
  "i \<in> set (available_endpoints read_only pool) \<longleftrightarrow> i < length (endpoints pool) \<and>
     (if read_only then can_fetch (endpoints pool ! i) else can_submit (endpoints pool ! i)) \<and> is_available (endpoints pool ! i)"
  by (auto simp: available_endpoints_def Let_def)

lemma select_endpoints_frame:
  "endpoints (snd (select_endpoints read_only pool)) = endpoints pool"
  by (simp add: select_endpoints_def Let_def split: LoadBalanceStrategy.splits)

section \<open>Failover\<close>

lemma record_config [simp]:
  "ep_config (record_failure t e) = ep_config e" "ep_config (record_success t l e) = ep_config e"
  by (simp_all add: record_failure_def record_success_def maybe_downgrade_health_def maybe_upgrade_health_def update_latency_def Let_def)

lemma on_endpoint_simps [simp]:
  "length (endpoints (on_endpoint i f pool)) = length (endpoints pool)"
  "j \<noteq> i \<Longrightarrow> endpoints (on_endpoint i f pool) ! j = endpoints pool ! j"
  "i < length (endpoints pool) \<Longrightarrow> endpoints (on_endpoint i f pool) ! i = f (endpoints pool ! i)"
  by (simp_all add: on_endpoint_def)

text \<open>
  The loop stops at the first endpoint that answers: those before it have failed and
  recorded that, it has recorded a success, those behind are untouched.
\<close>

lemma try_endpoints_Inr:
  assumes "try_endpoints env now is e0 pool = (Inr r, pool')" and "distinct is" and "set is \<subseteq> {..<length (endpoints pool)}"
  shows "\<exists>pre i post. is = pre @ i # post \<and>
    (\<forall>j\<in>set pre. \<exists>t. endpoints pool' ! j = record_failure t (endpoints pool ! j)) \<and>
    (\<exists>t l. endpoints pool' ! i = record_success t l (endpoints pool ! i)) \<and>
    (\<forall>j. j \<notin> set pre \<longrightarrow> j \<noteq> i \<longrightarrow> endpoints pool' ! j = endpoints pool ! j)"
  using assms
proof (induction "is" arbitrary: now e0 pool)
  case (Cons i "is")
  let ?url = "ec_url (ep_config (endpoints pool ! i))"
  let ?t = "now + http_latency env ?url now"
  show ?case
  proof (cases "execute_request env ?url now")
    case (Inr a)
    with Cons.prems(1) have "pool' = on_endpoint i (record_success ?t (http_latency env ?url now)) pool"
      by (simp add: Let_def)
    with Cons.prems(3) show ?thesis
      by (intro exI [of _ "[]"] exI [of _ i] exI [of _ "is"]) auto
  next
    case (Inl a)
    let ?pool = "on_endpoint i (record_failure ?t) pool"
    from Inl Cons.prems have "try_endpoints env ?t is a ?pool = (Inr r, pool')" "distinct is"
      "set is \<subseteq> {..<length (endpoints ?pool)}"
      by (auto simp: Let_def split: if_splits)
    from Cons.IH [OF this] obtain pre k post where split: "is = pre @ k # post"
      and pre: "\<forall>j\<in>set pre. \<exists>t. endpoints pool' ! j = record_failure t (endpoints ?pool ! j)"
      and k: "\<exists>t l. endpoints pool' ! k = record_success t l (endpoints ?pool ! k)"
      and rest: "\<forall>j. j \<notin> set pre \<longrightarrow> j \<noteq> k \<longrightarrow> endpoints pool' ! j = endpoints ?pool ! j" by blast
    have i: "i \<notin> set pre" "i \<noteq> k" "i < length (endpoints pool)" using Cons.prems(2,3) split by auto
    have "\<forall>j\<in>set (i # pre). \<exists>t. endpoints pool' ! j = record_failure t (endpoints pool ! j)"
    proof
      fix j
      assume "j \<in> set (i # pre)"
      then show "\<exists>t. endpoints pool' ! j = record_failure t (endpoints pool ! j)"
        using pre [THEN bspec, of j] rest [THEN spec, of j] i by (cases "j = i") auto
    qed
    moreover have "\<exists>t l. endpoints pool' ! k = record_success t l (endpoints pool ! k)" using k i by simp
    moreover have "\<forall>j. j \<notin> set (i # pre) \<longrightarrow> j \<noteq> k \<longrightarrow> endpoints pool' ! j = endpoints pool ! j" using rest by simp
    ultimately show ?thesis using split by (intro exI [of _ "i # pre"] exI [of _ k] exI [of _ post]) simp
  qed
qed simp

text \<open>When every endpoint fails, all of them have recorded it.\<close>

lemma try_endpoints_Inl:
  assumes "try_endpoints env now is e0 pool = (Inl e, pool')" and "e \<noteq> RpcPanic" and "distinct is" and "set is \<subseteq> {..<length (endpoints pool)}"
  shows "\<forall>j\<in>set is. \<exists>t. endpoints pool' ! j = record_failure t (endpoints pool ! j)"
    and "\<forall>j. j \<notin> set is \<longrightarrow> endpoints pool' ! j = endpoints pool ! j"
proof -
  have "(\<forall>j\<in>set is. \<exists>t. endpoints pool' ! j = record_failure t (endpoints pool ! j)) \<and>
    (\<forall>j. j \<notin> set is \<longrightarrow> endpoints pool' ! j = endpoints pool ! j)"
    using assms
  proof (induction "is" arbitrary: now e0 pool)
    case (Cons i "is")
    let ?url = "ec_url (ep_config (endpoints pool ! i))"
    let ?t = "now + http_latency env ?url now"
    let ?pool = "on_endpoint i (record_failure ?t) pool"
    from Cons.prems(1) obtain a where "execute_request env ?url now = Inl a"
      by (cases "execute_request env ?url now") (auto simp: Let_def)
    with Cons.prems have "try_endpoints env ?t is a ?pool = (Inl e, pool')" "e \<noteq> RpcPanic" "distinct is"
      "set is \<subseteq> {..<length (endpoints ?pool)}"
      by (auto simp: Let_def split: if_splits)
    note ih = Cons.IH [OF this]
    have i: "i \<notin> set is" "i < length (endpoints pool)" using Cons.prems(3,4) by auto
    show ?case
    proof (intro conjI ballI allI impI)
      fix j
      assume "j \<in> set (i # is)"
      then show "\<exists>t. endpoints pool' ! j = record_failure t (endpoints pool ! j)"
        using conjunct1 [OF ih, THEN bspec, of j] conjunct2 [OF ih, THEN spec, of j] i by (cases "j = i") auto
    next
      fix j
      assume "j \<notin> set (i # is)"
      then show "endpoints pool' ! j = endpoints pool ! j" using ih by simp
    qed
  qed simp
  then show "\<forall>j\<in>set is. \<exists>t. endpoints pool' ! j = record_failure t (endpoints pool ! j)"
    and "\<forall>j. j \<notin> set is \<longrightarrow> endpoints pool' ! j = endpoints pool ! j" by blast+
qed

section \<open>Health\<close>

fun failures_in_a_row :: "nat list \<Rightarrow> EndpointState \<Rightarrow> EndpointState" where
  "failures_in_a_row [] e = e"
| "failures_in_a_row (t # ts) e = failures_in_a_row ts (record_failure t e)"

text \<open>Health after \<open>n\<close> failures in a row on a fresh or recovered endpoint.\<close>

definition health_after :: "nat \<Rightarrow> EndpointHealth" where
  "health_after n = (if n < 3 then Healthy else if n < 5 then Degraded else Unhealthy)"

lemma failures_in_a_row_health:
  assumes "health e = health_after c" and "unat (consecutive_failures e) = c" and "c + length ts < 2 ^ 64"
  shows "health (failures_in_a_row ts e) = health_after (c + length ts)"
  using assms
proof (induction ts arbitrary: e c)
  case (Cons t ts)
  have "unat (consecutive_failures e + 1) = c + 1"
    using Cons.prems by (simp add: unat_word_ariths)
  then have "health (record_failure t e) = health_after (c + 1) \<and> unat (consecutive_failures (record_failure t e)) = c + 1"
    using Cons.prems(1)
    by (auto simp: record_failure_def maybe_downgrade_health_def health_after_def Let_def word_le_nat_alt split: if_splits)
  then show ?case using Cons.IH [of "record_failure t e" "c + 1"] Cons.prems(3) by simp
qed simp

end
