(* ===== verification/Account_Cache.thy ===== *)
theory Account_Cache
  imports Thread_State
begin

text \<open>
  \<open>crates/client/src/resources/cache.rs\<close> and the account decoding of
  \<open>rpc/response.rs\<close>: the account cache behind the client's actors. The Moka cache is the
  map from addresses to entries it answers \<open>get\<close> from; it may drop an entry at any time
  (expiry, capacity), which \<open>evict\<close> does. The hash, the RPC node, Base64, Zstandard and
  the deserialiser of the thread account are parameters.
\<close>

datatype CacheTriggerType = Time i64 | CacheBlock | CacheAccount | CacheUnknown

definition from_thread :: "Thread \<Rightarrow> CacheTriggerType" where
  "from_thread thread =
     (let timed = (case th_schedule thread of Timed _ next_ts \<Rightarrow> Time next_ts | _ \<Rightarrow> CacheUnknown) in
      case th_trigger thread of
        Timestamp _ _ \<Rightarrow> timed
      | Cron _ _ _ \<Rightarrow> timed
      | Interval _ _ _ \<Rightarrow> timed
      | Immediate _ \<Rightarrow> timed
      | Slot _ \<Rightarrow> CacheBlock
      | Epoch _ \<Rightarrow> CacheBlock
      | Account _ _ _ \<Rightarrow> CacheAccount)"

record CachedAccount =
  ca_data :: bytes
  ca_slot :: u64
  ca_hash :: u64
  ca_trigger_type :: CacheTriggerType

record ThreadExpiry =
  grace_period :: u64
  eviction_buffer :: u64

text \<open>The time to live of an entry in seconds; \<open>None\<close> inside is \<open>no expiry\<close>, outside a panic.\<close>

definition calculate_ttl :: "ThreadExpiry \<Rightarrow> i64 \<Rightarrow> CachedAccount \<Rightarrow> u64 option option" where
  "calculate_ttl ex now value =
     (case ca_trigger_type value of
        Time next_at \<Rightarrow>
          if next_at = 0 \<or> next_at = i64_max then Some None
          else
            let expire_at = i64_saturating_add (i64_saturating_add next_at (u64_as_i64 (grace_period ex)))
                              (u64_as_i64 (eviction_buffer ex)) in
            if expire_at > now then
              let diff = i64_saturating_sub expire_at now in
              Some (Some (min (i64_as_u64 diff) 86400))
            else map_option (\<lambda>w. Some (max w 30)) (checked_add (grace_period ex) (eviction_buffer ex))
      | _ \<Rightarrow> Some None)"

type_synonym cache = "pubkey \<Rightarrow> CachedAccount option"

text \<open>An account as the RPC node returns it: the encoded data and the name of the encoding; a failed
  request is its error text.\<close>

record client_env =
  seahash :: "bytes \<Rightarrow> u64"
  try_deserialize_thread :: "bytes \<Rightarrow> Thread option"
  rpc_get_account :: "pubkey \<Rightarrow> string + (string \<times> string) option"
  base64_decode :: "string \<Rightarrow> bytes option"
  zstd_decompress :: "bytes \<Rightarrow> bytes option"

definition decode_account_data :: "client_env \<Rightarrow> string \<Rightarrow> string \<Rightarrow> bytes option" where
  "decode_account_data env data encoding =
     Option.bind (base64_decode env data) (\<lambda>decoded.
       if encoding = ''base64'' then Some decoded
       else if encoding = ''base64+zstd'' then zstd_decompress env decoded
       else None)"

definition cache_put :: "client_env \<Rightarrow> pubkey \<Rightarrow> bytes \<Rightarrow> u64 \<Rightarrow> CacheTriggerType \<Rightarrow> cache \<Rightarrow> cache" where
  "cache_put env key data slot trigger_type c =
     c(key \<mapsto> \<lparr>ca_data = data, ca_slot = slot, ca_hash = seahash env data, ca_trigger_type = trigger_type\<rparr>)"

definition cache_put_simple :: "client_env \<Rightarrow> pubkey \<Rightarrow> bytes \<Rightarrow> u64 \<Rightarrow> cache \<Rightarrow> cache" where
  "cache_put_simple env key data slot c = cache_put env key data slot CacheUnknown c"

definition invalidate :: "pubkey \<Rightarrow> cache \<Rightarrow> cache" where
  "invalidate key c = c(key := None)"

definition put_if_newer :: "client_env \<Rightarrow> pubkey \<Rightarrow> bytes \<Rightarrow> u64 \<Rightarrow> cache \<Rightarrow> bool \<times> cache" where
  "put_if_newer env key data slot c =
     (let new_hash = seahash env data;
          stale = (case c key of
                     Some existing \<Rightarrow> ca_hash existing = new_hash \<or> slot < ca_slot existing
                   | None \<Rightarrow> False) in
      if stale then (False, c)
      else
        let trigger_type = (case try_deserialize_thread env data of
                              Some thread \<Rightarrow> from_thread thread
                            | None \<Rightarrow> CacheUnknown) in
        (True, c(key \<mapsto> \<lparr>ca_data = data, ca_slot = slot, ca_hash = new_hash, ca_trigger_type = trigger_type\<rparr>)))"

definition get_thread_or_fetch :: "client_env \<Rightarrow> pubkey \<Rightarrow> cache \<Rightarrow> Thread option \<times> cache" where
  "get_thread_or_fetch env key c =
     (case c key of
        Some cached \<Rightarrow> (try_deserialize_thread env (ca_data cached), c)
      | None \<Rightarrow>
          (case rpc_get_account env key of
             Inr (Some (data, _)) \<Rightarrow>
               (case base64_decode env data of
                  None \<Rightarrow> (None, c)
                | Some account_data \<Rightarrow>
                    (case try_deserialize_thread env account_data of
                       None \<Rightarrow> (None, c)
                     | Some thread \<Rightarrow> (Some thread, cache_put env key account_data 0 (from_thread thread) c)))
           | _ \<Rightarrow> (None, c)))"

text \<open>What one entry goes through: updates from the datasources, fetches, drops.\<close>

inductive cache_step :: "client_env \<Rightarrow> cache \<Rightarrow> cache \<Rightarrow> bool" for env :: client_env where
  cache_newer: "cache_step env c (snd (put_if_newer env key data slot c))"
| cache_fetch: "cache_step env c (snd (get_thread_or_fetch env key c))"
| cache_drop: "cache_step env c (invalidate key c)"

text \<open>Every entry carries the hash of its data and the trigger type its data calls for.\<close>

definition entry_ok :: "client_env \<Rightarrow> CachedAccount \<Rightarrow> bool" where
  "entry_ok env e \<longleftrightarrow> ca_hash e = seahash env (ca_data e) \<and>
     ca_trigger_type e = (case try_deserialize_thread env (ca_data e) of Some thread \<Rightarrow> from_thread thread | None \<Rightarrow> CacheUnknown)"

definition cache_inv :: "client_env \<Rightarrow> cache \<Rightarrow> bool" where
  "cache_inv env c \<longleftrightarrow> (\<forall>key e. c key = Some e \<longrightarrow> entry_ok env e)"

lemma cache_inv_put: "cache_inv env c \<Longrightarrow> entry_ok env e \<Longrightarrow> cache_inv env (c(key \<mapsto> e))"
  by (simp add: cache_inv_def)

lemma put_if_newer_inv: "cache_inv env c \<Longrightarrow> cache_inv env (snd (put_if_newer env key data slot c))"
  by (auto simp: put_if_newer_def Let_def entry_ok_def intro!: cache_inv_put)

lemma get_thread_or_fetch_inv: "cache_inv env c \<Longrightarrow> cache_inv env (snd (get_thread_or_fetch env key c))"
  by (auto simp: get_thread_or_fetch_def cache_put_def entry_ok_def intro!: cache_inv_put split: option.split sum.split)

interpretation cache_life: invariant_system "\<lambda>c. c = (\<lambda>_. None)" "cache_step env" "cache_inv env" for env
proof
  show "c = (\<lambda>_. None) \<Longrightarrow> cache_inv env c" for c by (simp add: cache_inv_def)
  show "cache_inv env c \<Longrightarrow> cache_step env c c' \<Longrightarrow> cache_inv env c'" for c c'
    by (erule cache_step.cases)
      (simp_all add: put_if_newer_inv get_thread_or_fetch_inv, simp add: cache_inv_def invalidate_def)
qed

section \<open>Updates by slot\<close>

lemma put_if_newer_result:
  "put_if_newer env key data slot c = (ok, c') \<Longrightarrow>
     ok = (case c key of Some e \<Rightarrow> ca_hash e \<noteq> seahash env data \<and> ca_slot e \<le> slot | None \<Rightarrow> True) \<and>
     (if ok then \<exists>e. c' = c(key \<mapsto> e) \<and> ca_data e = data \<and> ca_slot e = slot else c' = c)"
  by (auto simp: put_if_newer_def Let_def not_less split: option.splits if_splits)

text \<open>Any sequence of updates of one key.\<close>

fun put_all :: "client_env \<Rightarrow> pubkey \<Rightarrow> (bytes \<times> u64) list \<Rightarrow> cache \<Rightarrow> cache" where
  "put_all env key [] c = c"
| "put_all env key ((data, slot) # us) c = put_all env key us (snd (put_if_newer env key data slot c))"

lemma put_all_slot_mono:
  "c key = Some e \<Longrightarrow> \<exists>e'. put_all env key us c key = Some e' \<and> ca_slot e \<le> ca_slot e'"
proof (induction us arbitrary: c e)
  case (Cons u us)
  obtain data slot where u: "u = (data, slot)" by fastforce
  obtain ok c' where p: "put_if_newer env key data slot c = (ok, c')" by fastforce
  from put_if_newer_result [OF p] Cons.prems obtain e1 where "c' key = Some e1" "ca_slot e \<le> ca_slot e1"
    by (cases ok) auto
  with Cons.IH [of c' e1] u p show ?case by (auto intro: order_trans)
qed simp

section \<open>Refetching\<close>

text \<open>
  The fetch decodes Base64 and nothing else, although accounts are requested (and the
  datasources decode them) as \<open>base64+zstd\<close>: compressed data that is not itself a thread
  cannot be fetched, however sound the account is.
\<close>

lemma fetch_compressed_fails:
  assumes "c key = None" and "rpc_get_account env key = Inr (Some (data, ''base64+zstd''))"
    and "base64_decode env data = Some packed" and "try_deserialize_thread env packed = None"
  shows "get_thread_or_fetch env key c = (None, c)"
  using assms by (simp add: get_thread_or_fetch_def)

section \<open>Time to live\<close>

lemma calculate_ttl_bounds:
  assumes "calculate_ttl ex now e = Some (Some secs)" and "in_i64 now"
  shows "0 < unat secs"
proof -
  have m: "30 \<le> unat (max w (30 :: u64))" for w by (simp add: max_def word_le_nat_alt)
  obtain next_ts where t: "ca_trigger_type e = Time next_ts"
    using assms(1) by (cases "ca_trigger_type e") (auto simp: calculate_ttl_def)
  define expire_at where "expire_at = i64_saturating_add (i64_saturating_add next_ts (u64_as_i64 (grace_period ex)))
      (u64_as_i64 (eviction_buffer ex))"
  show ?thesis
  proof (cases "expire_at > now")
    case True
    then have "secs = min (i64_as_u64 (i64_saturating_sub expire_at now)) 86400"
      using assms(1) t by (simp add: calculate_ttl_def Let_def expire_at_def split: if_splits)
    moreover have "0 < i64_saturating_sub expire_at now" "i64_saturating_sub expire_at now < 2 ^ 63"
      using True by (simp_all add: arith_defs)
    then have "unat (i64_as_u64 (i64_saturating_sub expire_at now)) = nat (i64_saturating_sub expire_at now)"
      by (simp add: i64_as_u64_def unat_eq_nat_uint uint_word_of_int)
    with \<open>0 < i64_saturating_sub expire_at now\<close> have "0 < unat (i64_as_u64 (i64_saturating_sub expire_at now))" by simp
    ultimately show ?thesis by (simp add: min_def)
  next
    case False
    then obtain w where "secs = max w 30"
      using assms(1) t by (auto simp: calculate_ttl_def Let_def expire_at_def split: if_splits)
    then show ?thesis using m [of w] by simp
  qed
qed

end
