(* ===== verification/Load_Balancer.thy ===== *)
theory Load_Balancer
  imports Solana "HOL-Library.AList"
begin

text \<open>
  \<open>crates/client/src/load_balancer.rs\<close>: which executor processes a thread. The tracking
  \<open>HashMap\<close> is an association list with distinct keys, of which only lookups and counts
  are used. \<open>should_process\<close> holds the write lock while it updates the ownership and
  takes locks again for the capacity check and the decision; the three sections are
  separate definitions and a call runs them in a row. A counter that would leave \<open>u32\<close>,
  or a product that would leave \<open>i64\<close>, panics.
\<close>

section \<open>Data\<close>

record LoadBalancerConfig =
  lb_enabled :: bool
  capacity_threshold :: u32
  thread_takeover_delay :: i64
  thread_process_delay :: u64

definition LoadBalancerConfig_default :: LoadBalancerConfig where
  "LoadBalancerConfig_default = \<lparr>lb_enabled = True, capacity_threshold = 5, thread_takeover_delay = 10, thread_process_delay = 0\<rparr>"

record ThreadTracking =
  consecutive_losses :: u32
  owned :: bool
  last_attempt :: "i64 option"

definition ThreadTracking_default :: ThreadTracking where
  "ThreadTracking_default = \<lparr>consecutive_losses = 0, owned = False, last_attempt = None\<rparr>"

datatype ProcessDecision = Process | Skip | AtCapacity

type_synonym tracking = "(pubkey \<times> ThreadTracking) list"

record LoadBalancer =
  executor_pubkey :: pubkey
  lb_config :: LoadBalancerConfig
  tracking :: tracking
  at_capacity :: bool

definition lb_new :: "pubkey \<Rightarrow> LoadBalancerConfig \<Rightarrow> LoadBalancer" where
  "lb_new executor config = \<lparr>executor_pubkey = executor, lb_config = config, tracking = [], at_capacity = False\<rparr>"

text \<open>\<open>entry(..).or_default()\<close>.\<close>

definition track_of :: "pubkey \<Rightarrow> LoadBalancer \<Rightarrow> ThreadTracking" where
  "track_of k lb = (case map_of (tracking lb) k of Some t \<Rightarrow> t | None \<Rightarrow> ThreadTracking_default)"

definition set_track :: "pubkey \<Rightarrow> ThreadTracking \<Rightarrow> LoadBalancer \<Rightarrow> LoadBalancer" where
  "set_track k t lb = lb\<lparr>tracking := AList.update k t (tracking lb)\<rparr>"

section \<open>Operations\<close>

text \<open>One more loss of an owned thread; at the threshold the ownership is released.\<close>

definition lose :: "LoadBalancerConfig \<Rightarrow> ThreadTracking \<Rightarrow> ThreadTracking option" where
  "lose config t =
     (if owned t then
        Option.bind (checked_add (consecutive_losses t) 1) (\<lambda>n.
          Some (if capacity_threshold config \<le> n then t\<lparr>owned := False, consecutive_losses := 0\<rparr>
                else t\<lparr>consecutive_losses := n\<rparr>))
      else Some t)"

definition update_ownership :: "pubkey \<Rightarrow> pubkey \<Rightarrow> LoadBalancer \<Rightarrow> LoadBalancer option" where
  "update_ownership thread last_executor lb =
     (let t = track_of thread lb in
      map_option (\<lambda>t'. set_track thread t' lb)
        (if last_executor = executor_pubkey lb then Some (t\<lparr>owned := True, consecutive_losses := 0\<rparr>)
         else if last_executor \<noteq> pubkey_default then lose (lb_config lb) t
         else Some t))"

definition check_capacity :: "LoadBalancer \<Rightarrow> LoadBalancer" where
  "check_capacity lb =
     (let owned_count = length (filter owned (map snd (tracking lb))) in
      if owned_count > 0 then
        let recent_losses = length (filter (\<lambda>t. consecutive_losses t > 0) (map snd (tracking lb))) in
        if recent_losses > owned_count div 2 then lb\<lparr>at_capacity := True\<rparr> else lb
      else lb)"

definition decide :: "pubkey \<Rightarrow> pubkey \<Rightarrow> bool \<Rightarrow> i64 \<Rightarrow> LoadBalancer \<Rightarrow> ProcessDecision option" where
  "decide thread last_executor is_overdue overdue_seconds lb =
     (let delay = thread_takeover_delay (lb_config lb) in
      if (case map_of (tracking lb) thread of Some t \<Rightarrow> owned t | None \<Rightarrow> False) then Some Process
      else if is_overdue \<and> overdue_seconds > delay then Some Process
      else if at_capacity lb then
        (if is_overdue then
           Option.bind (i64_checked (delay * 3)) (\<lambda>d.
             Some (if overdue_seconds > (if 0 \<le> d then d div 2 else - ((- d) div 2)) then Process else AtCapacity))
         else Some AtCapacity)
      else if last_executor = pubkey_default then Some Process
      else Some Skip)"

definition should_process :: "pubkey \<Rightarrow> pubkey \<Rightarrow> bool \<Rightarrow> i64 \<Rightarrow> LoadBalancer \<Rightarrow> (ProcessDecision \<times> LoadBalancer) option" where
  "should_process thread last_executor is_overdue overdue_seconds lb =
     (if \<not> lb_enabled (lb_config lb) then Some (Process, lb)
      else Option.bind (update_ownership thread last_executor lb) (\<lambda>lb1.
        let should_check_capacity = (capacity_threshold (lb_config lb1) \<le> consecutive_losses (track_of thread lb1));
            lb2 = (if should_check_capacity then check_capacity lb1 else lb1)
        in map_option (\<lambda>d. (d, lb2)) (decide thread last_executor is_overdue overdue_seconds lb2)))"

definition record_execution_result :: "pubkey \<Rightarrow> bool \<Rightarrow> i64 \<Rightarrow> LoadBalancer \<Rightarrow> LoadBalancer option" where
  "record_execution_result thread success current_timestamp lb =
     (let t = (track_of thread lb)\<lparr>last_attempt := Some current_timestamp\<rparr> in
      if success then
        let lb1 = set_track thread (t\<lparr>owned := True, consecutive_losses := 0\<rparr>) lb in
        Some (if \<not> owned t then lb1\<lparr>at_capacity := False\<rparr> else lb1)
      else
        Option.bind (lose (lb_config lb) t) (\<lambda>t'.
          let lb1 = set_track thread t' lb in
          Some (if owned t \<and> \<not> owned t' then check_capacity lb1 else lb1)))"

definition remove_thread :: "pubkey \<Rightarrow> LoadBalancer \<Rightarrow> LoadBalancer" where
  "remove_thread thread lb = lb\<lparr>tracking := AList.delete thread (tracking lb)\<rparr>"

definition reset_thread :: "pubkey \<Rightarrow> LoadBalancer \<Rightarrow> LoadBalancer" where
  "reset_thread thread lb = lb\<lparr>tracking := AList.delete thread (tracking lb)\<rparr>"

definition prune_stale :: "(pubkey \<Rightarrow> bool) \<Rightarrow> LoadBalancer \<Rightarrow> LoadBalancer" where
  "prune_stale known_threads lb = lb\<lparr>tracking := filter (\<lambda>(k, _). known_threads k) (tracking lb)\<rparr>"

section \<open>Invariant\<close>

text \<open>
  Keys are distinct, and every loss counter is zero or below the threshold, so that a
  loss never overflows the counter.
\<close>

definition losses_ok :: "LoadBalancerConfig \<Rightarrow> ThreadTracking \<Rightarrow> bool" where
  "losses_ok config t \<longleftrightarrow> consecutive_losses t = 0 \<or> consecutive_losses t < capacity_threshold config"

definition lb_inv :: "LoadBalancer \<Rightarrow> bool" where
  "lb_inv lb \<longleftrightarrow> distinct (map fst (tracking lb)) \<and> (\<forall>t\<in>snd ` set (tracking lb). losses_ok (lb_config lb) t)"

inductive lb_step :: "LoadBalancer \<Rightarrow> LoadBalancer \<Rightarrow> bool" where
  lb_should_process: "should_process k e od s lb = Some (d, lb') \<Longrightarrow> lb_step lb lb'"
| lb_result: "record_execution_result k ok now lb = Some lb' \<Longrightarrow> lb_step lb lb'"
| lb_remove: "lb_step lb (remove_thread k lb)"
| lb_prune: "lb_step lb (prune_stale known lb)"

lemma track_of_ok: "lb_inv lb \<Longrightarrow> losses_ok (lb_config lb) (track_of k lb)"
  by (auto simp: lb_inv_def track_of_def losses_ok_def ThreadTracking_default_def dest!: map_of_SomeD split: option.splits)

lemma track_of_set_track [simp]: "track_of j (set_track k t lb) = (if j = k then t else track_of j lb)"
  by (simp add: track_of_def set_track_def update_conv)

lemma set_track_frame [simp]:
  "lb_config (set_track k t lb) = lb_config lb" "at_capacity (set_track k t lb) = at_capacity lb"
  "executor_pubkey (set_track k t lb) = executor_pubkey lb"
  by (simp_all add: set_track_def)

lemma set_track_inv:
  assumes "lb_inv lb" and "losses_ok (lb_config lb) t"
  shows "lb_inv (set_track k t lb)"
proof -
  have "distinct (map fst (AList.update k t (tracking lb)))"
    using assms(1) by (simp add: lb_inv_def distinct_update)
  moreover have "losses_ok (lb_config lb) u" if "(j, u) \<in> set (AList.update k t (tracking lb))" for j u
  proof -
    have "set (AList.update k t xs) \<subseteq> insert (k, t) (set xs)" for xs :: tracking
      by (induction xs) auto
    then have "(j, u) = (k, t) \<or> (j, u) \<in> set (tracking lb)" using that by blast
    then show ?thesis using assms by (auto simp: lb_inv_def)
  qed
  ultimately show ?thesis by (auto simp: lb_inv_def set_track_def)
qed

lemma lose_defined: "losses_ok config t \<Longrightarrow> \<exists>t'. lose config t = Some t'"
proof -
  assume "losses_ok config t"
  moreover have "unat (capacity_threshold config) < 2 ^ LENGTH(32)" by (rule unsigned_less)
  ultimately have "unat (consecutive_losses t) + 1 < 2 ^ 32" by (auto simp: losses_ok_def word_less_nat_alt)
  then show ?thesis by (auto simp: lose_def checked_add_def)
qed

lemma lose_ok:
  assumes "lose config t = Some t'" and "losses_ok config t"
  shows "losses_ok config t'"
proof (cases "owned t")
  case True
  with assms(1) obtain n where "t' = (if capacity_threshold config \<le> n then t\<lparr>owned := False, consecutive_losses := 0\<rparr>
      else t\<lparr>consecutive_losses := n\<rparr>)"
    by (auto simp: lose_def bind_eq_Some_conv)
  then show ?thesis by (cases "capacity_threshold config \<le> n") (simp_all add: losses_ok_def not_le)
next
  case False
  with assms show ?thesis by (simp add: lose_def)
qed

lemma update_ownership_inv:
  assumes "update_ownership k e lb = Some lb'" and "lb_inv lb"
  shows "lb_inv lb'" and "at_capacity lb' = at_capacity lb" and "lb_config lb' = lb_config lb"
    and "executor_pubkey lb' = executor_pubkey lb"
proof -
  let ?r = "if e = executor_pubkey lb then Some ((track_of k lb)\<lparr>owned := True, consecutive_losses := 0\<rparr>)
      else if e \<noteq> pubkey_default then lose (lb_config lb) (track_of k lb) else Some (track_of k lb)"
  obtain t' where r: "?r = Some t'" and l: "lb' = set_track k t' lb"
    using assms(1) unfolding update_ownership_def Let_def by (auto simp del: if_split_asm)
  have "losses_ok (lb_config lb) t'"
    using r lose_ok [OF _ track_of_ok [OF assms(2), of k]] track_of_ok [OF assms(2), of k]
    by (auto simp: losses_ok_def split: if_splits)
  note t' = this l
  then show "lb_inv lb'" using assms(2) by (simp add: set_track_inv)
  show "at_capacity lb' = at_capacity lb" "lb_config lb' = lb_config lb" "executor_pubkey lb' = executor_pubkey lb"
    by (simp_all add: t')
qed

lemma check_capacity_inv [simp]:
  "lb_inv (check_capacity lb) = lb_inv lb" "lb_config (check_capacity lb) = lb_config lb" "tracking (check_capacity lb) = tracking lb"
  by (simp_all add: check_capacity_def lb_inv_def Let_def)

lemma lb_step_inv: "lb_step lb lb' \<Longrightarrow> lb_inv lb \<Longrightarrow> lb_inv lb'"
proof (induction rule: lb_step.induct)
  case (lb_should_process k e od s lb d lb')
  then show ?case
    by (auto simp: should_process_def bind_eq_Some_conv Let_def dest: update_ownership_inv split: if_splits)
next
  case (lb_result k ok now lb lb')
  let ?t = "(track_of k lb)\<lparr>last_attempt := Some now\<rparr>"
  have t: "losses_ok (lb_config lb) ?t" using track_of_ok [OF lb_result(2), of k] by (simp add: losses_ok_def)
  have z: "losses_ok (lb_config lb) (?t\<lparr>owned := True, consecutive_losses := 0\<rparr>)" by (simp add: losses_ok_def)
  show ?case
  proof (cases ok)
    case True
    then have "tracking lb' = tracking (set_track k (?t\<lparr>owned := True, consecutive_losses := 0\<rparr>) lb)"
        "lb_config lb' = lb_config lb"
      using lb_result(1) by (auto simp: record_execution_result_def Let_def split: if_splits)
    then show ?thesis using set_track_inv [OF lb_result(2) z, of k] by (simp add: lb_inv_def)
  next
    case False
    then obtain t' where t': "lose (lb_config lb) ?t = Some t'"
      and lb': "lb' = (if owned ?t \<and> \<not> owned t' then check_capacity (set_track k t' lb) else set_track k t' lb)"
      using lb_result(1) by (auto simp: record_execution_result_def Let_def bind_eq_Some_conv)
    have "lb_inv (set_track k t' lb)" by (rule set_track_inv [OF lb_result(2) lose_ok [OF t' t]])
    then show ?thesis by (simp add: lb')
  qed
next
  case (lb_remove lb k)
  have "set (AList.delete k xs) \<subseteq> set xs" for xs :: tracking by (auto simp: AList.delete_eq)
  with lb_remove show ?case by (auto simp: lb_inv_def remove_thread_def distinct_delete)
next
  case (lb_prune lb known)
  then show ?case by (auto simp: lb_inv_def prune_stale_def distinct_map_filter)
qed

interpretation balancer: invariant_system "\<lambda>lb. \<exists>e c. lb = lb_new e c" lb_step lb_inv
proof
  show "\<exists>e c. lb = lb_new e c \<Longrightarrow> lb_inv lb" for lb by (auto simp: lb_new_def lb_inv_def)
  show "lb_inv lb \<Longrightarrow> lb_step lb lb' \<Longrightarrow> lb_inv lb'" for lb lb' by (rule lb_step_inv)
qed

section \<open>Ownership under repeated losses\<close>

text \<open>The observations of another executor's success on a thread, one after the other.\<close>

fun losses :: "pubkey \<Rightarrow> pubkey list \<Rightarrow> LoadBalancer \<Rightarrow> LoadBalancer option" where
  "losses k [] lb = Some lb"
| "losses k (e # es) lb = Option.bind (update_ownership k e lb) (losses k es)"

lemma losses_count:
  assumes "owned (track_of k lb)" and "unat (consecutive_losses (track_of k lb)) + length es < unat (capacity_threshold (lb_config lb))"
    and "\<forall>e\<in>set es. e \<noteq> executor_pubkey lb \<and> e \<noteq> pubkey_default"
  shows "\<exists>lb'. losses k es lb = Some lb' \<and> owned (track_of k lb') \<and> lb_config lb' = lb_config lb \<and>
    executor_pubkey lb' = executor_pubkey lb \<and>
    unat (consecutive_losses (track_of k lb')) = unat (consecutive_losses (track_of k lb)) + length es"
  using assms
proof (induction es arbitrary: lb)
  case (Cons e es)
  let ?t = "track_of k lb" and ?thr = "capacity_threshold (lb_config lb)"
  have "unat ?thr < 2 ^ LENGTH(32)" by (rule unsigned_less)
  then have n: "checked_add (consecutive_losses ?t) 1 = Some (consecutive_losses ?t + 1)"
    "unat (consecutive_losses ?t + 1) = unat (consecutive_losses ?t) + 1"
    using Cons.prems(2) by (auto simp: checked_add_def unat_word_ariths)
  then have "\<not> ?thr \<le> consecutive_losses ?t + 1" using Cons.prems(2) by (simp add: word_le_nat_alt)
  then have u: "update_ownership k e lb = Some (set_track k (?t\<lparr>consecutive_losses := consecutive_losses ?t + 1\<rparr>) lb)"
    using Cons.prems n by (simp add: update_ownership_def lose_def Let_def)
  show ?case
    using Cons.IH [of "set_track k (?t\<lparr>consecutive_losses := consecutive_losses ?t + 1\<rparr>) lb"] Cons.prems u n(2) by auto
qed simp

text \<open>The loss that reaches the threshold releases the thread.\<close>

lemma last_loss_releases:
  assumes "owned (track_of k lb)" and "unat (consecutive_losses (track_of k lb)) + 1 = unat (capacity_threshold (lb_config lb))"
    and "e \<noteq> executor_pubkey lb" and "e \<noteq> pubkey_default"
  shows "\<exists>lb'. update_ownership k e lb = Some lb' \<and> \<not> owned (track_of k lb') \<and> consecutive_losses (track_of k lb') = 0"
proof -
  let ?t = "track_of k lb" and ?thr = "capacity_threshold (lb_config lb)"
  have "unat ?thr < 2 ^ LENGTH(32)" by (rule unsigned_less)
  then have n: "checked_add (consecutive_losses ?t) 1 = Some (consecutive_losses ?t + 1)"
    "unat (consecutive_losses ?t + 1) = unat (consecutive_losses ?t) + 1"
    using assms(2) by (auto simp: checked_add_def unat_word_ariths)
  then have "?thr \<le> consecutive_losses ?t + 1" using assms(2) by (simp add: word_le_nat_alt)
  then show ?thesis using assms n by (simp add: update_ownership_def lose_def Let_def)
qed

section \<open>Decisions that cannot be taken\<close>

text \<open>
  With a positive threshold the capacity check of \<open>should_process\<close> never runs, because the
  counter is reset in the very branch that reaches the threshold.
\<close>

lemma should_process_at_capacity:
  assumes "lb_inv lb" and "0 < capacity_threshold (lb_config lb)"
    and "should_process k e od s lb = Some (d, lb')"
  shows "at_capacity lb' = at_capacity lb"
proof (cases "lb_enabled (lb_config lb)")
  case True
  with assms(3) obtain lb1 where u: "update_ownership k e lb = Some lb1"
    and lb': "lb' = (if capacity_threshold (lb_config lb1) \<le> consecutive_losses (track_of k lb1) then check_capacity lb1 else lb1)"
    by (auto simp: should_process_def bind_eq_Some_conv Let_def)
  note i = update_ownership_inv [OF u assms(1)]
  have "losses_ok (lb_config lb1) (track_of k lb1)" by (rule track_of_ok [OF i(1)])
  then have "\<not> capacity_threshold (lb_config lb1) \<le> consecutive_losses (track_of k lb1)"
    using assms(2) i(3) by (auto simp: losses_ok_def)
  then show ?thesis using lb' i(2) by simp
next
  case False
  with assms(3) show ?thesis by (simp add: should_process_def)
qed

text \<open>A thread late enough for the critical takeover was late enough for the plain one.\<close>

lemma critical_takeover_dead:
  assumes "0 \<le> thread_takeover_delay (lb_config lb)" and "in_i64 (thread_takeover_delay (lb_config lb) * 3)"
    and "at_capacity lb" and "\<not> (case map_of (tracking lb) k of Some t \<Rightarrow> owned t | None \<Rightarrow> False)"
  shows "decide k e od s lb = Some (if od \<and> s > thread_takeover_delay (lb_config lb) then Process else AtCapacity)"
  using assms by (auto simp: decide_def Let_def i64_checked_def)

end
