(* ===== verification/Staging.thy ===== *)
theory Staging
  imports Account_Cache Load_Balancer
begin

text \<open>
  \<open>crates/client/src/actors/staging.rs\<close> with the messages of \<open>actors/messages.rs\<close>: the
  actor that watches the triggers and hands threads that are due to the processor. A
  handler maps the actor's state and a message to the new state and the messages it sends.
  A \<open>BinaryHeap\<close> is the list of its entries; \<open>heap_order\<close> lists them in the order in which
  they are popped, which the library fixes up to entries of equal trigger value.
\<close>

section \<open>Data\<close>

record ScheduledThread =
  trigger_value :: u64
  sc_pubkey :: pubkey
  sc_exec_count :: u64

record ReadyThread =
  rt_pubkey :: pubkey
  rt_exec_count :: u64
  is_overdue :: bool
  overdue_seconds :: i64

record TrackedThread =
  tt_exec_count :: u64
  tt_schedule :: Schedule
  tt_paused :: bool

datatype CompletionReason = Executed | Skipped

datatype staging_out = ProcessReady ReadyThread | CancelThread pubkey

record AccountUpdate =
  au_pubkey :: pubkey
  au_data :: bytes
  au_slot :: u64

record StagingState =
  tracked_threads :: "pubkey \<Rightarrow> TrackedThread option"
  time_queue :: "ScheduledThread list"
  slot_queue :: "ScheduledThread list"
  epoch_queue :: "ScheduledThread list"
  queued_threads :: "pubkey set"
  last_processed_slot :: u64
  processor_set :: bool
  st_cache :: cache
  load_balancer :: LoadBalancer
  eviction_rx :: "pubkey list"

record staging_env =
  cenv :: client_env
  heap_order :: "ScheduledThread list \<Rightarrow> ScheduledThread list"
  processor_alive :: bool
  CLOCK_SYSVAR :: pubkey

text \<open>What \<open>BinaryHeap\<close> guarantees: every entry comes out once, smallest trigger value first.\<close>

definition heap_laws :: "staging_env \<Rightarrow> bool" where
  "heap_laws env \<longleftrightarrow> (\<forall>q. mset (heap_order env q) = mset q \<and> sorted (map trigger_value (heap_order env q)))"

definition staging_start :: "LoadBalancer \<Rightarrow> cache \<Rightarrow> StagingState" where
  "staging_start lb c = \<lparr>tracked_threads = (\<lambda>_. None), time_queue = [], slot_queue = [], epoch_queue = [],
     queued_threads = {}, last_processed_slot = 0, processor_set = False, st_cache = c, load_balancer = lb, eviction_rx = []\<rparr>"

section \<open>Scheduling\<close>

definition tracked_of :: "Thread \<Rightarrow> TrackedThread" where
  "tracked_of thread = \<lparr>tt_exec_count = th_exec_count thread, tt_schedule = th_schedule thread, tt_paused = th_paused thread\<rparr>"

definition schedule_thread :: "pubkey \<Rightarrow> Thread \<Rightarrow> StagingState \<Rightarrow> StagingState" where
  "schedule_thread key thread st =
     (let entry = (\<lambda>v. \<lparr>trigger_value = v, sc_pubkey = key, sc_exec_count = th_exec_count thread\<rparr>);
          timed = (case th_schedule thread of
                     Timed _ next_ts \<Rightarrow> st\<lparr>time_queue := entry (word_of_int (max 0 next_ts)) # time_queue st\<rparr>
                   | _ \<Rightarrow> st) in
      case th_trigger thread of
        Immediate _ \<Rightarrow> timed
      | Timestamp _ _ \<Rightarrow> timed
      | Interval _ _ _ \<Rightarrow> timed
      | Cron _ _ _ \<Rightarrow> timed
      | Slot _ \<Rightarrow>
          (case th_schedule thread of Block _ n \<Rightarrow> st\<lparr>slot_queue := entry n # slot_queue st\<rparr> | _ \<Rightarrow> st)
      | Epoch _ \<Rightarrow>
          (case th_schedule thread of Block _ n \<Rightarrow> st\<lparr>epoch_queue := entry n # epoch_queue st\<rparr> | _ \<Rightarrow> st)
      | Account _ _ _ \<Rightarrow> st)"

datatype AccountType = AT_Thread Thread | AT_Clock | AT_Deleted | AT_Other

definition classify_account :: "staging_env \<Rightarrow> bytes \<Rightarrow> pubkey \<Rightarrow> AccountType" where
  "classify_account env data key =
     (if key = CLOCK_SYSVAR env then AT_Clock
      else if data = [] then AT_Deleted
      else if length data < 8 then AT_Other
      else case try_deserialize_thread (cenv env) data of Some thread \<Rightarrow> AT_Thread thread | None \<Rightarrow> AT_Other)"

definition handle_account_update :: "staging_env \<Rightarrow> AccountUpdate \<Rightarrow> StagingState \<Rightarrow> StagingState \<times> staging_out list" where
  "handle_account_update env update st =
     (case classify_account env (au_data update) (au_pubkey update) of
        AT_Thread thread \<Rightarrow>
          let key = au_pubkey update;
              unchanged = (case tracked_threads st key of
                 Some existing \<Rightarrow> th_exec_count thread \<le> tt_exec_count existing \<and> th_schedule thread = tt_schedule existing
               | None \<Rightarrow> False);
              cancel = (case tracked_threads st key of
                 Some existing \<Rightarrow> key \<in> queued_threads st \<and> th_schedule thread \<noteq> tt_schedule existing
               | None \<Rightarrow> False) in
          if unchanged then (st, [])
          else
            let st1 = (if cancel then st\<lparr>queued_threads := queued_threads st - {key}\<rparr> else st);
                out = (if cancel \<and> processor_set st \<and> processor_alive env then [CancelThread key] else []);
                st2 = st1\<lparr>tracked_threads := (tracked_threads st1)(key \<mapsto> tracked_of thread)\<rparr> in
            if th_paused thread then (st2, out) else (schedule_thread key thread st2, out)
      | AT_Deleted \<Rightarrow>
          (st\<lparr>tracked_threads := (tracked_threads st)(au_pubkey update := None),
              queued_threads := queued_threads st - {au_pubkey update},
              load_balancer := remove_thread (au_pubkey update) (load_balancer st)\<rparr>, [])
      | _ \<Rightarrow> (st, []))"

section \<open>Threads that are due\<close>

text \<open>
  The loop of \<open>check_queue\<close> over the entries in pop order. An overdue time is never
  negative beyond the clock itself: a popped trigger value is at most the clock's.
\<close>

fun check_loop :: "(pubkey \<Rightarrow> TrackedThread option) \<Rightarrow> u64 \<Rightarrow> i64 \<Rightarrow> bool \<Rightarrow> ScheduledThread list \<Rightarrow>
    (pubkey \<Rightarrow> u64 option) \<Rightarrow> ReadyThread list \<Rightarrow> pubkey set \<Rightarrow> ScheduledThread list \<times> ReadyThread list \<times> pubkey set" where
  "check_loop tracked current now timed [] latest ready processed = ([], ready, processed)"
| "check_loop tracked current now timed (s # q) latest ready processed =
     (if trigger_value s \<le> current then
        let k = sc_pubkey s; skip = check_loop tracked current now timed q latest ready processed in
        if k \<in> processed then skip
        else case tracked k of
          None \<Rightarrow> skip
        | Some t \<Rightarrow>
            if tt_paused t then skip
            else if sc_exec_count s \<noteq> tt_exec_count t then skip
            else if (case latest k of Some l \<Rightarrow> tt_exec_count t < l | None \<Rightarrow> False) then skip
            else
              let overdue = (if timed then now - u64_as_i64 (trigger_value s) else 0);
                  r = \<lparr>rt_pubkey = k, rt_exec_count = tt_exec_count t, is_overdue = overdue > 0, overdue_seconds = overdue\<rparr>
              in check_loop tracked current now timed q (latest(k \<mapsto> tt_exec_count t)) (ready @ [r]) (insert k processed)
      else (s # q, ready, processed))"

definition check_queue :: "staging_env \<Rightarrow> (pubkey \<Rightarrow> TrackedThread option) \<Rightarrow> ScheduledThread list \<Rightarrow> u64 \<Rightarrow> i64 \<Rightarrow> bool \<Rightarrow>
    ReadyThread list \<Rightarrow> pubkey set \<Rightarrow> ScheduledThread list \<times> ReadyThread list \<times> pubkey set" where
  "check_queue env tracked queue current now timed ready processed =
     check_loop tracked current now timed (heap_order env queue) (\<lambda>_. None) ready processed"

definition get_ready_threads :: "staging_env \<Rightarrow> Clock \<Rightarrow> StagingState \<Rightarrow> ReadyThread list \<times> StagingState" where
  "get_ready_threads env clock st =
     (let now = unix_timestamp clock; tracked = tracked_threads st;
          (q1, r1, p1) = check_queue env tracked (time_queue st) (word_of_int (max 0 now)) now True [] {};
          (q2, r2, p2) = check_queue env tracked (slot_queue st) (clk_slot clock) now False r1 p1;
          (q3, r3, p3) = check_queue env tracked (epoch_queue st) (clk_epoch clock) now False r2 p2
      in (r3, st\<lparr>time_queue := q1, slot_queue := q2, epoch_queue := q3\<rparr>))"

definition live_entry :: "(pubkey \<Rightarrow> TrackedThread option) \<Rightarrow> ScheduledThread \<Rightarrow> bool" where
  "live_entry tracked s = (case tracked (sc_pubkey s) of Some t \<Rightarrow> sc_exec_count s = tt_exec_count t | None \<Rightarrow> False)"

definition compact_queues :: "StagingState \<Rightarrow> StagingState" where
  "compact_queues st = st\<lparr>time_queue := filter (live_entry (tracked_threads st)) (time_queue st),
     slot_queue := filter (live_entry (tracked_threads st)) (slot_queue st),
     epoch_queue := filter (live_entry (tracked_threads st)) (epoch_queue st)\<rparr>"

section \<open>The clock\<close>

definition MAX_EVICTIONS_PER_TICK :: nat where "MAX_EVICTIONS_PER_TICK = 10"

fun process_evictions :: "staging_env \<Rightarrow> nat \<Rightarrow> StagingState \<Rightarrow> StagingState" where
  "process_evictions env 0 st = st"
| "process_evictions env (Suc n) st =
     (case eviction_rx st of
        [] \<Rightarrow> st
      | key # rest \<Rightarrow>
          let (fetched, c) = get_thread_or_fetch (cenv env) key (st_cache st);
              st1 = st\<lparr>eviction_rx := rest, st_cache := c\<rparr> in
          process_evictions env n
            (case fetched of
               Some thread \<Rightarrow>
                 let st2 = st1\<lparr>tracked_threads := (tracked_threads st1)(key \<mapsto> tracked_of thread)\<rparr> in
                 if th_paused thread then st2 else schedule_thread key thread st2
             | None \<Rightarrow> st1\<lparr>tracked_threads := (tracked_threads st1)(key := None), queued_threads := queued_threads st1 - {key}\<rparr>))"

fun dispatch :: "staging_env \<Rightarrow> ReadyThread list \<Rightarrow> StagingState \<Rightarrow> StagingState \<times> staging_out list" where
  "dispatch env [] st = (st, [])"
| "dispatch env (r # rs) st =
     (if rt_pubkey r \<in> queued_threads st then dispatch env rs st
      else if processor_set st \<and> processor_alive env then
        let (st', out) = dispatch env rs (st\<lparr>queued_threads := insert (rt_pubkey r) (queued_threads st)\<rparr>)
        in (st', ProcessReady r # out)
      else dispatch env rs st)"

definition handle_clock_tick :: "staging_env \<Rightarrow> Clock \<Rightarrow> StagingState \<Rightarrow> StagingState \<times> staging_out list" where
  "handle_clock_tick env clock st =
     (if clk_slot clock \<le> last_processed_slot st then (st, [])
      else
        let st1 = st\<lparr>last_processed_slot := clk_slot clock\<rparr>;
            st2 = (if clk_slot clock mod 1000 = 0
                   then st1\<lparr>load_balancer := prune_stale (\<lambda>k. tracked_threads st1 k \<noteq> None) (load_balancer st1)\<rparr> else st1);
            st3 = (if clk_slot clock mod 500 = 0 then compact_queues st2 else st2);
            st4 = process_evictions env MAX_EVICTIONS_PER_TICK st3;
            (ready, st5) = get_ready_threads env clock st4
        in dispatch env ready st5)"

definition handle_thread_completed :: "staging_env \<Rightarrow> pubkey \<Rightarrow> CompletionReason \<Rightarrow> StagingState \<Rightarrow> StagingState" where
  "handle_thread_completed env key reason st =
     (let st1 = st\<lparr>queued_threads := queued_threads st - {key}\<rparr> in
      case reason of
        Skipped \<Rightarrow>
          (case st_cache st1 key of
             Some cached \<Rightarrow>
               (case try_deserialize_thread (cenv env) (ca_data cached) of
                  Some thread \<Rightarrow> schedule_thread key thread st1
                | None \<Rightarrow> st1)
           | None \<Rightarrow> st1)
      | Executed \<Rightarrow> st1)"

definition set_processor_ref :: "StagingState \<Rightarrow> StagingState" where
  "set_processor_ref st = st\<lparr>processor_set := True\<rparr>"

section \<open>Which threads are ready\<close>

definition due :: "(pubkey \<Rightarrow> TrackedThread option) \<Rightarrow> u64 \<Rightarrow> ScheduledThread \<Rightarrow> bool" where
  "due tracked current s \<longleftrightarrow> trigger_value s \<le> current \<and>
     (\<exists>t. tracked (sc_pubkey s) = Some t \<and> \<not> tt_paused t \<and> sc_exec_count s = tt_exec_count t)"

lemma check_loop_spec:
  assumes "sorted (map trigger_value q)" and "\<forall>k. k \<notin> processed \<longrightarrow> latest k = None"
    and "check_loop tracked current now timed q latest ready processed = (q', ready', processed')"
  shows "q' = filter (\<lambda>s. \<not> trigger_value s \<le> current) q \<and>
    processed' = processed \<union> sc_pubkey ` {s \<in> set q. due tracked current s} \<and>
    (\<exists>new. ready' = ready @ new \<and> distinct (map rt_pubkey new) \<and> set (map rt_pubkey new) = processed' - processed \<and>
       (\<forall>r\<in>set new. \<exists>s\<in>set q. due tracked current s \<and> rt_pubkey r = sc_pubkey s \<and> rt_exec_count r = sc_exec_count s))"
  using assms
proof (induction q arbitrary: latest ready processed)
  case (Cons s q)
  let ?k = "sc_pubkey s"
  show ?case
  proof (cases "trigger_value s \<le> current")
    case False
    then have "filter (\<lambda>x. \<not> trigger_value x \<le> current) (s # q) = s # q"
      using Cons.prems(1) by (auto simp: filter_id_conv)
    moreover have "{x \<in> set (s # q). due tracked current x} = {}"
      using False Cons.prems(1) by (auto simp: due_def)
    ultimately show ?thesis using False Cons.prems(3) by auto
  next
    case True
    show ?thesis
    proof (cases "due tracked current s \<and> ?k \<notin> processed")
      case False
      then have "check_loop tracked current now timed q latest ready processed = (q', ready', processed')"
        using Cons.prems(2,3) True by (auto simp: Let_def due_def split: option.splits if_splits)
      note ih = Cons.IH [OF _ Cons.prems(2) this]
      have e: "processed \<union> sc_pubkey ` {x \<in> set (s # q). due tracked current x} =
          processed \<union> sc_pubkey ` {x \<in> set q. due tracked current x}"
        using False by auto
      show ?thesis unfolding e using ih Cons.prems(1) True by fastforce
    next
      case T: True
      then obtain t where t: "tracked ?k = Some t" "\<not> tt_paused t" "sc_exec_count s = tt_exec_count t"
        by (auto simp: due_def)
      define r where "r = \<lparr>rt_pubkey = ?k, rt_exec_count = tt_exec_count t,
          is_overdue = (if timed then now - u64_as_i64 (trigger_value s) else 0) > 0,
          overdue_seconds = (if timed then now - u64_as_i64 (trigger_value s) else 0)\<rparr>"
      have run: "check_loop tracked current now timed q (latest(?k \<mapsto> tt_exec_count t)) (ready @ [r]) (insert ?k processed) = (q', ready', processed')"
        using Cons.prems(2,3) True T t by (simp add: Let_def r_def)
      have "\<forall>k. k \<notin> insert ?k processed \<longrightarrow> (latest(?k \<mapsto> tt_exec_count t)) k = None" using Cons.prems(2) by simp
      note ih = Cons.IH [OF _ this run]
      from ih Cons.prems(1) obtain new where new: "ready' = (ready @ [r]) @ new" "distinct (map rt_pubkey new)"
          "set (map rt_pubkey new) = processed' - insert ?k processed"
          "\<forall>r\<in>set new. \<exists>s\<in>set q. due tracked current s \<and> rt_pubkey r = sc_pubkey s \<and> rt_exec_count r = sc_exec_count s"
        by auto
      have p: "processed' = insert ?k processed \<union> sc_pubkey ` {x \<in> set q. due tracked current x}" using ih Cons.prems(1) by simp
      have "q' = filter (\<lambda>s. \<not> trigger_value s \<le> current) (s # q)" using ih Cons.prems(1) True by simp
      moreover have "processed' = processed \<union> sc_pubkey ` {x \<in> set (s # q). due tracked current x}"
        using p T by auto
      moreover have "ready' = ready @ (r # new) \<and> distinct (map rt_pubkey (r # new)) \<and>
          set (map rt_pubkey (r # new)) = processed' - processed \<and>
          (\<forall>r'\<in>set (r # new). \<exists>x\<in>set (s # q). due tracked current x \<and> rt_pubkey r' = sc_pubkey x \<and> rt_exec_count r' = sc_exec_count x)"
        using new p T t by (auto simp: r_def)
      ultimately show ?thesis by blast
    qed
  qed
qed simp

lemma check_queue_spec:
  assumes "heap_laws env" and "check_queue env tracked q current now timed ready processed = (q', ready', processed')"
  shows "mset q' = filter_mset (\<lambda>s. \<not> trigger_value s \<le> current) (mset q)"
    and "processed' = processed \<union> sc_pubkey ` {s \<in> set q. due tracked current s}"
    and "\<exists>new. ready' = ready @ new \<and> distinct (map rt_pubkey new) \<and> set (map rt_pubkey new) = processed' - processed \<and>
       (\<forall>r\<in>set new. \<exists>s\<in>set q. due tracked current s \<and> rt_pubkey r = sc_pubkey s \<and> rt_exec_count r = sc_exec_count s)"
proof -
  have h: "mset (heap_order env q) = mset q" "sorted (map trigger_value (heap_order env q))"
    using assms(1) by (simp_all add: heap_laws_def)
  have s: "set (heap_order env q) = set q" using h(1) by (metis set_mset_mset)
  note l = check_loop_spec [OF h(2) _ assms(2) [unfolded check_queue_def], simplified, unfolded s]
  show "mset q' = filter_mset (\<lambda>s. \<not> trigger_value s \<le> current) (mset q)"
    using l h(1) by (metis mset_filter)
  show "processed' = processed \<union> sc_pubkey ` {s \<in> set q. due tracked current s}" using l by blast
  show "\<exists>new. ready' = ready @ new \<and> distinct (map rt_pubkey new) \<and> set (map rt_pubkey new) = processed' - processed \<and>
       (\<forall>r\<in>set new. \<exists>s\<in>set q. due tracked current s \<and> rt_pubkey r = sc_pubkey s \<and> rt_exec_count r = sc_exec_count s)"
    using l unfolding set_map by blast
qed

text \<open>
  One tick takes every due thread exactly once, however many entries it has in the three
  queues, and leaves exactly the entries whose time has not come.
\<close>

definition due_now :: "Clock \<Rightarrow> StagingState \<Rightarrow> ScheduledThread set" where
  "due_now clock st =
     {s \<in> set (time_queue st). due (tracked_threads st) (word_of_int (max 0 (unix_timestamp clock))) s} \<union>
     {s \<in> set (slot_queue st). due (tracked_threads st) (clk_slot clock) s} \<union>
     {s \<in> set (epoch_queue st). due (tracked_threads st) (clk_epoch clock) s}"

lemma get_ready_threads_spec:
  assumes "heap_laws env" and "get_ready_threads env clock st = (ready, st')"
  shows "distinct (map rt_pubkey ready)" and "set (map rt_pubkey ready) = sc_pubkey ` due_now clock st"
    and "r \<in> set ready \<Longrightarrow> \<exists>s\<in>due_now clock st. rt_pubkey r = sc_pubkey s \<and> rt_exec_count r = sc_exec_count s"
    and "mset (time_queue st') = filter_mset (\<lambda>s. \<not> trigger_value s \<le> word_of_int (max 0 (unix_timestamp clock))) (mset (time_queue st))"
    and "tracked_threads st' = tracked_threads st" and "queued_threads st' = queued_threads st"
proof -
  let ?tr = "tracked_threads st" and ?now = "unix_timestamp clock"
  obtain q1 r1 p1 where 1: "check_queue env ?tr (time_queue st) (word_of_int (max 0 ?now)) ?now True [] {} = (q1, r1, p1)"
    by (metis prod_cases3)
  obtain q2 r2 p2 where 2: "check_queue env ?tr (slot_queue st) (clk_slot clock) ?now False r1 p1 = (q2, r2, p2)"
    by (metis prod_cases3)
  obtain q3 r3 p3 where 3: "check_queue env ?tr (epoch_queue st) (clk_epoch clock) ?now False r2 p2 = (q3, r3, p3)"
    by (metis prod_cases3)
  have res: "ready = r3" "st' = st\<lparr>time_queue := q1, slot_queue := q2, epoch_queue := q3\<rparr>"
    using assms(2) 1 2 3 by (simp_all add: get_ready_threads_def Let_def)
  note c1 = check_queue_spec [OF assms(1) 1] and c2 = check_queue_spec [OF assms(1) 2] and c3 = check_queue_spec [OF assms(1) 3]
  from c1(3) c2(3) c3(3) obtain n1 n2 n3 where n: "r1 = n1" "r2 = r1 @ n2" "r3 = r2 @ n3"
    "distinct (map rt_pubkey n1)" "distinct (map rt_pubkey n2)" "distinct (map rt_pubkey n3)"
    "set (map rt_pubkey n1) = p1" "set (map rt_pubkey n2) = p2 - p1" "set (map rt_pubkey n3) = p3 - p2"
    and src: "\<forall>r\<in>set n1. \<exists>s\<in>set (time_queue st). due ?tr (word_of_int (max 0 ?now)) s \<and> rt_pubkey r = sc_pubkey s \<and> rt_exec_count r = sc_exec_count s"
      "\<forall>r\<in>set n2. \<exists>s\<in>set (slot_queue st). due ?tr (clk_slot clock) s \<and> rt_pubkey r = sc_pubkey s \<and> rt_exec_count r = sc_exec_count s"
      "\<forall>r\<in>set n3. \<exists>s\<in>set (epoch_queue st). due ?tr (clk_epoch clock) s \<and> rt_pubkey r = sc_pubkey s \<and> rt_exec_count r = sc_exec_count s"
    by auto
  have sub: "p1 \<subseteq> p2" "p2 \<subseteq> p3" using c2(2) c3(2) by auto
  have d: "map rt_pubkey ready = map rt_pubkey n1 @ map rt_pubkey n2 @ map rt_pubkey n3" using res n by simp
  show "distinct (map rt_pubkey ready)" unfolding d using n sub by auto
  have "set (map rt_pubkey ready) = p3" unfolding d using n sub by auto
  then show "set (map rt_pubkey ready) = sc_pubkey ` due_now clock st"
    using c1(2) c2(2) c3(2) by (auto simp: due_now_def)
  show "\<exists>s\<in>due_now clock st. rt_pubkey r = sc_pubkey s \<and> rt_exec_count r = sc_exec_count s" if "r \<in> set ready"
  proof -
    have "r \<in> set n1 \<or> r \<in> set n2 \<or> r \<in> set n3" using that res n by auto
    then show ?thesis using src unfolding due_now_def by blast
  qed
  show "mset (time_queue st') = filter_mset (\<lambda>s. \<not> trigger_value s \<le> word_of_int (max 0 ?now)) (mset (time_queue st))"
    using c1(1) res by simp
  show "tracked_threads st' = ?tr" "queued_threads st' = queued_threads st" using res by simp_all
qed

section \<open>What a tick sends\<close>

lemma dispatch_spec:
  assumes "dispatch env rs st = (st', out)" and "distinct (map rt_pubkey rs)"
  shows "out = (if processor_set st \<and> processor_alive env
      then map ProcessReady (filter (\<lambda>r. rt_pubkey r \<notin> queued_threads st) rs) else [])"
    and "queued_threads st' = (if processor_set st \<and> processor_alive env
      then queued_threads st \<union> set (map rt_pubkey rs) else queued_threads st)"
proof -
  have "out = (if processor_set st \<and> processor_alive env
      then map ProcessReady (filter (\<lambda>r. rt_pubkey r \<notin> queued_threads st) rs) else []) \<and>
    queued_threads st' = (if processor_set st \<and> processor_alive env
      then queued_threads st \<union> set (map rt_pubkey rs) else queued_threads st)"
    using assms
  proof (induction rs arbitrary: st out)
    case (Cons r rs)
    show ?case
    proof (cases "rt_pubkey r \<notin> queued_threads st \<and> processor_set st \<and> processor_alive env")
      case True
      let ?st = "st\<lparr>queued_threads := insert (rt_pubkey r) (queued_threads st)\<rparr>"
      obtain out' where d: "dispatch env rs ?st = (st', out')" "out = ProcessReady r # out'"
        using Cons.prems(1) True by (auto split: prod.splits)
      have "filter (\<lambda>x. rt_pubkey x \<notin> queued_threads ?st) rs = filter (\<lambda>x. rt_pubkey x \<notin> queued_threads st) rs"
      proof (intro filter_cong refl)
        fix x
        assume "x \<in> set rs"
        then have "rt_pubkey x \<in> set (map rt_pubkey rs)" by simp
        then have "rt_pubkey x \<noteq> rt_pubkey r" using Cons.prems(2) by auto
        then show "(rt_pubkey x \<notin> queued_threads ?st) = (rt_pubkey x \<notin> queued_threads st)" by simp
      qed
      with Cons.IH [OF d(1)] Cons.prems(2) d(2) True show ?thesis by auto
    next
      case False
      then have "dispatch env rs st = (st', out)" using Cons.prems(1) by (auto split: if_splits)
      from Cons.IH [OF this] Cons.prems(2) False show ?thesis by auto
    qed
  qed simp
  then show "out = (if processor_set st \<and> processor_alive env
      then map ProcessReady (filter (\<lambda>r. rt_pubkey r \<notin> queued_threads st) rs) else [])"
    and "queued_threads st' = (if processor_set st \<and> processor_alive env
      then queued_threads st \<union> set (map rt_pubkey rs) else queued_threads st)" by blast+
qed

section \<open>Updates that are not noticed\<close>

text \<open>Pausing or resuming a thread changes neither its count nor its schedule.\<close>

lemma pause_not_noticed:
  assumes "classify_account env (au_data u) (au_pubkey u) = AT_Thread thread"
    and "tracked_threads st (au_pubkey u) = Some t" and "th_exec_count thread = tt_exec_count t" and "th_schedule thread = tt_schedule t"
  shows "handle_account_update env u st = (st, [])"
  using assms by (simp add: handle_account_update_def)

end
