(* ===== verification/Executor.thy ===== *)
theory Executor
  imports Staging Thread_Exec
begin

text \<open>
  \<open>crates/client/src/executor.rs\<close>: how the client turns a thread that is due into the
  instructions of one transaction.

  The client talks to a world it does not control. \<open>world\<close> holds what that world answers
  at every moment (a natural number): account and blockhash requests, simulations,
  submissions, signature statuses, the clock, the cancellation flag, and what the other
  actors do to the shared cache and load balancer meanwhile. Every request takes the
  client to the next moment; a sleep takes it to the moment \<open>wake\<close> names. The state of a
  running task (\<open>task\<close>) is the moment it has reached, the cache, the load balancer and
  the transactions it has sent. Errors are \<open>anyhow\<close> errors with their text, since the
  worker decides by that text; a panic is a case of its own.
\<close>

section \<open>The world of a task\<close>

record ExecutorLogic =
  ex_pubkey :: pubkey
  forgo_executor_commission :: bool
  ex_program_id :: pubkey

record Transaction =
  tx_instructions :: "Instruction list"
  tx_payer :: pubkey
  tx_blockhash :: bytes

record SimulateResult =
  units_consumed :: "u64 option"
  sim_accounts :: "(string \<times> string) option list option"

record world =
  wt_env :: thread_env
  wc_env :: client_env
  get_account_at :: "nat \<Rightarrow> pubkey \<Rightarrow> string + (string \<times> string) option"
  blockhash_at :: "nat \<Rightarrow> string + bytes"
  simulate_at :: "nat \<Rightarrow> Transaction \<Rightarrow> pubkey list \<Rightarrow> string + SimulateResult"
  send_at :: "nat \<Rightarrow> Transaction \<Rightarrow> string + bytes"
  status_at :: "nat \<Rightarrow> bytes \<Rightarrow> string + (string + unit) option"
  cancelled_at :: "nat \<Rightarrow> bool"
  instant_at :: "nat \<Rightarrow> nat"
  utc_at :: "nat \<Rightarrow> i64"
  wake :: "nat \<Rightarrow> nat \<Rightarrow> nat"
  others_at :: "nat \<Rightarrow> cache \<times> LoadBalancer \<Rightarrow> cache \<times> LoadBalancer"
  tpu_available :: bool
  signature_of :: "Transaction \<Rightarrow> bytes"
  message_size :: "Instruction list \<Rightarrow> pubkey \<Rightarrow> nat option"
  set_compute_unit_limit :: "u32 \<Rightarrow> Instruction"
  set_compute_unit_price :: "u64 \<Rightarrow> Instruction"
  thread_exec_metas :: "exec_accounts \<Rightarrow> AccountMeta list"
  exec_thread_data :: "bool \<Rightarrow> u8 \<Rightarrow> bytes"
  deserialize_compiled :: "bytes \<Rightarrow> CompiledInstructionV0 option"
  try_deserialize_config :: "bytes \<Rightarrow> ThreadConfig option"
  decode_error :: "string \<Rightarrow> string \<Rightarrow> string"
  deserialize_error :: "bytes \<Rightarrow> string"
  RECENT_BLOCKHASHES_ID :: pubkey

datatype sent = TpuSend Transaction | RpcSend Transaction

record task =
  now :: nat
  tk_cache :: cache
  tk_lb :: LoadBalancer
  tk_sent :: "sent list"

datatype exec_error = Failed string | Panicked

type_synonym 'a io = "task \<Rightarrow> (exec_error + 'a) \<times> task"

text \<open>A request answered at the current moment, and a sleep; the others run meanwhile.\<close>

definition at_moment :: "world \<Rightarrow> nat \<Rightarrow> task \<Rightarrow> task" where
  "at_moment w n st =
     (let (c, lb) = others_at w (now st) (tk_cache st, tk_lb st)
      in st\<lparr>now := n, tk_cache := c, tk_lb := lb\<rparr>)"

definition tick :: "world \<Rightarrow> task \<Rightarrow> task" where
  "tick w st = at_moment w (Suc (now st)) st"

definition sleep_ms :: "world \<Rightarrow> nat \<Rightarrow> task \<Rightarrow> task" where
  "sleep_ms w ms st = at_moment w (wake w (now st) ms) st"

definition io_bind :: "'a io \<Rightarrow> ('a \<Rightarrow> 'b io) \<Rightarrow> 'b io" where
  "io_bind m f st = (case m st of (Inl e, st') \<Rightarrow> (Inl e, st') | (Inr x, st') \<Rightarrow> f x st')"

definition io_return :: "'a \<Rightarrow> 'a io" where "io_return x st = (Inr x, st)"

definition io_lift :: "exec_error + 'a \<Rightarrow> 'a io" where "io_lift r st = (r, st)"

definition or_panic :: "'a option \<Rightarrow> 'a io" where "or_panic m = io_lift (ok_or m Panicked)"

definition or_fail :: "'a option \<Rightarrow> string \<Rightarrow> 'a io" where "or_fail m e = io_lift (ok_or m (Failed e))"

text \<open>A request whose error gets a text in front of it (\<open>map_err(|e| anyhow!(..))\<close>).\<close>

definition request :: "world \<Rightarrow> (nat \<Rightarrow> string + 'a) \<Rightarrow> string \<Rightarrow> 'a io" where
  "request w q prefix st =
     ((case q (now st) of Inl e \<Rightarrow> Inl (Failed (prefix @ e)) | Inr x \<Rightarrow> Inr x), tick w st)"

section \<open>Fetching\<close>

abbreviation show_key :: "world \<Rightarrow> pubkey \<Rightarrow> string" where
  "show_key w k \<equiv> pubkey_to_string (wt_env w) k"

definition fetch_thread :: "world \<Rightarrow> pubkey \<Rightarrow> Thread io" where
  "fetch_thread w key =
     io_bind (request w (\<lambda>i. get_account_at w i key) (''Failed to fetch thread '' @ show_key w key @ '': '')) (\<lambda>acc.
     io_bind (or_fail acc (''Thread '' @ show_key w key @ '' not found (may have been closed)'')) (\<lambda>(d, enc).
     io_bind (or_fail (decode_account_data (wc_env w) d enc) (''Failed to decode thread account data: '' @ decode_error w d enc)) (\<lambda>data.
       or_fail (try_deserialize_thread (wc_env w) data)
         (''Failed to deserialize thread '' @ show_key w key @ '': '' @ deserialize_error w data))))"

definition fetch_fiber_account :: "world \<Rightarrow> pubkey \<Rightarrow> bytes io" where
  "fetch_fiber_account w key =
     io_bind (request w (\<lambda>i. get_account_at w i key) (''Failed to fetch fiber '' @ show_key w key @ '': '')) (\<lambda>acc.
     io_bind (or_fail acc (''Fiber '' @ show_key w key @ '' not found'')) (\<lambda>(d, enc).
       or_fail (decode_account_data (wc_env w) d enc) (''Failed to decode fiber account data: '' @ decode_error w d enc)))"

definition fetch_thread_config :: "world \<Rightarrow> pubkey \<Rightarrow> ThreadConfig io" where
  "fetch_thread_config w key st =
     (case Option.bind (tk_cache st key) (\<lambda>cached. try_deserialize_config w (ca_data cached)) of
        Some config \<Rightarrow> (Inr config, st)
      | None \<Rightarrow>
          io_bind (request w (\<lambda>i. get_account_at w i key) (''Failed to fetch thread config '' @ show_key w key @ '': '')) (\<lambda>acc.
          io_bind (or_fail acc (''Thread config '' @ show_key w key @ '' not found'')) (\<lambda>(d, enc).
          io_bind (or_fail (decode_account_data (wc_env w) d enc) (''Failed to decode account data: '' @ decode_error w d enc)) (\<lambda>data.
          io_bind (or_fail (try_deserialize_config w data) (''Failed to deserialize thread config: '' @ deserialize_error w data)) (\<lambda>config.
            \<lambda>st1. (Inr config, st1\<lparr>tk_cache := cache_put_simple (wc_env w) key data 0 (tk_cache st1)\<rparr>))))) st)"

section \<open>Building instructions\<close>

definition MAX_TRANSACTION_SIZE :: nat where "MAX_TRANSACTION_SIZE = 1232"

definition MAX_BATCHED_EXECS :: nat where "MAX_BATCHED_EXECS = 5"

definition estimate_transaction_size :: "world \<Rightarrow> ExecutorLogic \<Rightarrow> Instruction list \<Rightarrow> nat" where
  "estimate_transaction_size w ex ixs = (case message_size w ixs (ex_pubkey ex) of Some n \<Rightarrow> n | None \<Rightarrow> 0) + 65"

definition estimate_transaction_size_with_budget :: "world \<Rightarrow> ExecutorLogic \<Rightarrow> Instruction list \<Rightarrow> nat" where
  "estimate_transaction_size_with_budget w ex ixs =
     estimate_transaction_size w ex ([set_compute_unit_limit w 1400000, set_compute_unit_price w 1000000] @ ixs)"

definition would_fit_in_transaction :: "world \<Rightarrow> ExecutorLogic \<Rightarrow> Instruction list \<Rightarrow> bool" where
  "would_fit_in_transaction w ex ixs \<longleftrightarrow> estimate_transaction_size_with_budget w ex ixs \<le> MAX_TRANSACTION_SIZE"

definition next_fiber_in_sequence :: "u8 list \<Rightarrow> u8 \<Rightarrow> u8" where
  "next_fiber_in_sequence fiber_ids current_cursor =
     (if fiber_ids = [] then 0
      else case position (\<lambda>x. x = current_cursor) fiber_ids of
        Some current_pos \<Rightarrow> fiber_ids ! ((current_pos + 1) mod length fiber_ids)
      | None \<Rightarrow> hd fiber_ids)"

definition config_pubkey :: "thread_env \<Rightarrow> pubkey" where
  "config_pubkey env = fst (find_program_address (fenv env) [SEED_CONFIG] THREAD_PROGRAM_ID)"

definition exec_accounts_for :: "world \<Rightarrow> ExecutorLogic \<Rightarrow> pubkey \<Rightarrow> Thread \<Rightarrow> pubkey \<Rightarrow> pubkey \<Rightarrow> exec_accounts" where
  "exec_accounts_for w ex key thread fiber admin =
     \<lparr>ea_executor = ex_pubkey ex, ea_thread = key, ea_fiber = fiber, ea_config = config_pubkey (wt_env w), ea_admin = admin,
      ea_nonce_account = (if has_nonce_account thread then Some (th_nonce_account thread) else None),
      ea_recent_blockhashes = (if has_nonce_account thread then Some (RECENT_BLOCKHASHES_ID w) else None)\<rparr>"

definition build_thread_exec_base_accounts :: "world \<Rightarrow> ExecutorLogic \<Rightarrow> pubkey \<Rightarrow> Thread \<Rightarrow> pubkey \<Rightarrow> (AccountMeta list \<times> ThreadConfig) io" where
  "build_thread_exec_base_accounts w ex key thread fiber =
     io_bind (fetch_thread_config w (config_pubkey (wt_env w))) (\<lambda>config.
       io_return (thread_exec_metas w (exec_accounts_for w ex key thread fiber (cfg_admin config)), config))"

text \<open>The key an account reference stands for: the executor, where the fiber names the payer.\<close>

definition resolve_payer :: "ExecutorLogic \<Rightarrow> pubkey \<Rightarrow> pubkey" where
  "resolve_payer ex k = (if k = PAYER_PUBKEY then ex_pubkey ex else k)"

text \<open>The loop over the compiled accounts; \<open>account_index as u8\<close> truncates, the sums are checked.\<close>

definition compiled_account_meta :: "ExecutorLogic \<Rightarrow> CompiledInstructionV0 \<Rightarrow> nat \<Rightarrow> pubkey \<Rightarrow> AccountMeta option" where
  "compiled_account_meta ex compiled account_index key =
     (let account_idx = (word_of_nat account_index :: u8) in
      map_option (\<lambda>wr. \<lparr>am_pubkey = resolve_payer ex key, is_signer = False, is_writable = wr\<rparr>)
        (if account_idx < num_rw_signers compiled then Some True
         else Option.bind (checked_add (num_rw_signers compiled) (num_ro_signers compiled)) (\<lambda>signers.
           if account_idx < signers then Some False
           else Option.bind (checked_add signers (num_rw compiled)) (\<lambda>s. Some (account_idx < s)))))"

definition add_compiled_accounts :: "ExecutorLogic \<Rightarrow> AccountMeta list \<Rightarrow> CompiledInstructionV0 \<Rightarrow> AccountMeta list option" where
  "add_compiled_accounts ex accounts compiled =
     map_option (\<lambda>metas. accounts @ metas)
       (those (map (\<lambda>(i, k). compiled_account_meta ex compiled i k) (enumerate 0 (ci_accounts compiled))))"

text \<open>
  \<open>build_execute_instruction\<close> decompiles the fiber's instruction only to log it, but a
  panic of the decompilation is one of the build.
\<close>

definition build_execute_instruction :: "world \<Rightarrow> ExecutorLogic \<Rightarrow> pubkey \<Rightarrow> Thread \<Rightarrow> u8 \<Rightarrow> bytes \<Rightarrow> Instruction io" where
  "build_execute_instruction w ex key thread fiber_cursor compiled_bytes =
     io_bind (or_fail (deserialize_compiled w compiled_bytes) (deserialize_error w compiled_bytes)) (\<lambda>compiled.
     io_bind (or_panic (if decompile_instruction compiled = Inl Panic then None else Some ())) (\<lambda>_.
     io_bind (build_thread_exec_base_accounts w ex key thread (fiber_at_index (wt_env w) key fiber_cursor)) (\<lambda>(accounts, _).
     io_bind (or_panic (add_compiled_accounts ex accounts compiled)) (\<lambda>accounts'.
       io_return \<lparr>program_id = ex_program_id ex, ix_accounts = accounts',
                  ix_data = exec_thread_data w (forgo_executor_commission ex) fiber_cursor\<rparr>))))"

definition build_thread_exec_ix :: "world \<Rightarrow> ExecutorLogic \<Rightarrow> u64 \<Rightarrow> pubkey \<Rightarrow> Thread \<Rightarrow> u8 \<Rightarrow> (Instruction option \<times> u64) io" where
  "build_thread_exec_ix w ex priority_fee key thread fiber_cursor =
     (let fiber_key = fiber_at_index (wt_env w) key fiber_cursor in
      io_bind (fetch_fiber_account w fiber_key) (\<lambda>data.
      io_bind (io_lift (case try_deserialize_fiber (fenv (wt_env w)) data of
                 Inl _ \<Rightarrow> Inl (Failed (''Failed to deserialize fiber '' @ show_key w fiber_key @ '': '' @ deserialize_error w data))
               | Inr fiber \<Rightarrow> Inr fiber)) (\<lambda>fiber_read.
        if fiber_compiled_instruction fiber_read = [] then io_return (None, priority_fee)
        else io_bind (build_execute_instruction w ex key thread fiber_cursor (fiber_compiled_instruction fiber_read)) (\<lambda>ix.
          io_return (Some ix, max priority_fee (fiber_priority_fee fiber_read))))))"

definition writable :: "pubkey \<Rightarrow> AccountMeta" where
  "writable k = \<lparr>am_pubkey = k, is_signer = False, is_writable = True\<rparr>"

definition readonly :: "pubkey \<Rightarrow> AccountMeta" where
  "readonly k = \<lparr>am_pubkey = k, is_signer = False, is_writable = False\<rparr>"

definition build_close_thread_exec :: "world \<Rightarrow> ExecutorLogic \<Rightarrow> pubkey \<Rightarrow> Thread \<Rightarrow> Instruction io" where
  "build_close_thread_exec w ex key thread =
     (let first_fiber_index = (case th_fiber_ids thread of [] \<Rightarrow> 0 | i # _ \<Rightarrow> i) in
      io_bind (build_thread_exec_base_accounts w ex key thread (fiber_at_index (wt_env w) key first_fiber_index)) (\<lambda>(accounts, _).
        io_return
          \<lparr>program_id = ex_program_id ex,
           ix_accounts = accounts @ map (\<lambda>i. writable (fiber_at_index (wt_env w) key i)) (th_fiber_ids thread) @
             [writable key, writable (th_authority thread), readonly (ex_program_id ex), readonly FIBER_PROGRAM_ID],
           ix_data = exec_thread_data w (forgo_executor_commission ex) 0\<rparr>))"

section \<open>Simulation\<close>

definition transaction :: "ExecutorLogic \<Rightarrow> Instruction list \<Rightarrow> bytes \<Rightarrow> Transaction" where
  "transaction ex ixs blockhash = \<lparr>tx_instructions = ixs, tx_payer = ex_pubkey ex, tx_blockhash = blockhash\<rparr>"

text \<open>The signal the simulated thread account carries; anything unreadable counts as no signal.\<close>

definition extract_signal :: "world \<Rightarrow> SimulateResult \<Rightarrow> Signal" where
  "extract_signal w result =
     (case sim_accounts result of
        Some (Some (d, enc) # _) \<Rightarrow>
          (case decode_account_data (wc_env w) d enc of
             Some data \<Rightarrow>
               if length data < 8 then Signal_None
               else (case try_deserialize_thread (wc_env w) data of Some thread \<Rightarrow> th_fiber_signal thread | None \<Rightarrow> Signal_None)
           | None \<Rightarrow> Signal_None)
      | _ \<Rightarrow> Signal_None)"

definition simulate_transaction :: "world \<Rightarrow> ExecutorLogic \<Rightarrow> pubkey \<Rightarrow> Instruction list \<Rightarrow> (Signal \<times> u64) io" where
  "simulate_transaction w ex key ixs =
     io_bind (request w (blockhash_at w) ''Failed to get blockhash for simulation: '') (\<lambda>blockhash.
     io_bind (request w (\<lambda>i. simulate_at w i (transaction ex (set_compute_unit_limit w 1400000 # ixs) blockhash) [key]) '''') (\<lambda>result.
       io_return (extract_signal w result, case units_consumed result of Some u \<Rightarrow> u | None \<Rightarrow> 0)))"

definition estimate_compute_units :: "world \<Rightarrow> ExecutorLogic \<Rightarrow> pubkey \<Rightarrow> Instruction list \<Rightarrow> u64 io" where
  "estimate_compute_units w ex key ixs = io_bind (simulate_transaction w ex key ixs) (\<lambda>(_, units). io_return units)"

section \<open>One batch\<close>

type_synonym batch = "Instruction list \<times> u64 \<times> bool \<times> u8 option"

text \<open>
  The loop: simulate what there is; append the next fiber of a chain while it fits, the
  closing instruction when the thread is to be closed.
\<close>

function build_loop :: "world \<Rightarrow> ExecutorLogic \<Rightarrow> pubkey \<Rightarrow> Thread \<Rightarrow> Instruction list \<Rightarrow> u64 \<Rightarrow> u8 \<Rightarrow> batch io" where
  "build_loop w ex key thread ixs fee cursor st =
     (if MAX_BATCHED_EXECS \<le> length ixs then (Inr (ixs, fee, False, None), st)
      else case simulate_transaction w ex key ixs st of
        (Inl e, st1) \<Rightarrow> (Inl e, st1)
      | (Inr (signal, _), st1) \<Rightarrow>
          (case signal of
             Chain \<Rightarrow>
               let cursor' = next_fiber_in_sequence (th_fiber_ids thread) cursor in
               (case build_thread_exec_ix w ex fee key thread cursor' st1 of
                  (Inl e, st2) \<Rightarrow> (Inl e, st2)
                | (Inr (None, fee'), st2) \<Rightarrow> (Inr (ixs, fee', False, None), st2)
                | (Inr (Some next_ix, fee'), st2) \<Rightarrow>
                    if estimate_transaction_size_with_budget w ex (ixs @ [next_ix]) \<le> MAX_TRANSACTION_SIZE
                    then build_loop w ex key thread (ixs @ [next_ix]) fee' cursor' st2
                    else (Inr (ixs, fee', True, Some cursor'), st2))
           | Close \<Rightarrow>
               (case build_close_thread_exec w ex key thread st1 of
                  (Inl e, st2) \<Rightarrow> (Inl e, st2)
                | (Inr close_ix, st2) \<Rightarrow>
                    if would_fit_in_transaction w ex (ixs @ [close_ix]) then (Inr (ixs @ [close_ix], fee, False, None), st2)
                    else (Inr (ixs, fee, True, None), st2))
           | _ \<Rightarrow> (Inr (ixs, fee, False, None), st1)))"
  by pat_completeness auto

termination
  by (relation "measure (\<lambda>(_, _, _, _, ixs, _, _, _). MAX_BATCHED_EXECS - length ixs)") auto

definition build_execute_transaction :: "world \<Rightarrow> ExecutorLogic \<Rightarrow> pubkey \<Rightarrow> Thread \<Rightarrow> u8 option \<Rightarrow> batch io" where
  "build_execute_transaction w ex key thread override_fiber_cursor =
     (let cursor = (case override_fiber_cursor of Some c \<Rightarrow> c | None \<Rightarrow> th_fiber_cursor thread) in
      io_bind (build_thread_exec_ix w ex 0 key thread cursor) (\<lambda>(first_ix, fee).
        case first_ix of
          None \<Rightarrow> io_return ([], 0, False, None)
        | Some ix \<Rightarrow>
            if \<not> would_fit_in_transaction w ex [ix]
            then io_lift (Inl (Failed (''Single instruction exceeds max transaction size for thread '' @ show_key w key)))
            else build_loop w ex key thread [ix] fee cursor))"

declare build_loop.simps [simp del]

section \<open>Results of tasks\<close>

named_theorems io_simps "results of composed tasks"

lemma io_bind_Inr [io_simps]:
  "io_bind m f st = (Inr y, st') \<longleftrightarrow> (\<exists>x s. m st = (Inr x, s) \<and> f x s = (Inr y, st'))"
  by (auto simp: io_bind_def split: prod.splits sum.splits)

lemma io_return_Inr [io_simps]: "io_return x st = (Inr y, st') \<longleftrightarrow> y = x \<and> st' = st"
  by (auto simp: io_return_def)

lemma or_panic_Inr [io_simps]: "or_panic m st = (Inr y, st') \<longleftrightarrow> m = Some y \<and> st' = st"
  by (auto simp: or_panic_def io_lift_def ok_or_def split: option.splits)

lemma or_fail_Inr [io_simps]: "or_fail m e st = (Inr y, st') \<longleftrightarrow> m = Some y \<and> st' = st"
  by (auto simp: or_fail_def io_lift_def ok_or_def split: option.splits)

section \<open>The accounts of an instruction\<close>

text \<open>The instruction that executes one fiber, and the one that closes the thread.\<close>

definition exec_ix :: "world \<Rightarrow> ExecutorLogic \<Rightarrow> pubkey \<Rightarrow> Thread \<Rightarrow> u8 \<Rightarrow> Instruction \<Rightarrow> bool" where
  "exec_ix w ex key thread cursor ix \<longleftrightarrow> program_id ix = ex_program_id ex \<and>
     ix_data ix = exec_thread_data w (forgo_executor_commission ex) cursor \<and>
     (\<exists>admin rem. ix_accounts ix =
        thread_exec_metas w (exec_accounts_for w ex key thread (fiber_at_index (wt_env w) key cursor) admin) @ rem)"

definition close_ix :: "world \<Rightarrow> ExecutorLogic \<Rightarrow> pubkey \<Rightarrow> Thread \<Rightarrow> Instruction \<Rightarrow> bool" where
  "close_ix w ex key thread ix \<longleftrightarrow> program_id ix = ex_program_id ex \<and>
     (\<forall>i\<in>set (th_fiber_ids thread). writable (fiber_at_index (wt_env w) key i) \<in> set (ix_accounts ix)) \<and>
     {writable key, writable (th_authority thread), readonly FIBER_PROGRAM_ID} \<subseteq> set (ix_accounts ix)"

lemma those_nth: "those (map f xs) = Some ys \<Longrightarrow> length ys = length xs \<and> (\<forall>i<length xs. f (xs ! i) = Some (ys ! i))"
proof (induction xs arbitrary: ys)
  case (Cons x xs)
  then obtain y zs where "f x = Some y" "those (map f xs) = Some zs" "ys = y # zs"
    by (auto split: option.splits)
  with Cons.IH [of zs] show ?case by (auto simp: nth_Cons split: nat.splits)
qed simp

text \<open>
  The flags the client derives from a position in the compiled table are those the fiber
  program derives from the index of that position.
\<close>

lemma compiled_account_meta_decompile:
  assumes "decompile_account compiled idx = Some m"
    and "compiled_account_meta ex compiled (unat idx) (ci_accounts compiled ! unat idx) = Some r"
  shows "am_pubkey r = resolve_payer ex (am_pubkey m) \<and> is_writable r = is_writable m \<and> \<not> is_signer r"
  using assms
  by (auto simp: decompile_account_def compiled_account_meta_def Let_def bind_eq_Some_conv split: if_splits)

lemma compiled_account_meta_key:
  "compiled_account_meta ex compiled i k = Some r \<Longrightarrow> am_pubkey r = resolve_payer ex k \<and> \<not> is_signer r"
  by (auto simp: compiled_account_meta_def Let_def)

lemma add_compiled_accounts_spec:
  assumes "add_compiled_accounts ex base compiled = Some accounts"
  obtains rem where "accounts = base @ rem" and "length rem = length (ci_accounts compiled)"
    and "\<And>i. i < length (ci_accounts compiled) \<Longrightarrow> compiled_account_meta ex compiled i (ci_accounts compiled ! i) = Some (rem ! i)"
proof -
  from assms obtain rem where "those (map (\<lambda>(i, k). compiled_account_meta ex compiled i k) (enumerate 0 (ci_accounts compiled))) = Some rem"
    and "accounts = base @ rem"
    by (auto simp: add_compiled_accounts_def)
  with those_nth [OF this(1)] show thesis by (intro that) (auto simp: nth_enumerate_eq)
qed

lemma decompile_instruction_accounts:
  assumes "decompile_instruction compiled = Inr ins"
  shows "\<exists>p. unat p < length (ci_accounts compiled) \<and> program_id ins = ci_accounts compiled ! unat (p :: u8)"
    and "a \<in> set (ix_accounts ins) \<Longrightarrow>
      \<exists>idx. unat idx < length (ci_accounts compiled) \<and> decompile_account compiled idx = Some a \<and> am_pubkey a = ci_accounts compiled ! unat idx"
proof -
  from assms obtain c :: CompiledInstructionData where c: "unat (program_id_index c) < length (ci_accounts compiled)"
      "those (map (decompile_account compiled) (cid_accounts c)) = Some (ix_accounts ins)"
      "program_id ins = ci_accounts compiled ! unat (program_id_index c)"
  proof (cases "instructions compiled")
    case (Cons c cs)
    with assms show thesis by (intro that [of c]) (auto simp: decompile_instruction_def res_simps not_le split: if_splits)
  qed (auto simp: decompile_instruction_def)
  then show "\<exists>p. unat p < length (ci_accounts compiled) \<and> program_id ins = ci_accounts compiled ! unat (p :: u8)" by blast
  assume "a \<in> set (ix_accounts ins)"
  with those_nth [OF c(2)] obtain idx where idx: "decompile_account compiled idx = Some a"
    by (metis in_set_conv_nth)
  then have "unat idx < length (ci_accounts compiled) \<and> am_pubkey a = ci_accounts compiled ! unat idx"
    by (auto simp: decompile_account_def bind_eq_Some_conv split: if_splits)
  with idx show "\<exists>idx. unat idx < length (ci_accounts compiled) \<and> decompile_account compiled idx = Some a \<and>
      am_pubkey a = ci_accounts compiled ! unat idx" by blast
qed

text \<open>
  Every account (and the program) of the instruction the thread program will invoke is
  among the remaining accounts of the instruction built, writable exactly where needed.
\<close>

definition covers :: "ExecutorLogic \<Rightarrow> AccountMeta list \<Rightarrow> Instruction \<Rightarrow> bool" where
  "covers ex rem ins \<longleftrightarrow>
     (\<forall>a\<in>set (ix_accounts (substitute_payer (ex_pubkey ex) ins)).
        \<exists>r\<in>set rem. am_pubkey r = am_pubkey a \<and> is_writable r = is_writable a) \<and>
     (\<exists>r\<in>set rem. am_pubkey r = resolve_payer ex (program_id ins)) \<and> (\<forall>r\<in>set rem. \<not> is_signer r)"

lemma add_compiled_accounts_covers:
  assumes "add_compiled_accounts ex base compiled = Some accounts" and "decompile_instruction compiled = Inr ins"
  shows "\<exists>rem. accounts = base @ rem \<and> map am_pubkey rem = map (resolve_payer ex) (ci_accounts compiled) \<and> covers ex rem ins"
proof -
  obtain rem where rem: "accounts = base @ rem" "length rem = length (ci_accounts compiled)"
    and nth: "\<And>i. i < length (ci_accounts compiled) \<Longrightarrow> compiled_account_meta ex compiled i (ci_accounts compiled ! i) = Some (rem ! i)"
    by (rule add_compiled_accounts_spec [OF assms(1)]) blast
  have key: "am_pubkey (rem ! i) = resolve_payer ex (ci_accounts compiled ! i) \<and> \<not> is_signer (rem ! i)"
    if "i < length (ci_accounts compiled)" for i
    using compiled_account_meta_key [OF nth [OF that]] .
  have "\<exists>r\<in>set rem. am_pubkey r = resolve_payer ex (am_pubkey a) \<and> is_writable r = is_writable a" if a: "a \<in> set (ix_accounts ins)" for a
  proof -
    obtain idx where "unat idx < length (ci_accounts compiled)" "decompile_account compiled idx = Some a"
      using decompile_instruction_accounts(2) [OF assms(2) a] by blast
    with compiled_account_meta_decompile [OF this(2) nth] rem(2) show ?thesis by (metis nth_mem)
  qed
  then have "\<forall>a\<in>set (ix_accounts (substitute_payer (ex_pubkey ex) ins)). \<exists>r\<in>set rem. am_pubkey r = am_pubkey a \<and> is_writable r = is_writable a"
    by (fastforce simp: substitute_payer_def resolve_payer_def)
  moreover have "\<exists>r\<in>set rem. am_pubkey r = resolve_payer ex (program_id ins)"
    using decompile_instruction_accounts(1) [OF assms(2)] key rem(2) by (metis nth_mem)
  moreover have "\<forall>r\<in>set rem. \<not> is_signer r" using key rem(2) by (metis in_set_conv_nth)
  moreover have "map am_pubkey rem = map (resolve_payer ex) (ci_accounts compiled)"
    using key rem(2) by (auto intro: nth_equalityI)
  ultimately show ?thesis using rem(1) unfolding covers_def by blast
qed

lemma build_execute_instruction_spec:
  assumes "build_execute_instruction w ex key thread cursor bs st = (Inr ix, st')"
  shows "exec_ix w ex key thread cursor ix"
    and "deserialize_compiled w bs = Some compiled \<Longrightarrow> decompile_instruction compiled = Inr ins \<Longrightarrow>
      \<exists>base rem. ix_accounts ix = base @ rem \<and> covers ex rem ins"
proof -
  obtain c :: CompiledInstructionV0 and config :: ThreadConfig and accounts where c: "deserialize_compiled w bs = Some c"
      "add_compiled_accounts ex (thread_exec_metas w
         (exec_accounts_for w ex key thread (fiber_at_index (wt_env w) key cursor) (cfg_admin config))) c = Some accounts"
      "ix = \<lparr>program_id = ex_program_id ex, ix_accounts = accounts,
         ix_data = exec_thread_data w (forgo_executor_commission ex) cursor\<rparr>"
    using assms unfolding build_execute_instruction_def build_thread_exec_base_accounts_def
    by (auto simp: io_simps)
  then show "exec_ix w ex key thread cursor ix"
    by (auto simp: exec_ix_def elim!: add_compiled_accounts_spec)
  assume "deserialize_compiled w bs = Some compiled" "decompile_instruction compiled = Inr ins"
  with c add_compiled_accounts_covers show "\<exists>base rem. ix_accounts ix = base @ rem \<and> covers ex rem ins"
    by fastforce
qed

lemma build_thread_exec_ix_spec:
  assumes "build_thread_exec_ix w ex fee key thread cursor st = (Inr (r, fee'), st')"
  shows "fee \<le> fee'" and "r = Some ix \<Longrightarrow> exec_ix w ex key thread cursor ix"
  using assms
  by (auto simp: build_thread_exec_ix_def Let_def io_simps io_lift_def split: if_splits sum.splits
      intro: build_execute_instruction_spec(1))

lemma build_close_thread_exec_spec:
  assumes "build_close_thread_exec w ex key thread st = (Inr ix, st')"
  shows "close_ix w ex key thread ix"
  using assms
  by (auto simp: build_close_thread_exec_def build_thread_exec_base_accounts_def Let_def io_simps close_ix_def)

section \<open>What a batch holds\<close>

text \<open>The off-chain order of the fibers is the on-chain one.\<close>

lemma next_fiber_in_sequence_index:
  "next_fiber_in_sequence (th_fiber_ids th) (th_fiber_cursor th) = next_fiber_index th"
  by (simp add: next_fiber_in_sequence_def next_fiber_index_def)

abbreviation nth_fiber :: "Thread \<Rightarrow> nat \<Rightarrow> u8 \<Rightarrow> u8" where
  "nth_fiber thread n cursor \<equiv> (next_fiber_in_sequence (th_fiber_ids thread) ^^ n) cursor"

text \<open>
  A batch executes fibers in sequence from the cursor on, at most five instructions that
  fit into one transaction; the closing instruction comes last; a continuation starts at
  the fiber that did not fit.
\<close>

definition batch_ok :: "world \<Rightarrow> ExecutorLogic \<Rightarrow> pubkey \<Rightarrow> Thread \<Rightarrow> u8 \<Rightarrow> batch \<Rightarrow> bool" where
  "batch_ok w ex key thread cursor b \<longleftrightarrow>
     (case b of (ixs, fee, needs_continuation, next_cursor) \<Rightarrow>
        length ixs \<le> MAX_BATCHED_EXECS \<and> would_fit_in_transaction w ex ixs \<and>
        (\<exists>execs tail. ixs = execs @ tail \<and> (\<forall>i<length execs. exec_ix w ex key thread (nth_fiber thread i cursor) (execs ! i)) \<and>
           (tail = [] \<or> (\<exists>c. tail = [c] \<and> close_ix w ex key thread c \<and> \<not> needs_continuation)) \<and>
           (next_cursor = None \<or> needs_continuation \<and> next_cursor = Some (nth_fiber thread (length execs) cursor))) \<and>
        (needs_continuation \<longrightarrow> length ixs < MAX_BATCHED_EXECS))"

lemma batch_okI:
  assumes "length ixs \<le> MAX_BATCHED_EXECS" and "would_fit_in_transaction w ex ixs"
    and "\<forall>i<length ixs. exec_ix w ex key thread (nth_fiber thread i cursor) (ixs ! i)"
    and "next_cursor = None \<or> cont \<and> next_cursor = Some (nth_fiber thread (length ixs) cursor)"
    and "cont \<Longrightarrow> length ixs < MAX_BATCHED_EXECS"
  shows "batch_ok w ex key thread cursor (ixs, fee, cont, next_cursor)"
proof -
  have "ixs = ixs @ []" by simp
  with assms show ?thesis unfolding batch_ok_def prod.case by blast
qed

lemma batch_ok_close:
  assumes "length ixs < MAX_BATCHED_EXECS" and "would_fit_in_transaction w ex (ixs @ [c])"
    and "\<forall>i<length ixs. exec_ix w ex key thread (nth_fiber thread i cursor) (ixs ! i)" and "close_ix w ex key thread c"
  shows "batch_ok w ex key thread cursor (ixs @ [c], fee, False, None)"
  using assms unfolding batch_ok_def prod.case by auto

lemma build_loop_spec:
  assumes "build_loop w ex key thread ixs fee (nth_fiber thread n cursor) st = (Inr b, st')"
    and "length ixs = Suc n" and "Suc n \<le> MAX_BATCHED_EXECS" and "would_fit_in_transaction w ex ixs"
    and "\<forall>i<length ixs. exec_ix w ex key thread (nth_fiber thread i cursor) (ixs ! i)"
  shows "batch_ok w ex key thread cursor b"
  using assms
proof (induction "MAX_BATCHED_EXECS - n" arbitrary: ixs fee n st)
  case (Suc k)
  let ?c = "nth_fiber thread n cursor"
  have stop: "batch_ok w ex key thread cursor (ixs, f, False, None)" for f
    using Suc.prems by (intro batch_okI) simp_all
  show ?case
  proof (cases "MAX_BATCHED_EXECS \<le> length ixs")
    case True
    then show ?thesis using Suc.prems(1) stop by (auto simp: build_loop.simps)
  next
    case False
    note run = Suc.prems(1) [unfolded build_loop.simps [of w ex key thread ixs]]
    obtain signal u st1 where sim: "simulate_transaction w ex key ixs st = (Inr (signal, u), st1)"
      using run False by (auto split: prod.splits sum.splits)
    show ?thesis
    proof (cases "signal = Chain \<or> signal = Close")
      case nothing: False
      then have "b = (ixs, fee, False, None)" using run False sim by (cases signal) auto
      then show ?thesis using stop by simp
    next
      case True
      then consider (chain) "signal = Chain" | (close) "signal = Close" by blast
      then show ?thesis
      proof cases
        case chain
        let ?c' = "next_fiber_in_sequence (th_fiber_ids thread) ?c"
        obtain r fee' st2 where ix: "build_thread_exec_ix w ex fee key thread ?c' st1 = (Inr (r, fee'), st2)"
          using run False sim chain by (auto simp: Let_def split: prod.splits sum.splits)
        show ?thesis
        proof (cases r)
          case None
          then show ?thesis using run False sim chain ix stop by (auto simp: Let_def)
        next
          case (Some next_ix)
          then have e: "exec_ix w ex key thread (nth_fiber thread (Suc n) cursor) next_ix"
            using build_thread_exec_ix_spec(2) [OF ix] by simp
          show ?thesis
          proof (cases "would_fit_in_transaction w ex (ixs @ [next_ix])")
            case True
            then have "build_loop w ex key thread (ixs @ [next_ix]) fee' (nth_fiber thread (Suc n) cursor) st2 = (Inr b, st')"
              using run False sim chain ix Some by (simp add: Let_def would_fit_in_transaction_def)
            then show ?thesis
              using Suc.hyps(2) Suc.prems False True e
              by (intro Suc.hyps(1) [of "Suc n" "ixs @ [next_ix]" fee' st2]) (auto simp: nth_append less_Suc_eq)
          next
            case fits: False
            then have "b = (ixs, fee', True, Some ?c')"
              using run False sim chain ix Some by (simp add: Let_def would_fit_in_transaction_def)
            then show ?thesis using Suc.prems False by (auto intro: batch_okI)
          qed
        qed
      next
        case close
        obtain cix st2 where cix: "build_close_thread_exec w ex key thread st1 = (Inr cix, st2)"
          using run False sim close by (auto split: prod.splits sum.splits)
        note c = build_close_thread_exec_spec [OF cix]
        show ?thesis
        proof (cases "would_fit_in_transaction w ex (ixs @ [cix])")
          case True
          then have "b = (ixs @ [cix], fee, False, None)" using run False sim close cix by simp
          then show ?thesis using True Suc.prems False c by (auto intro: batch_ok_close)
        next
          case fits: False
          then have "b = (ixs, fee, True, None)" using run False sim close cix by simp
          then show ?thesis using Suc.prems False by (auto intro: batch_okI)
        qed
      qed
    qed
  qed
qed simp

lemma build_execute_transaction_spec:
  assumes "build_execute_transaction w ex key thread override st = (Inr b, st')"
  shows "b = ([], 0, False, None) \<or>
    batch_ok w ex key thread (case override of Some c \<Rightarrow> c | None \<Rightarrow> th_fiber_cursor thread) b"
proof -
  define c where "c = (case override of Some c \<Rightarrow> c | None \<Rightarrow> th_fiber_cursor thread)"
  from assms obtain r fee s where ix: "build_thread_exec_ix w ex 0 key thread c st = (Inr (r, fee), s)"
    and rest: "(case r of None \<Rightarrow> io_return ([], 0, False, None)
        | Some ix \<Rightarrow> if \<not> would_fit_in_transaction w ex [ix]
            then io_lift (Inl (Failed (''Single instruction exceeds max transaction size for thread '' @ show_key w key)))
            else build_loop w ex key thread [ix] fee c) s = (Inr b, st')"
    by (auto simp: build_execute_transaction_def Let_def io_simps simp flip: c_def)
  show ?thesis
  proof (cases r)
    case None
    then show ?thesis using rest by (simp add: io_simps)
  next
    case (Some first)
    then have "would_fit_in_transaction w ex [first]" and "build_loop w ex key thread [first] fee c s = (Inr b, st')"
      using rest by (auto simp: io_lift_def split: if_splits)
    moreover have "exec_ix w ex key thread c first" using build_thread_exec_ix_spec(2) [OF ix] Some by simp
    ultimately have "batch_ok w ex key thread c b"
      using build_loop_spec [of w ex key thread "[first]" fee 0 c s b st'] by (simp add: MAX_BATCHED_EXECS_def)
    then show ?thesis by (simp add: c_def)
  qed
qed

end
