(* ===== verification/Worker.thy ===== *)
theory Worker
  imports Executor Rpc_Pool
begin

text \<open>
  \<open>crates/client/src/actors/worker.rs\<close> with the \<open>ExecutionResult\<close> of
  \<open>actors/messages.rs\<close>: one run of one thread. The three loops that wait for the outside
  world (trigger, confirmation over the TPU, confirmation over RPC) end by the clock only,
  so they are partial functions; that they return is proved from \<open>clock_laws\<close>. Times are
  in milliseconds; the attempt and batch counters, which stay below 6 and 22, are natural
  numbers. A panic of the background task is the result \<open>None\<close>.
\<close>

section \<open>Data\<close>

record ExecutionResult =
  er_pubkey :: pubkey
  er_success :: bool
  er_skipped :: bool
  er_error :: "string option"
  attempt_count :: nat

definition result_success :: "pubkey \<Rightarrow> ExecutionResult" where
  "result_success key = \<lparr>er_pubkey = key, er_success = True, er_skipped = False, er_error = None, attempt_count = 0\<rparr>"

definition result_failed :: "pubkey \<Rightarrow> string \<Rightarrow> nat \<Rightarrow> ExecutionResult" where
  "result_failed key e n = \<lparr>er_pubkey = key, er_success = False, er_skipped = False, er_error = Some e, attempt_count = n\<rparr>"

definition result_skipped :: "pubkey \<Rightarrow> ExecutionResult" where
  "result_skipped key = \<lparr>er_pubkey = key, er_success = True, er_skipped = True, er_error = None, attempt_count = 0\<rparr>"

definition MAX_ATTEMPTS :: nat where "MAX_ATTEMPTS = 5"

definition CONFIRMATION_TIMEOUT_SECS :: nat where "CONFIRMATION_TIMEOUT_SECS = 30"

definition BASE_RETRY_DELAY_MS :: nat where "BASE_RETRY_DELAY_MS = 500"

definition TPU_RETRY_INTERVAL_MS :: nat where "TPU_RETRY_INTERVAL_MS = 2000"

definition TRIGGER_RETRY_DEADLINE_SECS :: nat where "TRIGGER_RETRY_DEADLINE_SECS = 10"

definition MAX_CONTINUATION_BATCHES :: nat where "MAX_CONTINUATION_BATCHES = 20"

definition is_trigger_not_ready_error :: "string \<Rightarrow> bool" where
  "is_trigger_not_ready_error e \<longleftrightarrow> str_contains e ''Custom(6004)'' \<or> str_contains e ''6004''"

definition is_thread_paused_error :: "string \<Rightarrow> bool" where
  "is_thread_paused_error e \<longleftrightarrow> str_contains e ''Custom(6006)'' \<or> str_contains e ''6006''"

fun show_nat :: "nat \<Rightarrow> string" where
  "show_nat n = (if n < 10 then [char_of (48 + n)] else show_nat (n div 10) @ [char_of (48 + n mod 10)])"

declare show_nat.simps [simp del]

text \<open>\<open>record_execution_result\<close> at the current moment; \<open>None\<close> is a panic.\<close>

definition lb_record :: "world \<Rightarrow> pubkey \<Rightarrow> bool \<Rightarrow> task \<Rightarrow> task option" where
  "lb_record w key ok st = map_option (\<lambda>lb. st\<lparr>tk_lb := lb\<rparr>) (record_execution_result key ok (utc_at w (now st)) (tk_lb st))"

section \<open>Confirmation\<close>

partial_function (option) wait_loop :: "world \<Rightarrow> bytes \<Rightarrow> nat \<Rightarrow> nat \<Rightarrow> task \<Rightarrow> ((string + unit) \<times> task) option" where
  "wait_loop w sig timeout_secs start st =
     (if timeout_secs * 1000 < instant_at w (now st) - start
      then Some (Inl (''Confirmation timeout after '' @ show_nat timeout_secs @ ''s''), st)
      else case status_at w (now st) sig of
        Inl _ \<Rightarrow> wait_loop w sig timeout_secs start (sleep_ms w 500 (tick w st))
      | Inr None \<Rightarrow> wait_loop w sig timeout_secs start (sleep_ms w 500 (tick w st))
      | Inr (Some (Inr _)) \<Rightarrow> Some (Inr (), tick w st)
      | Inr (Some (Inl e)) \<Rightarrow> Some (Inl (''Transaction failed: '' @ e), tick w st))"

definition wait_for_confirmation :: "world \<Rightarrow> bytes \<Rightarrow> nat \<Rightarrow> task \<Rightarrow> ((string + unit) \<times> task) option" where
  "wait_for_confirmation w sig timeout_secs st = wait_loop w sig timeout_secs (instant_at w (now st)) st"

datatype tpu_end = TpuConfirmed | TpuGaveUp | TpuFailed string | TpuPanicked

definition tpu_send :: "world \<Rightarrow> Transaction \<Rightarrow> task \<Rightarrow> task" where
  "tpu_send w tx st = tick w (st\<lparr>tk_sent := tk_sent st @ [TpuSend tx]\<rparr>)"

definition rpc_send :: "world \<Rightarrow> Transaction \<Rightarrow> task \<Rightarrow> (string + bytes) \<times> task" where
  "rpc_send w tx st = (send_at w (now st) tx, tick w (st\<lparr>tk_sent := tk_sent st @ [RpcSend tx]\<rparr>))"

partial_function (option) tpu_loop :: "world \<Rightarrow> pubkey \<Rightarrow> Transaction \<Rightarrow> nat \<Rightarrow> nat \<Rightarrow> task \<Rightarrow> (tpu_end \<times> task) option" where
  "tpu_loop w key tx start last_tpu_send st =
     (if CONFIRMATION_TIMEOUT_SECS * 1000 < instant_at w (now st) - start then Some (TpuGaveUp, st)
      else
        let resend = TPU_RETRY_INTERVAL_MS < instant_at w (now st) - last_tpu_send;
            st1 = (if resend then tpu_send w tx st else st);
            last_tpu_send' = (if resend then instant_at w (now st1) else last_tpu_send) in
        case status_at w (now st1) (signature_of w tx) of
          Inl _ \<Rightarrow> tpu_loop w key tx start last_tpu_send' (sleep_ms w 500 (tick w st1))
        | Inr None \<Rightarrow> tpu_loop w key tx start last_tpu_send' (sleep_ms w 500 (tick w st1))
        | Inr (Some (Inr _)) \<Rightarrow> Some (TpuConfirmed, tick w st1)
        | Inr (Some (Inl e)) \<Rightarrow>
            if is_trigger_not_ready_error e then Some (TpuGaveUp, tick w st1)
            else if is_thread_paused_error e then Some (TpuFailed ''Thread is paused'', tick w st1)
            else (case lb_record w key False (tick w st1) of
                    None \<Rightarrow> Some (TpuPanicked, tick w st1)
                  | Some st2 \<Rightarrow> Some (TpuFailed (''Transaction failed on-chain: '' @ e), st2)))"

definition tpu_phase :: "world \<Rightarrow> pubkey \<Rightarrow> Transaction \<Rightarrow> task \<Rightarrow> (tpu_end \<times> task) option" where
  "tpu_phase w key tx st =
     (if tpu_available w
      then tpu_loop w key tx (instant_at w (now st)) (instant_at w (now st)) (tpu_send w tx st)
      else Some (TpuGaveUp, st))"

section \<open>Submission\<close>

datatype submit_result = Submitted bytes | SubmitErr string nat | SubmitPanicked

text \<open>How one turn of the loop ends: the function returns, or the next attempt follows.\<close>

datatype attempt_end = Return submit_result | Retry string

definition retry_delay :: "nat \<Rightarrow> nat" where
  "retry_delay attempt = BASE_RETRY_DELAY_MS * 2 ^ min attempt 4"

definition recorded :: "world \<Rightarrow> pubkey \<Rightarrow> bool \<Rightarrow> task \<Rightarrow> (task \<Rightarrow> attempt_end \<times> task) \<Rightarrow> attempt_end \<times> task" where
  "recorded w key ok st k = (case lb_record w key ok st of None \<Rightarrow> (Return SubmitPanicked, st) | Some st1 \<Rightarrow> k st1)"

definition rpc_phase :: "world \<Rightarrow> pubkey \<Rightarrow> Transaction \<Rightarrow> nat \<Rightarrow> task \<Rightarrow> (attempt_end \<times> task) option" where
  "rpc_phase w key tx attempt st =
     (case rpc_send w tx st of
        (Inl e, st1) \<Rightarrow>
          Some (recorded w key False st1 (\<lambda>st2.
            (Retry (''Transaction send failed: '' @ e), sleep_ms w (retry_delay attempt) st2)))
      | (Inr _, st1) \<Rightarrow>
          (case wait_for_confirmation w (signature_of w tx) CONFIRMATION_TIMEOUT_SECS st1 of
             None \<Rightarrow> None
           | Some (Inr _, st2) \<Rightarrow> Some (recorded w key True st2 (\<lambda>st3. (Return (Submitted (signature_of w tx)), st3)))
           | Some (Inl e, st2) \<Rightarrow>
               let again = (\<lambda>st3. (Retry (''Confirmation failed: '' @ e),
                     if attempt < MAX_ATTEMPTS then sleep_ms w (retry_delay attempt) st3 else st3)) in
               if is_trigger_not_ready_error e then Some (again st2)
               else if is_thread_paused_error e then Some (Return (SubmitErr ''Thread is paused'' attempt), st2)
               else Some (recorded w key False st2 again)))"

definition submit_attempt :: "world \<Rightarrow> ExecutorLogic \<Rightarrow> pubkey \<Rightarrow> Instruction list \<Rightarrow> nat \<Rightarrow> task \<Rightarrow> (attempt_end \<times> task) option" where
  "submit_attempt w ex key ixs attempt st =
     (if cancelled_at w (now st) then Some (Return (SubmitErr ''Cancelled during execution'' attempt), st)
      else case blockhash_at w (now st) of
        Inl e \<Rightarrow> Some (Retry (''Failed to get blockhash: '' @ e), sleep_ms w (retry_delay attempt) (tick w st))
      | Inr blockhash \<Rightarrow>
          let tx = transaction ex ixs blockhash in
          (case tpu_phase w key tx (tick w st) of
             None \<Rightarrow> None
           | Some (TpuConfirmed, st1) \<Rightarrow> Some (recorded w key True st1 (\<lambda>st2. (Return (Submitted (signature_of w tx)), st2)))
           | Some (TpuFailed e, st1) \<Rightarrow> Some (Return (SubmitErr e attempt), st1)
           | Some (TpuPanicked, st1) \<Rightarrow> Some (Return SubmitPanicked, st1)
           | Some (TpuGaveUp, st1) \<Rightarrow> rpc_phase w key tx attempt st1))"

function submit_loop :: "world \<Rightarrow> ExecutorLogic \<Rightarrow> pubkey \<Rightarrow> Instruction list \<Rightarrow> nat \<Rightarrow> string \<Rightarrow> task \<Rightarrow> (submit_result \<times> task) option" where
  "submit_loop w ex key ixs attempt last_error st =
     (if attempt < MAX_ATTEMPTS then
        (case submit_attempt w ex key ixs (attempt + 1) st of
           None \<Rightarrow> None
         | Some (Return r, st1) \<Rightarrow> Some (r, st1)
         | Some (Retry e, st1) \<Rightarrow> submit_loop w ex key ixs (attempt + 1) e st1)
      else Some (SubmitErr last_error attempt, st))"
  by pat_completeness auto

termination
  by (relation "measure (\<lambda>(_, _, _, _, attempt, _, _). MAX_ATTEMPTS - attempt)") auto

declare submit_loop.simps [simp del]

definition submit_and_confirm_batch :: "world \<Rightarrow> ExecutorLogic \<Rightarrow> pubkey \<Rightarrow> Instruction list \<Rightarrow> task \<Rightarrow> (submit_result \<times> task) option" where
  "submit_and_confirm_batch w ex key ixs st = submit_loop w ex key ixs 0 [] st"

section \<open>Batches\<close>

partial_function (option) trigger_loop :: "world \<Rightarrow> ExecutorLogic \<Rightarrow> pubkey \<Rightarrow> Thread \<Rightarrow> u8 option \<Rightarrow> nat \<Rightarrow> task \<Rightarrow> ((exec_error + batch) \<times> task) option" where
  "trigger_loop w ex key thread cursor deadline st =
     (if cancelled_at w (now st) then Some (Inl (Failed ''Cancelled during build''), st)
      else if deadline < instant_at w (now st)
      then Some (Inl (Failed ''Trigger window expired while waiting for trigger time''), st)
      else case build_execute_transaction w ex key thread cursor st of
        (Inr b, st1) \<Rightarrow> Some (Inr b, st1)
      | (Inl Panicked, st1) \<Rightarrow> Some (Inl Panicked, st1)
      | (Inl (Failed e), st1) \<Rightarrow>
          if is_trigger_not_ready_error e then trigger_loop w ex key thread cursor deadline (sleep_ms w 500 st1)
          else if is_thread_paused_error e then Some (Inl (Failed ''Thread is paused''), st1)
          else Some (Inl (Failed (''Transaction build failed: '' @ e)), st1))"

definition build_batch :: "world \<Rightarrow> ExecutorLogic \<Rightarrow> pubkey \<Rightarrow> Thread \<Rightarrow> nat \<Rightarrow> u8 option \<Rightarrow> task \<Rightarrow> ((exec_error + batch) \<times> task) option" where
  "build_batch w ex key thread batch_num cursor st =
     (if batch_num = 1
      then trigger_loop w ex key thread cursor (instant_at w (now st) + TRIGGER_RETRY_DEADLINE_SECS * 1000) st
      else case build_execute_transaction w ex key thread cursor st of
        (Inl (Failed e), st1) \<Rightarrow> Some (Inl (Failed (''Continuation batch '' @ show_nat batch_num @ '' build failed: '' @ e)), st1)
      | (r, st1) \<Rightarrow> Some (r, st1))"

text \<open>\<open>as u32\<close> truncates and saturates; the factor is the double next to 1.1.\<close>

definition f64_as_u32 :: "rat \<Rightarrow> u32" where
  "f64_as_u32 x = (if x \<le> 0 then 0 else if 2 ^ 32 \<le> \<lfloor>x\<rfloor> then - 1 else word_of_int \<lfloor>x\<rfloor>)"

definition compute_units :: "u64 \<Rightarrow> u32" where
  "compute_units cu_estimate = f64_as_u32 (f64_mul (f64_of_u64 cu_estimate) (f64_round (11 / 10)))"

definition with_compute_budget :: "world \<Rightarrow> u64 \<Rightarrow> u64 \<Rightarrow> Instruction list \<Rightarrow> Instruction list" where
  "with_compute_budget w cu_estimate max_priority_fee ixs =
     set_compute_unit_limit w (compute_units cu_estimate) #
     (if max_priority_fee > 0 then [set_compute_unit_price w max_priority_fee] else []) @ ixs"

datatype batch_end = Finished "ExecutionResult option" | Continue Thread "u8 option" u64

definition failed_with :: "pubkey \<Rightarrow> string \<Rightarrow> exec_error \<Rightarrow> ExecutionResult option" where
  "failed_with key prefix err = (case err of Failed e \<Rightarrow> Some (result_failed key (prefix @ e) 0) | Panicked \<Rightarrow> None)"

definition submit_batch :: "world \<Rightarrow> ExecutorLogic \<Rightarrow> pubkey \<Rightarrow> nat \<Rightarrow> u64 \<Rightarrow> batch \<Rightarrow> task \<Rightarrow> (batch_end \<times> task) option" where
  "submit_batch w ex key batch_num max_priority_fee b st =
     (case b of (ixs, fee, needs_continuation, next_cursor) \<Rightarrow>
      let fee' = max max_priority_fee fee in
      if ixs = [] then Some (Finished (Some (result_skipped key)), st)
      else case estimate_compute_units w ex key ixs st of
        (Inl e, st1) \<Rightarrow> Some (Finished (failed_with key (''Batch '' @ show_nat batch_num @ '' CU estimation failed: '') e), st1)
      | (Inr cu_estimate, st1) \<Rightarrow>
          (case submit_and_confirm_batch w ex key (with_compute_budget w cu_estimate fee' ixs) st1 of
             None \<Rightarrow> None
           | Some (SubmitPanicked, st2) \<Rightarrow> Some (Finished None, st2)
           | Some (SubmitErr e attempts, st2) \<Rightarrow>
               Some (Finished (Some (result_failed key (''Batch '' @ show_nat batch_num @ '' failed: '' @ e) attempts)), st2)
           | Some (Submitted _, st2) \<Rightarrow>
               if \<not> needs_continuation then Some (Finished (Some (result_success key)), st2)
               else (case fetch_thread w key st2 of
                       (Inl e, st3) \<Rightarrow> Some (Finished (failed_with key ''Failed to re-fetch thread for continuation: '' e), st3)
                     | (Inr thread, st3) \<Rightarrow> Some (Continue thread next_cursor fee', st3))))"

function batch_loop :: "world \<Rightarrow> ExecutorLogic \<Rightarrow> pubkey \<Rightarrow> Thread \<Rightarrow> nat \<Rightarrow> u64 \<Rightarrow> u8 option \<Rightarrow> task \<Rightarrow> (ExecutionResult option \<times> task) option" where
  "batch_loop w ex key thread batch_num fee cursor st =
     (if batch_num + 1 > MAX_CONTINUATION_BATCHES then Some (Some (result_success key), st)
      else case build_batch w ex key thread (batch_num + 1) cursor st of
        None \<Rightarrow> None
      | Some (Inl e, st1) \<Rightarrow> Some (failed_with key [] e, st1)
      | Some (Inr b, st1) \<Rightarrow>
          (case submit_batch w ex key (batch_num + 1) fee b st1 of
             None \<Rightarrow> None
           | Some (Finished r, st2) \<Rightarrow> Some (r, st2)
           | Some (Continue thread' cursor' fee', st2) \<Rightarrow> batch_loop w ex key thread' (batch_num + 1) fee' cursor' st2))"
  by pat_completeness auto

termination
  by (relation "measure (\<lambda>(_, _, _, _, batch_num, _, _, _). MAX_CONTINUATION_BATCHES - batch_num)") auto

declare batch_loop.simps [simp del]

section \<open>The thread\<close>

definition current_last_executor :: "world \<Rightarrow> pubkey \<Rightarrow> Thread \<Rightarrow> cache \<Rightarrow> string + pubkey" where
  "current_last_executor w key thread c =
     (case c key of
        None \<Rightarrow> Inr (th_last_executor thread)
      | Some cached \<Rightarrow>
          (case try_deserialize_thread (wc_env w) (ca_data cached) of
             None \<Rightarrow> Inr (th_last_executor thread)
           | Some fresh \<Rightarrow>
               if th_exec_count fresh \<noteq> th_exec_count thread then Inl ''Thread already executed (exec_count changed)''
               else Inr (th_last_executor fresh)))"

text \<open>The pause before a thread nobody has executed yet is claimed; \<open>False\<close> where it was claimed meanwhile.\<close>

definition claim_delay :: "world \<Rightarrow> pubkey \<Rightarrow> pubkey \<Rightarrow> task \<Rightarrow> bool \<times> task" where
  "claim_delay w key last_executor st =
     (let delay = thread_process_delay (lb_config (tk_lb st)) in
      if last_executor = pubkey_default \<and> delay \<noteq> 0 then
        let st1 = sleep_ms w (unat delay * 1000) st in
        ((case Option.bind (tk_cache st1 key) (\<lambda>cached. try_deserialize_thread (wc_env w) (ca_data cached)) of
            Some t \<Rightarrow> th_last_executor t = pubkey_default
          | None \<Rightarrow> True), st1)
      else (True, st))"

definition execute_thread :: "world \<Rightarrow> ExecutorLogic \<Rightarrow> pubkey \<Rightarrow> Thread \<Rightarrow> bool \<Rightarrow> i64 \<Rightarrow> task \<Rightarrow> (ExecutionResult option \<times> task) option" where
  "execute_thread w ex key thread overdue seconds st =
     (if cancelled_at w (now st) then Some (Some (result_failed key ''Cancelled before execution'' 0), st)
      else case current_last_executor w key thread (tk_cache st) of
        Inl e \<Rightarrow> Some (Some (result_failed key e 0), st)
      | Inr last_executor \<Rightarrow>
          (case should_process key last_executor overdue seconds (tk_lb st) of
             None \<Rightarrow> Some (None, st)
           | Some (Skip, lb) \<Rightarrow> Some (Some (result_failed key ''Skipped by load balancer'' 0), st\<lparr>tk_lb := lb\<rparr>)
           | Some (AtCapacity, lb) \<Rightarrow> Some (Some (result_failed key ''At capacity'' 0), st\<lparr>tk_lb := lb\<rparr>)
           | Some (Process, lb) \<Rightarrow>
               (case claim_delay w key last_executor (st\<lparr>tk_lb := lb\<rparr>) of
                  (False, st1) \<Rightarrow> Some (Some (result_failed key ''Claimed during delay'' 0), st1)
                | (True, st1) \<Rightarrow> batch_loop w ex key thread 0 0 None st1)))"

section \<open>Time passes\<close>

text \<open>
  What \<open>Instant\<close> and \<open>tokio::time::sleep\<close> guarantee: the clock never goes back, and a
  sleep ends after at least its duration.
\<close>

definition clock_laws :: "world \<Rightarrow> bool" where
  "clock_laws w \<longleftrightarrow> (\<forall>i. instant_at w i \<le> instant_at w (Suc i)) \<and>
     (\<forall>i ms. i < wake w i ms \<and> instant_at w i + ms \<le> instant_at w (wake w i ms))"

lemma instant_mono: "clock_laws w \<Longrightarrow> i \<le> j \<Longrightarrow> instant_at w i \<le> instant_at w j"
  using lift_Suc_mono_le [of "instant_at w"] by (simp add: clock_laws_def)

lemma now_simps [simp]:
  "now (tick w st) = Suc (now st)" "now (sleep_ms w ms st) = wake w (now st) ms"
  "now (tpu_send w tx st) = Suc (now st)" "now (snd (rpc_send w tx st)) = Suc (now st)"
  by (simp_all add: tick_def sleep_ms_def at_moment_def tpu_send_def rpc_send_def split: prod.splits)

lemma sent_simps [simp]:
  "tk_sent (tick w st) = tk_sent st" "tk_sent (sleep_ms w ms st) = tk_sent st"
  "tk_sent (tpu_send w tx st) = tk_sent st @ [TpuSend tx]" "tk_sent (snd (rpc_send w tx st)) = tk_sent st @ [RpcSend tx]"
  by (simp_all add: tick_def sleep_ms_def at_moment_def tpu_send_def rpc_send_def split: prod.splits)

lemma lb_record_frame:
  "lb_record w key ok st = Some st' \<Longrightarrow> now st' = now st \<and> tk_sent st' = tk_sent st"
  by (auto simp: lb_record_def)

text \<open>What the executor does sends nothing and takes the task no moment back.\<close>

definition quiet :: "'a io \<Rightarrow> bool" where
  "quiet m \<longleftrightarrow> (\<forall>st r st'. m st = (r, st') \<longrightarrow> now st \<le> now st' \<and> tk_sent st' = tk_sent st)"

named_theorems quiet_intros

lemma quietD: "quiet m \<Longrightarrow> m st = (r, st') \<Longrightarrow> now st \<le> now st' \<and> tk_sent st' = tk_sent st"
  by (simp add: quiet_def)

lemma quiet_bind [quiet_intros]: "quiet m \<Longrightarrow> (\<And>x. quiet (f x)) \<Longrightarrow> quiet (io_bind m f)"
  unfolding quiet_def io_bind_def by (fastforce split: prod.splits sum.splits)

lemma quiet_basic [quiet_intros]: "quiet (io_return x)" "quiet (io_lift r)" "quiet (or_fail m e)" "quiet (or_panic m)" "quiet (request w q p)"
  by (simp_all add: quiet_def io_return_def io_lift_def or_fail_def or_panic_def request_def)

lemma quiet_if [quiet_intros]: "quiet a \<Longrightarrow> quiet b \<Longrightarrow> quiet (if c then a else b)" by simp

lemma quiet_pair [quiet_intros]: "(\<And>a b. quiet (f a b)) \<Longrightarrow> quiet (case p of (a, b) \<Rightarrow> f a b)" by (cases p) simp

lemma quiet_option [quiet_intros]: "quiet a \<Longrightarrow> (\<And>x. quiet (f x)) \<Longrightarrow> quiet (case m of None \<Rightarrow> a | Some x \<Rightarrow> f x)"
  by (cases m) simp_all

lemma quiet_fetch_thread [quiet_intros]: "quiet (fetch_thread w key)"
  unfolding fetch_thread_def by (intro quiet_intros)

lemma quiet_fetch_thread_config [quiet_intros]: "quiet (fetch_thread_config w key)"
proof -
  have put: "quiet (\<lambda>st1. (Inr config, st1\<lparr>tk_cache := cache_put_simple (wc_env w) key data 0 (tk_cache st1)\<rparr>))" for config data
    by (simp add: quiet_def)
  have or: "quiet (\<lambda>st. case c st of Some x \<Rightarrow> (Inr x, st) | None \<Rightarrow> m st)" if "quiet m" for c and m :: "ThreadConfig io"
    using that by (fastforce simp: quiet_def split: option.splits)
  show ?thesis unfolding fetch_thread_config_def [abs_def] by (rule or) (intro quiet_intros put)
qed

lemma quiet_build_thread_exec_ix [quiet_intros]: "quiet (build_thread_exec_ix w ex fee key thread cursor)"
  unfolding build_thread_exec_ix_def build_execute_instruction_def build_thread_exec_base_accounts_def fetch_fiber_account_def Let_def
  by (intro quiet_intros)

lemma quiet_build_close_thread_exec [quiet_intros]: "quiet (build_close_thread_exec w ex key thread)"
  unfolding build_close_thread_exec_def build_thread_exec_base_accounts_def Let_def by (intro quiet_intros)

lemma quiet_simulate_transaction [quiet_intros]: "quiet (simulate_transaction w ex key ixs)"
  unfolding simulate_transaction_def by (intro quiet_intros)

lemma quiet_estimate_compute_units [quiet_intros]: "quiet (estimate_compute_units w ex key ixs)"
  unfolding estimate_compute_units_def by (intro quiet_intros)

lemma build_loop_quiet:
  "build_loop w ex key thread ixs fee cursor st = (r, st') \<Longrightarrow> now st \<le> now st' \<and> tk_sent st' = tk_sent st"
proof (induction w ex key thread ixs fee cursor st rule: build_loop.induct)
  case (1 w ex key thread ixs fee cursor st)
  note sim = quietD [OF quiet_simulate_transaction [of w ex key ixs]]
    and ixq = quietD [OF quiet_build_thread_exec_ix [of w ex fee key thread]]
    and closeq = quietD [OF quiet_build_close_thread_exec [of w ex key thread]]
  show ?case
  proof (cases "MAX_BATCHED_EXECS \<le> length ixs")
    case True
    then show ?thesis using "1.prems" by (simp add: build_loop.simps)
  next
    case False
    obtain r1 st1 where s: "simulate_transaction w ex key ixs st = (r1, st1)" by fastforce
    note 2 = "1.prems" [unfolded build_loop.simps [of w ex key thread ixs]] False s sim [OF s]
    show ?thesis
    proof (cases "\<exists>u. r1 = Inr (Chain, u)")
      case True
      then obtain u where r1: "r1 = Inr (Chain, u)" by blast
      let ?c = "next_fiber_in_sequence (th_fiber_ids thread) cursor"
      obtain r2 st2 where b: "build_thread_exec_ix w ex fee key thread ?c st1 = (r2, st2)" by fastforce
      note 3 = 2 r1 b ixq [OF b]
      show ?thesis
      proof (cases "\<exists>next_ix fee'. r2 = Inr (Some next_ix, fee') \<and>
          estimate_transaction_size_with_budget w ex (ixs @ [next_ix]) \<le> MAX_TRANSACTION_SIZE")
        case True
        then obtain next_ix fee' where r2: "r2 = Inr (Some next_ix, fee')"
            "estimate_transaction_size_with_budget w ex (ixs @ [next_ix]) \<le> MAX_TRANSACTION_SIZE" by blast
        with 3 have run: "build_loop w ex key thread (ixs @ [next_ix]) fee' ?c st2 = (r, st')" by (simp add: Let_def)
        have "now st2 \<le> now st' \<and> tk_sent st' = tk_sent st2"
          by (rule "1.IH" [OF False s [symmetric] r1 refl refl refl b [symmetric] r2(1) refl refl r2(2) run])
        then show ?thesis using 3 by simp
      next
        case F: False
        then show ?thesis using 3 by (auto simp: Let_def split: sum.splits prod.splits option.splits if_splits)
      qed
    next
      case False
      then show ?thesis using 2 by (auto dest!: closeq split: sum.splits prod.splits Signal.splits if_splits)
    qed
  qed
qed

lemma quiet_build_execute_transaction [quiet_intros]: "quiet (build_execute_transaction w ex key thread cursor)"
proof -
  have "quiet (build_loop w ex key thread ixs fee c)" for ixs fee c
    unfolding quiet_def using build_loop_quiet by blast
  then show ?thesis unfolding build_execute_transaction_def Let_def by (intro quiet_intros)
qed

section \<open>Every wait ends\<close>

definition confirmed :: "world \<Rightarrow> bytes \<Rightarrow> nat \<Rightarrow> nat \<Rightarrow> bool" where
  "confirmed w sig i j \<longleftrightarrow> (\<exists>k. i \<le> k \<and> k < j \<and> status_at w k sig = Inr (Some (Inr ())))"

lemma confirmed_mono: "confirmed w sig i j \<Longrightarrow> i' \<le> i \<Longrightarrow> j \<le> j' \<Longrightarrow> confirmed w sig i' j'"
  unfolding confirmed_def by (meson le_trans less_le_trans)

lemma confirmed_now: "status_at w i sig = Inr (Some (Inr u)) \<Longrightarrow> confirmed w sig i (Suc i)"
  unfolding confirmed_def by (metis lessI order_refl unit.exhaust)

text \<open>A polling loop sleeps half a second a turn, so its time runs out.\<close>

lemma poll_step:
  assumes "clock_laws w" and "now st \<le> i"
  shows "now st < wake w i 500" and "instant_at w (now st) + 500 \<le> instant_at w (wake w i 500)"
  using assms instant_mono [OF assms] by (auto simp: clock_laws_def intro: le_less_trans order_trans [OF add_right_mono])

lemma wait_loop_correct:
  assumes "clock_laws w"
  shows "\<exists>r st'. wait_loop w sig secs start st = Some (r, st') \<and> now st \<le> now st' \<and> tk_sent st' = tk_sent st \<and>
    (\<forall>u. r = Inr u \<longrightarrow> confirmed w sig (now st) (now st'))"
proof (induction "start + secs * 1000 + 1 - instant_at w (now st)" arbitrary: st rule: less_induct)
  case less
  let ?st = "sleep_ms w 500 (tick w st)"
  have later: "now st < now ?st" "instant_at w (now st) + 500 \<le> instant_at w (now ?st)"
    using poll_step [OF assms, of st "Suc (now st)"] by simp_all
  show ?case
  proof (cases "secs * 1000 < instant_at w (now st) - start")
    case True
    then show ?thesis by (simp add: wait_loop.simps)
  next
    case False
    then have "start + secs * 1000 + 1 - instant_at w (now ?st) < start + secs * 1000 + 1 - instant_at w (now st)"
      using later(2) by linarith
    from less [OF this] obtain r st' where ih: "wait_loop w sig secs start ?st = Some (r, st')" "now ?st \<le> now st'"
        "tk_sent st' = tk_sent st" "\<forall>u. r = Inr u \<longrightarrow> confirmed w sig (now ?st) (now st')" by auto
    then have again: "\<exists>r st'. wait_loop w sig secs start ?st = Some (r, st') \<and> now st \<le> now st' \<and> tk_sent st' = tk_sent st \<and>
        (\<forall>u. r = Inr u \<longrightarrow> confirmed w sig (now st) (now st'))"
      using later(1) by (auto intro: confirmed_mono)
    show ?thesis
      using False again confirmed_now [of w "now st" sig]
      by (subst wait_loop.simps) (auto split: sum.splits option.splits)
  qed
qed

lemma tpu_loop_correct:
  assumes "clock_laws w"
  shows "\<exists>r st' m. tpu_loop w key tx start sent_at st = Some (r, st') \<and> now st \<le> now st' \<and>
    tk_sent st' = tk_sent st @ replicate m (TpuSend tx) \<and>
    (r = TpuConfirmed \<longrightarrow> confirmed w (signature_of w tx) (now st) (now st'))"
proof (induction "start + CONFIRMATION_TIMEOUT_SECS * 1000 + 1 - instant_at w (now st)" arbitrary: st sent_at rule: less_induct)
  case less
  define resend where "resend = (TPU_RETRY_INTERVAL_MS < instant_at w (now st) - sent_at)"
  define st1 where "st1 = (if resend then tpu_send w tx st else st)"
  define sent_at' where "sent_at' = (if resend then instant_at w (now st1) else sent_at)"
  let ?st = "sleep_ms w 500 (tick w st1)"
  have st1: "now st \<le> now st1" "tk_sent st1 = tk_sent st @ replicate (if resend then 1 else 0) (TpuSend tx)"
    by (simp_all add: st1_def)
  have later: "now st < now ?st" "instant_at w (now st) + 500 \<le> instant_at w (now ?st)"
    using poll_step [OF assms, of st "Suc (now st1)"] st1(1) by simp_all
  show ?case
  proof (cases "CONFIRMATION_TIMEOUT_SECS * 1000 < instant_at w (now st) - start")
    case True
    then show ?thesis by (intro exI [of _ TpuGaveUp] exI [of _ st] exI [of _ 0]) (simp add: tpu_loop.simps)
  next
    case False
    then have "start + CONFIRMATION_TIMEOUT_SECS * 1000 + 1 - instant_at w (now ?st) <
        start + CONFIRMATION_TIMEOUT_SECS * 1000 + 1 - instant_at w (now st)"
      using later(2) by linarith
    from less [OF this, of sent_at'] obtain r st' m where ih: "tpu_loop w key tx start sent_at' ?st = Some (r, st')" "now ?st \<le> now st'"
        "tk_sent st' = tk_sent st1 @ replicate m (TpuSend tx)"
        "r = TpuConfirmed \<longrightarrow> confirmed w (signature_of w tx) (now ?st) (now st')" by auto
    define goal where "goal = (\<lambda>x :: (tpu_end \<times> task) option. \<exists>r st' m. x = Some (r, st') \<and> now st \<le> now st' \<and>
        tk_sent st' = tk_sent st @ replicate m (TpuSend tx) \<and>
        (r = TpuConfirmed \<longrightarrow> confirmed w (signature_of w tx) (now st) (now st')))"
    have again: "goal (tpu_loop w key tx start sent_at' ?st)"
      unfolding goal_def
      using ih later(1) st1(2) confirmed_mono [of w "signature_of w tx" "now ?st" "now st'" "now st" "now st'"]
      by (intro exI [of _ r] exI [of _ st'] exI [of _ "(if resend then 1 else 0) + m"]) (auto simp: replicate_add)
    have ends: "goal (Some (r, st2))"
      if "now st2 = Suc (now st1)" "tk_sent st2 = tk_sent st1" "r = TpuConfirmed \<longrightarrow> confirmed w (signature_of w tx) (now st1) (now st2)" for r st2
      unfolding goal_def using that st1 by (auto intro: confirmed_mono)
    have "goal (tpu_loop w key tx start sent_at st)"
      unfolding tpu_loop.simps [of w key tx start sent_at st] resend_def [symmetric] st1_def [symmetric] sent_at'_def [symmetric] Let_def
      using False again confirmed_now [of w "now st1" "signature_of w tx"]
      by (auto intro!: ends dest: lb_record_frame split: sum.split option.split)
    then show ?thesis by (simp add: goal_def)
  qed
qed

lemma tpu_phase_correct:
  assumes "clock_laws w"
  shows "\<exists>r st' m. tpu_phase w key tx st = Some (r, st') \<and> now st \<le> now st' \<and> tk_sent st' = tk_sent st @ replicate m (TpuSend tx) \<and>
    (r = TpuConfirmed \<longrightarrow> 0 < m \<and> confirmed w (signature_of w tx) (now st) (now st'))"
proof (cases "tpu_available w")
  case True
  obtain r st' m where "tpu_loop w key tx (instant_at w (now st)) (instant_at w (now st)) (tpu_send w tx st) = Some (r, st')"
      "Suc (now st) \<le> now st'" "tk_sent st' = tk_sent st @ replicate (Suc m) (TpuSend tx)"
      "r = TpuConfirmed \<longrightarrow> confirmed w (signature_of w tx) (Suc (now st)) (now st')"
    using tpu_loop_correct [OF assms, of key tx "instant_at w (now st)" "instant_at w (now st)" "tpu_send w tx st"] by auto
  then show ?thesis
    using True confirmed_mono [of w "signature_of w tx" "Suc (now st)" "now st'" "now st" "now st'"]
    by (intro exI [of _ r] exI [of _ st'] exI [of _ "Suc m"]) (auto simp: tpu_phase_def)
next
  case False
  then show ?thesis by (intro exI [of _ TpuGaveUp] exI [of _ st] exI [of _ 0]) (simp add: tpu_phase_def)
qed

section \<open>What a run sends\<close>

fun sent_tx :: "sent \<Rightarrow> Transaction" where
  "sent_tx (TpuSend tx) = tx"
| "sent_tx (RpcSend tx) = tx"

fun via_rpc :: "sent \<Rightarrow> bool" where
  "via_rpc (TpuSend _) = False"
| "via_rpc (RpcSend _) = True"

definition rpc_sends :: "sent list \<Rightarrow> nat" where
  "rpc_sends new = length (filter via_rpc new)"

lemma rpc_sends_simps [simp]:
  "rpc_sends [] = 0" "rpc_sends (xs @ ys) = rpc_sends xs + rpc_sends ys"
  "rpc_sends (x # xs) = (if via_rpc x then 1 else 0) + rpc_sends xs" "rpc_sends (replicate m (TpuSend tx)) = 0"
  by (simp_all add: rpc_sends_def)

text \<open>
  A stretch of a run: time goes on, what is sent carries the given instructions, over RPC
  at most \<open>n\<close> times, and what counts as submitted was sent and seen confirmed.
\<close>

definition sends :: "world \<Rightarrow> ExecutorLogic \<Rightarrow> Instruction list \<Rightarrow> nat \<Rightarrow> bytes option \<Rightarrow> task \<Rightarrow> task \<Rightarrow> bool" where
  "sends w ex ixs n result st st' \<longleftrightarrow> now st \<le> now st' \<and>
     (\<exists>new. tk_sent st' = tk_sent st @ new \<and> rpc_sends new \<le> n \<and> (\<forall>s\<in>set new. \<exists>h. sent_tx s = transaction ex ixs h) \<and>
        (\<forall>sig. result = Some sig \<longrightarrow>
           (\<exists>s\<in>set new. sig = signature_of w (sent_tx s)) \<and> confirmed w sig (now st) (now st')))"

lemma sends_nothing: "now st \<le> now st' \<Longrightarrow> tk_sent st' = tk_sent st \<Longrightarrow> sends w ex ixs n None st st'"
  by (simp add: sends_def)

lemma sends_trans:
  assumes "sends w ex ixs m None st st1" and "sends w ex ixs n r st1 st2"
  shows "sends w ex ixs (m + n) r st st2"
proof -
  obtain new1 new2 where "tk_sent st1 = tk_sent st @ new1" "rpc_sends new1 \<le> m" "\<forall>s\<in>set new1. \<exists>h. sent_tx s = transaction ex ixs h"
      "tk_sent st2 = tk_sent st1 @ new2" "rpc_sends new2 \<le> n" "\<forall>s\<in>set new2. \<exists>h. sent_tx s = transaction ex ixs h"
      "\<forall>sig. r = Some sig \<longrightarrow> (\<exists>s\<in>set new2. sig = signature_of w (sent_tx s)) \<and> confirmed w sig (now st1) (now st2)"
      "now st \<le> now st1" "now st1 \<le> now st2"
    using assms unfolding sends_def by blast
  then have "tk_sent st2 = tk_sent st @ (new1 @ new2) \<and> rpc_sends (new1 @ new2) \<le> m + n \<and>
      (\<forall>s\<in>set (new1 @ new2). \<exists>h. sent_tx s = transaction ex ixs h) \<and>
      (\<forall>sig. r = Some sig \<longrightarrow> (\<exists>s\<in>set (new1 @ new2). sig = signature_of w (sent_tx s)) \<and> confirmed w sig (now st) (now st2))"
    by (auto intro: confirmed_mono)
  with \<open>now st \<le> now st1\<close> \<open>now st1 \<le> now st2\<close> show ?thesis unfolding sends_def by (meson le_trans)
qed

lemma sends_weaken: "sends w ex ixs m r st st' \<Longrightarrow> m \<le> n \<Longrightarrow> sends w ex ixs n r st st'"
  unfolding sends_def by (meson le_trans)

fun attempt_result :: "attempt_end \<Rightarrow> bytes option" where
  "attempt_result (Return (Submitted sig)) = Some sig"
| "attempt_result _ = None"

lemma sleep_later: "clock_laws w \<Longrightarrow> now st \<le> now (sleep_ms w ms st)"
  by (simp add: clock_laws_def less_imp_le)

lemma recorded_frame:
  assumes "clock_laws w" and "recorded w key ok st (\<lambda>st. (a, f st)) = (r, st')"
    and "\<And>st. now st \<le> now (f st) \<and> tk_sent (f st) = tk_sent st"
  shows "now st \<le> now st' \<and> tk_sent st' = tk_sent st \<and> (r = a \<or> r = Return SubmitPanicked)"
proof (cases "lb_record w key ok st")
  case None
  then show ?thesis using assms(2) by (auto simp: recorded_def)
next
  case (Some st1)
  then show ?thesis using assms(2) assms(3) [of st1] lb_record_frame [OF Some] by (auto simp: recorded_def)
qed

lemma sends_quiet_end:
  assumes "sends w ex ixs n r st st1" and "now st1 \<le> now st2" and "tk_sent st2 = tk_sent st1" and "r' = r \<or> r' = None"
  shows "sends w ex ixs n r' st st2"
proof -
  obtain new where new: "tk_sent st1 = tk_sent st @ new" "rpc_sends new \<le> n" "\<forall>s\<in>set new. \<exists>h. sent_tx s = transaction ex ixs h"
      "\<forall>sig. r = Some sig \<longrightarrow> (\<exists>s\<in>set new. sig = signature_of w (sent_tx s)) \<and> confirmed w sig (now st) (now st1)" "now st \<le> now st1"
    using assms(1) unfolding sends_def by blast
  then have "tk_sent st2 = tk_sent st @ new \<and> rpc_sends new \<le> n \<and> (\<forall>s\<in>set new. \<exists>h. sent_tx s = transaction ex ixs h) \<and>
      (\<forall>sig. r' = Some sig \<longrightarrow> (\<exists>s\<in>set new. sig = signature_of w (sent_tx s)) \<and> confirmed w sig (now st) (now st2))"
    using assms by (auto intro: confirmed_mono)
  with new(5) assms(2) show ?thesis unfolding sends_def by (meson le_trans)
qed

lemma rpc_phase_correct:
  assumes "clock_laws w" and tx: "tx = transaction ex ixs h"
  shows "\<exists>a st'. rpc_phase w key tx attempt st = Some (a, st') \<and> sends w ex ixs 1 (attempt_result a) st st'"
proof -
  obtain q st1 where send: "rpc_send w tx st = (q, st1)" by fastforce
  then have st1: "now st1 = Suc (now st)" "tk_sent st1 = tk_sent st @ [RpcSend tx]"
    using now_simps(4) [of w tx st] sent_simps(4) [of w tx st] by simp_all
  have sent: "sends w ex ixs 1 None st st1" using st1 tx by (auto simp: sends_def)
  show ?thesis
  proof (cases q)
    case (Inl e)
    obtain a st' where a: "recorded w key False st1 (\<lambda>st2. (Retry (''Transaction send failed: '' @ e), sleep_ms w (retry_delay attempt) st2)) = (a, st')"
      by fastforce
    from recorded_frame [OF assms(1) a] sleep_later [OF assms(1)]
    have "now st1 \<le> now st' \<and> tk_sent st' = tk_sent st1 \<and> attempt_result a = None" by auto
    then show ?thesis using send Inl a sends_quiet_end [OF sent, of st' None] by (auto simp: rpc_phase_def)
  next
    case (Inr _)
    obtain c st2 where wait: "wait_for_confirmation w (signature_of w tx) CONFIRMATION_TIMEOUT_SECS st1 = Some (c, st2)"
        "now st1 \<le> now st2" "tk_sent st2 = tk_sent st1" "\<forall>u. c = Inr u \<longrightarrow> confirmed w (signature_of w tx) (now st1) (now st2)"
      using wait_loop_correct [OF assms(1)] unfolding wait_for_confirmation_def by blast
    show ?thesis
    proof (cases c)
      case (Inr u)
      have ok: "sends w ex ixs 1 (Some (signature_of w tx)) st st2"
        using st1 wait Inr tx by (auto simp: sends_def intro: confirmed_mono)
      obtain a st' where a: "recorded w key True st2 (\<lambda>st3. (Return (Submitted (signature_of w tx)), st3)) = (a, st')" by fastforce
      have "now st2 \<le> now st' \<and> tk_sent st' = tk_sent st2 \<and> (a = Return (Submitted (signature_of w tx)) \<or> a = Return SubmitPanicked)"
        by (rule recorded_frame [OF assms(1) a]) simp
      then have "sends w ex ixs 1 (attempt_result a) st st'" by (intro sends_quiet_end [OF ok]) auto
      then show ?thesis using send \<open>q = Inr _\<close> wait(1) Inr a by (auto simp: rpc_phase_def)
    next
      case (Inl e)
      have none: "sends w ex ixs 1 None st st2" by (rule sends_quiet_end [OF sent wait(2,3)]) simp
      define again where "again = (\<lambda>st3. (Retry (''Confirmation failed: '' @ e),
                     if attempt < MAX_ATTEMPTS then sleep_ms w (retry_delay attempt) st3 else st3))"
      obtain a st' where a: "recorded w key False st2 again = (a, st')" by fastforce
      have "now st2 \<le> now st' \<and> tk_sent st' = tk_sent st2 \<and> (a = Retry (''Confirmation failed: '' @ e) \<or> a = Return SubmitPanicked)"
        by (rule recorded_frame [OF assms(1) a [unfolded again_def]]) (simp add: sleep_later [OF assms(1)] del: now_simps)
      then have "sends w ex ixs 1 (attempt_result a) st st'" by (intro sends_quiet_end [OF none]) auto
      moreover have "sends w ex ixs 1 (attempt_result (fst (again st2))) st (snd (again st2))"
        by (rule sends_quiet_end [OF none]) (simp_all add: again_def sleep_later [OF assms(1)] del: now_simps)
      moreover have "rpc_phase w key tx attempt st =
          (if is_trigger_not_ready_error e then Some (again st2)
           else if is_thread_paused_error e then Some (Return (SubmitErr ''Thread is paused'' attempt), st2)
           else Some (recorded w key False st2 again))"
        using send \<open>q = Inr _\<close> wait(1) Inl by (simp add: rpc_phase_def again_def)
      ultimately show ?thesis using none a by (cases "again st2") auto
    qed
  qed
qed

lemma submit_attempt_count:
  "submit_attempt w ex key ixs attempt st = Some (Return (SubmitErr e n), st') \<Longrightarrow> n = attempt"
  by (auto simp: submit_attempt_def rpc_phase_def recorded_def Let_def
      split: if_splits sum.splits option.splits prod.splits tpu_end.splits)

lemma submit_attempt_correct:
  assumes "clock_laws w"
  shows "\<exists>a st'. submit_attempt w ex key ixs attempt st = Some (a, st') \<and> sends w ex ixs 1 (attempt_result a) st st'"
proof (cases "cancelled_at w (now st)")
  case True
  then show ?thesis by (simp add: submit_attempt_def sends_nothing)
next
  case go: False
  show ?thesis
  proof (cases "blockhash_at w (now st)")
    case (Inl e)
    have "now st \<le> now (sleep_ms w (retry_delay attempt) (tick w st))"
      using sleep_later [OF assms, of "tick w st"] by (metis now_simps(1) Suc_leD)
    with go Inl show ?thesis by (simp add: submit_attempt_def sends_nothing del: now_simps)
  next
    case (Inr h)
    define tx where "tx = transaction ex ixs h"
    obtain r st1 m where tpu: "tpu_phase w key tx (tick w st) = Some (r, st1)" "Suc (now st) \<le> now st1"
        "tk_sent st1 = tk_sent st @ replicate m (TpuSend tx)"
        "r = TpuConfirmed \<longrightarrow> 0 < m \<and> confirmed w (signature_of w tx) (Suc (now st)) (now st1)"
      using tpu_phase_correct [OF assms, of key tx "tick w st"] by auto
    have eq: "submit_attempt w ex key ixs attempt st =
        (case r of TpuConfirmed \<Rightarrow> Some (recorded w key True st1 (\<lambda>st2. (Return (Submitted (signature_of w tx)), st2)))
         | TpuFailed e \<Rightarrow> Some (Return (SubmitErr e attempt), st1) | TpuPanicked \<Rightarrow> Some (Return SubmitPanicked, st1)
         | TpuGaveUp \<Rightarrow> rpc_phase w key tx attempt st1)"
      using go Inr tpu(1) by (simp add: submit_attempt_def tx_def [symmetric] split: tpu_end.split)
    have sent: "sends w ex ixs 0 None st st1" using tpu(2,3) by (auto simp: sends_def tx_def)
    show ?thesis
    proof (cases r)
      case TpuConfirmed
      then have ok: "sends w ex ixs 1 (Some (signature_of w tx)) st st1"
        using tpu by (auto simp: sends_def tx_def intro: confirmed_mono)
      obtain a st' where a: "recorded w key True st1 (\<lambda>st2. (Return (Submitted (signature_of w tx)), st2)) = (a, st')" by fastforce
      have "now st1 \<le> now st' \<and> tk_sent st' = tk_sent st1 \<and> (a = Return (Submitted (signature_of w tx)) \<or> a = Return SubmitPanicked)"
        by (rule recorded_frame [OF assms a]) simp
      then have "sends w ex ixs 1 (attempt_result a) st st'" by (intro sends_quiet_end [OF ok]) auto
      then show ?thesis using eq TpuConfirmed a by simp
    next
      case TpuGaveUp
      obtain a st' where "rpc_phase w key tx attempt st1 = Some (a, st')" "sends w ex ixs 1 (attempt_result a) st1 st'"
        using rpc_phase_correct [OF assms tx_def] by blast
      then show ?thesis using eq TpuGaveUp sends_trans [OF sent] by fastforce
    qed (use eq sends_weaken [OF sent] in auto)
  qed
qed

fun submitted :: "submit_result \<Rightarrow> bytes option" where
  "submitted (Submitted sig) = Some sig"
| "submitted _ = None"

lemma submit_loop_correct:
  assumes "clock_laws w" and "attempt \<le> MAX_ATTEMPTS"
  shows "\<exists>r st'. submit_loop w ex key ixs attempt e st = Some (r, st') \<and> sends w ex ixs (MAX_ATTEMPTS - attempt) (submitted r) st st' \<and>
    (\<forall>e' n. r = SubmitErr e' n \<longrightarrow> n \<le> MAX_ATTEMPTS)"
  using assms(2)
proof (induction "MAX_ATTEMPTS - attempt" arbitrary: attempt e st)
  case 0
  then show ?case by (simp add: submit_loop.simps sends_nothing)
next
  case (Suc k)
  then have less: "attempt < MAX_ATTEMPTS" by simp
  obtain a st1 where a: "submit_attempt w ex key ixs (attempt + 1) st = Some (a, st1)" "sends w ex ixs 1 (attempt_result a) st st1"
    using submit_attempt_correct [OF assms(1)] by blast
  show ?case
  proof (cases a)
    case (Retry e1)
    have k: "k = MAX_ATTEMPTS - (attempt + 1)" "attempt + 1 \<le> MAX_ATTEMPTS" using Suc.hyps(2) less by linarith+
    obtain r st' where ih: "submit_loop w ex key ixs (attempt + 1) e1 st1 = Some (r, st')" "sends w ex ixs (MAX_ATTEMPTS - (attempt + 1)) (submitted r) st1 st'"
        "\<forall>e' n. r = SubmitErr e' n \<longrightarrow> n \<le> MAX_ATTEMPTS"
      using Suc.hyps(1) [OF k] by blast
    have "sends w ex ixs (MAX_ATTEMPTS - attempt) (submitted r) st st'"
      using sends_trans [OF _ ih(2), of 1 st] a(2) Retry less by (simp add: Suc_diff_Suc)
    then show ?thesis
      using a less Retry ih by (subst submit_loop.simps) auto
  next
    case (Return r)
    have n: "\<forall>e' n. r = SubmitErr e' n \<longrightarrow> n \<le> MAX_ATTEMPTS"
      using submit_attempt_count a(1) less unfolding Return by fastforce
    have "attempt_result a = submitted r" using Return by (cases r) simp_all
    then show ?thesis
      using a less Return n sends_weaken [of w ex ixs 1 "submitted r" st st1 "MAX_ATTEMPTS - attempt"]
      by (subst submit_loop.simps) auto
  qed
qed

section \<open>A whole run\<close>

definition progressed :: "world \<Rightarrow> nat \<Rightarrow> bool \<Rightarrow> task \<Rightarrow> task \<Rightarrow> bool" where
  "progressed w n ok st st' \<longleftrightarrow> now st \<le> now st' \<and>
     (\<exists>new. tk_sent st' = tk_sent st @ new \<and> rpc_sends new \<le> n \<and>
        (ok \<longrightarrow> (\<exists>s\<in>set new. confirmed w (signature_of w (sent_tx s)) (now st) (now st'))))"

lemma progressed_trans:
  assumes "progressed w m a st st1" and "progressed w n b st1 st2"
  shows "progressed w (m + n) (a \<or> b) st st2"
proof -
  obtain new1 new2 where new: "tk_sent st1 = tk_sent st @ new1" "rpc_sends new1 \<le> m" "tk_sent st2 = tk_sent st1 @ new2" "rpc_sends new2 \<le> n"
      "a \<longrightarrow> (\<exists>s\<in>set new1. confirmed w (signature_of w (sent_tx s)) (now st) (now st1))"
      "b \<longrightarrow> (\<exists>s\<in>set new2. confirmed w (signature_of w (sent_tx s)) (now st1) (now st2))" "now st \<le> now st1" "now st1 \<le> now st2"
    using assms unfolding progressed_def by blast
  then have "a \<or> b \<longrightarrow> (\<exists>s\<in>set (new1 @ new2). confirmed w (signature_of w (sent_tx s)) (now st) (now st2))"
    by (auto intro: confirmed_mono)
  moreover have "tk_sent st2 = tk_sent st @ (new1 @ new2)" "rpc_sends (new1 @ new2) \<le> m + n" using new by simp_all
  ultimately show ?thesis using new(7,8) unfolding progressed_def by (meson le_trans)
qed

lemma progressed_weaken: "progressed w m a st st' \<Longrightarrow> m \<le> n \<Longrightarrow> (b \<Longrightarrow> a) \<Longrightarrow> progressed w n b st st'"
  unfolding progressed_def by (meson le_trans)

lemma progressed_quiet: "now st \<le> now st' \<Longrightarrow> tk_sent st' = tk_sent st \<Longrightarrow> progressed w 0 False st st'"
  by (simp add: progressed_def)

lemma trigger_loop_correct:
  assumes "clock_laws w"
  shows "\<exists>r st'. trigger_loop w ex key thread cursor deadline st = Some (r, st') \<and> now st \<le> now st' \<and> tk_sent st' = tk_sent st"
proof (induction "deadline + 1 - instant_at w (now st)" arbitrary: st rule: less_induct)
  case less
  obtain r st1 where b: "build_execute_transaction w ex key thread cursor st = (r, st1)" by fastforce
  then have st1: "now st \<le> now st1" "tk_sent st1 = tk_sent st"
    using quietD [OF quiet_build_execute_transaction] by blast+
  have later: "now st < now (sleep_ms w 500 st1)" "instant_at w (now st) + 500 \<le> instant_at w (now (sleep_ms w 500 st1))"
    using poll_step [OF assms st1(1)] by simp_all
  show ?case
  proof (cases "deadline < instant_at w (now st)")
    case True
    then show ?thesis by (auto simp: trigger_loop.simps)
  next
    case False
    then have "deadline + 1 - instant_at w (now (sleep_ms w 500 st1)) < deadline + 1 - instant_at w (now st)" using later by linarith
    from less [OF this] obtain r' st' where "trigger_loop w ex key thread cursor deadline (sleep_ms w 500 st1) = Some (r', st')"
        "now st \<le> now st'" "tk_sent st' = tk_sent st"
      using later(1) st1(2) by fastforce
    then show ?thesis using False b st1 by (subst trigger_loop.simps) (auto split: sum.split exec_error.split)
  qed
qed

lemma build_batch_correct:
  assumes "clock_laws w"
  shows "\<exists>r st'. build_batch w ex key thread n cursor st = Some (r, st') \<and> now st \<le> now st' \<and> tk_sent st' = tk_sent st"
proof (cases "n = 1")
  case True
  then show ?thesis using trigger_loop_correct [OF assms] by (simp add: build_batch_def)
next
  case False
  obtain r st' where b: "build_execute_transaction w ex key thread cursor st = (r, st')" by fastforce
  with quietD [OF quiet_build_execute_transaction b] False show ?thesis
    by (auto simp: build_batch_def split: sum.split exec_error.split)
qed

text \<open>A result that claims an execution, as opposed to a failure or an empty fiber.\<close>

fun claims :: "ExecutionResult option \<Rightarrow> bool" where
  "claims None = False"
| "claims (Some r) = (er_success r \<and> \<not> er_skipped r)"

lemma claims_simps [simp]:
  "claims (Some (result_success key))" "\<not> claims (Some (result_failed key e n))" "\<not> claims (Some (result_skipped key))"
  "\<not> claims (failed_with key p err)"
  by (simp_all add: result_success_def result_failed_def result_skipped_def failed_with_def split: exec_error.split)

declare claims.simps(2) [simp del]

fun batch_confirmed :: "batch_end \<Rightarrow> bool" where
  "batch_confirmed (Finished r) = claims r"
| "batch_confirmed (Continue _ _ _) = True"

lemma submit_batch_correct:
  assumes "clock_laws w"
  shows "\<exists>e st'. submit_batch w ex key n fee b st = Some (e, st') \<and> progressed w MAX_ATTEMPTS (batch_confirmed e) st st'"
proof -
  obtain ixs f cont nxt where b: "b = (ixs, f, cont, nxt)" by (cases b) auto
  show ?thesis
  proof (cases "ixs = []")
    case True
    then show ?thesis using b by (auto simp: submit_batch_def Let_def progressed_def)
  next
    case ne: False
    obtain r st1 where est: "estimate_compute_units w ex key ixs st = (r, st1)" by fastforce
    then have st1: "progressed w 0 False st st1" using quietD [OF quiet_estimate_compute_units est] by (simp add: progressed_quiet)
    show ?thesis
    proof (cases r)
      case (Inl e)
      then show ?thesis using b ne est progressed_weaken [OF st1] by (auto simp: submit_batch_def Let_def)
    next
      case (Inr cu)
      let ?ixs = "with_compute_budget w cu (max fee f) ixs"
      obtain q st2 where sub: "submit_and_confirm_batch w ex key ?ixs st1 = Some (q, st2)" "sends w ex ?ixs MAX_ATTEMPTS (submitted q) st1 st2"
        using submit_loop_correct [OF assms, of 0] unfolding submit_and_confirm_batch_def by fastforce
      have "progressed w MAX_ATTEMPTS (submitted q \<noteq> None) st1 st2" using sub(2) unfolding sends_def progressed_def by blast
      from progressed_trans [OF st1 this] have st2: "progressed w MAX_ATTEMPTS (submitted q \<noteq> None) st st2" by simp
      obtain t st3 where fetch: "fetch_thread w key st2 = (t, st3)" by fastforce
      have "progressed w 0 False st2 st3" using quietD [OF quiet_fetch_thread fetch] by (simp add: progressed_quiet)
      from progressed_trans [OF st2 this] have st3: "progressed w MAX_ATTEMPTS (submitted q \<noteq> None) st st3" by simp
      show ?thesis
        using b ne est Inr sub(1) st2 st3 fetch progressed_weaken [OF st2 order_refl, of False] progressed_weaken [OF st3 order_refl, of False]
        by (cases q; cases t) (auto simp: submit_batch_def Let_def)
    qed
  qed
qed

lemma batch_loop_correct:
  assumes "clock_laws w"
  shows "\<exists>r st'. batch_loop w ex key thread n fee cursor st = Some (r, st') \<and>
    progressed w ((MAX_CONTINUATION_BATCHES - n) * MAX_ATTEMPTS) (n < MAX_CONTINUATION_BATCHES \<and> claims r) st st'"
proof (induction "MAX_CONTINUATION_BATCHES - n" arbitrary: thread n fee cursor st)
  case 0
  then show ?case by (simp add: batch_loop.simps progressed_def)
next
  case (Suc k)
  then have less: "n < MAX_CONTINUATION_BATCHES" and k: "k = MAX_CONTINUATION_BATCHES - (n + 1)" by linarith+
  have split: "MAX_ATTEMPTS + (MAX_CONTINUATION_BATCHES - (n + 1)) * MAX_ATTEMPTS = (MAX_CONTINUATION_BATCHES - n) * MAX_ATTEMPTS"
    using less by (metis Suc_diff_Suc add.commute mult_Suc Suc_eq_plus1)
  obtain r st1 where b: "build_batch w ex key thread (n + 1) cursor st = Some (r, st1)" and st1: "progressed w 0 False st st1"
    using build_batch_correct [OF assms] progressed_quiet by metis
  show ?case
  proof (cases r)
    case (Inl e)
    then show ?thesis using b less progressed_weaken [OF st1] by (subst batch_loop.simps) auto
  next
    case (Inr bt)
    obtain e st2 where e: "submit_batch w ex key (n + 1) fee bt st1 = Some (e, st2)" "progressed w MAX_ATTEMPTS (batch_confirmed e) st1 st2"
      using submit_batch_correct [OF assms] by blast
    from progressed_trans [OF st1 e(2)] have st2: "progressed w MAX_ATTEMPTS (batch_confirmed e) st st2" by simp
    show ?thesis
    proof (cases e)
      case (Finished res)
      have "progressed w ((MAX_CONTINUATION_BATCHES - n) * MAX_ATTEMPTS) (claims res) st st2"
        by (rule progressed_weaken [OF st2]) (use Finished less in auto)
      then show ?thesis using b less Inr e(1) Finished by (subst batch_loop.simps) auto
    next
      case (Continue thread' cursor' fee')
      obtain res st' where ih: "batch_loop w ex key thread' (n + 1) fee' cursor' st2 = Some (res, st')"
          "progressed w ((MAX_CONTINUATION_BATCHES - (n + 1)) * MAX_ATTEMPTS) (n + 1 < MAX_CONTINUATION_BATCHES \<and> claims res) st2 st'"
        using Suc.hyps(1) [OF k] by blast
      have "progressed w ((MAX_CONTINUATION_BATCHES - n) * MAX_ATTEMPTS) (claims res) st st'"
        by (rule progressed_weaken [OF progressed_trans [OF st2 ih(2)]]) (use Continue split in auto)
      then show ?thesis using b less Inr e(1) Continue ih(1) by (subst batch_loop.simps) auto
    qed
  qed
qed

text \<open>
  A run always comes to an end, sends at most 100 transactions over RPC, and reports an
  execution only after the node has confirmed a transaction of this run.
\<close>

lemma execute_thread_correct:
  assumes "clock_laws w"
  shows "\<exists>r st'. execute_thread w ex key thread od secs st = Some (r, st') \<and> progressed w 100 (claims r) st st'"
proof -
  have loop: "\<exists>r st'. batch_loop w ex key thread 0 0 None st1 = Some (r, st') \<and> progressed w 100 (claims r) st st'"
    if "now st \<le> now st1" "tk_sent st1 = tk_sent st" for st1
  proof -
    obtain r st' where r: "batch_loop w ex key thread 0 0 None st1 = Some (r, st')" "progressed w 100 (claims r) st1 st'"
      using batch_loop_correct [OF assms, of ex key thread 0 0 None st1]
      by (auto simp: MAX_CONTINUATION_BATCHES_def MAX_ATTEMPTS_def)
    with progressed_trans [OF progressed_quiet [OF that] r(2)] show ?thesis by auto
  qed
  have stop: "progressed w 100 False st st1" if "now st \<le> now st1" "tk_sent st1 = tk_sent st" for st1
    using progressed_weaken [OF progressed_quiet [OF that]] by simp
  have delay: "now st \<le> now (snd (claim_delay w key le st1)) \<and> tk_sent (snd (claim_delay w key le st1)) = tk_sent st"
    if "now st1 = now st" "tk_sent st1 = tk_sent st" for le st1
    using that sleep_later [OF assms, of st1] by (auto simp: claim_delay_def Let_def)
  show ?thesis
  proof (cases "current_last_executor w key thread (tk_cache st)")
    case (Inl e)
    then show ?thesis using stop [of st] by (auto simp: execute_thread_def)
  next
    case (Inr le)
    show ?thesis
    proof (cases "should_process key le od secs (tk_lb st)")
      case None
      then show ?thesis using Inr stop [of st] by (auto simp: execute_thread_def)
    next
      case (Some p)
      obtain d lb where p: "p = (d, lb)" by fastforce
      obtain go st1 where c: "claim_delay w key le (st\<lparr>tk_lb := lb\<rparr>) = (go, st1)" by fastforce
      have "now st \<le> now st1 \<and> tk_sent st1 = tk_sent st" using delay [of "st\<lparr>tk_lb := lb\<rparr>" le] c by simp
      then show ?thesis
        using Inr Some p c stop [of st] stop [of st1] stop [of "st\<lparr>tk_lb := lb\<rparr>"] loop [of st1]
        by (cases d; cases go) (auto simp: execute_thread_def)
    qed
  qed
qed

end
