(* ===== verification/Processor.thy ===== *)
theory Processor
  imports Worker
begin

text \<open>
  \<open>crates/client/src/actors/processor.rs\<close>: the queue of ready threads and the workers that
  run them. A handler gives what the actor returns (an error stops the actor), its new
  state and the messages it sends. The workers are known by the key of their thread;
  spawning may fail for a reason of the actor library. The semaphore behind
  \<open>available_permits\<close> is never closed, so waiting for it only delays a spawn.
\<close>

section \<open>Data\<close>

record ProcessorState =
  pending_queue :: "ReadyThread list"
  active_workers :: "pubkey set"
  available_permits :: nat
  pr_cache :: cache

record processor_env =
  pc_env :: client_env
  staging_alive :: bool
  spawn_worker :: "pubkey \<Rightarrow> string + unit"

datatype ProcessorMessage =
    PM_ProcessReady ReadyThread
  | PM_CancelThread pubkey
  | PM_WorkerCompleted ExecutionResult
  | PM_QueryStatus
  | PM_Shutdown

record ProcessorStatus =
  pending_queue_size :: nat
  status_active_workers :: nat
  status_available_permits :: nat

datatype processor_out =
    SpawnWorker ReadyThread Thread
  | CancelWorker pubkey
  | StopWorker pubkey
  | ThreadCompleted pubkey CompletionReason
  | Status ProcessorStatus

definition processor_start :: "nat \<Rightarrow> cache \<Rightarrow> ProcessorState" where
  "processor_start max_concurrent_threads c =
     \<lparr>pending_queue = [], active_workers = {}, available_permits = max_concurrent_threads, pr_cache = c\<rparr>"

section \<open>Operations\<close>

definition thread_for_worker :: "client_env \<Rightarrow> pubkey \<Rightarrow> cache \<Rightarrow> Thread option \<times> cache" where
  "thread_for_worker env key c =
     (case c key of
        Some cached \<Rightarrow> (try_deserialize_thread env (ca_data cached), c)
      | None \<Rightarrow> get_thread_or_fetch env key c)"

definition notify_done :: "processor_env \<Rightarrow> pubkey \<Rightarrow> processor_out list" where
  "notify_done env key = (if staging_alive env then [ThreadCompleted key Executed] else [])"

definition try_spawn_next_worker :: "processor_env \<Rightarrow> ProcessorState \<Rightarrow> (string + unit) \<times> ProcessorState \<times> processor_out list" where
  "try_spawn_next_worker env st =
     (if available_permits st = 0 then (Inr (), st, [])
      else case pending_queue st of
        [] \<Rightarrow> (Inr (), st, [])
      | ready # q \<Rightarrow>
          if rt_pubkey ready \<in> active_workers st then (Inr (), st\<lparr>pending_queue := q @ [ready]\<rparr>, [])
          else
            (case thread_for_worker (pc_env env) (rt_pubkey ready) (pr_cache st) of (found, c) \<Rightarrow>
             let st1 = st\<lparr>pending_queue := q, pr_cache := c\<rparr> in
             (case found of
                None \<Rightarrow> (Inr (), st1, notify_done env (rt_pubkey ready))
              | Some thread \<Rightarrow>
                  if th_exec_count thread \<noteq> rt_exec_count ready then (Inr (), st1, notify_done env (rt_pubkey ready))
                  else
                    let st2 = st1\<lparr>available_permits := available_permits st1 - 1\<rparr> in
                    (case spawn_worker env (rt_pubkey ready) of
                       Inl e \<Rightarrow> (Inl (''Failed to spawn worker: '' @ e), st2, [])
                     | Inr _ \<Rightarrow> (Inr (), st2\<lparr>active_workers := insert (rt_pubkey ready) (active_workers st2)\<rparr>,
                                 [SpawnWorker ready thread])))))"

definition is_lb_skip :: "ExecutionResult \<Rightarrow> bool" where
  "is_lb_skip result = (case er_error result of Some e \<Rightarrow> str_contains e ''load balancer'' \<or> str_contains e ''At capacity'' | None \<Rightarrow> False)"

definition handle_execution_result :: "processor_env \<Rightarrow> ExecutionResult \<Rightarrow> (string + unit) \<times> processor_out list" where
  "handle_execution_result env result =
     (if staging_alive env
      then (Inr (), [ThreadCompleted (er_pubkey result) (if is_lb_skip result then Skipped else Executed)])
      else (Inl ''Failed to notify staging of completion'', []))"

fun handle_processor :: "processor_env \<Rightarrow> ProcessorMessage \<Rightarrow> ProcessorState \<Rightarrow> (string + unit) \<times> ProcessorState \<times> processor_out list" where
  "handle_processor env (PM_ProcessReady ready) st =
     try_spawn_next_worker env (st\<lparr>pending_queue := pending_queue st @ [ready]\<rparr>)"
| "handle_processor env (PM_CancelThread key) st =
     (Inr (), st\<lparr>pending_queue := filter (\<lambda>t. rt_pubkey t \<noteq> key) (pending_queue st)\<rparr>,
      if key \<in> active_workers st then [CancelWorker key] else [])"
| "handle_processor env (PM_WorkerCompleted result) st =
     (let key = er_pubkey result;
          stops = (if key \<in> active_workers st then [StopWorker key] else []);
          st1 = st\<lparr>active_workers := active_workers st - {key}, available_permits := available_permits st + 1\<rparr> in
      case handle_execution_result env result of
        (Inl e, out) \<Rightarrow> (Inl e, st1, stops @ out)
      | (Inr _, out) \<Rightarrow>
          (case try_spawn_next_worker env st1 of (r, st2, out2) \<Rightarrow> (r, st2, stops @ out @ out2)))"
| "handle_processor env PM_QueryStatus st =
     (Inr (), st, [Status \<lparr>pending_queue_size = length (pending_queue st), status_active_workers = card (active_workers st),
        status_available_permits = available_permits st\<rparr>])"
| "handle_processor env PM_Shutdown st = (Inl ''Shutdown signal received'', st, [])"

section \<open>Permits\<close>

text \<open>
  A step of the running actor. A worker reports once, while it is active; every other
  message may come at any time.
\<close>

inductive processor_step :: "processor_env \<Rightarrow> ProcessorState \<Rightarrow> ProcessorState \<Rightarrow> bool" for env :: processor_env where
  "handle_processor env msg st = (Inr (), st', out) \<Longrightarrow>
   (\<And>result. msg = PM_WorkerCompleted result \<Longrightarrow> er_pubkey result \<in> active_workers st) \<Longrightarrow> processor_step env st st'"

definition permits_inv :: "nat \<Rightarrow> ProcessorState \<Rightarrow> bool" where
  "permits_inv max_concurrent st \<longleftrightarrow> finite (active_workers st) \<and> available_permits st + card (active_workers st) = max_concurrent"

text \<open>What a successful spawn attempt does.\<close>

lemma try_spawn_cases:
  assumes "try_spawn_next_worker env st = (Inr (), st', out)"
  obtains (idle) "st' = st" "out = []" "available_permits st = 0 \<or> pending_queue st = []"
  | (busy) ready q where "pending_queue st = ready # q" "rt_pubkey ready \<in> active_workers st"
      "st' = st\<lparr>pending_queue := q @ [ready]\<rparr>" "out = []"
  | (stale) ready q c where "pending_queue st = ready # q" "rt_pubkey ready \<notin> active_workers st" "0 < available_permits st"
      "st' = st\<lparr>pending_queue := q, pr_cache := c\<rparr>" "out = notify_done env (rt_pubkey ready)"
  | (spawn) ready q c thread where "pending_queue st = ready # q" "rt_pubkey ready \<notin> active_workers st" "0 < available_permits st"
      "st' = st\<lparr>pending_queue := q, pr_cache := c, available_permits := available_permits st - 1,
         active_workers := insert (rt_pubkey ready) (active_workers st)\<rparr>"
      "out = [SpawnWorker ready thread]" "th_exec_count thread = rt_exec_count ready"
proof (cases "available_permits st = 0 \<or> pending_queue st = []")
  case True
  then show thesis using assms by (intro idle) (auto simp: try_spawn_next_worker_def split: if_splits)
next
  case False
  then obtain ready q where q: "pending_queue st = ready # q" by (cases "pending_queue st") auto
  show thesis
  proof (cases "rt_pubkey ready \<in> active_workers st")
    case True
    then show thesis using assms busy q False by (auto simp: try_spawn_next_worker_def)
  next
    case free: False
    obtain found c where t: "thread_for_worker (pc_env env) (rt_pubkey ready) (pr_cache st) = (found, c)" by fastforce
    note run = assms [unfolded try_spawn_next_worker_def q list.case t prod.case Let_def]
    show thesis
    proof (cases "\<exists>thread. found = Some thread \<and> th_exec_count thread = rt_exec_count ready")
      case True
      then obtain thread where th: "found = Some thread" "th_exec_count thread = rt_exec_count ready" by blast
      then show thesis
        using run False free q by (intro spawn [of ready q c thread]) (auto split: sum.splits)
    next
      case F: False
      then show thesis
        using run False free q by (intro stale [of ready q c]) (auto split: option.splits if_splits)
    qed
  qed
qed

lemma try_spawn_permits:
  assumes "try_spawn_next_worker env st = (Inr (), st', out)" and "permits_inv n st"
  shows "permits_inv n st'"
  using assms(1) by (cases rule: try_spawn_cases) (use assms(2) in \<open>auto simp: permits_inv_def\<close>)

interpretation processor: invariant_system "\<lambda>st. \<exists>c. st = processor_start n c" "processor_step env" "permits_inv n" for n env
proof
  show "\<exists>c. st = processor_start n c \<Longrightarrow> permits_inv n st" for st
    by (auto simp: processor_start_def permits_inv_def)
  show "permits_inv n st'" if inv: "permits_inv n st" and step: "processor_step env st st'" for st st'
    using step
  proof (cases rule: processor_step.cases)
    case (1 msg out)
    show ?thesis
    proof (cases msg)
      case (PM_ProcessReady ready)
      then have "try_spawn_next_worker env (st\<lparr>pending_queue := pending_queue st @ [ready]\<rparr>) = (Inr (), st', out)" using 1(1) by simp
      moreover have "permits_inv n (st\<lparr>pending_queue := pending_queue st @ [ready]\<rparr>)" using inv by (simp add: permits_inv_def)
      ultimately show ?thesis by (rule try_spawn_permits)
    next
      case (PM_CancelThread key)
      then show ?thesis using 1 inv by (auto simp: permits_inv_def)
    next
      case (PM_WorkerCompleted result)
      let ?st = "st\<lparr>active_workers := active_workers st - {er_pubkey result}, available_permits := available_permits st + 1\<rparr>"
      have "er_pubkey result \<in> active_workers st" using 1(2) PM_WorkerCompleted .
      then have "permits_inv n ?st" using inv card_Suc_Diff1 [of "active_workers st"] by (fastforce simp: permits_inv_def)
      moreover obtain out2 where "try_spawn_next_worker env ?st = (Inr (), st', out2)"
        using 1(1) PM_WorkerCompleted by (auto simp: Let_def split: prod.splits sum.splits)
      ultimately show ?thesis using try_spawn_permits by blast
    qed (use 1 inv in auto)
  qed
qed

section \<open>The queue\<close>

text \<open>The entries the actor hands on: to a worker, or back to the staging actor.\<close>

fun handed_on :: "processor_out list \<Rightarrow> pubkey list" where
  "handed_on [] = []"
| "handed_on (SpawnWorker r _ # out) = rt_pubkey r # handed_on out"
| "handed_on (ThreadCompleted k _ # out) = k # handed_on out"
| "handed_on (_ # out) = handed_on out"

lemma try_spawn_conserves:
  assumes "try_spawn_next_worker env st = (Inr (), st', out)" and "staging_alive env"
  shows "mset (map rt_pubkey (pending_queue st)) = mset (map rt_pubkey (pending_queue st')) + mset (handed_on out)"
  using assms(1) by (cases rule: try_spawn_cases) (use assms(2) in \<open>auto simp: notify_done_def\<close>)

lemma handle_ready_conserves:
  assumes "handle_processor env (PM_ProcessReady ready) st = (Inr (), st', out)" and "staging_alive env"
  shows "add_mset (rt_pubkey ready) (mset (map rt_pubkey (pending_queue st))) =
    mset (map rt_pubkey (pending_queue st')) + mset (handed_on out)"
  using try_spawn_conserves [of env "st\<lparr>pending_queue := pending_queue st @ [ready]\<rparr>" st' out] assms by simp

text \<open>One attempt looks at one entry only: behind an entry that is stale, the queue waits.\<close>

lemma stale_head_stalls:
  assumes "pending_queue st = stale # q" and "active_workers st = {er_pubkey result}" and "rt_pubkey stale \<noteq> er_pubkey result"
    and "pr_cache st (rt_pubkey stale) = Some cached" and "try_deserialize_thread (pc_env env) (ca_data cached) = Some thread"
    and "th_exec_count thread \<noteq> rt_exec_count stale" and "staging_alive env"
  shows "\<exists>out. handle_processor env (PM_WorkerCompleted result) st =
      (Inr (), st\<lparr>pending_queue := q, active_workers := {}, available_permits := available_permits st + 1\<rparr>, out) \<and>
    (\<forall>r t. SpawnWorker r t \<notin> set out)"
  using assms
  by (simp add: Let_def handle_execution_result_def try_spawn_next_worker_def thread_for_worker_def notify_done_def)

end
