(* ===== verification/Client_Config.thy ===== *)
theory Client_Config
  imports Rpc_Pool Processor
begin

text \<open>
  \<open>crates/client/src/config.rs\<close>, the conversion of its endpoints in \<open>rpc/config.rs\<close> and
  \<open>SharedResources::new\<close> of \<open>resources/mod.rs\<close>: the configuration of a client, its
  validation and what is built from it at start. Reading and writing the TOML file is left
  out. The two Rust enums \<open>EndpointRole\<close> have the same variants and are one type here.
  Whether the TPU client can be set up is a parameter.
\<close>

section \<open>Data\<close>

record ExecutorConfig =
  keypair_path :: string
  forgo_commission :: bool

definition ExecutorConfig_default :: ExecutorConfig where
  "ExecutorConfig_default = \<lparr>keypair_path = ''~/.antegen/executor-keypair.json'', forgo_commission = False\<rparr>"

record RpcEndpoint =
  re_url :: string
  re_ws_url :: "string option"
  re_role :: EndpointRole
  re_priority :: u8

record DatasourceConfig =
  commitment :: string
  dc_program_id :: pubkey

record LoadBalancerConfigFile =
  lf_grace_period :: u64
  lf_eviction_buffer :: u64
  lf_thread_process_delay :: u64

definition LoadBalancerConfigFile_default :: LoadBalancerConfigFile where
  "LoadBalancerConfigFile_default = \<lparr>lf_grace_period = 10, lf_eviction_buffer = 20, lf_thread_process_delay = 0\<rparr>"

record ObservabilityConfig =
  ob_enabled :: bool
  storage_path :: string

definition ObservabilityConfig_default :: ObservabilityConfig where
  "ObservabilityConfig_default = \<lparr>ob_enabled = True, storage_path = ''~/.antegen/observability''\<rparr>"

record TpuConfig =
  tpu_enabled :: bool
  num_connections :: nat
  leaders_fanout :: nat
  worker_channel_size :: nat

definition TpuConfig_default :: TpuConfig where
  "TpuConfig_default = \<lparr>tpu_enabled = True, num_connections = 4, leaders_fanout = 4, worker_channel_size = 256\<rparr>"

text \<open>The sections of the file with one field (\<open>rpc\<close>, \<open>processor\<close>, \<open>cache\<close>) are that field.\<close>

record ClientConfig =
  cc_executor :: ExecutorConfig
  rpc_endpoints :: "RpcEndpoint list"
  datasources :: DatasourceConfig
  max_concurrent_threads :: nat
  max_capacity :: u64
  cc_load_balancer :: LoadBalancerConfigFile
  observability :: ObservabilityConfig
  tpu :: TpuConfig

definition ClientConfig_default :: "pubkey \<Rightarrow> ClientConfig" where
  "ClientConfig_default pid = \<lparr>cc_executor = ExecutorConfig_default,
     rpc_endpoints = [\<lparr>re_url = ''http://localhost:8899'', re_ws_url = None, re_role = Both, re_priority = 1\<rparr>],
     datasources = \<lparr>commitment = ''confirmed'', dc_program_id = pid\<rparr>,
     max_concurrent_threads = 10, max_capacity = 10000, cc_load_balancer = LoadBalancerConfigFile_default,
     observability = ObservabilityConfig_default, tpu = TpuConfig_default\<rparr>"

section \<open>WebSocket URLs\<close>

definition starts_with :: "string \<Rightarrow> string \<Rightarrow> bool" where
  "starts_with s pat \<longleftrightarrow> take (length pat) s = pat"

text \<open>\<open>str::trim_start_matches\<close> with a pattern that is not empty.\<close>

function trim_start_matches :: "string \<Rightarrow> string \<Rightarrow> string" where
  "trim_start_matches s pat =
     (if pat \<noteq> [] \<and> starts_with s pat then trim_start_matches (drop (length pat) s) pat else s)"
  by pat_completeness auto
termination
proof (relation "measure (\<lambda>(s, pat). length s)", goal_cases)
  case (2 s pat)
  then have "length pat \<le> length s" by (metis length_take min.cobounded1 min.commute starts_with_def)
  with 2 show ?case by (cases pat) auto
qed simp

declare trim_start_matches.simps [simp del]

definition get_ws_url :: "RpcEndpoint \<Rightarrow> string" where
  "get_ws_url endpoint =
     (case re_ws_url endpoint of
        Some u \<Rightarrow> u
      | None \<Rightarrow>
          if starts_with (re_url endpoint) ''https://'' then str_replace ''https://'' ''wss://'' (re_url endpoint)
          else if starts_with (re_url endpoint) ''http://'' then str_replace ''http://'' ''ws://'' (re_url endpoint)
          else ''wss://'' @ trim_start_matches (re_url endpoint) ''//'')"

section \<open>Validation\<close>

datatype config_error =
    EmptyKeypairPath
  | NoEndpoints
  | NoDatasourceEndpoint
  | NoSubmissionEndpoint
  | EmptyEndpointUrl
  | BadEndpointUrl string
  | InvalidCommitment string
  | NoConcurrency

fun validate_urls :: "RpcEndpoint list \<Rightarrow> config_error + unit" where
  "validate_urls [] = Inr ()"
| "validate_urls (e # es) =
     (if re_url e = [] then Inl EmptyEndpointUrl
      else if \<not> starts_with (re_url e) ''http://'' \<and> \<not> starts_with (re_url e) ''https://'' then Inl (BadEndpointUrl (re_url e))
      else validate_urls es)"

definition validate :: "ClientConfig \<Rightarrow> config_error + unit" where
  "validate config =
     (if keypair_path (cc_executor config) = [] then Inl EmptyKeypairPath
      else if rpc_endpoints config = [] then Inl NoEndpoints
      else if \<not> (\<exists>e\<in>set (rpc_endpoints config). re_role e = Datasource \<or> re_role e = Both) then Inl NoDatasourceEndpoint
      else if \<not> (\<exists>e\<in>set (rpc_endpoints config). re_role e = Submission \<or> re_role e = Both) then Inl NoSubmissionEndpoint
      else case validate_urls (rpc_endpoints config) of
        Inl err \<Rightarrow> Inl err
      | Inr _ \<Rightarrow>
          if commitment (datasources config) \<notin> {''processed'', ''confirmed'', ''finalized''}
            then Inl (InvalidCommitment (commitment (datasources config)))
          else if max_concurrent_threads config = 0 then Inl NoConcurrency
          else Inr ())"

section \<open>What is built from a configuration\<close>

definition endpoint_from :: "RpcEndpoint \<Rightarrow> EndpointConfig" where
  "endpoint_from e = \<lparr>ec_url = re_url e, ec_ws_url = re_ws_url e, ec_priority = re_priority e, ec_role = re_role e\<rparr>"

definition from_rpc_config :: "RpcEndpoint list \<Rightarrow> EndpointConfig list" where
  "from_rpc_config es = map endpoint_from es"

record TpuClientConfig =
  tc_rpc_url :: string
  tc_websocket_url :: string
  tc_num_connections :: nat
  tc_leaders_fanout :: nat
  tc_worker_channel_size :: nat

record SharedResources =
  sr_rpc_client :: RpcPool
  sr_expiry :: ThreadExpiry
  sr_cache :: cache
  sr_max_capacity :: u64
  sr_tpu_client :: "TpuClientConfig option"
  sr_program_id :: pubkey

text \<open>\<open>None\<close> is the panic of \<open>expect\<close>; a TPU client that cannot be set up is left out.\<close>

definition SharedResources_new :: "(TpuClientConfig \<Rightarrow> bool) \<Rightarrow> ClientConfig \<Rightarrow> (string + SharedResources) option" where
  "SharedResources_new tpu_new config =
     (case pool_new (from_rpc_config (rpc_endpoints config)) RoundRobin of
        Inl err \<Rightarrow> Some (Inl err)
      | Inr pool \<Rightarrow>
          let resources = (\<lambda>client. \<lparr>sr_rpc_client = pool,
                sr_expiry = \<lparr>grace_period = lf_grace_period (cc_load_balancer config), eviction_buffer = lf_eviction_buffer (cc_load_balancer config)\<rparr>,
                sr_cache = (\<lambda>_. None), sr_max_capacity = max_capacity config, sr_tpu_client = client,
                sr_program_id = dc_program_id (datasources config)\<rparr>) in
          if tpu_enabled (tpu config) then
            case find (\<lambda>e. re_role e = Submission \<or> re_role e = Both) (rpc_endpoints config) of
              None \<Rightarrow> None
            | Some e \<Rightarrow>
                let tc = \<lparr>tc_rpc_url = re_url e, tc_websocket_url = get_ws_url e, tc_num_connections = num_connections (tpu config),
                      tc_leaders_fanout = leaders_fanout (tpu config), tc_worker_channel_size = worker_channel_size (tpu config)\<rparr> in
                Some (Inr (resources (if tpu_new tc then Some tc else None)))
          else Some (Inr (resources None)))"

section \<open>A valid configuration starts\<close>

lemma starts_with_append [simp]: "starts_with (pat @ s) pat"
  by (simp add: starts_with_def)

lemma starts_with_iff: "starts_with s pat \<longleftrightarrow> (\<exists>rest. s = pat @ rest)"
  by (metis append_take_drop_id starts_with_append starts_with_def)

lemma str_replace_prefix:
  assumes "pat \<noteq> []" and "starts_with s pat"
  shows "starts_with (str_replace pat rep s) rep"
proof -
  obtain c cs where "s = c # cs" using assms by (cases s) (auto simp: starts_with_def)
  then have "str_replace pat rep s = rep @ str_replace pat rep (drop (length pat) s)"
    using assms str_replace.simps [of pat rep s] by (simp add: starts_with_def)
  then show ?thesis by simp
qed

lemma get_ws_url_scheme:
  "re_ws_url e = None \<Longrightarrow> starts_with (get_ws_url e) ''ws://'' \<or> starts_with (get_ws_url e) ''wss://''"
  using str_replace_prefix [of "''https://''" "re_url e" "''wss://''"] str_replace_prefix [of "''http://''" "re_url e" "''ws://''"]
  by (auto simp: get_ws_url_def starts_with_def)

lemma validate_urls_iff:
  "validate_urls es = Inr () \<longleftrightarrow> (\<forall>e\<in>set es. starts_with (re_url e) ''http://'' \<or> starts_with (re_url e) ''https://'')"
  by (induction es) (auto simp: starts_with_def)

lemma validate_iff:
  "validate config = Inr () \<longleftrightarrow>
     keypair_path (cc_executor config) \<noteq> [] \<and>
     (\<exists>e\<in>set (rpc_endpoints config). can_fetch_role (re_role e)) \<and>
     (\<exists>e\<in>set (rpc_endpoints config). can_submit_role (re_role e)) \<and>
     (\<forall>e\<in>set (rpc_endpoints config). starts_with (re_url e) ''http://'' \<or> starts_with (re_url e) ''https://'') \<and>
     commitment (datasources config) \<in> {''processed'', ''confirmed'', ''finalized''} \<and> 0 < max_concurrent_threads config"
proof -
  have roles: "can_fetch_role r \<longleftrightarrow> r = Datasource \<or> r = Both" "can_submit_role r \<longleftrightarrow> r = Submission \<or> r = Both" for r
    by (cases r; simp)+
  show ?thesis
    unfolding validate_def roles validate_urls_iff [symmetric]
    by (auto split: sum.split)
qed

text \<open>In a pool of fresh endpoints, what can be selected is what the roles allow.\<close>

lemma fresh_pool_selects:
  assumes "pool_new cs strategy = Inr pool" and "c \<in> set cs"
    and "if read_only then can_fetch_role (ec_role c) else can_submit_role (ec_role c)"
  shows "fst (select_endpoints read_only pool) \<noteq> []"
proof -
  obtain i where i: "i < length cs" "cs ! i = c" using assms(2) by (metis in_set_conv_nth)
  have "endpoints pool = map endpoint_new cs" using assms(1) by (auto simp: pool_new_def split: if_splits)
  then have "i \<in> set (available_endpoints read_only pool)"
    using i assms(3) by (simp add: available_iff can_fetch_def can_submit_def is_available_def endpoint_new_def)
  then show ?thesis using select_endpoints_mset [of read_only pool] by auto
qed

lemma find_Some_iff_ex: "find P xs \<noteq> None \<longleftrightarrow> (\<exists>x\<in>set xs. P x)"
  by (auto simp: find_None_iff)

lemma SharedResources_new_valid:
  assumes "validate config = Inr ()"
  shows "\<exists>res. SharedResources_new tpu_new config = Some (Inr res) \<and>
    pool_new (from_rpc_config (rpc_endpoints config)) RoundRobin = Inr (sr_rpc_client res)"
proof -
  have ne: "rpc_endpoints config \<noteq> []" and sub: "\<exists>e\<in>set (rpc_endpoints config). re_role e = Submission \<or> re_role e = Both"
    using assms by (auto simp: validate_def split: if_splits)
  then obtain pool where p: "pool_new (from_rpc_config (rpc_endpoints config)) RoundRobin = Inr pool"
    by (simp add: pool_new_def from_rpc_config_def)
  have "find (\<lambda>e. re_role e = Submission \<or> re_role e = Both) (rpc_endpoints config) \<noteq> None"
    using sub by (simp only: find_Some_iff_ex)
  then show ?thesis using p by (auto simp: SharedResources_new_def Let_def)
qed

end
