(* ===== verification/Cron_Grammar.thy ===== *)
theory Cron_Grammar
  imports Cron_Search Cli_Text
begin

text \<open>
  The grammar of cron expressions, \<open>crates/cron/src/parsing.rs\<close>: from the text of an
  expression to the specifiers of its fields and the schedule.

  The grammar is written with the combinators of the parser library \<open>nom\<close>, which the
  repository does not contain. They are the fields of the record \<open>nom\<close>, at one type of
  parsers: a parser takes the input and gives the rest and a value, or fails. Values of
  all the types the grammar parses are injected into \<open>parsed\<close>. What the grammar relies on,
  the documented behaviour of each combinator, is \<open>nom_laws\<close>.
\<close>

section \<open>The parser library\<close>

datatype parsed =
    P_Str string
  | P_Ord nat
  | P_Spec Specifier
  | P_Root RootSpecifier
  | P_List "parsed list"
  | P_Pair parsed parsed
  | P_Opt "parsed option"
  | P_Field unit_field
  | P_Fields ScheduleFields

type_synonym parser = "string \<Rightarrow> (string \<times> parsed) option"

record nom =
  alt :: "parser list \<Rightarrow> parser"
  tag :: "string \<Rightarrow> parser"
  alpha1 :: parser
  digit1 :: parser
  multispace0 :: parser
  all_consuming :: "parser \<Rightarrow> parser"
  eof :: parser
  map_p :: "parser \<Rightarrow> (parsed \<Rightarrow> parsed) \<Rightarrow> parser"
  map_res :: "parser \<Rightarrow> (parsed \<Rightarrow> parsed option) \<Rightarrow> parser"
  opt :: "parser \<Rightarrow> parser"
  separated_list1 :: "parser \<Rightarrow> parser \<Rightarrow> parser"
  delimited :: "parser \<Rightarrow> parser \<Rightarrow> parser \<Rightarrow> parser"
  separated_pair :: "parser \<Rightarrow> parser \<Rightarrow> parser \<Rightarrow> parser"
  terminated :: "parser \<Rightarrow> parser \<Rightarrow> parser"
  tuple :: "parser list \<Rightarrow> parser"

section \<open>Specifiers\<close>

fun u32_from_str :: "parsed \<Rightarrow> parsed option" where
  "u32_from_str (P_Str s) = map_option P_Ord (parse_unsigned 32 s)"
| "u32_from_str _ = None"

definition ordinal_p :: "nom \<Rightarrow> parser" where
  "ordinal_p N = map_res N (delimited N (multispace0 N) (digit1 N) (multispace0 N)) u32_from_str"

definition name_p :: "nom \<Rightarrow> parser" where
  "name_p N = delimited N (multispace0 N) (alpha1 N) (multispace0 N)"

text \<open>The constructors the grammar applies to the values it has parsed.\<close>

fun to_point :: "parsed \<Rightarrow> parsed" where
  "to_point (P_Ord o') = P_Spec (Point o')" | "to_point v = v"

fun to_named_point :: "parsed \<Rightarrow> parsed" where
  "to_named_point (P_Str n) = P_Root (NamedPoint n)" | "to_named_point v = v"

fun to_period :: "parsed \<Rightarrow> parsed" where
  "to_period (P_Pair (P_Spec start) (P_Ord step)) = P_Root (Period start step)" | "to_period v = v"

fun to_range :: "parsed \<Rightarrow> parsed" where
  "to_range (P_Pair (P_Ord start) (P_Ord end')) = P_Spec (Range start end')" | "to_range v = v"

fun to_named_range :: "parsed \<Rightarrow> parsed" where
  "to_named_range (P_Pair (P_Str start) (P_Str end')) = P_Spec (NamedRange start end')" | "to_named_range v = v"

fun to_root :: "parsed \<Rightarrow> parsed" where
  "to_root (P_Spec sp) = P_Root (RootSpecifier sp)" | "to_root v = v"

definition point_p :: "nom \<Rightarrow> parser" where "point_p N = map_p N (ordinal_p N) to_point"

definition named_point_p :: "nom \<Rightarrow> parser" where "named_point_p N = map_p N (name_p N) to_named_point"

definition range_p :: "nom \<Rightarrow> parser" where
  "range_p N = map_p N (separated_pair N (ordinal_p N) (tag N ''-'') (ordinal_p N)) to_range"

definition named_range_p :: "nom \<Rightarrow> parser" where
  "named_range_p N = map_p N (separated_pair N (name_p N) (tag N ''-'') (name_p N)) to_named_range"

definition all_p :: "nom \<Rightarrow> parser" where "all_p N = map_p N (tag N ''*'') (\<lambda>_. P_Spec All)"

definition any_p :: "nom \<Rightarrow> parser" where "any_p N = map_p N (tag N ''?'') (\<lambda>_. P_Spec All)"

definition specifier_p :: "nom \<Rightarrow> parser" where
  "specifier_p N = alt N [all_p N, range_p N, point_p N, named_range_p N]"

definition specifier_with_any_p :: "nom \<Rightarrow> parser" where
  "specifier_with_any_p N = alt N [any_p N, specifier_p N]"

definition period_p :: "nom \<Rightarrow> parser" where
  "period_p N = map_p N (separated_pair N (specifier_p N) (tag N ''/'') (ordinal_p N)) to_period"

definition period_with_any_p :: "nom \<Rightarrow> parser" where
  "period_with_any_p N = map_p N (separated_pair N (specifier_with_any_p N) (tag N ''/'') (ordinal_p N)) to_period"

definition root_specifier_p :: "nom \<Rightarrow> parser" where
  "root_specifier_p N = alt N [period_p N, map_p N (specifier_p N) to_root, named_point_p N]"

definition root_specifier_with_any_p :: "nom \<Rightarrow> parser" where
  "root_specifier_with_any_p N = alt N [period_with_any_p N, map_p N (specifier_with_any_p N) to_root, named_point_p N]"

section \<open>Fields\<close>

definition root_specifier_list_p :: "nom \<Rightarrow> parser" where
  "root_specifier_list_p N =
     (let list = separated_list1 N (tag N '','') (root_specifier_p N);
          single_item = map_p N (root_specifier_p N) (\<lambda>spec. P_List [spec])
      in delimited N (multispace0 N) (alt N [list, single_item]) (multispace0 N))"

definition root_specifier_list_with_any_p :: "nom \<Rightarrow> parser" where
  "root_specifier_list_with_any_p N =
     (let list = separated_list1 N (tag N '','') (root_specifier_with_any_p N);
          single_item = map_p N (root_specifier_with_any_p N) (\<lambda>spec. P_List [spec])
      in delimited N (multispace0 N) (alt N [list, single_item]) (multispace0 N))"

fun roots_of :: "parsed list \<Rightarrow> RootSpecifier list option" where
  "roots_of [] = Some []"
| "roots_of (P_Root r # vs) = map_option ((#) r) (roots_of vs)"
| "roots_of _ = None"

text \<open>\<open>from_field\<close> of a unit, as \<open>map_res\<close> applies it to a parsed field.\<close>

fun field_of :: "time_unit \<Rightarrow> parsed \<Rightarrow> parsed option" where
  "field_of u (P_List vs) =
     Option.bind (roots_of vs) (\<lambda>specifiers. case from_field u specifiers of Inr f \<Rightarrow> Some (P_Field f) | Inl _ \<Rightarrow> None)"
| "field_of u _ = None"

definition field_p :: "nom \<Rightarrow> time_unit \<Rightarrow> parser" where
  "field_p N u = map_res N (root_specifier_list_p N) (field_of u)"

definition field_with_any_p :: "nom \<Rightarrow> time_unit \<Rightarrow> parser" where
  "field_with_any_p N u = map_res N (root_specifier_list_with_any_p N) (field_of u)"

section \<open>Expressions\<close>

definition shorthand_p :: "nom \<Rightarrow> parser" where
  "shorthand_p N =
     delimited N (multispace0 N)
       (alt N [map_p N (tag N ''@yearly'') (\<lambda>_. P_Fields shorthand_yearly),
               map_p N (tag N ''@monthly'') (\<lambda>_. P_Fields shorthand_monthly),
               map_p N (tag N ''@weekly'') (\<lambda>_. P_Fields shorthand_weekly),
               map_p N (tag N ''@daily'') (\<lambda>_. P_Fields shorthand_daily),
               map_p N (tag N ''@hourly'') (\<lambda>_. P_Fields shorthand_hourly)])
       (multispace0 N)"

fun field_value :: "parsed \<Rightarrow> unit_field" where
  "field_value (P_Field f) = f"
| "field_value (P_Opt (Some v)) = field_value v"
| "field_value _ = None"

definition to_schedule :: "parsed \<Rightarrow> parsed" where
  "to_schedule v =
     (case v of
        P_List [seconds, minutes, hours, days_of_month, months, days_of_week, years] \<Rightarrow>
          P_Fields (ScheduleFields_new (field_value seconds) (field_value minutes) (field_value hours)
            (field_value days_of_month) (field_value months) (field_value days_of_week) (field_value years))
      | _ \<Rightarrow> v)"

definition longhand_p :: "nom \<Rightarrow> parser" where
  "longhand_p N =
     map_p N (terminated N
       (tuple N [field_p N Seconds, field_p N Minutes, field_p N Hours, field_with_any_p N DaysOfMonth, field_p N Months,
                 field_with_any_p N DaysOfWeek, opt N (field_p N Years)])
       (eof N)) to_schedule"

definition schedule_p :: "nom \<Rightarrow> parser" where
  "schedule_p N = all_consuming N (alt N [shorthand_p N, longhand_p N])"

text \<open>\<open>Schedule::from_str\<close>; the expression's own text, which a schedule keeps beside the fields, is left out.\<close>

definition schedule_from_str :: "nom \<Rightarrow> string \<Rightarrow> ScheduleFields option" where
  "schedule_from_str N expression = (case schedule_p N expression of Some (_, P_Fields f) \<Rightarrow> Some f | _ \<Rightarrow> None)"

section \<open>What the grammar relies on\<close>

fun first_ok :: "parser list \<Rightarrow> parser" where
  "first_ok [] i = None"
| "first_ok (p # ps) i = (case p i of Some r \<Rightarrow> Some r | None \<Rightarrow> first_ok ps i)"

definition is_digit :: "char \<Rightarrow> bool" where "is_digit c \<longleftrightarrow> digit_of c \<noteq> None"

definition is_alpha :: "char \<Rightarrow> bool" where
  "is_alpha c \<longleftrightarrow> (let n = of_char c :: nat in (65 \<le> n \<and> n \<le> 90) \<or> (97 \<le> n \<and> n \<le> 122))"

definition is_multispace :: "char \<Rightarrow> bool" where
  "is_multispace c \<longleftrightarrow> (let n = of_char c :: nat in n = 32 \<or> n = 9 \<or> n = 13 \<or> n = 10)"

definition span0 :: "(char \<Rightarrow> bool) \<Rightarrow> parser" where
  "span0 P i = Some (dropWhile P i, P_Str (takeWhile P i))"

definition span1 :: "(char \<Rightarrow> bool) \<Rightarrow> parser" where
  "span1 P i = (if takeWhile P i = [] then None else span0 P i)"

definition then_p :: "parser \<Rightarrow> (parsed \<Rightarrow> parser) \<Rightarrow> parser" where
  "then_p p f i = (case p i of Some (r, v) \<Rightarrow> f v r | None \<Rightarrow> None)"

fun seq_p :: "parser list \<Rightarrow> string \<Rightarrow> (string \<times> parsed list) option" where
  "seq_p [] i = Some (i, [])"
| "seq_p (p # ps) i = (case p i of Some (r, v) \<Rightarrow> map_option (\<lambda>(r', vs). (r', v # vs)) (seq_p ps r) | None \<Rightarrow> None)"

definition shrinks :: "parser \<Rightarrow> bool" where
  "shrinks p \<longleftrightarrow> (\<forall>i r v. p i = Some (r, v) \<longrightarrow> length r \<le> length i)"

definition lexer_laws :: "nom \<Rightarrow> bool" where
  "lexer_laws N \<longleftrightarrow>
     (\<forall>t i. tag N t i = (if starts_with i t then Some (drop (length t) i, P_Str t) else None)) \<and>
     digit1 N = span1 is_digit \<and> alpha1 N = span1 is_alpha \<and> multispace0 N = span0 is_multispace \<and>
     (\<forall>i. eof N i = (if i = [] then Some ([], P_Str []) else None))"

definition combinator_laws :: "nom \<Rightarrow> bool" where
  "combinator_laws N \<longleftrightarrow>
     (\<forall>ps. alt N ps = first_ok ps) \<and>
     (\<forall>p i. all_consuming N p i = (case p i of Some ([], v) \<Rightarrow> Some ([], v) | _ \<Rightarrow> None)) \<and>
     (\<forall>p f. map_p N p f = then_p p (\<lambda>v r. Some (r, f v))) \<and>
     (\<forall>p f. map_res N p f = then_p p (\<lambda>v r. map_option (Pair r) (f v))) \<and>
     (\<forall>p i. opt N p i = (case p i of Some (r, v) \<Rightarrow> Some (r, P_Opt (Some v)) | None \<Rightarrow> Some (i, P_Opt None))) \<and>
     (\<forall>a p b. delimited N a p b = then_p a (\<lambda>_. then_p p (\<lambda>v. then_p b (\<lambda>_ r. Some (r, v))))) \<and>
     (\<forall>a s b. separated_pair N a s b = then_p a (\<lambda>v. then_p s (\<lambda>_. then_p b (\<lambda>w r. Some (r, P_Pair v w))))) \<and>
     (\<forall>p b. terminated N p b = then_p p (\<lambda>v. then_p b (\<lambda>_ r. Some (r, v)))) \<and>
     (\<forall>ps i. tuple N ps i = map_option (\<lambda>(r, vs). (r, P_List vs)) (seq_p ps i))"

text \<open>
  A list: one item, and while a separator and another item follow, those; a separator without
  an item after it is left in the input. For items that never give back more than they got.
\<close>

definition list_law :: "nom \<Rightarrow> bool" where
  "list_law N \<longleftrightarrow> (\<forall>c p i. shrinks p \<longrightarrow>
     separated_list1 N (tag N [c]) p i =
       (case p i of
          None \<Rightarrow> None
        | Some (r, v) \<Rightarrow>
            (case (case tag N [c] r of None \<Rightarrow> None | Some (r1, _) \<Rightarrow> separated_list1 N (tag N [c]) p r1) of
               Some (r2, P_List vs) \<Rightarrow> Some (r2, P_List (v # vs))
             | _ \<Rightarrow> Some (r, P_List [v]))))"

definition nom_laws :: "nom \<Rightarrow> bool" where
  "nom_laws N \<longleftrightarrow> lexer_laws N \<and> combinator_laws N \<and> list_law N"

end
