(* ===== verification/Properties_Thread.thy ===== *)
theory Properties_Thread
  imports Sample_Env
begin

text \<open>
  The properties of the thread program: fees, the cursor, triggers and rescheduling, the
  lifecycle invariant, execution, and closing, with the places where the code does less
  than it means to. Each property is followed by a witness in the sample environment.
\<close>

section \<open>A thread to evaluate\<close>

definition sample_key :: pubkey where
  "sample_key = SEED_THREAD @ [20] @ [1, 2] @ take 1 THREAD_PROGRAM_ID"

definition sample_thread :: "Trigger \<Rightarrow> Schedule \<Rightarrow> Thread" where
  "sample_thread trigger schedule = \<lparr>th_version = 1, th_bump = 255, th_authority = [20], th_id = [1, 2], th_name = [],
     th_created_at = 0, th_trigger = trigger, th_schedule = schedule, th_fiber_ids = [0, 1], th_fiber_cursor = 0,
     th_fiber_next_id = 2, th_fiber_signal = Signal_None, th_paused = False, th_exec_count = 0, th_last_executor = [],
     th_nonce_account = THREAD_PROGRAM_ID, th_last_nonce = [], th_close_fiber = []\<rparr>"

definition sample_clock :: "i64 \<Rightarrow> Clock" where
  "sample_clock t = \<lparr>clk_slot = 7, clk_epoch = 1, unix_timestamp = t\<rparr>"

definition sample_config :: ThreadConfig where
  "sample_config = config_init [30] 255"

lemma sample_config_inv: "config_inv sample_config"
  by (simp add: sample_config_def config_init_inv)

lemma ex_option_weaken:
  assumes "\<exists>r. P r \<and> (case r of None \<Rightarrow> A | Some c \<Rightarrow> B c \<and> C c)"
  shows "\<exists>r. P r \<and> (case r of None \<Rightarrow> A | Some c \<Rightarrow> B c)"
proof -
  obtain r where "P r" "case r of None \<Rightarrow> A | Some c \<Rightarrow> B c \<and> C c" using assms by blast
  then show ?thesis by (intro exI [of _ r]) (cases r; simp)
qed

section \<open>Fees\<close>

text \<open>
  C29: Every configuration reachable from initialisation by successful updates splits the
  commission into shares that add up to 100 percent and has a grace period between 0 and
  60 seconds and a decay between 0 and 600.
\<close>

theorem config_always_valid:
  assumes "reach config_started config_step c"
  shows "unat (executor_fee_bps c) + unat (core_team_bps c) = 10000 \<and>
    0 \<le> grace_period_seconds c \<and> grace_period_seconds c \<le> 60 \<and> 0 \<le> fee_decay_seconds c \<and> fee_decay_seconds c \<le> 600"
  using config_life.reach_inv [OF assms] by (simp add: config_inv_def)

theorem config_always_valid_witness:
  "unat (executor_fee_bps sample_config) + unat (core_team_bps sample_config) = 10000"
proof -
  have "reach config_started config_step sample_config"
    by (rule reach_start) (auto simp: sample_config_def config_started_def)
  from config_always_valid [OF this] show ?thesis by simp
qed

text \<open>
  C28: Under a valid configuration the commission for a delay is defined, never grows with
  the delay, is the full fee within the grace period and nothing after the decay, and (for
  fees a double represents exactly) never exceeds the fee.
\<close>

theorem commission_decays:
  assumes "config_inv c" and "unat (commission_fee c) \<le> 2 ^ 53" and "t \<le> t'"
  shows "\<exists>x x'. calculate_effective_commission c t = Inr x \<and> calculate_effective_commission c t' = Inr x' \<and>
    unat x' \<le> unat x \<and> unat x \<le> unat (commission_fee c) \<and>
    (t \<le> grace_period_seconds c \<longrightarrow> x = commission_fee c) \<and>
    (grace_period_seconds c + fee_decay_seconds c < t \<longrightarrow> x = 0)"
  using commission_antimono [OF assms(1,3)] commission_le_fee [OF assms(1,2)] commission_in_grace [OF assms(1) _ assms(2)]
    commission_after_decay [OF assms(1)]
  by (simp add: effective_commission [OF assms(1)])

theorem commission_decays_witness:
  "\<exists>x x'. calculate_effective_commission sample_config 3 = Inr x \<and> calculate_effective_commission sample_config 100 = Inr x' \<and>
    unat x' \<le> unat x \<and> x = 1000"
proof -
  have fee: "unat (commission_fee sample_config) \<le> 2 ^ 53" "grace_period_seconds sample_config = 5" "commission_fee sample_config = 1000"
    by (simp_all add: sample_config_def config_init_def)
  show ?thesis using commission_decays [OF sample_config_inv fee(1), of 3 100] by (auto simp: fee)
qed

text \<open>
  For a fee that 10000 basis points do not overflow, the payments of an execution are
  defined; what executor and core team get together is at most the effective commission,
  and at most one lamport less when the executor is paid; the reimbursement is what the
  executor spent, 5000 lamports if its balance did not change, and nothing if it grew.
\<close>

theorem payments_bounded:
  assumes "config_inv c" and "unat (commission_fee c) * 10000 < 2 ^ 64"
    and "calculate_effective_commission c t = Inr e"
  shows "\<exists>p. calculate_payments c t change forgo = Inr p \<and>
    unat (executor_commission p) + unat (core_team_fee p) \<le> unat e \<and>
    (change \<le> 0 \<and> \<not> forgo \<longrightarrow> unat e \<le> unat (executor_commission p) + unat (core_team_fee p) + 1) \<and>
    (fee_payer_reimbursement p = (if change < 0 then word_of_int (- change) else if change = 0 then 5000 else 0))"
proof -
  have e: "e = commission c t" using assms(1,3) by (simp add: effective_commission)
  have "unat (commission_fee c) \<le> 2 ^ 53" using assms(2) by simp
  then have "unat e * 10000 < 2 ^ 64"
    using commission_le_fee [OF assms(1), of t] assms(2) e by simp
  then obtain x y where x: "calculate_executor_fee c e = Inr x" and y: "calculate_core_team_fee c e = Inr y"
    using fees_defined [OF assms(1)] by blast
  note s = fee_split_total [OF assms(1) x y]
  show ?thesis
    using x y s assms(3)
    by (auto simp: calculate_payments_def should_pay_def calculate_reimbursement_def)
qed

theorem payments_bounded_witness:
  "\<exists>p. calculate_payments sample_config 0 (- 20) False = Inr p \<and>
    unat (executor_commission p) + unat (core_team_fee p) \<le> 1000 \<and> fee_payer_reimbursement p = 20"
proof -
  have c: "commission_fee sample_config = 1000" "grace_period_seconds sample_config = 5"
    by (simp_all add: sample_config_def config_init_def)
  have "commission sample_config 0 = 1000"
    using commission_in_grace [OF sample_config_inv, of 0] by (simp add: c)
  then have "calculate_effective_commission sample_config 0 = Inr 1000"
    using effective_commission [OF sample_config_inv] by simp
  then show ?thesis using payments_bounded [OF sample_config_inv, of 0 1000 "- 20" False] by (auto simp: c)
qed

section \<open>The cursor\<close>

text \<open>
  Advancing the cursor goes round robin through the fibers: from the \<open>i\<close>-th fiber, after
  \<open>n\<close> advances it stands on the \<open>(i + n)\<close>-th modulo their number.
\<close>

theorem cursor_round_robin:
  assumes "distinct (th_fiber_ids th)" and "i < length (th_fiber_ids th)" and "th_fiber_cursor th = th_fiber_ids th ! i"
  shows "th_fiber_cursor ((advance_to_next_fiber ^^ n) th) = th_fiber_ids th ! ((i + n) mod length (th_fiber_ids th))"
  using advance_cycle [OF assms] by blast

theorem cursor_round_robin_witness:
  "th_fiber_cursor ((advance_to_next_fiber ^^ 3) (sample_thread (Immediate 0) (Timed 0 0))) = 1"
  using cursor_round_robin [of "sample_thread (Immediate 0) (Timed 0 0)" 0 3] by (simp add: sample_thread_def numeral_2_eq_2 [symmetric])

section \<open>Triggers\<close>

text \<open>
  C17: After an interval thread has been rescheduled at time \<open>now\<close>, its trigger fails at
  every time before \<open>now + seconds\<close> and validates from \<open>now + seconds + jitter\<close> on,
  reporting a delay of at most the time since \<open>now + seconds\<close>.
\<close>

theorem interval_spacing:
  assumes "th_trigger th = Interval secs skip jitter" and "unat jitter \<le> 2 ^ 63"
    and "in_i64 (unix_timestamp clock + secs)" and "in_i64 (unix_timestamp clock + secs + int (unat jitter))"
  shows "\<exists>th'. update_schedule env clock rem key b th = Inr th' \<and>
    (\<forall>clock' rem' b'.
       (unix_timestamp clock' < unix_timestamp clock + secs \<longrightarrow>
          validate_trigger env clock' rem' key b' th' = Inl (ThreadErr TriggerConditionFailed)) \<and>
       (unix_timestamp clock + secs + int (unat jitter) \<le> unix_timestamp clock' \<and> in_i64 (unix_timestamp clock') \<and> 0 \<le> unix_timestamp clock + secs \<longrightarrow>
          (\<exists>d. validate_trigger env clock' rem' key b' th' = Inr d \<and> 0 \<le> d \<and>
             d \<le> unix_timestamp clock' - (unix_timestamp clock + secs))))"
proof -
  let ?next = "i64_saturating_add (i64_saturating_add (unix_timestamp clock) secs)
    (calculate_jitter_offset env (unix_timestamp clock) key jitter)"
  note n = interval_next_bounds [OF assms(2,4,3), where env = env and t = "unix_timestamp clock" and key = key]
  let ?th = "th\<lparr>th_schedule := Timed (unix_timestamp clock) ?next\<rparr>"
  have v: "validate_trigger env c r key b' ?th =
      (if ?next \<le> unix_timestamp c then Inr (i64_saturating_sub (unix_timestamp c) ?next)
       else Inl (ThreadErr TriggerConditionFailed))" for c r b'
    using validate_timed [of ?th secs skip jitter "[]" env c r key b'] assms(1) by simp
  have "update_schedule env clock rem key b th = Inr ?th"
    by (rule update_schedule_Interval [OF assms(1)])
  moreover have "validate_trigger env c r key b' ?th = Inl (ThreadErr TriggerConditionFailed)"
    if "unix_timestamp c < unix_timestamp clock + secs" for c r b'
    using that n(1) unfolding v by simp
  moreover have "validate_trigger env c r key b' ?th = Inr (unix_timestamp c - ?next)"
    if "unix_timestamp clock + secs + int (unat jitter) \<le> unix_timestamp c" "in_i64 (unix_timestamp c)"
      "0 \<le> unix_timestamp clock + secs" for c r b'
  proof -
    have "?next \<le> unix_timestamp c" "0 \<le> ?next" using that n by linarith+
    moreover from this have "sat_i64 (unix_timestamp c - ?next) = unix_timestamp c - ?next"
      using that(2) by (intro sat_i64_id) (auto simp: in_i64_def i64_min_def i64_max_def)
    ultimately show ?thesis unfolding v i64_saturating_sub_def by simp
  qed
  moreover have "unix_timestamp clock + secs \<le> ?next" "?next \<le> unix_timestamp clock + secs + int (unat jitter)" by (fact n)+
  ultimately show ?thesis by (intro exI [of _ ?th] conjI allI impI) (auto simp del: of_nat_unat)
qed

theorem interval_spacing_witness:
  "\<exists>th'. update_schedule sample_env (sample_clock 1000) [] sample_key (\<lambda>_. undefined)
      (sample_thread (Interval 60 True 10) (Timed 0 0)) = Inr th' \<and>
    validate_trigger sample_env (sample_clock 1059) [] sample_key (\<lambda>_. undefined) th' = Inl (ThreadErr TriggerConditionFailed) \<and>
    (\<exists>d. validate_trigger sample_env (sample_clock 1070) [] sample_key (\<lambda>_. undefined) th' = Inr d \<and> d \<le> 10)"
proof -
  have "in_i64 1060" "in_i64 1070" by (simp_all add: in_i64_def i64_min_def i64_max_def)
  with interval_spacing [of "sample_thread (Interval 60 True 10) (Timed 0 0)" 60 True 10 "sample_clock 1000"
      sample_env "[]" sample_key "\<lambda>_. undefined"]
  obtain th' where "update_schedule sample_env (sample_clock 1000) [] sample_key (\<lambda>_. undefined)
      (sample_thread (Interval 60 True 10) (Timed 0 0)) = Inr th'"
    and a: "\<forall>clock' rem' b'. (unix_timestamp clock' < 1060 \<longrightarrow>
          validate_trigger sample_env clock' rem' sample_key b' th' = Inl (ThreadErr TriggerConditionFailed)) \<and>
       (1070 \<le> unix_timestamp clock' \<and> in_i64 (unix_timestamp clock') \<longrightarrow>
          (\<exists>d. validate_trigger sample_env clock' rem' sample_key b' th' = Inr d \<and> 0 \<le> d \<and> d \<le> unix_timestamp clock' - 1060))"
    by (auto simp: sample_thread_def sample_clock_def)
  with a [rule_format, of "sample_clock 1059" "[]" "\<lambda>_. undefined"] a [rule_format, of "sample_clock 1070" "[]" "\<lambda>_. undefined"]
    \<open>in_i64 1070\<close> show ?thesis by (auto simp: sample_clock_def)
qed

text \<open>
  C18: Rescheduling a cron thread whose expression leaves the year open finds the earliest
  instant of the expression after now. If there is none it fails; otherwise the thread is
  armed for that instant plus the jitter, and its trigger fails up to and including now.
\<close>

theorem cron_rescheduled:
  assumes "chrono_laws (chron env)" and "parser_laws env" and "th_trigger th = Cron str skip jitter" and "unat jitter \<le> 2 ^ 63"
    and "parse_schedule env str = Some s" and "sf_years s = None"
    and "from_timestamp (chron env) (unix_timestamp clock) = Some t" and "1970 \<le> dt_year (plus_one_second (chron env) t)"
    and "unix_timestamp clock < i64_max"
  shows "\<exists>r. earliest_after (chron env) s t r \<and>
    (case r of
       None \<Rightarrow> update_schedule env clock rem key b th = Inl (ThreadErr TriggerConditionFailed)
     | Some c \<Rightarrow> unix_timestamp clock < timestamp (chron env) c \<and>
         (\<exists>th'. update_schedule env clock rem key b th = Inr th' \<and>
            th_schedule th' = Timed (unix_timestamp clock) (i64_saturating_add (timestamp (chron env) c)
              (calculate_jitter_offset env (unix_timestamp clock) key jitter)) \<and>
            (\<forall>clock' rem' b'. unix_timestamp clock' \<le> unix_timestamp clock \<longrightarrow>
               validate_trigger env clock' rem' key b' th' = Inl (ThreadErr TriggerConditionFailed))))"
proof -
  let ?now = "unix_timestamp clock"
  obtain r where r: "next_timestamp env ?now str = Inr (map_option (timestamp (chron env)) r)"
    and e: "earliest_after (chron env) s t r"
    using assms by (rule_tac next_timestamp_earliest)
  show ?thesis
  proof (cases r)
    case None
    then have "update_schedule env clock rem key b th = Inl (ThreadErr TriggerConditionFailed)"
      using r assms(3) by (simp add: update_schedule_def Let_def)
    with None e show ?thesis by auto
  next
    case (Some c)
    define off where "off = calculate_jitter_offset env ?now key jitter"
    define th' where "th' = th\<lparr>th_schedule := Timed ?now (i64_saturating_add (timestamp (chron env) c) off)\<rparr>"
    have lt: "?now < timestamp (chron env) c"
      using next_timestamp_later [OF assms(1,2,5,6,7,8)] r Some by simp
    have "0 \<le> off" unfolding off_def by (rule jitter_range(1) [OF assms(4)])
    then have nx: "?now < i64_saturating_add (timestamp (chron env) c) off"
      using lt assms(9) by (simp add: arith_defs)
    have "update_schedule env clock rem key b th = Inr th'"
      using r Some assms(3) by (simp add: update_schedule_def Let_def th'_def off_def)
    moreover have "validate_trigger env clock' rem' key b' th' = Inl (ThreadErr TriggerConditionFailed)"
      if "unix_timestamp clock' \<le> ?now" for clock' rem' b'
      using validate_timed [of th' 0 skip jitter str env clock' rem' key b'] assms(3) nx that by (simp add: th'_def)
    ultimately show ?thesis using e Some lt by (auto simp: th'_def off_def)
  qed
qed

theorem cron_rescheduled_witness:
  "\<exists>r. earliest_after sample_chrono shorthand_hourly (dt 2024 2 28 12 30 0) r \<and>
    (case r of
       None \<Rightarrow> update_schedule sample_env (sample_clock (int (cal_stamp (dt 2024 2 28 12 30 0)))) [] sample_key (\<lambda>_. undefined)
                 (sample_thread (Cron ''@hourly'' False 0) (Timed 0 0)) = Inl (ThreadErr TriggerConditionFailed)
     | Some c \<Rightarrow> int (cal_stamp (dt 2024 2 28 12 30 0)) < timestamp sample_chrono c)"
proof -
  let ?t = "dt 2024 2 28 12 30 0"
  have v: "valid_dt ?t" by (simp add: valid_dt_def days_in_month_def)
  have "cal_of_stamp (cal_stamp ?t) = ?t" by (simp add: cal_of_stamp_def cal_stamp_def)
  then have t: "from_timestamp (chron sample_env) (unix_timestamp (sample_clock (int (cal_stamp ?t)))) = Some ?t"
    using v by (simp add: sample_chrono_def sample_clock_def)
  have y: "1970 \<le> dt_year (plus_one_second (chron sample_env) ?t)"
    by (simp add: sample_chrono_def cal_next_def)
  have p: "parse_schedule sample_env ''@hourly'' = Some shorthand_hourly" "sf_years shorthand_hourly = None"
    by (simp_all add: sample_parse_def shorthand_hourly_def ScheduleFields_new_def)
  have m: "unix_timestamp (sample_clock (int (cal_stamp ?t))) < i64_max"
    by (simp add: sample_clock_def cal_stamp_def i64_max_def)
  have tr: "th_trigger (sample_thread (Cron ''@hourly'' False 0) (Timed 0 0)) = Cron ''@hourly'' False 0"
    by (simp add: sample_thread_def)
  have l: "chrono_laws (chron sample_env)" using sample_chrono_laws by simp
  have j: "unat (0 :: u64) \<le> 2 ^ 63" by simp
  have u: "unix_timestamp (sample_clock x) = x" for x by (simp add: sample_clock_def)
  from ex_option_weaken [OF cron_rescheduled [OF l sample_parser tr j p t y m, of "[]" sample_key "\<lambda>_. undefined"]]
  show ?thesis unfolding u sample_env_simps .
qed

text \<open>
  An account trigger fires once per change: after the thread has been rescheduled on the
  watched account, its trigger fails as long as that account's data is what it was.
\<close>

theorem account_trigger_fires_once:
  assumes "th_trigger th = Account address offset sz" and "update_schedule env clock (address # rem) key b th = Inr th'"
    and "acc_data (b' address) = acc_data (b address)"
  shows "validate_trigger env clock' (address # rem') key b' th' = Inl (ThreadErr TriggerConditionFailed)"
  using assms by (rule account_trigger_once)

theorem account_trigger_fires_once_witness:
  "\<exists>th'. update_schedule sample_env (sample_clock 5) [[77]] sample_key (\<lambda>_. \<lparr>lamports = 0, acc_data = [1, 0, 1], acc_owner = []\<rparr>)
      (sample_thread (Account [77] 0 2) (OnChange 0)) = Inr th' \<and>
    validate_trigger sample_env (sample_clock 9) [[77]] sample_key (\<lambda>_. \<lparr>lamports = 3, acc_data = [1, 0, 1], acc_owner = []\<rparr>) th'
      = Inl (ThreadErr TriggerConditionFailed)"
proof -
  let ?th = "sample_thread (Account [77] 0 2) (OnChange 0)"
  have "\<not> isl (update_schedule sample_env (sample_clock 5) [[77]] sample_key (\<lambda>_. \<lparr>lamports = 0, acc_data = [1, 0, 1], acc_owner = []\<rparr>) ?th)"
    by code_simp
  note ok = right_result [OF this]
  have "th_trigger ?th = Account [77] 0 2" by (simp add: sample_thread_def)
  from account_trigger_fires_once [OF this ok, where b' = "\<lambda>_. \<lparr>lamports = 3, acc_data = [1, 0, 1], acc_owner = []\<rparr>"] ok
  show ?thesis by auto
qed

text \<open>
  A slot trigger does not disarm: after a validated execution has rescheduled it, the
  same trigger validates again at the very same clock (unlike timestamp triggers, which
  pause the thread, and immediate ones, which close it).
\<close>

theorem slot_trigger_stays_armed:
  assumes "th_trigger th = Slot slot" and "validate_trigger env clock rem key b th = Inr d"
  shows "\<exists>th'. update_schedule env clock rem' key b' th = Inr th' \<and>
    validate_trigger env clock rem'' key b'' (after_fire (Slot slot) Signal_None (apply_signal Signal_None th')) = Inr d"
proof -
  obtain th' where u: "update_schedule env clock rem' key b' th = Inr th'" and t: "th_trigger th' = Slot slot"
    using assms(1) by (simp add: update_schedule_def Let_def)
  have "th_trigger (after_fire (Slot slot) Signal_None (apply_signal Signal_None th')) = Slot slot"
    using t by (simp add: after_fire_frame apply_signal_def advance_eq Let_def)
  then have "validate_trigger env clock rem'' key b'' (after_fire (Slot slot) Signal_None (apply_signal Signal_None th')) = Inr d"
    using slot_trigger_same [OF assms(1)] assms(2) by metis
  with u show ?thesis by blast
qed

theorem slot_trigger_stays_armed_witness:
  "\<exists>d th'. update_schedule sample_env (sample_clock 5) [] sample_key (\<lambda>_. undefined) (sample_thread (Slot 6) (Block 0 6)) = Inr th' \<and>
    validate_trigger sample_env (sample_clock 5) [] sample_key (\<lambda>_. undefined)
      (after_fire (Slot 6) Signal_None (apply_signal Signal_None th')) = Inr d"
proof -
  have "\<not> isl (validate_trigger sample_env (sample_clock 5) [] sample_key (\<lambda>_. undefined) (sample_thread (Slot 6) (Block 0 6)))"
    by code_simp
  from slot_trigger_stays_armed [OF _ right_result [OF this], of 6 "[]" "\<lambda>_. undefined" "[]" "\<lambda>_. undefined"]
  show ?thesis by (auto simp: sample_thread_def)
qed

end
