(* ===== verification/Properties_Grammar.thy ===== *)
theory Properties_Grammar
  imports Cron_Grammar Properties_Thread
begin

text \<open>
  Cron expressions: every expression the grammar accepts gives a well-formed schedule, and an
  expression written from specifiers is read as exactly those specifiers.
\<close>

section \<open>The parsers under the laws of the library\<close>

abbreviation skip :: "string \<Rightarrow> string" where "skip \<equiv> dropWhile is_multispace"

lemma nom_lexers:
  assumes "nom_laws N"
  shows "tag N t i = (if starts_with i t then Some (drop (length t) i, P_Str t) else None)"
    and "digit1 N = span1 is_digit" and "alpha1 N = span1 is_alpha" and "multispace0 N = span0 is_multispace"
    and "eof N i = (if i = [] then Some ([], P_Str []) else None)"
  using assms by (simp_all add: nom_laws_def lexer_laws_def)

lemma nom_combinators:
  assumes "nom_laws N"
  shows "alt N ps = first_ok ps"
    and "all_consuming N p i = (case p i of Some ([], v) \<Rightarrow> Some ([], v) | _ \<Rightarrow> None)"
    and "map_p N p f = then_p p (\<lambda>v r. Some (r, f v))"
    and "map_res N p g = then_p p (\<lambda>v r. map_option (Pair r) (g v))"
    and "opt N p i = (case p i of Some (r, v) \<Rightarrow> Some (r, P_Opt (Some v)) | None \<Rightarrow> Some (i, P_Opt None))"
    and "delimited N a p b = then_p a (\<lambda>_. then_p p (\<lambda>v. then_p b (\<lambda>_ r. Some (r, v))))"
    and "separated_pair N a s b = then_p a (\<lambda>v. then_p s (\<lambda>_. then_p b (\<lambda>w r. Some (r, P_Pair v w))))"
    and "terminated N p b = then_p p (\<lambda>v. then_p b (\<lambda>_ r. Some (r, v)))"
    and "tuple N ps i = map_option (\<lambda>(r, vs). (r, P_List vs)) (seq_p ps i)"
  using assms unfolding nom_laws_def combinator_laws_def by metis+

lemma ordinal_p_eval:
  assumes "nom_laws N"
  shows "ordinal_p N i =
    (if takeWhile is_digit (skip i) = [] then None
     else map_option (\<lambda>n. (skip (dropWhile is_digit (skip i)), P_Ord n)) (parse_unsigned 32 (takeWhile is_digit (skip i))))"
  by (simp add: ordinal_p_def nom_lexers [OF assms] nom_combinators [OF assms] then_p_def span0_def span1_def
      option.map_comp comp_def split: option.splits)

lemma name_p_eval:
  assumes "nom_laws N"
  shows "name_p N i =
    (if takeWhile is_alpha (skip i) = [] then None
     else Some (skip (dropWhile is_alpha (skip i)), P_Str (takeWhile is_alpha (skip i))))"
  by (simp add: name_p_def nom_lexers [OF assms] nom_combinators [OF assms] then_p_def span0_def span1_def)

section \<open>Parsers do not lengthen the input\<close>

lemma shrinks_span [intro]: "shrinks (span0 P)" "shrinks (span1 P)"
  by (auto simp: shrinks_def span0_def span1_def length_dropWhile_le split: if_splits)

lemma shrinks_then [intro]: "shrinks p \<Longrightarrow> (\<And>v. shrinks (f v)) \<Longrightarrow> shrinks (then_p p f)"
  unfolding shrinks_def then_p_def by (fastforce split: option.splits intro: order_trans)

lemma shrinks_return [intro]: "shrinks (\<lambda>r. Some (r, v))" "shrinks (\<lambda>r. map_option (Pair r) x)"
  by (auto simp: shrinks_def)

lemma shrinks_first_ok [intro]: "(\<And>p. p \<in> set ps \<Longrightarrow> shrinks p) \<Longrightarrow> shrinks (first_ok ps)"
proof (induction ps)
  case Nil
  then show ?case by (simp add: shrinks_def)
next
  case (Cons p ps)
  then have "shrinks p" "shrinks (first_ok ps)" by simp_all
  then show ?case unfolding shrinks_def by (auto split: option.splits)
qed

lemma shrinks_tag [intro]: "nom_laws N \<Longrightarrow> shrinks (tag N t)"
  by (auto simp: shrinks_def nom_lexers split: if_splits)

lemma shrinks_specifiers:
  assumes "nom_laws N"
  shows "shrinks (root_specifier_p N)" and "shrinks (root_specifier_with_any_p N)"
proof -
  note l = nom_lexers(2-4) [OF assms] and c = nom_combinators(1,3,4,6,7) [OF assms]
  have o: "shrinks (ordinal_p N)" "shrinks (name_p N)"
    unfolding ordinal_p_def name_p_def l c by (intro shrinks_then shrinks_span shrinks_return)+
  then have s: "shrinks (specifier_p N)"
    unfolding specifier_p_def all_p_def range_p_def point_p_def named_range_p_def c
    using assms by (intro shrinks_first_ok) (auto intro!: shrinks_then shrinks_return)
  then have sa: "shrinks (specifier_with_any_p N)"
    unfolding specifier_with_any_p_def any_p_def c using assms by (intro shrinks_first_ok) (auto intro!: shrinks_then shrinks_return)
  show "shrinks (root_specifier_p N)" "shrinks (root_specifier_with_any_p N)"
    unfolding root_specifier_p_def root_specifier_with_any_p_def period_p_def period_with_any_p_def named_point_p_def c
    using o s sa assms by (auto intro!: shrinks_first_ok shrinks_then shrinks_return)
qed

lemmas list_unfold = nom_laws_def [THEN iffD1, THEN conjunct2, THEN conjunct2, unfolded list_law_def, rule_format]

section \<open>Accepted expressions are well formed\<close>

lemma field_of_Some: "field_of u v = Some w \<Longrightarrow> \<exists>sp f. w = P_Field f \<and> from_field u sp = Inr f"
proof (induction u v rule: field_of.induct)
  case (1 u vs)
  then obtain sp where sp: "(case from_field u sp of Inr f \<Rightarrow> Some (P_Field f) | Inl _ \<Rightarrow> None) = Some w"
    by (cases "roots_of vs") auto
  then show ?case by (cases "from_field u sp") auto
qed simp_all

lemma field_p_Some:
  assumes "nom_laws N"
  shows "field_p N u i = Some (r, v) \<Longrightarrow> \<exists>sp f. v = P_Field f \<and> from_field u sp = Inr f"
    and "field_with_any_p N u i = Some (r, v) \<Longrightarrow> \<exists>sp f. v = P_Field f \<and> from_field u sp = Inr f"
  by (auto simp: field_p_def field_with_any_p_def nom_combinators [OF assms] then_p_def split: option.splits dest: field_of_Some)

lemma longhand_p_Some:
  assumes "nom_laws N" and "longhand_p N i = Some (r, v)"
  shows "\<exists>s. v = P_Fields s \<and> fields_ok s"
proof -
  obtain a b c d e f g i1 i2 i3 i4 i5 i6 i7 where
    p: "field_p N Seconds i = Some (i1, a)" "field_p N Minutes i1 = Some (i2, b)" "field_p N Hours i2 = Some (i3, c)"
      "field_with_any_p N DaysOfMonth i3 = Some (i4, d)" "field_p N Months i4 = Some (i5, e)"
      "field_with_any_p N DaysOfWeek i5 = Some (i6, f)" "opt N (field_p N Years) i6 = Some (i7, g)" and
    v: "v = to_schedule (P_List [a, b, c, d, e, f, g])"
    using assms(2) by (auto simp: longhand_p_def nom_combinators(3,8,9) [OF assms(1)] then_p_def split: option.splits prod.splits)
  obtain sa sb sc sd se sf fa fb fc fd fe ff where
    s: "a = P_Field fa" "from_field Seconds sa = Inr fa" "b = P_Field fb" "from_field Minutes sb = Inr fb"
      "c = P_Field fc" "from_field Hours sc = Inr fc" "d = P_Field fd" "from_field DaysOfMonth sd = Inr fd"
      "e = P_Field fe" "from_field Months se = Inr fe" "f = P_Field ff" "from_field DaysOfWeek sf = Inr ff"
    using field_p_Some(1) [OF assms(1) p(1)] field_p_Some(1) [OF assms(1) p(2)] field_p_Some(1) [OF assms(1) p(3)]
      field_p_Some(2) [OF assms(1) p(4)] field_p_Some(1) [OF assms(1) p(5)] field_p_Some(2) [OF assms(1) p(6)]
    by (elim exE conjE)
  obtain yr fg where y: "field_value g = fg" "(case yr of Some y \<Rightarrow> from_field Years y | None \<Rightarrow> Inr None) = Inr fg"
  proof (cases "field_p N Years i6")
    case None
    then show thesis using p(7) that [of None None] by (auto simp: nom_combinators(5) [OF assms(1)])
  next
    case (Some x)
    then obtain sp h where "snd x = P_Field h" "from_field Years sp = Inr h"
      using field_p_Some(1) [OF assms(1), of Years i6 "fst x" "snd x"] by auto
    then show thesis using p(7) Some that [of h "Some sp"] by (auto simp: nom_combinators(5) [OF assms(1)] split: prod.splits)
  qed
  have "longhand_fields sa sb sc sd se sf yr = Inr (ScheduleFields_new fa fb fc fd fe ff fg)"
    using s y by (simp add: longhand_fields_def then_do_def)
  then show ?thesis using longhand_fields_ok v s y(1) by (simp add: to_schedule_def)
qed

lemma schedule_from_str_ok:
  assumes "nom_laws N" and "schedule_from_str N e = Some s"
  shows "fields_ok s"
proof -
  from assms(2) obtain r where "schedule_p N e = Some (r, P_Fields s)"
    by (auto simp: schedule_from_str_def split: option.splits prod.splits parsed.splits)
  then consider r' where "shorthand_p N e = Some (r', P_Fields s)" | r' where "longhand_p N e = Some (r', P_Fields s)"
    by (auto simp: schedule_p_def nom_combinators(1,2) [OF assms(1)] split: option.splits prod.splits list.splits)
  then show ?thesis
  proof cases
    case 1
    then have "s \<in> {shorthand_yearly, shorthand_monthly, shorthand_weekly, shorthand_daily, shorthand_hourly}"
      by (auto simp: shorthand_p_def nom_combinators(1,3,6) [OF assms(1)] then_p_def split: option.splits prod.splits)
    then show ?thesis using shorthand_fields_ok by auto
  next
    case 2
    then show ?thesis using longhand_p_Some [OF assms(1) 2] by auto
  qed
qed

section \<open>Written expressions\<close>

text \<open>How specifiers, fields and expressions are written, and which can be.\<close>

fun show_spec :: "Specifier \<Rightarrow> string" where
  "show_spec All = ''*''"
| "show_spec (Point n) = show_nat n"
| "show_spec (Range a b) = show_nat a @ ''-'' @ show_nat b"
| "show_spec (NamedRange m n) = m @ ''-'' @ n"

fun show_root :: "RootSpecifier \<Rightarrow> string" where
  "show_root (RootSpecifier sp) = show_spec sp"
| "show_root (Period sp n) = show_spec sp @ ''/'' @ show_nat n"
| "show_root (NamedPoint n) = n"

fun show_field :: "RootSpecifier list \<Rightarrow> string" where
  "show_field [] = []"
| "show_field [r] = show_root r"
| "show_field (r # rs) = show_root r @ '','' @ show_field rs"

definition word_ok :: "string \<Rightarrow> bool" where "word_ok s \<longleftrightarrow> s \<noteq> [] \<and> list_all is_alpha s"

fun spec_ok :: "Specifier \<Rightarrow> bool" where
  "spec_ok All \<longleftrightarrow> True"
| "spec_ok (Point n) \<longleftrightarrow> n < 2 ^ 32"
| "spec_ok (Range a b) \<longleftrightarrow> a < 2 ^ 32 \<and> b < 2 ^ 32"
| "spec_ok (NamedRange m n) \<longleftrightarrow> word_ok m \<and> word_ok n"

fun root_ok :: "RootSpecifier \<Rightarrow> bool" where
  "root_ok (RootSpecifier sp) \<longleftrightarrow> spec_ok sp"
| "root_ok (Period sp n) \<longleftrightarrow> spec_ok sp \<and> n < 2 ^ 32"
| "root_ok (NamedPoint n) \<longleftrightarrow> word_ok n"

definition field_ok :: "RootSpecifier list \<Rightarrow> bool" where "field_ok rs \<longleftrightarrow> rs \<noteq> [] \<and> list_all root_ok rs"

text \<open>What may follow: no letter or digit at once, and no given character after the white space.\<close>

definition brk :: "string \<Rightarrow> bool" where "brk t \<longleftrightarrow> t = [] \<or> \<not> is_digit (hd t) \<and> \<not> is_alpha (hd t)"

definition no_char :: "char \<Rightarrow> string \<Rightarrow> bool" where "no_char c t \<longleftrightarrow> skip t = [] \<or> hd (skip t) \<noteq> c"

lemma no_char_starts: "no_char c t \<Longrightarrow> \<not> starts_with (skip t) [c]"
  by (cases "skip t") (auto simp: no_char_def starts_with_def simp del: dropWhile_eq_Nil_conv)

lemma show_nat_is_digit: "c \<in> set (show_nat n) \<Longrightarrow> is_digit c"
  using show_nat_digits [of c n] by (auto simp: is_digit_def)

lemma is_digit_iff: "is_digit c \<longleftrightarrow> 48 \<le> (of_char c :: nat) \<and> (of_char c :: nat) \<le> 57"
  by (simp add: is_digit_def digit_of_def Let_def)

lemma char_kinds:
  "is_digit c \<Longrightarrow> \<not> is_multispace c \<and> \<not> is_alpha c" "is_alpha c \<Longrightarrow> \<not> is_multispace c \<and> \<not> is_digit c"
  by (auto simp: is_digit_iff is_alpha_def is_multispace_def Let_def)

lemma takeWhile_brk:
  "list_all is_digit s \<Longrightarrow> brk t \<Longrightarrow> takeWhile is_digit (s @ t) = s \<and> dropWhile is_digit (s @ t) = t"
  "list_all is_alpha s \<Longrightarrow> brk t \<Longrightarrow> takeWhile is_alpha (s @ t) = s \<and> dropWhile is_alpha (s @ t) = t"
  by (cases t; auto simp: brk_def list_all_iff)+

lemma skip_no_space: "s \<noteq> [] \<Longrightarrow> \<not> is_multispace (hd s) \<Longrightarrow> skip (s @ t) = s @ t"
  by (cases s) auto

lemma hd_show_nat: "is_digit (hd (show_nat n))"
  by (rule show_nat_is_digit [of _ n]) simp

lemma ordinal_p_show:
  assumes "nom_laws N" and "n < 2 ^ 32" and "brk t"
  shows "ordinal_p N (show_nat n @ t) = Some (skip t, P_Ord n)"
proof -
  have d: "list_all is_digit (show_nat n)" by (auto simp: list_all_iff intro: show_nat_is_digit)
  have s: "skip (show_nat n @ t) = show_nat n @ t"
    using hd_show_nat char_kinds(1) by (intro skip_no_space) simp_all
  show ?thesis
    using takeWhile_brk(1) [OF d assms(3)] parse_unsigned_show [OF assms(2)]
    by (simp add: ordinal_p_eval [OF assms(1)] s)
qed

lemma name_p_show:
  assumes "nom_laws N" and "word_ok m" and "brk t"
  shows "name_p N (m @ t) = Some (skip t, P_Str m)"
proof -
  have m: "m \<noteq> []" "list_all is_alpha m" using assms(2) by (simp_all add: word_ok_def)
  then have "is_alpha (hd m)" by (cases m) auto
  then have s: "skip (m @ t) = m @ t" using m char_kinds(2) by (intro skip_no_space) simp_all
  show ?thesis using takeWhile_brk(2) [OF m(2) assms(3)] m by (simp add: name_p_eval [OF assms(1)] s)
qed

text \<open>An input that starts with a letter has no ordinal, one that starts with a digit or a star no name.\<close>

lemma ordinal_p_None: "nom_laws N \<Longrightarrow> i = [] \<or> \<not> is_multispace (hd i) \<and> \<not> is_digit (hd i) \<Longrightarrow> ordinal_p N i = None"
  by (cases i) (simp_all add: ordinal_p_eval)

lemma name_p_None: "nom_laws N \<Longrightarrow> i = [] \<or> \<not> is_multispace (hd i) \<and> \<not> is_alpha (hd i) \<Longrightarrow> name_p N i = None"
  by (cases i) (simp_all add: name_p_eval)

text \<open>Specifiers.\<close>

lemmas grammar_eval = first_ok.simps then_p_def option.case prod.case

lemma tag_single: "nom_laws N \<Longrightarrow> tag N [c] i = (case i of d # r \<Rightarrow> if c = d then Some (r, P_Str [c]) else None | [] \<Rightarrow> None)"
  by (cases i) (auto simp: nom_lexers(1) starts_with_def)

lemma brk_Cons: "\<not> is_digit c \<Longrightarrow> \<not> is_alpha c \<Longrightarrow> brk (c # t)"
  by (simp add: brk_def)

lemma punctuation:
  "c \<in> {CHR ''-'', CHR ''/'', CHR '','', CHR ''*'', CHR ''?''} \<Longrightarrow> \<not> is_digit c \<and> \<not> is_alpha c \<and> \<not> is_multispace c"
  by (auto simp: is_digit_iff is_alpha_def is_multispace_def)

lemma range_p_show:
  assumes "nom_laws N" and "a < 2 ^ 32" and "b < 2 ^ 32" and "brk t"
  shows "range_p N (show_nat a @ CHR ''-'' # show_nat b @ t) = Some (skip t, P_Spec (Range a b))"
proof -
  have "ordinal_p N (show_nat a @ CHR ''-'' # show_nat b @ t) = Some (CHR ''-'' # show_nat b @ t, P_Ord a)"
    using ordinal_p_show [OF assms(1,2), of "CHR ''-'' # show_nat b @ t"] punctuation [of "CHR ''-''"] by (simp add: brk_def)
  then show ?thesis using ordinal_p_show [OF assms(1,3,4)]
    by (simp add: range_p_def nom_combinators [OF assms(1)] then_p_def tag_single [OF assms(1)])
qed

lemma named_range_p_show:
  assumes "nom_laws N" and "word_ok m" and "word_ok n" and "brk t"
  shows "named_range_p N (m @ CHR ''-'' # n @ t) = Some (skip t, P_Spec (NamedRange m n))"
proof -
  have "name_p N (m @ CHR ''-'' # n @ t) = Some (CHR ''-'' # n @ t, P_Str m)"
    using name_p_show [OF assms(1,2), of "CHR ''-'' # n @ t"] punctuation [of "CHR ''-''"] by (simp add: brk_def)
  then show ?thesis using name_p_show [OF assms(1,3,4)]
    by (simp add: named_range_p_def nom_combinators [OF assms(1)] then_p_def tag_single [OF assms(1)])
qed

lemma range_p_None:
  assumes "nom_laws N" and "ordinal_p N i = None \<or> (\<exists>r v. ordinal_p N i = Some (r, v) \<and> \<not> starts_with r ''-'')"
  shows "range_p N i = None"
  using assms by (auto simp: range_p_def nom_combinators nom_lexers then_p_def)

lemma named_range_p_None:
  assumes "nom_laws N" and "name_p N i = None \<or> (\<exists>r v. name_p N i = Some (r, v) \<and> \<not> starts_with r ''-'')"
  shows "named_range_p N i = None"
  using assms by (auto simp: named_range_p_def nom_combinators nom_lexers then_p_def)

lemma all_p_None: "nom_laws N \<Longrightarrow> i = [] \<or> hd i \<noteq> CHR ''*'' \<Longrightarrow> all_p N i = None"
  by (cases i) (auto simp: all_p_def nom_combinators then_p_def tag_single)

definition after_spec :: "Specifier \<Rightarrow> string \<Rightarrow> string" where "after_spec sp t = (if sp = All then t else skip t)"

lemma hd_append_show: "hd (show_nat n @ t) = hd (show_nat n)"
  by simp

lemma specifier_p_show:
  assumes "nom_laws N" and "spec_ok sp" and "brk t" and "no_char (CHR ''-'') t"
  shows "specifier_p N (show_spec sp @ t) = Some (after_spec sp t, P_Spec sp)"
proof (cases sp)
  case All
  then show ?thesis
    by (simp add: specifier_p_def nom_combinators [OF assms(1)] all_p_def then_p_def tag_single [OF assms(1)] after_spec_def)
next
  case (Point n)
  have o: "ordinal_p N (show_nat n @ t) = Some (skip t, P_Ord n)" using ordinal_p_show [OF assms(1) _ assms(3)] assms(2) Point by simp
  have "hd (show_nat n) \<noteq> CHR ''*''" using hd_show_nat [of n] punctuation [of "CHR ''*''"] by auto
  then have "all_p N (show_nat n @ t) = None" using all_p_None [OF assms(1)] by simp
  moreover have "range_p N (show_nat n @ t) = None" using range_p_None [OF assms(1)] o no_char_starts [OF assms(4)] by blast
  ultimately show ?thesis using o Point
    by (simp add: specifier_p_def nom_combinators [OF assms(1)] point_p_def then_p_def after_spec_def)
next
  case (Range a b)
  have "hd (show_nat a) \<noteq> CHR ''*''" using hd_show_nat [of a] punctuation [of "CHR ''*''"] by auto
  then have "all_p N (show_nat a @ CHR ''-'' # show_nat b @ t) = None" using all_p_None [OF assms(1)] by simp
  then show ?thesis using range_p_show [OF assms(1) _ _ assms(3), of a b] assms(2) Range
    by (simp add: specifier_p_def nom_combinators [OF assms(1)] after_spec_def)
next
  case (NamedRange m n)
  then have m: "m \<noteq> []" "is_alpha (hd m)" using assms(2) by (auto simp: word_ok_def list_all_iff)
  let ?i = "m @ CHR ''-'' # n @ t"
  have "hd m \<noteq> CHR ''*''" using m punctuation [of "CHR ''*''"] by auto
  then have "all_p N ?i = None" using m all_p_None [OF assms(1), of ?i] by simp
  moreover have o: "ordinal_p N ?i = None" using m char_kinds(2) ordinal_p_None [OF assms(1), of ?i] by auto
  moreover have "range_p N ?i = None" using range_p_None [OF assms(1)] o by blast
  ultimately show ?thesis using named_range_p_show [OF assms(1) _ _ assms(3), of m n] assms(2) NamedRange
    by (simp add: specifier_p_def nom_combinators [OF assms(1)] point_p_def then_p_def after_spec_def)
qed

text \<open>Root specifiers, with and without \<open>?\<close>.\<close>

definition ends :: "string \<Rightarrow> bool" where
  "ends t \<longleftrightarrow> brk t \<and> no_char (CHR ''-'') t \<and> no_char (CHR ''/'') t \<and> (t = [] \<or> hd t \<noteq> CHR ''/'')"

lemma ends_after_spec: "ends t \<Longrightarrow> \<not> starts_with (after_spec sp t) ''/''"
  using no_char_starts [of "CHR ''/''" t] by (cases t) (auto simp: ends_def after_spec_def starts_with_def)

lemma period_p_None:
  assumes "nom_laws N" and "specifier_p N i = None \<or> (\<exists>r v. specifier_p N i = Some (r, v) \<and> \<not> starts_with r ''/'')"
  shows "period_p N i = None"
  using assms by (auto simp: period_p_def nom_combinators nom_lexers then_p_def)

lemma period_p_show:
  assumes "nom_laws N" and "spec_ok sp" and "n < 2 ^ 32" and "brk t"
  shows "period_p N (show_spec sp @ CHR ''/'' # show_nat n @ t) = Some (skip t, P_Root (Period sp n))"
proof -
  let ?t = "CHR ''/'' # show_nat n @ t"
  have s: "skip ?t = ?t" and b: "brk ?t" and d: "no_char (CHR ''-'') ?t"
    using punctuation [of "CHR ''/''"] by (simp_all add: brk_def no_char_def)
  show ?thesis using specifier_p_show [OF assms(1,2) b d] ordinal_p_show [OF assms(1,3,4)] s
    by (simp add: period_p_def nom_combinators [OF assms(1)] then_p_def tag_single [OF assms(1)] after_spec_def)
qed

lemma specifier_p_word:
  assumes "nom_laws N" and "word_ok m" and "ends t"
  shows "specifier_p N (m @ t) = None"
proof -
  have m: "m \<noteq> []" "is_alpha (hd m)" using assms(2) by (auto simp: word_ok_def list_all_iff)
  then have "hd m \<noteq> CHR ''*''" using punctuation [of "CHR ''*''"] by auto
  then have a: "all_p N (m @ t) = None" using m all_p_None [OF assms(1), of "m @ t"] by simp
  have o: "ordinal_p N (m @ t) = None" using m char_kinds(2) ordinal_p_None [OF assms(1), of "m @ t"] by auto
  have "brk t" "no_char (CHR ''-'') t" using assms(3) by (simp_all add: ends_def)
  then have "name_p N (m @ t) = Some (skip t, P_Str m)" "\<not> starts_with (skip t) ''-''"
    using name_p_show [OF assms(1,2)] no_char_starts by simp_all
  then have "named_range_p N (m @ t) = None" by (intro named_range_p_None [OF assms(1)]) simp
  then show ?thesis using a o range_p_None [OF assms(1)]
    by (simp add: specifier_p_def nom_combinators [OF assms(1)] point_p_def then_p_def)
qed

fun after_root :: "RootSpecifier \<Rightarrow> string \<Rightarrow> string" where
  "after_root (RootSpecifier sp) t = after_spec sp t"
| "after_root _ t = skip t"

lemma root_specifier_p_show:
  assumes "nom_laws N" and "root_ok r" and "ends t"
  shows "root_specifier_p N (show_root r @ t) = Some (after_root r t, P_Root r)"
proof (cases r)
  case (RootSpecifier sp)
  then have s: "specifier_p N (show_spec sp @ t) = Some (after_spec sp t, P_Spec sp)"
    using specifier_p_show [OF assms(1)] assms(2,3) by (simp add: ends_def)
  then have "period_p N (show_spec sp @ t) = None" using period_p_None [OF assms(1)] ends_after_spec [OF assms(3)] by blast
  then show ?thesis using s RootSpecifier by (simp add: root_specifier_p_def nom_combinators [OF assms(1)] then_p_def)
next
  case (Period sp n)
  then show ?thesis using period_p_show [OF assms(1), of sp n t] assms(2,3)
    by (simp add: root_specifier_p_def nom_combinators [OF assms(1)] ends_def)
next
  case (NamedPoint n)
  then have "specifier_p N (n @ t) = None" using specifier_p_word [OF assms(1)] assms(2,3) by simp
  then show ?thesis using period_p_None [OF assms(1)] name_p_show [OF assms(1), of n t] NamedPoint assms(2,3)
    by (simp add: root_specifier_p_def nom_combinators [OF assms(1)] then_p_def named_point_p_def ends_def)
qed

definition start_char :: "char \<Rightarrow> bool" where "start_char c \<longleftrightarrow> c = CHR ''*'' \<or> is_digit c \<or> is_alpha c"

lemma start_show_spec: "spec_ok sp \<Longrightarrow> show_spec sp \<noteq> [] \<and> start_char (hd (show_spec sp))"
  using hd_show_nat by (cases sp) (auto simp: start_char_def word_ok_def list_all_iff)

lemma start_show_root: "root_ok r \<Longrightarrow> show_root r \<noteq> [] \<and> start_char (hd (show_root r))"
  using start_show_spec by (cases r) (auto simp: start_char_def word_ok_def list_all_iff)

lemma start_char_not: "start_char c \<Longrightarrow> c \<notin> {CHR ''-'', CHR ''/'', CHR '','', CHR ''?'', CHR ''@''} \<and> \<not> is_multispace c"
  using char_kinds [of c] punctuation [of c] by (auto simp: start_char_def is_digit_iff is_alpha_def)

lemma then_p_cong: "p i = q i \<Longrightarrow> then_p p f i = then_p q f i"
  by (simp add: then_p_def)

lemma with_any_same:
  assumes "nom_laws N" and "i \<noteq> []" and "hd i \<noteq> CHR ''?''"
  shows "root_specifier_with_any_p N i = root_specifier_p N i"
proof -
  have "specifier_with_any_p N i = specifier_p N i" using assms
    by (cases i) (auto simp: specifier_with_any_p_def any_p_def nom_combinators then_p_def tag_single split: option.splits)
  then have "then_p (specifier_with_any_p N) f i = then_p (specifier_p N) f i" for f by (rule then_p_cong)
  moreover from this have "period_with_any_p N i = period_p N i"
    unfolding period_with_any_p_def period_p_def nom_combinators(3,7) [OF assms(1)] by (rule then_p_cong)
  ultimately show ?thesis
    by (simp add: root_specifier_with_any_p_def root_specifier_p_def nom_combinators(1,3) [OF assms(1)] cong: option.case_cong)
qed

text \<open>Fields: lists of root specifiers, read by either item parser.\<close>

definition reads_roots :: "parser \<Rightarrow> bool" where
  "reads_roots P \<longleftrightarrow> shrinks P \<and> (\<forall>r t. root_ok r \<longrightarrow> ends t \<longrightarrow> P (show_root r @ t) = Some (after_root r t, P_Root r))"

lemma reads_roots:
  assumes "nom_laws N"
  shows "reads_roots (root_specifier_p N)" and "reads_roots (root_specifier_with_any_p N)"
proof -
  show 1: "reads_roots (root_specifier_p N)"
    using shrinks_specifiers(1) [OF assms] root_specifier_p_show [OF assms] by (simp add: reads_roots_def)
  have "root_specifier_with_any_p N (show_root r @ t) = root_specifier_p N (show_root r @ t)" if "root_ok r" for r t
    using start_show_root [OF that] start_char_not [of "hd (show_root r)"] by (intro with_any_same [OF assms]) simp_all
  then show "reads_roots (root_specifier_with_any_p N)"
    using 1 shrinks_specifiers(2) [OF assms] by (simp add: reads_roots_def)
qed

definition field_ends :: "string \<Rightarrow> bool" where
  "field_ends t \<longleftrightarrow> ends t \<and> no_char (CHR '','') t \<and> (t = [] \<or> hd t \<noteq> CHR '','')"

lemma skip_after_root [simp]: "skip (after_root r t) = skip t"
  by (cases r) (simp_all add: after_spec_def dropWhile_idem)

lemma after_root_no_comma: "field_ends t \<Longrightarrow> \<not> starts_with (after_root r t) '',''"
  using no_char_starts [of "CHR '',''" t] by (cases t; cases r) (auto simp: field_ends_def after_spec_def starts_with_def)

lemma comma_tail: "ends (CHR '','' # t)" "after_root r (CHR '','' # t) = CHR '','' # t"
  using punctuation [of "CHR '',''"] by (simp add: ends_def brk_def no_char_def, cases r) (simp_all add: after_spec_def)

lemma list_show:
  assumes "nom_laws N" and "reads_roots P" and "field_ok rs" and "field_ends t"
  shows "\<exists>t'. separated_list1 N (tag N '','') P (show_field rs @ t) = Some (t', P_List (map P_Root rs)) \<and> skip t' = skip t"
  using assms(3)
proof (induction rs rule: show_field.induct)
  case (2 r)
  then have "P (show_root r @ t) = Some (after_root r t, P_Root r)"
    using assms(2,4) by (simp add: reads_roots_def field_ok_def field_ends_def)
  then show ?case using after_root_no_comma [OF assms(4), of r] assms(2)
    by (subst list_unfold [OF assms(1)]) (simp_all add: reads_roots_def nom_lexers(1) [OF assms(1)])
next
  case (3 r r2 rs)
  let ?t = "show_field (r2 # rs) @ t"
  obtain t' where IH: "separated_list1 N (tag N '','') P ?t = Some (t', P_List (map P_Root (r2 # rs)))" "skip t' = skip t"
    using 3 by (auto simp: field_ok_def)
  have "P (show_root r @ CHR '','' # ?t) = Some (CHR '','' # ?t, P_Root r)"
    using assms(2) 3(2) comma_tail(1) comma_tail(2) [of r] by (simp add: reads_roots_def field_ok_def)
  then show ?case using IH assms(2)
    by (subst list_unfold [OF assms(1)]) (simp_all add: reads_roots_def tag_single [OF assms(1)])
qed (simp add: field_ok_def)

lemma start_show_field: "field_ok rs \<Longrightarrow> show_field rs \<noteq> [] \<and> start_char (hd (show_field rs))"
  using start_show_root by (induction rs rule: show_field.induct) (auto simp: field_ok_def)

lemma spaced_list:
  assumes "nom_laws N" and "reads_roots P" and "field_ok rs" and "field_ends t"
  shows "delimited N (multispace0 N) (alt N [separated_list1 N (tag N '','') P, q]) (multispace0 N) (show_field rs @ t)
    = Some (skip t, P_List (map P_Root rs))"
proof -
  obtain t' where t': "separated_list1 N (tag N '','') P (show_field rs @ t) = Some (t', P_List (map P_Root rs))" "skip t' = skip t"
    using list_show [OF assms] by blast
  have "skip (show_field rs @ t) = show_field rs @ t"
    using start_show_field [OF assms(3)] start_char_not by (intro skip_no_space) auto
  then show ?thesis using t' by (simp add: nom_combinators [OF assms(1)] nom_lexers [OF assms(1)] then_p_def span0_def)
qed

lemma roots_of_map [simp]: "roots_of (map P_Root rs) = Some rs"
  by (induction rs) auto

definition field_result :: "time_unit \<Rightarrow> RootSpecifier list \<Rightarrow> string \<Rightarrow> (string \<times> parsed) option" where
  "field_result u rs t = (case from_field u rs of Inr f \<Rightarrow> Some (skip t, P_Field f) | Inl _ \<Rightarrow> None)"

lemma field_p_show:
  assumes "nom_laws N" and "field_ok rs" and "field_ends t"
  shows "field_p N u (show_field rs @ t) = field_result u rs t"
    and "field_with_any_p N u (show_field rs @ t) = field_result u rs t"
  using spaced_list [OF assms(1) reads_roots(1) [OF assms(1)] assms(2,3)] spaced_list [OF assms(1) reads_roots(2) [OF assms(1)] assms(2,3)]
  by (simp_all add: field_p_def field_with_any_p_def root_specifier_list_p_def root_specifier_list_with_any_p_def Let_def
      nom_combinators(4) [OF assms(1)] then_p_def field_result_def split: sum.splits)

section \<open>Whole expressions\<close>

definition spaced :: "string \<Rightarrow> string" where "spaced s = CHR '' '' # s"

lemma skip_spaced: "s \<noteq> [] \<Longrightarrow> start_char (hd s) \<Longrightarrow> skip (spaced s) = s"
  using start_char_not [of "hd s"] by (cases s) (auto simp: spaced_def is_multispace_def)

lemma field_ends_spaced: "s \<noteq> [] \<Longrightarrow> start_char (hd s) \<Longrightarrow> field_ends (spaced s)"
  using skip_spaced [of s] start_char_not [of "hd s"]
  by (auto simp: field_ends_def ends_def brk_def no_char_def spaced_def is_digit_iff is_alpha_def)

lemma field_ends_Nil: "field_ends []"
  by (simp add: field_ends_def ends_def brk_def no_char_def)

fun year_text :: "RootSpecifier list option \<Rightarrow> string" where
  "year_text None = []"
| "year_text (Some y) = spaced (show_field y)"

definition show_expression :: "RootSpecifier list \<Rightarrow> RootSpecifier list \<Rightarrow> RootSpecifier list \<Rightarrow> RootSpecifier list \<Rightarrow> RootSpecifier list \<Rightarrow> RootSpecifier list \<Rightarrow> RootSpecifier list option \<Rightarrow> string" where
  "show_expression sec mi h md mon wd yr =
     show_field sec @ spaced (show_field mi @ spaced (show_field h @ spaced (show_field md @ spaced (show_field mon @
       spaced (show_field wd @ year_text yr)))))"

lemma field_then:
  assumes "nom_laws N" and "field_ok rs" and "s \<noteq> []" and "start_char (hd s)"
  shows "field_p N u (show_field rs @ spaced s) = (case from_field u rs of Inr f \<Rightarrow> Some (s, P_Field f) | Inl _ \<Rightarrow> None)"
    and "field_with_any_p N u (show_field rs @ spaced s) = (case from_field u rs of Inr f \<Rightarrow> Some (s, P_Field f) | Inl _ \<Rightarrow> None)"
  using field_p_show [OF assms(1,2) field_ends_spaced [OF assms(3,4)]] skip_spaced [OF assms(3,4)]
  by (simp_all add: field_result_def cong: sum.case_cong)

lemma start_append: "field_ok rs \<Longrightarrow> show_field rs @ t \<noteq> [] \<and> start_char (hd (show_field rs @ t))"
  using start_show_field by auto

lemma last_fields:
  assumes "nom_laws N" and "field_ok wd" and "pred_option field_ok yr"
  shows "field_with_any_p N u (show_field wd @ year_text yr) =
      (case from_field u wd of Inr f \<Rightarrow> Some (skip (year_text yr), P_Field f) | Inl _ \<Rightarrow> None)"
    and "opt N (field_p N Years) (skip (year_text yr)) =
      (case yr of
         None \<Rightarrow> Some ([], P_Opt None)
       | Some y \<Rightarrow> (case from_field Years y of Inr f \<Rightarrow> Some ([], P_Opt (Some (P_Field f))) | Inl _ \<Rightarrow> Some (show_field y, P_Opt None)))"
proof -
  have "field_ends (year_text yr)"
    using assms(3) field_ends_Nil field_ends_spaced start_show_field by (cases yr) auto
  then show "field_with_any_p N u (show_field wd @ year_text yr) =
      (case from_field u wd of Inr f \<Rightarrow> Some (skip (year_text yr), P_Field f) | Inl _ \<Rightarrow> None)"
    using field_p_show(2) [OF assms(1,2)] by (simp add: field_result_def)
  show "opt N (field_p N Years) (skip (year_text yr)) =
      (case yr of
         None \<Rightarrow> Some ([], P_Opt None)
       | Some y \<Rightarrow> (case from_field Years y of Inr f \<Rightarrow> Some ([], P_Opt (Some (P_Field f))) | Inl _ \<Rightarrow> Some (show_field y, P_Opt None)))"
  proof (cases yr)
    case None
    have "ordinal_p N [] = None" "name_p N [] = None" "all_p N [] = None"
      using ordinal_p_None [OF assms(1)] name_p_None [OF assms(1)] all_p_None [OF assms(1)] by simp_all
    moreover from this have "range_p N [] = None" "named_range_p N [] = None"
      using range_p_None [OF assms(1)] named_range_p_None [OF assms(1)] by blast+
    ultimately have "root_specifier_p N [] = None"
      by (simp add: root_specifier_p_def specifier_p_def period_p_def point_p_def named_point_p_def nom_combinators [OF assms(1)] then_p_def)
    then have "field_p N Years [] = None"
      using list_unfold [OF assms(1) shrinks_specifiers(1) [OF assms(1)], of "CHR '',''" "[]"]
      by (simp add: field_p_def root_specifier_list_p_def Let_def nom_combinators [OF assms(1)] nom_lexers [OF assms(1)] then_p_def span0_def)
    then show ?thesis using None by (simp add: nom_combinators(5) [OF assms(1)])
  next
    case (Some y)
    then have y: "field_ok y" and s: "skip (spaced (show_field y)) = show_field y" using assms(3) skip_spaced start_show_field by auto
    then show ?thesis using Some field_p_show(1) [OF assms(1) y field_ends_Nil, of Years]
      by (simp add: nom_combinators(5) [OF assms(1)] field_result_def split: sum.splits)
  qed
qed

lemma shorthand_p_None:
  assumes "nom_laws N" and "i \<noteq> []" and "start_char (hd i)"
  shows "shorthand_p N i = None"
proof -
  have "hd i \<noteq> CHR ''@''" "skip i = i" using assms(2,3) start_char_not [of "hd i"] by (cases i; simp)+
  then show ?thesis using assms(2)
    by (cases i) (simp_all add: shorthand_p_def nom_combinators [OF assms(1)] nom_lexers [OF assms(1)] then_p_def span0_def starts_with_def)
qed

lemma seq_field:
  "p i = (case x of Inr f \<Rightarrow> Some (s, P_Field f) | Inl _ \<Rightarrow> None) \<Longrightarrow>
   seq_p (p # ps) i = (case x of Inr f \<Rightarrow> map_option (\<lambda>(r, vs). (r, P_Field f # vs)) (seq_p ps s) | Inl _ \<Rightarrow> None)"
  by (cases x) simp_all

lemma seven_fields:
  assumes "nom_laws N" and ok: "list_all field_ok [sec, mi, h, md, mon, wd]" and y: "pred_option field_ok yr"
  shows "seq_p [field_p N Seconds, field_p N Minutes, field_p N Hours, field_with_any_p N DaysOfMonth, field_p N Months,
                 field_with_any_p N DaysOfWeek, opt N (field_p N Years)] (show_expression sec mi h md mon wd yr) =
    (case from_field Seconds sec of Inl _ \<Rightarrow> None | Inr a \<Rightarrow> map_option (\<lambda>(r, vs). (r, P_Field a # vs))
    (case from_field Minutes mi of Inl _ \<Rightarrow> None | Inr a \<Rightarrow> map_option (\<lambda>(r, vs). (r, P_Field a # vs))
    (case from_field Hours h of Inl _ \<Rightarrow> None | Inr a \<Rightarrow> map_option (\<lambda>(r, vs). (r, P_Field a # vs))
    (case from_field DaysOfMonth md of Inl _ \<Rightarrow> None | Inr a \<Rightarrow> map_option (\<lambda>(r, vs). (r, P_Field a # vs))
    (case from_field Months mon of Inl _ \<Rightarrow> None | Inr a \<Rightarrow> map_option (\<lambda>(r, vs). (r, P_Field a # vs))
    (case from_field DaysOfWeek wd of Inl _ \<Rightarrow> None | Inr a \<Rightarrow> map_option (\<lambda>(r, vs). (r, P_Field a # vs))
      (seq_p [opt N (field_p N Years)] (skip (year_text yr)))))))))"
proof -
  have o: "field_ok sec" "field_ok mi" "field_ok h" "field_ok md" "field_ok mon" "field_ok wd" using ok by simp_all
  have s: "t = show_field rs @ u \<Longrightarrow> field_ok rs \<Longrightarrow> t \<noteq> [] \<and> start_char (hd t)" for t rs u using start_append by simp
  define s6 where "s6 = show_field wd @ year_text yr"
  define s5 where "s5 = show_field mon @ spaced s6"
  define s4 where "s4 = show_field md @ spaced s5"
  define s3 where "s3 = show_field h @ spaced s4"
  define s2 where "s2 = show_field mi @ spaced s3"
  note st = s [OF s6_def o(6)] s [OF s5_def o(5)] s [OF s4_def o(4)] s [OF s3_def o(3)] s [OF s2_def o(2)]
  have e: "show_expression sec mi h md mon wd yr = show_field sec @ spaced s2"
    by (simp add: show_expression_def s2_def s3_def s4_def s5_def s6_def)
  have l: "field_with_any_p N DaysOfWeek s6 =
      (case from_field DaysOfWeek wd of Inr f \<Rightarrow> Some (skip (year_text yr), P_Field f) | Inl _ \<Rightarrow> None)"
    unfolding s6_def using last_fields(1) [OF assms(1) o(6) y] .
  show ?thesis unfolding e
      seq_field [where p = "field_p N Seconds", OF field_then(1) [OF assms(1) o(1) st(5) [THEN conjunct1] st(5) [THEN conjunct2]]]
      seq_field [where p = "field_p N Minutes", OF field_then(1) [OF assms(1) o(2) st(4) [THEN conjunct1] st(4) [THEN conjunct2], folded s2_def]]
      seq_field [where p = "field_p N Hours", OF field_then(1) [OF assms(1) o(3) st(3) [THEN conjunct1] st(3) [THEN conjunct2], folded s3_def]]
      seq_field [where p = "field_with_any_p N DaysOfMonth", OF field_then(2) [OF assms(1) o(4) st(2) [THEN conjunct1] st(2) [THEN conjunct2], folded s4_def]]
      seq_field [where p = "field_p N Months", OF field_then(1) [OF assms(1) o(5) st(1) [THEN conjunct1] st(1) [THEN conjunct2], folded s5_def]]
      seq_field [where p = "field_with_any_p N DaysOfWeek", OF l]
    by (rule refl)
qed

lemma to_schedule_seven:
  "to_schedule (P_List [a, b, c, d, e, f, g]) = P_Fields (ScheduleFields_new (field_value a) (field_value b) (field_value c)
     (field_value d) (field_value e) (field_value f) (field_value g))"
  by (simp add: to_schedule_def)

lemma longhand_p_show:
  assumes "nom_laws N" and ok: "list_all field_ok [sec, mi, h, md, mon, wd]" and y: "pred_option field_ok yr"
  shows "longhand_p N (show_expression sec mi h md mon wd yr) =
    (case longhand_fields sec mi h md mon wd yr of Inr s \<Rightarrow> Some ([], P_Fields s) | Inl _ \<Rightarrow> None)"
proof -
  have wd: "field_ok wd" using ok by simp
  have L: "longhand_p N i =
      (case seq_p [field_p N Seconds, field_p N Minutes, field_p N Hours, field_with_any_p N DaysOfMonth, field_p N Months,
                   field_with_any_p N DaysOfWeek, opt N (field_p N Years)] i of
         None \<Rightarrow> None
       | Some (r, vs) \<Rightarrow> if r = [] then Some ([], to_schedule (P_List vs)) else None)" for i
    by (simp add: longhand_p_def nom_combinators(3,8,9) [OF assms(1)] nom_lexers(5) [OF assms(1)] then_p_def
        del: seq_p.simps split: option.splits prod.splits)
  note e = longhand_fields_def then_do_def
  have years: "seq_p [opt N (field_p N Years)] (skip (year_text yr)) =
      (case yr of
         None \<Rightarrow> Some ([], [P_Opt None])
       | Some y \<Rightarrow> (case from_field Years y of Inr f \<Rightarrow> Some ([], [P_Opt (Some (P_Field f))]) | Inl _ \<Rightarrow> Some (show_field y, [P_Opt None])))"
    using last_fields(2) [OF assms(1) wd y] by (simp split: option.splits sum.splits)
  consider e0 where "from_field Seconds sec = Inl e0" | e0 a where "from_field Seconds sec = Inr a" "from_field Minutes mi = Inl e0"
    | e0 a b where "from_field Seconds sec = Inr a" "from_field Minutes mi = Inr b" "from_field Hours h = Inl e0"
    | e0 a b c where "from_field Seconds sec = Inr a" "from_field Minutes mi = Inr b" "from_field Hours h = Inr c" "from_field DaysOfMonth md = Inl e0"
    | e0 a b c d where "from_field Seconds sec = Inr a" "from_field Minutes mi = Inr b" "from_field Hours h = Inr c"
        "from_field DaysOfMonth md = Inr d" "from_field Months mon = Inl e0"
    | e0 a b c d f where "from_field Seconds sec = Inr a" "from_field Minutes mi = Inr b" "from_field Hours h = Inr c"
        "from_field DaysOfMonth md = Inr d" "from_field Months mon = Inr f" "from_field DaysOfWeek wd = Inl e0"
    | a b c d f g where "from_field Seconds sec = Inr a" "from_field Minutes mi = Inr b" "from_field Hours h = Inr c"
        "from_field DaysOfMonth md = Inr d" "from_field Months mon = Inr f" "from_field DaysOfWeek wd = Inr g"
    by (metis old.sum.exhaust)
  then show ?thesis
  proof cases
    case (7 a b c d f g)
    then show ?thesis
    proof (cases yr)
      case (Some z)
      then have "show_field z \<noteq> []" using y start_show_field by simp
      then show ?thesis unfolding L seven_fields [OF assms] years using 7 Some
        by (cases "from_field Years z") (simp_all add: e to_schedule_seven)
    next
      case None
      then show ?thesis unfolding L seven_fields [OF assms] years using 7 by (simp add: e to_schedule_seven)
    qed
  qed (unfold L seven_fields [OF assms], simp_all add: e del: seq_p.simps)
qed

lemma schedule_from_str_show:
  assumes "nom_laws N" and ok: "list_all field_ok [sec, mi, h, md, mon, wd]" and y: "pred_option field_ok yr"
  shows "schedule_from_str N (show_expression sec mi h md mon wd yr) =
    (case longhand_fields sec mi h md mon wd yr of Inr s \<Rightarrow> Some s | Inl _ \<Rightarrow> None)"
proof -
  have "shorthand_p N (show_expression sec mi h md mon wd yr) = None"
    using ok start_append [of sec] by (intro shorthand_p_None [OF assms(1)]) (simp_all add: show_expression_def)
  then show ?thesis using longhand_p_show [OF assms]
    by (simp add: schedule_from_str_def schedule_p_def nom_combinators(1,2) [OF assms(1)] split: sum.splits)
qed

section \<open>A parser library\<close>

fun list_fuel :: "nat \<Rightarrow> parser \<Rightarrow> parser \<Rightarrow> parser" where
  "list_fuel 0 sep p i = None"
| "list_fuel (Suc n) sep p i =
     (case p i of
        None \<Rightarrow> None
      | Some (r, v) \<Rightarrow>
          (case (case sep r of None \<Rightarrow> None | Some (r1, _) \<Rightarrow> list_fuel n sep p r1) of
             Some (r2, P_List vs) \<Rightarrow> Some (r2, P_List (v # vs))
           | _ \<Rightarrow> Some (r, P_List [v])))"

lemma list_fuel_enough:
  assumes "shrinks p" and "\<And>r r1 v. sep r = Some (r1, v) \<Longrightarrow> length r1 < length r"
  shows "length i < n \<Longrightarrow> length i < m \<Longrightarrow> list_fuel n sep p i = list_fuel m sep p i"
proof (induction n arbitrary: i m)
  case (Suc n)
  then obtain k where k: "m = Suc k" by (cases m) auto
  have "list_fuel n sep p r1 = list_fuel k sep p r1" if "p i = Some (r, v)" and "sep r = Some (r1, w)" for r v r1 w
  proof -
    have "length r1 < length i" using that assms by (fastforce simp: shrinks_def intro: less_le_trans)
    then show ?thesis using Suc.prems k by (intro Suc.IH) simp_all
  qed
  then show ?case unfolding k by (auto split: option.splits)
qed simp

definition sample_tag :: "string \<Rightarrow> parser" where
  "sample_tag t i = (if starts_with i t then Some (drop (length t) i, P_Str t) else None)"

definition sample_nom :: nom where
  "sample_nom = \<lparr>
     alt = first_ok, tag = sample_tag, alpha1 = span1 is_alpha, digit1 = span1 is_digit, multispace0 = span0 is_multispace,
     all_consuming = (\<lambda>p i. case p i of Some ([], v) \<Rightarrow> Some ([], v) | _ \<Rightarrow> None),
     eof = (\<lambda>i. if i = [] then Some ([], P_Str []) else None),
     map_p = (\<lambda>p f. then_p p (\<lambda>v r. Some (r, f v))),
     map_res = (\<lambda>p f. then_p p (\<lambda>v r. map_option (Pair r) (f v))),
     opt = (\<lambda>p i. case p i of Some (r, v) \<Rightarrow> Some (r, P_Opt (Some v)) | None \<Rightarrow> Some (i, P_Opt None)),
     separated_list1 = (\<lambda>sep p i. list_fuel (Suc (length i)) sep p i),
     delimited = (\<lambda>a p b. then_p a (\<lambda>_. then_p p (\<lambda>v. then_p b (\<lambda>_ r. Some (r, v))))),
     separated_pair = (\<lambda>a s b. then_p a (\<lambda>v. then_p s (\<lambda>_. then_p b (\<lambda>w r. Some (r, P_Pair v w))))),
     terminated = (\<lambda>p b. then_p p (\<lambda>v. then_p b (\<lambda>_ r. Some (r, v)))),
     tuple = (\<lambda>ps i. map_option (\<lambda>(r, vs). (r, P_List vs)) (seq_p ps i))\<rparr>"

lemma sample_tag_consumes: "sample_tag [c] r = Some (r1, v) \<Longrightarrow> length r1 < length r"
  by (cases r) (auto simp: sample_tag_def starts_with_def split: if_splits)

lemma sample_list_law: "list_law sample_nom"
  unfolding list_law_def
proof (intro allI impI)
  fix c p i
  assume p: "shrinks p"
  have "list_fuel (length i) (sample_tag [c]) p r1 = list_fuel (Suc (length r1)) (sample_tag [c]) p r1"
    if "p i = Some (r, v)" and "sample_tag [c] r = Some (r1, w)" for r v r1 w
  proof -
    have "length r1 < length i" using that p sample_tag_consumes by (fastforce simp: shrinks_def intro: less_le_trans)
    then show ?thesis using p sample_tag_consumes by (intro list_fuel_enough) auto
  qed
  then show "separated_list1 sample_nom (tag sample_nom [c]) p i =
       (case p i of
          None \<Rightarrow> None
        | Some (r, v) \<Rightarrow>
            (case (case tag sample_nom [c] r of None \<Rightarrow> None | Some (r1, _) \<Rightarrow> separated_list1 sample_nom (tag sample_nom [c]) p r1) of
               Some (r2, P_List vs) \<Rightarrow> Some (r2, P_List (v # vs))
             | _ \<Rightarrow> Some (r, P_List [v])))"
    by (auto simp: sample_nom_def split: option.splits)
qed

lemma sample_nom_laws: "nom_laws sample_nom"
  using sample_list_law by (simp add: nom_laws_def lexer_laws_def combinator_laws_def) (simp add: sample_nom_def sample_tag_def)

section \<open>Properties\<close>



text \<open>
  C14: An expression written from specifiers is read as those specifiers: with fields that are
  not empty, ordinals of 32 bits and names of letters, the schedule parsed from the text is the
  one assembled from the specifiers, and the expression is refused exactly when one of the
  fields, the year included, is not valid for its unit.
\<close>

theorem cron_expression_roundtrip:
  assumes "nom_laws N" and "list_all field_ok [sec, mi, h, md, mon, wd]" and "pred_option field_ok yr"
  shows "schedule_from_str N (show_expression sec mi h md mon wd yr) =
    (case longhand_fields sec mi h md mon wd yr of Inr s \<Rightarrow> Some s | Inl _ \<Rightarrow> None)"
  using assms by (rule schedule_from_str_show)

lemma digit_chars:
  "char_of (48 :: nat) = CHR ''0''" "char_of (49 :: nat) = CHR ''1''" "char_of (51 :: nat) = CHR ''3''"
  "char_of (55 :: nat) = CHR ''7''" "char_of (57 :: nat) = CHR ''9''"
  by code_simp+

theorem cron_expression_roundtrip_witness:
  "schedule_from_str sample_nom ''0 30 9,17 * * Mon-Fri'' =
     Some (ScheduleFields_new (Some [0]) (Some [30]) (Some [9, 17]) None None (Some [2, 3, 4, 5, 6]) None)"
proof -
  let ?P = "\<lambda>n. [RootSpecifier (Point n)]"
  let ?hours = "[RootSpecifier (Point 9), RootSpecifier (Point 17)]"
  let ?days = "[RootSpecifier (NamedRange ''Mon'' ''Fri'')]"
  have t: "show_expression (?P 0) (?P 30) ?hours [RootSpecifier All] [RootSpecifier All] ?days None = ''0 30 9,17 * * Mon-Fri''"
    by (simp add: show_expression_def spaced_def show_nat.simps digit_chars)
  have ok: "list_all field_ok [?P 0, ?P 30, ?hours, [RootSpecifier All], [RootSpecifier All], ?days]"
    by (simp add: field_ok_def word_ok_def is_alpha_def)
  have f: "from_field Seconds (?P 0) = Inr (Some [0])" "from_field Minutes (?P 30) = Inr (Some [30])"
    "from_field Hours ?hours = Inr (Some [9, 17])" "from_field DaysOfWeek ?days = Inr (Some [2, 3, 4, 5, 6])"
    "from_field DaysOfMonth [RootSpecifier All] = Inr None" "from_field Months [RootSpecifier All] = Inr None"
    by code_simp+
  have l: "longhand_fields (?P 0) (?P 30) ?hours [RootSpecifier All] [RootSpecifier All] ?days None =
     Inr (ScheduleFields_new (Some [0]) (Some [30]) (Some [9, 17]) None None (Some [2, 3, 4, 5, 6]) None)"
    using f by (simp add: longhand_fields_def then_do_def)
  show ?thesis using cron_expression_roundtrip [OF sample_nom_laws ok, of None] t l by simp
qed

end
