(* ===== verification/Properties_Fiber.thy ===== *)
theory Properties_Fiber
  imports Sample_Env
begin

text \<open>
  The properties of the fiber program: instructions survive compilation, every
  instruction of the program does to the stored fibers exactly what it promises, a fiber
  can only be closed or swapped by its thread, and where creation lacks that check.
  Each property is followed by a witness at a concrete store.
\<close>

section \<open>A store to evaluate\<close>

definition sample_ix :: Instruction where
  "sample_ix = \<lparr>program_id = [7],
     ix_accounts = [\<lparr>am_pubkey = [1], is_signer = True, is_writable = False\<rparr>,
                    \<lparr>am_pubkey = [2], is_signer = False, is_writable = False\<rparr>,
                    \<lparr>am_pubkey = [1], is_signer = False, is_writable = True\<rparr>],
     ix_data = [42]\<rparr>"

lemma sample_ix_keys: "card (instruction_keys sample_ix) \<le> 256"
  by (simp add: instruction_keys_def sample_ix_def card_insert_if)

definition sample_v1 :: "pubkey \<Rightarrow> u64 \<Rightarrow> FiberVersionedState" where
  "sample_v1 t fee = \<lparr>fv_version = 1, fv_thread = t, fv_compiled_instruction = [], fv_last_executed = 0,
     fv_exec_count = 0, fv_priority_fee = fee, fv_lookup_tables = []\<rparr>"

text \<open>
  Thread \<open>[9]\<close> owns the fibers at \<open>[5]\<close>, \<open>[6]\<close> and at its derived address 0; there is
  room behind their content.
\<close>

definition sample_fiber_account :: "pubkey \<Rightarrow> u64 \<Rightarrow> account" where
  "sample_fiber_account t fee = \<lparr>lamports = 50,
     acc_data = [2, 2, 2, 2, 2, 2, 2, 2] @ enc_versioned (sample_v1 t fee) @ replicate 120 0,
     acc_owner = FIBER_PROGRAM_ID\<rparr>"

definition sample_bank :: bank where
  "sample_bank k =
     (if k = [5] then sample_fiber_account [9] 1
      else if k = [6] then sample_fiber_account [9] 2
      else if k = fiber_pubkey sample_fiber_env [9] 0 then sample_fiber_account [9] 3
      else \<lparr>lamports = 2000, acc_data = [], acc_owner = SYSTEM_PROGRAM_ID\<rparr>)"

lemma sample_fibers:
  "fibers sample_fiber_env sample_bank [5] = Some (V1 (sample_v1 [9] 1))"
  "fibers sample_fiber_env sample_bank [6] = Some (V1 (sample_v1 [9] 2))"
  "fibers sample_fiber_env sample_bank (fiber_pubkey sample_fiber_env [9] 0) = Some (V1 (sample_v1 [9] 3))"
proof -
  have "fiber_pubkey sample_fiber_env [9] 0 \<noteq> [5]" "fiber_pubkey sample_fiber_env [9] 0 \<noteq> [6]" by code_simp+
  then show "fibers sample_fiber_env sample_bank [5] = Some (V1 (sample_v1 [9] 1))"
    "fibers sample_fiber_env sample_bank [6] = Some (V1 (sample_v1 [9] 2))"
    "fibers sample_fiber_env sample_bank (fiber_pubkey sample_fiber_env [9] 0) = Some (V1 (sample_v1 [9] 3))"
    by (simp_all add: try_deserialize_fiber_def sample_bank_def sample_fiber_account_def)
      (simp_all add: sample_fiber_env_def)
qed

lemma sample_lamports: "unat (lamports (sample_bank [9])) = 2000" "unat (lamports (sample_bank [6])) = 50"
proof -
  have "fiber_pubkey sample_fiber_env [9] 0 \<noteq> [9]" by code_simp
  then show "unat (lamports (sample_bank [9])) = 2000" "unat (lamports (sample_bank [6])) = 50"
    by (auto simp: sample_bank_def sample_fiber_account_def)
qed

section \<open>Instructions\<close>

text \<open>
  C11: Compiling an instruction with at most 256 different accounts never fails, and
  decompiling the result gives the instruction back, program and data unchanged and every
  account with exactly the permissions its occurrences ask for, whatever order the hash
  map lists the keys in. The account table holds every key once.
\<close>

theorem instruction_roundtrip:
  assumes "\<And>ks. mset (order ks) = mset ks" and "card (instruction_keys ix) \<le> 256"
  shows "\<exists>c. compile_instruction order ix = Inr c \<and>
    decompile_instruction c = Inr (normalise_instruction ix) \<and>
    distinct (ci_accounts c) \<and> set (ci_accounts c) = instruction_keys ix"
  using assms by (rule compile_then_decompile)

theorem instruction_roundtrip_witness:
  "\<exists>c. compile_instruction rev sample_ix = Inr c \<and>
    decompile_instruction c = Inr (normalise_instruction sample_ix) \<and>
    distinct (ci_accounts c) \<and> set (ci_accounts c) = instruction_keys sample_ix"
  using sample_ix_keys by (intro instruction_roundtrip) simp_all

section \<open>Creation\<close>

text \<open>
  C30: After a successful \<open>create\<close> the account holds a fiber of the calling thread with the
  given fee and lookup tables, and reading its instruction back for any executor gives the
  stored instruction with the executor in the payer's place.
\<close>

theorem create_fiber_roundtrip:
  assumes "borsh_laws env" and "system_laws env" and "hash_map_laws env"
    and "card (instruction_keys ix) \<le> 256"
    and "create_fiber env signers t fiber i ix fee lts b = Inr b'"
  shows "\<exists>f. fibers env b' fiber = Some f \<and> fiber_thread f = t \<and> fiber_priority_fee f = fee \<and>
    fiber_lookup_tables f = lts \<and>
    get_instruction env f executor = Inr (substitute_payer executor (normalise_instruction ix))"
proof -
  obtain c f where c: "compile_instruction (key_order env) ix = Inr c" and f: "stores env f t c fee lts"
    and b': "fibers env b' = (fibers env b)(fiber \<mapsto> f)"
    using create_fiber_fibers [OF assms(1,2,5)] by blast
  have "decompile_instruction c = Inr (normalise_instruction ix)"
    using compile_then_decompile [of "key_order env" ix] assms(3,4) c by (auto simp: hash_map_laws_def)
  from get_instruction_stores [OF assms(1) f this] f b' show ?thesis
    by (auto simp: stores_def fun_eq_iff simp del: fibers_Some)
qed

theorem create_fiber_roundtrip_witness:
  "\<exists>b' f. create_fiber sample_fiber_env [[9]] [9] [5] 0 sample_ix 3 [[8]] sample_bank = Inr b' \<and>
    fibers sample_fiber_env b' [5] = Some f \<and> fiber_priority_fee f = 3 \<and>
    get_instruction sample_fiber_env f [4] = Inr (substitute_payer [4] (normalise_instruction sample_ix))"
proof -
  have "\<not> isl (create_fiber sample_fiber_env [[9]] [9] [5] 0 sample_ix 3 [[8]] sample_bank)" by code_simp
  from create_fiber_roundtrip [OF sample_borsh sample_system sample_hash_map sample_ix_keys right_result [OF this], of "[4]"]
  show ?thesis using right_result [OF \<open>\<not> isl _\<close>] by blast
qed

text \<open>
  C39: Once an account holds a fiber, \<open>create\<close> checks neither its address nor its owner:
  whoever signs becomes the fiber's thread, with an instruction of their choice.
\<close>

theorem create_fiber_takeover:
  assumes "borsh_laws env" and "fibers env b fiber = Some (V1 s)" and "attacker \<in> set signers"
    and "compile_instruction (key_order env) ix = Inr c" and "length lts \<le> MAX_LOOKUP_TABLES_PER_FIBER"
    and "8 + length (to_vec_versioned env (s\<lparr>fv_version := CURRENT_FIBER_VERSION, fv_thread := attacker,
           fv_compiled_instruction := to_vec_compiled env c, fv_priority_fee := fee,
           fv_last_executed := 0, fv_exec_count := 0, fv_lookup_tables := lts\<rparr>)) \<le> length (acc_data (b fiber))"
  shows "\<exists>b' f. create_fiber env signers attacker fiber i ix fee lts b = Inr b' \<and>
    fibers env b' fiber = Some f \<and> fiber_thread f = attacker"
proof -
  let ?s = "s\<lparr>fv_version := CURRENT_FIBER_VERSION, fv_thread := attacker,
           fv_compiled_instruction := to_vec_compiled env c, fv_priority_fee := fee,
           fv_last_executed := 0, fv_exec_count := 0, fv_lookup_tables := lts\<rparr>"
  have r: "try_deserialize_fiber env (acc_data (b fiber)) = Inr (V1 s)"
    using assms(2) by simp
  then have ne: "acc_data (b fiber) \<noteq> []" and l: "8 \<le> length (acc_data (b fiber))"
    using try_deserialize_fiber_length by fastforce+
  have "length (DISC_VERSIONED env) = 8"
    using assms(1) by (simp add: borsh_laws_def)
  then obtain b' where wr: "write_versioned env fiber ?s b = Inr b'"
    using assms(6) l by (auto simp: write_versioned_def write_bytes_def Let_def)
  have "create_fiber env signers attacker fiber i ix fee lts b = Inr b'"
    using assms r ne wr by (simp add: create_fiber_def)
  moreover have "fibers env b' fiber = Some (V1 ?s)"
    using fibers_write_versioned [OF assms(1) wr] by (simp del: fibers_Some)
  ultimately show ?thesis by auto
qed

theorem create_fiber_takeover_witness:
  "\<exists>b' f. create_fiber sample_fiber_env [[66]] [66] [5] 0 sample_ix 0 [] sample_bank = Inr b' \<and>
    fibers sample_fiber_env b' [5] = Some f \<and> fiber_thread f = [66]"
proof -
  have c: "compile_instruction (key_order sample_fiber_env) sample_ix =
      Inr (projr (compile_instruction (key_order sample_fiber_env) sample_ix))"
    by (rule right_result) code_simp
  have "8 + length (to_vec_versioned sample_fiber_env (sample_v1 [9] 1\<lparr>fv_version := CURRENT_FIBER_VERSION, fv_thread := [66],
      fv_compiled_instruction := to_vec_compiled sample_fiber_env (projr (compile_instruction (key_order sample_fiber_env) sample_ix)),
      fv_priority_fee := 0, fv_last_executed := 0, fv_exec_count := 0, fv_lookup_tables := []\<rparr>))
      \<le> length (acc_data (sample_bank [5]))" by code_simp
  with create_fiber_takeover [OF sample_borsh sample_fibers(1) _ c] show ?thesis by simp
qed

section \<open>Update, swap, close\<close>

text \<open>
  A successful \<open>update\<close> of a stored fiber needs the signature of the thread its address
  is derived from, keeps the fiber's shape, installs the new instruction (or wipes it),
  changes fee and lookup tables only when they are given, and touches no other fiber and
  no lamports.
\<close>

theorem update_fiber_replaces:
  assumes "borsh_laws env" and "update_fiber env signers t fiber i ix fee lts b = Inr b'"
    and "fibers env b fiber = Some f"
  shows "fiber = fiber_pubkey env t i \<and> t \<in> set signers \<and>
    (\<exists>compiled g. apply_instruction_update env ix = Inr compiled \<and>
       fibers env b' = (fibers env b)(fiber \<mapsto> g) \<and>
       is_legacy g = is_legacy f \<and> fiber_thread g = t \<and>
       fiber_compiled_instruction g = compiled \<and>
       fiber_priority_fee g = (case fee of Some p \<Rightarrow> p | None \<Rightarrow> fiber_priority_fee f) \<and>
       fiber_lookup_tables g = (case lts of Some l \<Rightarrow> l | None \<Rightarrow> fiber_lookup_tables f)) \<and>
    (\<forall>k. lamports (b' k) = lamports (b k))"
  using assms by (rule update_fiber_correct)

theorem update_fiber_replaces_witness:
  "\<exists>b' g. update_fiber sample_fiber_env [[9]] [9] (fiber_pubkey sample_fiber_env [9] 0) 0 None (Some 8) None sample_bank = Inr b' \<and>
    fibers sample_fiber_env b' (fiber_pubkey sample_fiber_env [9] 0) = Some g \<and>
    fiber_compiled_instruction g = [] \<and> fiber_priority_fee g = 8"
proof -
  have "\<not> isl (update_fiber sample_fiber_env [[9]] [9] (fiber_pubkey sample_fiber_env [9] 0) 0 None (Some 8) None sample_bank)"
    by code_simp
  from update_fiber_replaces [OF sample_borsh right_result [OF this] sample_fibers(3)] right_result [OF this]
  show ?thesis by (fastforce simp: apply_instruction_update_def simp del: fibers_Some)
qed

text \<open>
  C31: A successful \<open>swap\<close> of two different fibers moves the source's instruction and fee
  into the target, which keeps its shape and lookup tables, removes the source, and sends
  its lamports to the thread; no other fiber changes.
\<close>

theorem swap_fiber_correct:
  assumes laws: "borsh_laws env" and ne: "target \<noteq> source" "source \<noteq> t"
    and ok: "swap_fiber env signers t target source b = Inr b'"
  shows "\<exists>sf tf. fibers env b source = Some sf \<and> fibers env b target = Some tf \<and>
    fiber_thread sf = t \<and> fiber_thread tf = t \<and>
    fibers env b' = (fibers env b)
      (target \<mapsto> with_content (fiber_compiled_instruction sf) (fiber_priority_fee sf) (fiber_lookup_tables tf) tf,
       source := None) \<and>
    lamports (b' source) = 0 \<and>
    unat (lamports (b' t)) = unat (lamports (b t)) + unat (lamports (b source))"
proof -
  from ok obtain sf tf b1 where
    sf: "try_deserialize_fiber env (acc_data (b source)) = Inr sf" "fiber_thread sf = t" and
    tf: "try_deserialize_fiber env (acc_data (b target)) = Inr tf" "fiber_thread tf = t" and
    wr: "(case tf of
        Legacy state \<Rightarrow> write_legacy env target
          (state\<lparr>fs_compiled_instruction := fiber_compiled_instruction sf, fs_priority_fee := fiber_priority_fee sf,
                 fs_last_executed := 0, fs_exec_count := 0\<rparr>) b
      | V1 state \<Rightarrow> write_versioned env target
          (state\<lparr>fv_version := CURRENT_FIBER_VERSION, fv_compiled_instruction := fiber_compiled_instruction sf,
                 fv_priority_fee := fiber_priority_fee sf, fv_last_executed := 0, fv_exec_count := 0\<rparr>) b) = Inr b1" and
    sw: "sweep_fiber_lamports source t b1 = Inr b'"
    by (auto simp: swap_fiber_def res_simps Let_def)
  have b1: "fibers env b1 = (fibers env b)(target \<mapsto>
      with_content (fiber_compiled_instruction sf) (fiber_priority_fee sf) (fiber_lookup_tables tf) tf)
    \<and> (\<forall>k. lamports (b1 k) = lamports (b k))"
    using wr fibers_write_legacy [OF laws] fibers_write_versioned [OF laws] write_lamports
    by (cases tf) auto
  show ?thesis
    using sf tf b1 ne sweep_fibers [OF laws sw] sweep_lamports [OF sw] by auto
qed

theorem swap_fiber_correct_witness:
  "\<exists>b'. swap_fiber sample_fiber_env [[9]] [9] [5] [6] sample_bank = Inr b' \<and>
    lamports (b' [6]) = 0 \<and> unat (lamports (b' [9])) = 2050"
proof -
  have "\<not> isl (swap_fiber sample_fiber_env [[9]] [9] [5] [6] sample_bank)" by code_simp
  from swap_fiber_correct [OF sample_borsh _ _ right_result [OF this]] right_result [OF this]
  show ?thesis by (auto simp: sample_lamports simp del: fibers_Some)
qed

text \<open>
  A thread cannot close a fiber of another thread, nor use one as the source or the
  target of a swap.
\<close>

theorem foreign_fiber_rejected:
  assumes "fibers env b fiber = Some f" and "fiber_thread f \<noteq> t"
  shows "(\<exists>e. close_fiber env signers t fiber b = Inl e) \<and>
    (\<exists>e. swap_fiber env signers t target fiber b = Inl e) \<and>
    (\<exists>e. swap_fiber env signers t fiber source b = Inl e)"
proof (intro conjI)
  have "close_fiber env signers t fiber b \<noteq> Inr b'" for b'
    using assms by (auto elim!: close_fiber_Inr)
  then show "\<exists>e. close_fiber env signers t fiber b = Inl e"
    by (metis sum_Inl_not_Inr)
  have "swap_fiber env signers t target fiber b \<noteq> Inr b'" for b'
    using assms by (auto simp: swap_fiber_def res_simps)
  then show "\<exists>e. swap_fiber env signers t target fiber b = Inl e"
    by (metis sum_Inl_not_Inr)
  have "swap_fiber env signers t fiber source b \<noteq> Inr b'" for b'
    using assms by (auto simp: swap_fiber_def res_simps)
  then show "\<exists>e. swap_fiber env signers t fiber source b = Inl e"
    by (metis sum_Inl_not_Inr)
qed

theorem foreign_fiber_rejected_witness:
  "(\<exists>e. close_fiber sample_fiber_env [[10]] [10] [5] sample_bank = Inl e) \<and>
    (\<exists>e. swap_fiber sample_fiber_env [[10]] [10] [6] [5] sample_bank = Inl e) \<and>
    (\<exists>e. swap_fiber sample_fiber_env [[10]] [10] [5] [6] sample_bank = Inl e)"
  using sample_fibers(1) by (rule foreign_fiber_rejected) (simp add: sample_v1_def)

text \<open>
  No instruction of the fiber program makes or destroys lamports: over any finite set
  of accounts that contains those it names, the total stays the same.
\<close>

theorem fiber_program_conserves_lamports:
  assumes "borsh_laws env" and "system_laws env" and "finite A" and "t \<in> A" and "fiber \<in> A" and "fiber \<noteq> t"
  shows "(\<forall>b'. create_fiber env signers t fiber i ix fee lts b = Inr b' \<longrightarrow> total A b' = total A b) \<and>
    (\<forall>b'. update_fiber env signers t fiber i oix ofee olts b = Inr b' \<longrightarrow> total A b' = total A b) \<and>
    (\<forall>b'. close_fiber env signers t fiber b = Inr b' \<longrightarrow> total A b' = total A b)"
proof (intro conjI allI impI)
  fix b'
  show "create_fiber env signers t fiber i ix fee lts b = Inr b' \<Longrightarrow> total A b' = total A b"
    using assms(1,2) by (rule create_fiber_total)
  show "update_fiber env signers t fiber i oix ofee olts b = Inr b' \<Longrightarrow> total A b' = total A b"
    by (rule total_same_lamports) (rule update_fiber_lamports [OF assms(1,2)])
  show "close_fiber env signers t fiber b = Inr b' \<Longrightarrow> total A b' = total A b"
    using assms by (intro close_fiber_total)
qed

theorem fiber_program_conserves_lamports_witness:
  "\<exists>b'. close_fiber sample_fiber_env [[9]] [9] [5] sample_bank = Inr b' \<and>
    total {[5], [9]} b' = total {[5], [9]} sample_bank"
proof -
  have "\<not> isl (close_fiber sample_fiber_env [[9]] [9] [5] sample_bank)" by code_simp
  from right_result [OF this] show ?thesis
    using fiber_program_conserves_lamports [OF sample_borsh sample_system, of "{[5], [9]}" "[9]" "[5]" "[[9]]"] by force
qed

end
