(* ===== verification/Properties_Exec.thy ===== *)
theory Properties_Exec
  imports Properties_Thread Properties_Fiber
begin

text \<open>
  The properties of execution, closing and the lifecycle of a thread, and the handlers'
  access control. Each property is followed by a witness in the sample environment.
\<close>

section \<open>An execution to evaluate\<close>

definition sample_ea :: exec_accounts where
  "sample_ea = \<lparr>ea_executor = [40], ea_thread = sample_key, ea_fiber = fiber_pubkey sample_fiber_env sample_key 0,
     ea_config = SEED_CONFIG @ take 1 THREAD_PROGRAM_ID, ea_admin = [30], ea_nonce_account = None, ea_recent_blockhashes = None\<rparr>"

definition sample_stored :: "pubkey \<Rightarrow> account" where
  "sample_stored t = \<lparr>lamports = 50,
     acc_data = [2, 2, 2, 2, 2, 2, 2, 2] @
       enc_versioned (sample_v1 t 0\<lparr>fv_compiled_instruction := enc_compiled (projr (compile_instruction (\<lambda>ks. ks) sample_ix))\<rparr>),
     acc_owner = FIBER_PROGRAM_ID\<rparr>"

definition sample_exec_bank :: bank where
  "sample_exec_bank k =
     (if k = fiber_pubkey sample_fiber_env sample_key 0 then sample_stored sample_key
      else if k = fiber_pubkey sample_fiber_env sample_key 1 then sample_stored sample_key
      else \<lparr>lamports = 9000, acc_data = [], acc_owner = SYSTEM_PROGRAM_ID\<rparr>)"

definition sample_run :: "Trigger \<Rightarrow> error + Thread \<times> bank" where
  "sample_run trigger = thread_exec sample_env [[40]] sample_ea (sample_clock 3) False 0 [] sample_config
     (sample_thread trigger (Timed 0 0)) sample_exec_bank"

lemma sample_run_ok: "\<not> isl (sample_run (Timestamp 2 0))"
  by code_simp

section \<open>Lifecycle\<close>

text \<open>
  C5: Whatever sequence of the program's instructions and foreign writes a thread goes
  through after its creation, its fiber indices are strictly increasing and below the next
  free index (which saturates at 255), and the only signals pending between transactions
  are none, \<open>Chain\<close> and \<open>Close\<close>.
\<close>

theorem thread_always_well_formed:
  assumes "reach (created env key) (thread_step env key) (th, b)"
  shows "sorted_wrt (<) (th_fiber_ids th) \<and> (\<forall>i. i \<in> set (th_fiber_ids th) \<longrightarrow> i < th_fiber_next_id th \<or> th_fiber_next_id th = 255) \<and>
    (th_fiber_signal th = Signal_None \<or> th_fiber_signal th = Chain \<or> th_fiber_signal th = Close)"
  using lifecycle.reach_inv [OF assms] by (auto simp: thread_inv_def ids_ok_def)

definition sample_create_accounts :: create_accounts where
  "sample_create_accounts = \<lparr>ca_authority = [20], ca_payer = [21], ca_thread = sample_key, ca_nonce_account = None,
     ca_recent_blockhashes = None, ca_rent = None, ca_fiber = None, ca_fiber_program = False\<rparr>"

definition sample_created :: "error + Thread \<times> bank" where
  "sample_created = thread_create sample_env [[20], [21]] sample_create_accounts (sample_clock 3) 20 (Id_Bytes [1, 2])
     (Interval 60 False 0) None None None [] (sample_thread (Slot 0) (Timed 0 0)) sample_exec_bank"

lemma sample_created_ok: "\<not> isl sample_created"
  by code_simp

lemma sample_reach:
  assumes "fiber_create sample_env sg a sample_key fiber i ix fee lts (fst (projr sample_created)) b = Inr (th, b')"
  shows "reach (created sample_env sample_key) (thread_step sample_env sample_key) (th, b')"
proof -
  obtain th0 b0 where c: "sample_created = Inr (th0, b0)"
    using right_result [OF sample_created_ok] by (metis prod.collapse)
  then have "created sample_env sample_key (th0, b0)"
    unfolding created_def sample_created_def
    by (intro exI conjI) (auto simp: sample_create_accounts_def)
  then have "reach (created sample_env sample_key) (thread_step sample_env sample_key) (th0, b0)" by (rule reach_start)
  then have "reach (created sample_env sample_key) (thread_step sample_env sample_key) (th0, b)" by (rule reach_step) (rule step_other)
  moreover have "thread_step sample_env sample_key (th0, b) (th, b')"
    using assms by (intro step_fiber_create) (simp add: c)
  ultimately show ?thesis by (rule reach_step)
qed

definition sample_add_fiber :: "error + Thread \<times> bank" where
  "sample_add_fiber = fiber_create sample_env [[20]] [20] sample_key (fiber_pubkey sample_fiber_env sample_key 1) 1
     (serializable_from sample_ix) 0 [] (fst (projr sample_created)) sample_bank"

theorem thread_always_well_formed_witness:
  "\<exists>th b. sample_add_fiber = Inr (th, b) \<and> th_fiber_ids th = [1] \<and> sorted_wrt (<) (th_fiber_ids th)"
proof -
  have "case sample_add_fiber of Inr (th, b) \<Rightarrow> th_fiber_ids th = [1] | Inl _ \<Rightarrow> False" by code_simp
  then obtain th b where c: "sample_add_fiber = Inr (th, b)" "th_fiber_ids th = [1]"
    by (auto split: sum.splits)
  from thread_always_well_formed [OF sample_reach [OF c(1) [unfolded sample_add_fiber_def]]] c
  show ?thesis by blast
qed



section \<open>Execution\<close>

text \<open>
  C1: An execution succeeds only if the executor signed, neither the thread nor the program
  is paused, the fees go to the configured admin, and (unless the thread is being closed)
  the cursor stands on a fiber of the thread, the trigger validated or the thread is in a
  chain, and the account run is the address of the given index holding a fiber of this
  thread.
\<close>

theorem exec_requires:
  assumes "thread_exec env signers ea clock forgo cur rem cfg th b = Inr (th', b')"
  shows "ea_executor ea \<in> set signers \<and> \<not> th_paused th \<and> \<not> cfg_paused cfg \<and> ea_admin ea = cfg_admin cfg \<and>
    thread_seeds_ok env (ea_thread ea) th \<and> config_seeds_ok env (ea_config ea) cfg \<and>
    (th_fiber_signal th = Close \<or>
     (if th_fiber_signal th = Chain then cur else th_fiber_cursor th) \<in> set (th_fiber_ids th) \<and>
     (\<exists>b1 f. advance_nonce_if_required env th (ea_thread ea) (ea_nonce_account ea) (ea_recent_blockhashes ea) b = Inr b1 \<and>
       (th_fiber_signal th = Chain \<or> (\<exists>d. validate_trigger env clock rem (ea_thread ea) b1 th = Inr d)) \<and>
       ea_fiber ea = fiber_at_index env (ea_thread ea) cur \<and>
       fibers (fenv env) b1 (ea_fiber ea) = Some f \<and> fiber_thread f = ea_thread ea))"
proof -
  note c = thread_exec_cases [OF assms]
  have k: "ea_executor ea \<in> set signers \<and> \<not> th_paused th \<and> \<not> cfg_paused cfg \<and> ea_admin ea = cfg_admin cfg \<and>
      thread_seeds_ok env (ea_thread ea) th \<and> config_seeds_ok env (ea_config ea) cfg"
    using c by (auto simp: exec_constraints_Inr)
  show ?thesis
  proof (cases "th_fiber_signal th = Close")
    case False
    with c obtain th1 b1 tsr ix b2 ret signal where
      "executed env signers ea clock forgo cur rem cfg th b th1 b1 tsr ix b2 ret signal th' b'" by auto
    then have th1: "th1 = (if th_fiber_signal th = Chain then th\<lparr>th_fiber_cursor := cur\<rparr> else th)"
      and v: "validate_for_execution th1 = Inr ()"
      and n: "advance_nonce_if_required env th1 (ea_thread ea) (ea_nonce_account ea) (ea_recent_blockhashes ea) b = Inr b1"
      and t: "if th_fiber_signal th = Chain then tsr = 0 else validate_trigger env clock rem (ea_thread ea) b1 th1 = Inr tsr"
      and l: "load_fiber_instruction env ea cur b1 = Inr ix"
      unfolding executed_def by blast+
    have "(if th_fiber_signal th = Chain then cur else th_fiber_cursor th) \<in> set (th_fiber_ids th)"
      using v by (auto simp: th1 validate_for_execution_def res_simps split: if_splits)
    moreover have "advance_nonce_if_required env th (ea_thread ea) (ea_nonce_account ea) (ea_recent_blockhashes ea) b = Inr b1"
      using n by (auto simp: th1 advance_nonce_if_required_def has_nonce_account_def split: if_splits)
    moreover have "th_fiber_signal th = Chain \<or> (\<exists>d. validate_trigger env clock rem (ea_thread ea) b1 th = Inr d)"
      using t by (auto simp: th1 split: if_splits)
    moreover obtain f where "ea_fiber ea = fiber_at_index env (ea_thread ea) cur"
      "fibers (fenv env) b1 (ea_fiber ea) = Some f" "fiber_thread f = ea_thread ea"
      using l by (auto simp: load_fiber_instruction_def res_simps)
    ultimately show ?thesis using k by blast
  qed (use k in blast)
qed

theorem exec_requires_witness:
  "\<exists>th' b'. sample_run (Timestamp 2 0) = Inr (th', b') \<and>
    (\<exists>d. validate_trigger sample_env (sample_clock 3) [] sample_key sample_exec_bank (sample_thread (Timestamp 2 0) (Timed 0 0)) = Inr d)"
proof -
  obtain th' b' where r: "sample_run (Timestamp 2 0) = Inr (th', b')"
    using right_result [OF sample_run_ok] by (metis prod.collapse)
  have s: "th_fiber_signal (sample_thread (Timestamp 2 0) (Timed 0 0)) = Signal_None" "ea_thread sample_ea = sample_key"
    "\<not> has_nonce_account (sample_thread (Timestamp 2 0) (Timed 0 0))"
    by (simp_all add: sample_thread_def sample_ea_def has_nonce_account_def)
  from exec_requires [OF r [unfolded sample_run_def]] r show ?thesis
    by (auto simp: s advance_nonce_if_required_def)
qed

text \<open>
  C2: A successful execution that does not close the thread counts once, names the
  executor, leaves authority, id, fibers and nonce alone, and leaves exactly the signal
  that the fiber's return data and the trigger call for: \<open>Chain\<close> unless the last fiber
  asked for it, \<open>Close\<close> after \<open>Close\<close> or an immediate trigger, otherwise none. A timestamp
  trigger leaves the thread paused unless the fiber chains or explicitly unpauses it, and
  a chaining fiber leaves schedule and payments for the end of the chain.
\<close>

theorem exec_effect:
  assumes "thread_exec env signers ea clock forgo cur rem cfg th b = Inr (th', b')" and "th_fiber_signal th \<noteq> Close"
  shows "\<exists>b1 ix b2 ret signal. load_fiber_instruction env ea cur b1 = Inr ix \<and>
    invoke_signed env ix (exec_account_infos ea @ rem) [ea_thread ea] b1 = Inr (b2, ret) \<and>
    signal = downgrade_chain th cur (parse_signal env ix ret) \<and>
    same_identity th th' \<and> unat (th_exec_count th') = unat (th_exec_count th) + 1 \<and> th_last_executor th' = ea_executor ea \<and>
    th_fiber_signal th' = (if signal = Chain then Chain
      else if signal = Close \<or> (\<exists>j. th_trigger th = Immediate j) then Close else Signal_None) \<and>
    (signal = Chain \<longrightarrow> b' = b2 \<and> th_schedule th' = th_schedule th \<and> th_paused th' = th_paused th) \<and>
    ((\<exists>ts j. th_trigger th = Timestamp ts j) \<and> signal \<noteq> Chain \<and> (\<forall>t i. signal \<noteq> Update (Some False) t i) \<longrightarrow> th_paused th')"
proof -
  from thread_exec_cases [OF assms(1)] assms(2) obtain th1 b1 tsr ix b2 ret signal where
    e: "executed env signers ea clock forgo cur rem cfg th b th1 b1 tsr ix b2 ret signal th' b'" by auto
  then have th1: "th1 = (if th_fiber_signal th = Chain then th\<lparr>th_fiber_cursor := cur\<rparr> else th)"
    and l: "load_fiber_instruction env ea cur b1 = Inr ix"
    and i: "invoke_signed env ix (exec_account_infos ea @ rem) [ea_thread ea] b1 = Inr (b2, ret)"
    and s: "signal = downgrade_chain th1 cur (parse_signal env ix ret)"
    and b': "if signal = Chain then b' = b2 else settle ea cfg tsr forgo (lamports (b (ea_executor ea))) b2 = Inr b'"
    and fin: "exec_finalize env clock rem ea signal (after_fire (th_trigger th1) signal (apply_signal signal th1)) b' = Inr th'"
    unfolding executed_def by blast+
  note x = executed_thread [OF e]
  have "signal = downgrade_chain th cur (parse_signal env ix ret)"
    using s by (simp add: th1 downgrade_chain_def)
  moreover have "b' = b2 \<and> th_schedule th' = th_schedule th \<and> th_paused th' = th_paused th" if "signal = Chain"
    using that b' fin x(5)
    by (auto simp: exec_finalize_def res_simps after_fire_def apply_signal_def th1 split: Trigger.splits)
  moreover have "th_paused th'"
    if "(\<exists>ts j. th_trigger th = Timestamp ts j) \<and> signal \<noteq> Chain \<and> (\<forall>t i. signal \<noteq> Update (Some False) t i)"
    using that x(5) paused_after_timestamp by metis
  ultimately show ?thesis
    using l i x(1,2,3) x(4) [unfolded signal_after]
    by (intro exI [of _ b1] exI [of _ ix] exI [of _ b2] exI [of _ ret] exI [of _ signal] conjI impI) blast+
qed

theorem exec_effect_witness:
  "\<exists>th' b'. sample_run (Timestamp 2 0) = Inr (th', b') \<and> unat (th_exec_count th') = 1 \<and> th_last_executor th' = [40]"
proof -
  obtain th' b' where r: "sample_run (Timestamp 2 0) = Inr (th', b')"
    using right_result [OF sample_run_ok] by (metis prod.collapse)
  have s: "th_fiber_signal (sample_thread (Timestamp 2 0) (Timed 0 0)) \<noteq> Close"
    "th_exec_count (sample_thread (Timestamp 2 0) (Timed 0 0)) = 0" "ea_executor sample_ea = [40]"
    by (simp_all add: sample_thread_def sample_ea_def)
  from exec_effect [OF r [unfolded sample_run_def] s(1)] r show ?thesis by (auto simp: s)
qed

text \<open>
  C3: If the runtime's invocations conserve lamports, so does every execution, over any
  finite set of accounts with the thread, the executor and the admin in it.
\<close>

theorem exec_conserves_lamports:
  assumes "thread_exec env signers ea clock forgo cur rem cfg th b = Inr (th', b')" and "invoke_conserves env A"
    and "finite A" and "{ea_thread ea, ea_executor ea, ea_admin ea} \<subseteq> A"
  shows "total A b' = total A b"
proof (cases "th_fiber_signal th = Close")
  case True
  with thread_exec_cases [OF assms(1)] have "\<exists>ix accs sg ret. invoke_signed env ix accs sg b = Inr (b', ret)"
    by (auto simp: exec_close_path_def res_simps)
  with assms(2) show ?thesis unfolding invoke_conserves_def by blast
next
  case False
  with thread_exec_cases [OF assms(1)] obtain th1 b1 tsr ix b2 ret signal where
    "executed env signers ea clock forgo cur rem cfg th b th1 b1 tsr ix b2 ret signal th' b'" by auto
  then show ?thesis using assms by (auto intro: executed_total)
qed

theorem exec_conserves_lamports_witness:
  "\<exists>th' b'. sample_run (Timestamp 2 0) = Inr (th', b') \<and>
    total {sample_key, [40], [30]} b' = total {sample_key, [40], [30]} sample_exec_bank"
proof -
  obtain th' b' where r: "sample_run (Timestamp 2 0) = Inr (th', b')"
    using right_result [OF sample_run_ok] by (metis prod.collapse)
  from exec_conserves_lamports [OF r [unfolded sample_run_def] sample_invoke, of "{sample_key, [40], [30]}"] r
  show ?thesis by (simp add: sample_ea_def)
qed

text \<open>
  C4: What an execution that ends a chain pays, with the fees of a valid configuration and
  three different accounts: the thread loses, and executor and admin gain, exactly the
  executor's reimbursement and commission share and the core team's share of the
  effective commission for the delay. The executor's commission is nothing when it forgoes
  it or has gained during the fiber's call.
\<close>

theorem exec_payments:
  assumes "settle ea cfg delay forgo start b = Inr b'" and "config_inv cfg"
    and "ea_thread ea \<noteq> ea_executor ea" and "ea_thread ea \<noteq> ea_admin ea" and "ea_executor ea \<noteq> ea_admin ea"
  shows "let change = u64_as_i64 (lamports (b (ea_executor ea))) - u64_as_i64 start;
      reimbursement = (if change \<le> 0 then unat (calculate_reimbursement change) else 0);
      fee = (if change \<le> 0 \<and> \<not> forgo then unat (commission cfg delay) * unat (executor_fee_bps cfg) div 10000 else 0);
      core = unat (commission cfg delay) * unat (core_team_bps cfg) div 10000
    in unat (lamports (b' (ea_executor ea))) = unat (lamports (b (ea_executor ea))) + reimbursement + fee \<and>
      unat (lamports (b' (ea_admin ea))) = unat (lamports (b (ea_admin ea))) + core \<and>
      unat (lamports (b' (ea_thread ea))) + reimbursement + fee + core = unat (lamports (b (ea_thread ea)))"
proof -
  obtain change p where c: "change = u64_as_i64 (lamports (b (ea_executor ea))) - u64_as_i64 start"
    and p: "calculate_payments cfg delay change forgo = Inr p"
    and d: "distribute_payments (ea_thread ea) (ea_executor ea) (ea_admin ea) p b = Inr b'"
    using assms(1) by (rule settle_Inr)
  note q = calculate_payments_Inr [OF assms(2) p]
  have r: "(if change \<le> 0 then unat (calculate_reimbursement change) else 0) = unat (fee_payer_reimbursement p)"
    using q(1) by simp
  show ?thesis
    unfolding Let_def c [symmetric] r q(2,3) [symmetric] using distribute_payments_effect [OF d assms(3-5)] by blast
qed

theorem exec_payments_witness:
  "\<exists>b'. settle sample_ea sample_config 0 True 9000 sample_exec_bank = Inr b' \<and>
    unat (lamports (b' [40])) = 14000"
proof -
  have "\<not> isl (settle sample_ea sample_config 0 True 9000 sample_exec_bank)" by code_simp
  note ok = right_result [OF this]
  have e: "ea_executor sample_ea = [40]" "ea_thread sample_ea = sample_key" "ea_admin sample_ea = [30]" "sample_key \<noteq> [40]" "sample_key \<noteq> [30]"
    by (simp_all add: sample_ea_def sample_key_def SEED_THREAD_def)
  have "lamports (sample_exec_bank [40]) = 9000"
    by (simp add: sample_exec_bank_def fiber_pubkey_def sample_fiber_env_def SEED_THREAD_FIBER_def)
  with exec_payments [OF ok sample_config_inv] ok e show ?thesis
    by (auto simp: Let_def calculate_reimbursement_def)
qed

end
