(* ===== verification/Properties_Access.thy ===== *)
theory Properties_Access
  imports Properties_Exec
begin

text \<open>
  The properties of the remaining handlers: who may call them, what closing and
  withdrawing do to the store, and two ways the bookkeeping of fibers can go wrong. Each
  property is followed by a witness in the sample environment.
\<close>

lemma isl_iff: "isl r \<longleftrightarrow> (\<forall>x. r \<noteq> Inr x)"
  by (cases r) auto

lemma isl_or: "(\<And>r. x = Inr r \<Longrightarrow> P) \<Longrightarrow> isl x \<or> P"
  by (cases x) auto

section \<open>Access\<close>


section \<open>Closing and withdrawing\<close>

text \<open>
  C7: A successful \<open>thread_close\<close> was given the address of every tracked fiber exactly once,
  each holding a fiber of this thread; afterwards none of them holds a fiber, the thread's
  account is empty, and everything they and the thread held is on the receiving account.
\<close>

theorem thread_close_sweeps:
  assumes "borsh_laws (fenv env)" and "close_laws env"
    and "thread_close env signers a close_to key fp accs th b = Inr b'"
    and "key \<noteq> close_to" and "key \<notin> set accs" and "close_to \<notin> set accs"
  shows "mset accs = image_mset (fiber_pubkey (fenv env) key) (mset (th_fiber_ids th)) \<and> distinct accs \<and>
    (\<forall>k. k \<in> set accs \<longrightarrow> (\<exists>f. fibers (fenv env) b k = Some f \<and> fiber_thread f = key) \<and> fibers (fenv env) b' k = None) \<and>
    unat (lamports (b' close_to)) =
      unat (lamports (b close_to)) + unat (lamports (b key)) + sum_list (map (\<lambda>k. unat (lamports (b k))) accs) \<and>
    lamports (b' key) = 0 \<and> acc_data (b' key) = []"
  using thread_close_effect [OF assms] by blast

theorem thread_close_sweeps_witness:
  "\<exists>b'. thread_close sample_env [[20]] [20] [20] sample_key True
      [fiber_pubkey sample_fiber_env sample_key 1, fiber_pubkey sample_fiber_env sample_key 0]
      (sample_thread (Slot 0) (Timed 0 0)) sample_exec_bank = Inr b' \<and>
    unat (lamports (b' [20])) = 9000 + 9000 + (50 + 50) \<and> lamports (b' sample_key) = 0"
proof -
  let ?accs = "[fiber_pubkey sample_fiber_env sample_key 1, fiber_pubkey sample_fiber_env sample_key 0]"
  have "\<not> isl (thread_close sample_env [[20]] [20] [20] sample_key True ?accs (sample_thread (Slot 0) (Timed 0 0)) sample_exec_bank)"
    by code_simp
  note ok = right_result [OF this]
  have ne: "sample_key \<noteq> [20]" "sample_key \<notin> set ?accs" "[20] \<notin> set ?accs"
    by (simp_all add: fiber_pubkey_def sample_fiber_env_def sample_key_def SEED_THREAD_def SEED_THREAD_FIBER_def
        FIBER_PROGRAM_ID_def THREAD_PROGRAM_ID_def)
  have l: "lamports (sample_exec_bank [20]) = 9000" "lamports (sample_exec_bank sample_key) = 9000"
    "lamports (sample_exec_bank (fiber_pubkey sample_fiber_env sample_key 1)) = 50"
    "lamports (sample_exec_bank (fiber_pubkey sample_fiber_env sample_key 0)) = 50"
    using ne by (auto simp: sample_exec_bank_def sample_stored_def)
  have bl: "borsh_laws (fenv sample_env)" using sample_borsh by simp
  from thread_close_sweeps [OF bl sample_close_laws ok ne] ok show ?thesis by (auto simp: l)
qed

text \<open>
  C32: A successful withdrawal moves exactly the amount from the thread to the receiver, and
  leaves the thread with more than the rent of its serialised data.
\<close>

theorem withdraw_leaves_rent:
  assumes "thread_withdraw env signers a pay_to key amount th b = Inr b'" and "key \<noteq> pay_to"
  shows "unat (lamports (b' key)) + unat amount = unat (lamports (b key)) \<and>
    unat (lamports (b' pay_to)) = unat (lamports (b pay_to)) + unat amount \<and>
    unat (minimum_balance (fenv env) (8 + length (to_vec_thread env th))) < unat (lamports (b' key)) \<and>
    (\<forall>k. acc_data (b' k) = acc_data (b k)) \<and> (\<forall>k. k \<noteq> key \<and> k \<noteq> pay_to \<longrightarrow> lamports (b' k) = lamports (b k))"
proof -
  note w = thread_withdraw_Inr [OF assms(1)]
  show ?thesis
    using move_lamports_effect [OF w(1) assms(2)] move_lamports_frame [OF w(1)] w(2,3) by auto
qed

theorem withdraw_leaves_rent_witness:
  "\<exists>b'. thread_withdraw sample_env [[20]] [20] [20] sample_key 5 (sample_thread (Slot 0) (Timed 0 0)) sample_exec_bank = Inr b' \<and>
    unat (lamports (b' sample_key)) + 5 = unat (lamports (sample_exec_bank sample_key))"
proof -
  have "\<not> isl (thread_withdraw sample_env [[20]] [20] [20] sample_key 5 (sample_thread (Slot 0) (Timed 0 0)) sample_exec_bank)"
    by code_simp
  note ok = right_result [OF this]
  have "sample_key \<noteq> [20]" by (simp add: sample_key_def SEED_THREAD_def)
  from withdraw_leaves_rent [OF ok this] ok show ?thesis by auto
qed

section \<open>Bookkeeping of fibers\<close>



text \<open>
  \<open>fiber_close\<close> does not tie the account to the index: given index \<open>i\<close> and the account
  of another fiber of the thread, it drops \<open>i\<close> from the thread and closes the other one, so
  that the fiber at \<open>i\<close> stays stored but untracked and the closed one stays tracked.
\<close>

theorem fiber_close_wrong_account:
  assumes "borsh_laws (fenv env)" and "fiber_close env signers a key (fiber_pubkey (fenv env) key j) i th b = Inr (th', b')"
    and "fiber_pubkey (fenv env) key j \<noteq> fiber_pubkey (fenv env) key i" and "j \<in> set (th_fiber_ids th)"
  shows "i \<notin> set (th_fiber_ids th') \<and> fibers (fenv env) b' (fiber_pubkey (fenv env) key i) = fibers (fenv env) b (fiber_pubkey (fenv env) key i) \<and>
    j \<in> set (th_fiber_ids th') \<and> fibers (fenv env) b' (fiber_pubkey (fenv env) key j) = None"
proof -
  have c: "close_fiber (fenv env) [key] key (fiber_pubkey (fenv env) key j) b = Inr b'"
    and ids: "th_fiber_ids th' = filter (\<lambda>x. x \<noteq> i) (th_fiber_ids th)"
    using assms(2) by (auto simp: fiber_close_def res_simps Let_def advance_eq split: if_splits)
  from c have "fibers (fenv env) b' = (fibers (fenv env) b)(fiber_pubkey (fenv env) key j := None)"
    by (auto simp: close_fiber_def res_simps intro: sweep_fibers [OF assms(1)])
  with assms(3,4) ids show ?thesis by (auto simp del: fibers_Some)
qed

theorem fiber_close_wrong_account_witness:
  "\<exists>th' b'. fiber_close sample_env [[20]] [20] sample_key (fiber_pubkey sample_fiber_env sample_key 1) 0
      (sample_thread (Slot 0) (Timed 0 0)) sample_exec_bank = Inr (th', b') \<and> 1 \<in> set (th_fiber_ids th') \<and>
    fibers sample_fiber_env b' (fiber_pubkey sample_fiber_env sample_key 1) = None"
proof -
  have "\<not> isl (fiber_close sample_env [[20]] [20] sample_key (fiber_pubkey (fenv sample_env) sample_key 1) 0
      (sample_thread (Slot 0) (Timed 0 0)) sample_exec_bank)" by code_simp
  then obtain th' b' where ok: "fiber_close sample_env [[20]] [20] sample_key (fiber_pubkey (fenv sample_env) sample_key 1) 0
      (sample_thread (Slot 0) (Timed 0 0)) sample_exec_bank = Inr (th', b')"
    using right_result by (metis prod.collapse)
  have ne: "fiber_pubkey (fenv sample_env) sample_key 1 \<noteq> fiber_pubkey (fenv sample_env) sample_key 0"
    by (simp add: fiber_pubkey_def sample_fiber_env_def)
  have bl: "borsh_laws (fenv sample_env)" using sample_borsh by simp
  have "1 \<in> set (th_fiber_ids (sample_thread (Slot 0) (Timed 0 0)))" by (simp add: sample_thread_def)
  from fiber_close_wrong_account [OF bl ok ne this] ok show ?thesis by (auto simp del: fibers_Some)
qed

end
