(* ===== verification/Client_Flow.thy ===== *)
theory Client_Flow
  imports Processor
begin

text \<open>
  The staging actor as a whole: its messages (\<open>StagingMessage\<close> of \<open>actors/messages.rs\<close>),
  the handler that takes them apart, and what happens over a sequence of messages to a
  thread the processor has reported as done. The status query and the shutdown message, which
  change nothing, are left out.
\<close>

section \<open>Messages\<close>

datatype StagingMessage =
    SM_AccountUpdate AccountUpdate
  | SM_ClockTick Clock
  | SM_ThreadCompleted pubkey CompletionReason
  | SM_SetProcessorRef

fun handle_staging :: "staging_env \<Rightarrow> StagingMessage \<Rightarrow> StagingState \<Rightarrow> StagingState \<times> staging_out list" where
  "handle_staging env (SM_AccountUpdate u) st = handle_account_update env u st"
| "handle_staging env (SM_ClockTick clock) st = handle_clock_tick env clock st"
| "handle_staging env (SM_ThreadCompleted key reason) st = (handle_thread_completed env key reason st, [])"
| "handle_staging env SM_SetProcessorRef st = (set_processor_ref st, [])"

fun run_staging :: "staging_env \<Rightarrow> StagingMessage list \<Rightarrow> StagingState \<Rightarrow> StagingState \<times> staging_out list" where
  "run_staging env [] st = (st, [])"
| "run_staging env (m # ms) st =
     (let (st1, out1) = handle_staging env m st; (st2, out2) = run_staging env ms st1 in (st2, out1 @ out2))"

section \<open>A thread without an entry\<close>

definition entries :: "StagingState \<Rightarrow> ScheduledThread set" where
  "entries st = set (time_queue st) \<union> set (slot_queue st) \<union> set (epoch_queue st)"

text \<open>The thread is tracked, but no queue has an entry for it and no eviction of it is pending.\<close>

definition unscheduled :: "pubkey \<Rightarrow> TrackedThread \<Rightarrow> StagingState \<Rightarrow> bool" where
  "unscheduled key t st \<longleftrightarrow> tracked_threads st key = Some t \<and> key \<notin> sc_pubkey ` entries st \<and> key \<notin> set (eviction_rx st)"

text \<open>
  Messages that bring nothing new about the thread: its account is unchanged in count and
  schedule, and it is not reported as skipped.
\<close>

fun nothing_new :: "staging_env \<Rightarrow> pubkey \<Rightarrow> TrackedThread \<Rightarrow> StagingMessage \<Rightarrow> bool" where
  "nothing_new env key t (SM_AccountUpdate u) = (au_pubkey u = key \<longrightarrow>
     (case classify_account env (au_data u) key of
        AT_Thread thread \<Rightarrow> th_exec_count thread \<le> tt_exec_count t \<and> th_schedule thread = tt_schedule t
      | AT_Deleted \<Rightarrow> False
      | _ \<Rightarrow> True))"
| "nothing_new env key t (SM_ThreadCompleted k reason) = (k = key \<longrightarrow> reason = Executed)"
| "nothing_new env key t _ = True"

lemma schedule_thread_frame [simp]:
  "tracked_threads (schedule_thread k thread st) = tracked_threads st" "eviction_rx (schedule_thread k thread st) = eviction_rx st"
  "processor_set (schedule_thread k thread st) = processor_set st"
  by (simp_all add: schedule_thread_def Let_def split: Trigger.split Schedule.split)

lemma schedule_thread_entries: "sc_pubkey ` entries (schedule_thread k thread st) \<subseteq> insert k (sc_pubkey ` entries st)"
  by (auto simp: schedule_thread_def entries_def Let_def split: Trigger.split Schedule.split)

lemma unscheduled_schedule: "unscheduled key t st \<Longrightarrow> k \<noteq> key \<Longrightarrow> unscheduled key t (schedule_thread k thread st)"
  using schedule_thread_entries [of k thread st] by (auto simp: unscheduled_def)

lemma unscheduled_track:
  "unscheduled key t st \<Longrightarrow> k \<noteq> key \<Longrightarrow> unscheduled key t (st\<lparr>tracked_threads := (tracked_threads st)(k := x)\<rparr>)"
  by (simp add: unscheduled_def entries_def)

lemma unscheduled_frame [simp]:
  "unscheduled key t (st\<lparr>queued_threads := q\<rparr>) = unscheduled key t st"
  "unscheduled key t (st\<lparr>load_balancer := lb\<rparr>) = unscheduled key t st"
  "unscheduled key t (st\<lparr>last_processed_slot := n\<rparr>) = unscheduled key t st"
  "unscheduled key t (st\<lparr>processor_set := p\<rparr>) = unscheduled key t st"
  "unscheduled key t (st\<lparr>st_cache := c\<rparr>) = unscheduled key t st"
  by (simp_all add: unscheduled_def entries_def)

lemma unscheduled_account_update:
  assumes "unscheduled key t st" and "nothing_new env key t (SM_AccountUpdate u)" and "handle_account_update env u st = (st', out)"
  shows "unscheduled key t st' \<and> (\<forall>r. ProcessReady r \<notin> set out)"
proof (cases "au_pubkey u = key")
  case True
  then have "st' = st \<and> out = []"
    using assms by (auto simp: handle_account_update_def unscheduled_def split: AccountType.splits)
  then show ?thesis using assms(1) by simp
next
  case False
  have keep: "unscheduled key t (st\<lparr>queued_threads := q, tracked_threads := (tracked_threads st)(au_pubkey u := x)\<rparr>)" for q x
    using unscheduled_track [of key t "st\<lparr>queued_threads := q\<rparr>" "au_pubkey u" x] assms(1) False by simp
  have keep2: "unscheduled key t (st\<lparr>tracked_threads := (tracked_threads st)(au_pubkey u := x)\<rparr>)" for x
    using unscheduled_track assms(1) False by blast
  have keep3: "unscheduled key t (st\<lparr>tracked_threads := (tracked_threads st)(au_pubkey u := x), queued_threads := q, load_balancer := lb\<rparr>)" for q x lb
    using keep2 [of x] by simp
  show ?thesis
    using assms(1,3) False keep keep2 keep3
    by (auto simp: handle_account_update_def Let_def unscheduled_schedule split: AccountType.splits if_splits option.splits)
qed

lemma unscheduled_evictions:
  "unscheduled key t st \<Longrightarrow> unscheduled key t (process_evictions env n st)"
proof (induction n arbitrary: st)
  case (Suc n)
  show ?case
  proof (cases "eviction_rx st")
    case (Cons k rest)
    obtain fetched c where f: "get_thread_or_fetch (cenv env) k (st_cache st) = (fetched, c)" by fastforce
    define st1 where "st1 = st\<lparr>eviction_rx := rest, st_cache := c\<rparr>"
    have k: "k \<noteq> key" and st1: "unscheduled key t st1"
      using Suc.prems Cons by (auto simp: unscheduled_def entries_def st1_def)
    note track = unscheduled_track [OF st1 k]
    show ?thesis
    proof (cases fetched)
      case None
      have "unscheduled key t (st1\<lparr>tracked_threads := (tracked_threads st1)(k := None), queued_threads := queued_threads st1 - {k}\<rparr>)"
        using track by simp
      from Suc.IH [OF this] show ?thesis using Cons f None by (simp add: st1_def)
    next
      case (Some thread)
      have "unscheduled key t (schedule_thread k thread (st1\<lparr>tracked_threads := (tracked_threads st1)(k \<mapsto> tracked_of thread)\<rparr>))"
        by (rule unscheduled_schedule [OF track k])
      with track Cons f Some show ?thesis by (auto simp: Let_def st1_def intro: Suc.IH)
    qed
  qed (use Suc.prems in simp)
qed simp

lemma get_ready_threads_entries:
  assumes "heap_laws env" and "get_ready_threads env clock st = (ready, st')"
  shows "entries st' \<subseteq> entries st" and "eviction_rx st' = eviction_rx st"
proof -
  let ?tr = "tracked_threads st" and ?now = "unix_timestamp clock"
  obtain q1 r1 p1 where 1: "check_queue env ?tr (time_queue st) (word_of_int (max 0 ?now)) ?now True [] {} = (q1, r1, p1)"
    by (metis prod_cases3)
  obtain q2 r2 p2 where 2: "check_queue env ?tr (slot_queue st) (clk_slot clock) ?now False r1 p1 = (q2, r2, p2)"
    by (metis prod_cases3)
  obtain q3 r3 p3 where 3: "check_queue env ?tr (epoch_queue st) (clk_epoch clock) ?now False r2 p2 = (q3, r3, p3)"
    by (metis prod_cases3)
  have res: "st' = st\<lparr>time_queue := q1, slot_queue := q2, epoch_queue := q3\<rparr>"
    using assms(2) 1 2 3 by (simp add: get_ready_threads_def Let_def)
  have sub: "set q' \<subseteq> set q" if "mset q' = filter_mset P (mset q)" for q q' :: "ScheduledThread list" and P
    using arg_cong [OF that, of set_mset] by auto
  show "entries st' \<subseteq> entries st"
    using res sub [OF check_queue_spec(1) [OF assms(1) 1]] sub [OF check_queue_spec(1) [OF assms(1) 2]]
      sub [OF check_queue_spec(1) [OF assms(1) 3]] by (auto simp: entries_def)
  show "eviction_rx st' = eviction_rx st" using res by simp
qed

lemma dispatch_frame:
  "dispatch env rs st = (st', out) \<Longrightarrow> st' = st\<lparr>queued_threads := queued_threads st'\<rparr> \<and>
     (\<forall>r. ProcessReady r \<in> set out \<longrightarrow> r \<in> set rs)"
proof (induction rs arbitrary: st out)
  case (Cons r rs)
  show ?case
  proof (cases "rt_pubkey r \<notin> queued_threads st \<and> processor_set st \<and> processor_alive env")
    case True
    let ?st = "st\<lparr>queued_threads := insert (rt_pubkey r) (queued_threads st)\<rparr>"
    obtain out' where d: "dispatch env rs ?st = (st', out')" "out = ProcessReady r # out'"
      using Cons.prems True by (auto split: prod.splits)
    from Cons.IH [OF d(1)] d(2) show ?thesis by (cases st) auto
  next
    case False
    then have "dispatch env rs st = (st', out)" using Cons.prems by (auto split: if_splits)
    from Cons.IH [OF this] show ?thesis by auto
  qed
qed simp

lemma unscheduled_clock_tick:
  assumes "heap_laws env" and "unscheduled key t st" and "handle_clock_tick env clock st = (st', out)"
  shows "unscheduled key t st' \<and> (\<forall>r. ProcessReady r \<in> set out \<longrightarrow> rt_pubkey r \<noteq> key)"
proof (cases "clk_slot clock \<le> last_processed_slot st")
  case True
  then show ?thesis using assms by (simp add: handle_clock_tick_def)
next
  case False
  define st1 where "st1 = st\<lparr>last_processed_slot := clk_slot clock\<rparr>"
  define st2 where "st2 = (if clk_slot clock mod 1000 = 0
      then st1\<lparr>load_balancer := prune_stale (\<lambda>k. tracked_threads st1 k \<noteq> None) (load_balancer st1)\<rparr> else st1)"
  define st3 where "st3 = (if clk_slot clock mod 500 = 0 then compact_queues st2 else st2)"
  define st4 where "st4 = process_evictions env MAX_EVICTIONS_PER_TICK st3"
  obtain ready st5 where g: "get_ready_threads env clock st4 = (ready, st5)" by fastforce
  have d: "dispatch env ready st5 = (st', out)"
    using assms(3) False g by (simp add: handle_clock_tick_def Let_def st1_def st2_def st3_def st4_def split: if_splits)
  have "unscheduled key t st2" using assms(2) by (simp add: st1_def st2_def)
  then have "unscheduled key t st3" by (auto simp: st3_def compact_queues_def unscheduled_def entries_def)
  then have 4: "unscheduled key t st4" unfolding st4_def by (rule unscheduled_evictions)
  note spec = get_ready_threads_spec [OF assms(1) g]
  have 5: "unscheduled key t st5"
    using 4 get_ready_threads_entries [OF assms(1) g] spec(5) by (auto simp: unscheduled_def)
  have "unscheduled key t st'" using 5 dispatch_frame [OF d] unscheduled_frame(1) by metis
  moreover have "rt_pubkey r \<noteq> key" if "ProcessReady r \<in> set out" for r
  proof -
    have "rt_pubkey r \<in> sc_pubkey ` due_now clock st4" using that dispatch_frame [OF d] spec(2) by auto
    then have "rt_pubkey r \<in> sc_pubkey ` entries st4" by (auto simp: due_now_def entries_def)
    then show ?thesis using 4 by (auto simp: unscheduled_def)
  qed
  ultimately show ?thesis by blast
qed

lemma unscheduled_step:
  assumes "heap_laws env" and "unscheduled key t st" and "nothing_new env key t m" and "handle_staging env m st = (st', out)"
  shows "unscheduled key t st' \<and> (\<forall>r. ProcessReady r \<in> set out \<longrightarrow> rt_pubkey r \<noteq> key)"
proof (cases m)
  case (SM_AccountUpdate u)
  then show ?thesis using unscheduled_account_update [OF assms(2)] assms(3,4) by simp
next
  case (SM_ClockTick clock)
  then show ?thesis using unscheduled_clock_tick [OF assms(1,2)] assms(4) by simp
next
  case (SM_ThreadCompleted k reason)
  then have "st' = handle_thread_completed env k reason st" "out = []" "k = key \<longrightarrow> reason = Executed" using assms(3,4) by auto
  then show ?thesis
    using assms(2) unscheduled_schedule [of key t "st\<lparr>queued_threads := queued_threads st - {k}\<rparr>" k]
    by (auto simp: handle_thread_completed_def Let_def split: CompletionReason.split option.split)
next
  case SM_SetProcessorRef
  then show ?thesis using assms(2,4) by (auto simp: set_processor_ref_def)
qed

text \<open>However many ticks pass, such a thread is not handed to the processor again.\<close>

lemma unscheduled_never_ready:
  assumes "heap_laws env" and "unscheduled key t st" and "\<forall>m\<in>set ms. nothing_new env key t m" and "run_staging env ms st = (st', out)"
  shows "unscheduled key t st' \<and> (\<forall>r. ProcessReady r \<in> set out \<longrightarrow> rt_pubkey r \<noteq> key)"
  using assms(2-4)
proof (induction ms arbitrary: st out)
  case (Cons m ms)
  obtain st1 out1 where 1: "handle_staging env m st = (st1, out1)" by fastforce
  obtain out2 where 2: "run_staging env ms st1 = (st', out2)" "out = out1 @ out2"
    using Cons.prems(3) 1 by (auto split: prod.splits)
  have s: "unscheduled key t st1 \<and> (\<forall>r. ProcessReady r \<in> set out1 \<longrightarrow> rt_pubkey r \<noteq> key)"
    using unscheduled_step [OF assms(1) Cons.prems(1) _ 1] Cons.prems(2) by simp
  with Cons.IH [OF _ _ 2(1)] Cons.prems(2) 2(2) show ?case by auto
qed simp

end
