(* ===== verification/Rpc_Guards.thy ===== *)
theory Rpc_Guards
  imports F64
begin

text \<open>
  \<open>crates/client/src/rpc/circuit_breaker.rs\<close> and \<open>rate_limiter.rs\<close>: the guards around requests. An \<open>Instant\<close> and a
  \<open>Duration\<close> are nanoseconds (natural numbers); an operation reads the clock once, as the
  argument \<open>now\<close>. A counter that would leave \<open>u32\<close> panics, which is \<open>None\<close>.
\<close>

section \<open>Circuit breaker\<close>

record CircuitBreakerConfig =
  failure_threshold :: u32
  reset_timeout :: nat
  success_threshold :: u32

datatype CircuitState = Closed | Open | HalfOpen

record CircuitBreaker =
  cb_config :: CircuitBreakerConfig
  cb_state :: CircuitState
  failure_count :: u32
  success_count :: u32
  last_failure_time :: "nat option"
  last_state_change :: nat

definition breaker_new :: "CircuitBreakerConfig \<Rightarrow> nat \<Rightarrow> CircuitBreaker" where
  "breaker_new config now = \<lparr>cb_config = config, cb_state = Closed, failure_count = 0, success_count = 0,
     last_failure_time = None, last_state_change = now\<rparr>"

definition maybe_transition_from_open :: "nat \<Rightarrow> CircuitBreaker \<Rightarrow> CircuitBreaker" where
  "maybe_transition_from_open now cb =
     (if cb_state cb \<noteq> Open then cb
      else let time_in_open = now - last_state_change cb in
        if reset_timeout (cb_config cb) \<le> time_in_open
        then cb\<lparr>cb_state := HalfOpen, last_state_change := now, success_count := 0\<rparr>
        else cb)"

definition breaker_state :: "nat \<Rightarrow> CircuitBreaker \<Rightarrow> CircuitState \<times> CircuitBreaker" where
  "breaker_state now cb = (let cb1 = maybe_transition_from_open now cb in (cb_state cb1, cb1))"

definition should_allow_request :: "nat \<Rightarrow> CircuitBreaker \<Rightarrow> bool \<times> CircuitBreaker" where
  "should_allow_request now cb =
     (let cb1 = maybe_transition_from_open now cb in (cb_state cb1 = Closed \<or> cb_state cb1 = HalfOpen, cb1))"

definition breaker_record_success :: "nat \<Rightarrow> CircuitBreaker \<Rightarrow> CircuitBreaker option" where
  "breaker_record_success now cb =
     (case cb_state cb of
        HalfOpen \<Rightarrow>
          Option.bind (checked_add (success_count cb) 1) (\<lambda>n.
            Some (if success_threshold (cb_config cb) \<le> n
                  then cb\<lparr>cb_state := Closed, last_state_change := now, failure_count := 0, success_count := 0\<rparr>
                  else cb\<lparr>success_count := n\<rparr>))
      | Closed \<Rightarrow> Some (cb\<lparr>failure_count := 0\<rparr>)
      | Open \<Rightarrow> Some cb)"

definition breaker_record_failure :: "nat \<Rightarrow> CircuitBreaker \<Rightarrow> CircuitBreaker option" where
  "breaker_record_failure now cb0 =
     (let cb = cb0\<lparr>last_failure_time := Some now\<rparr> in
      case cb_state cb of
        Closed \<Rightarrow>
          Option.bind (checked_add (failure_count cb) 1) (\<lambda>n.
            let cb1 = cb\<lparr>failure_count := n\<rparr> in
            Some (if failure_threshold (cb_config cb) \<le> n
                  then cb1\<lparr>cb_state := Open, last_state_change := now\<rparr>
                  else cb1))
      | HalfOpen \<Rightarrow> Some (cb\<lparr>cb_state := Open, last_state_change := now, success_count := 0\<rparr>)
      | Open \<Rightarrow> Some cb)"

definition breaker_reset :: "nat \<Rightarrow> CircuitBreaker \<Rightarrow> CircuitBreaker" where
  "breaker_reset now cb = cb\<lparr>cb_state := Closed, failure_count := 0, success_count := 0, last_state_change := now\<rparr>"

definition time_in_current_state :: "nat \<Rightarrow> CircuitBreaker \<Rightarrow> nat" where
  "time_in_current_state now cb = now - last_state_change cb"

text \<open>One use of the breaker, and what it can reach.\<close>

inductive breaker_step :: "CircuitBreaker \<Rightarrow> CircuitBreaker \<Rightarrow> bool" where
  "breaker_record_success now cb = Some cb' \<Longrightarrow> breaker_step cb cb'"
| "breaker_record_failure now cb = Some cb' \<Longrightarrow> breaker_step cb cb'"
| "breaker_step cb (maybe_transition_from_open now cb)"
| "breaker_step cb (breaker_reset now cb)"

text \<open>A counter is below its threshold or zero, so that counting never overflows.\<close>

definition breaker_inv :: "CircuitBreaker \<Rightarrow> bool" where
  "breaker_inv cb \<longleftrightarrow>
     (cb_state cb = Closed \<longrightarrow> failure_count cb = 0 \<or> failure_count cb < failure_threshold (cb_config cb)) \<and>
     (cb_state cb = HalfOpen \<longrightarrow> success_count cb = 0 \<or> success_count cb < success_threshold (cb_config cb))"

lemma checked_Suc:
  fixes n t :: u32
  assumes "n = 0 \<or> n < t"
  shows "\<exists>m. checked_add n 1 = Some m \<and> unat m = unat n + 1"
proof -
  have "unat t < 2 ^ LENGTH(32)" by (rule unsigned_less)
  with assms have "unat n + 1 < 2 ^ 32" by (auto simp: word_less_nat_alt)
  then show ?thesis by (auto simp: checked_add_def unat_word_ariths)
qed

lemma breaker_total:
  assumes "breaker_inv cb"
  shows "\<exists>cb'. breaker_record_success now cb = Some cb'" and "\<exists>cb'. breaker_record_failure now cb = Some cb'"
  using assms checked_Suc [of "success_count cb" "success_threshold (cb_config cb)"]
    checked_Suc [of "failure_count cb" "failure_threshold (cb_config cb)"]
  by (auto simp: breaker_inv_def breaker_record_success_def breaker_record_failure_def Let_def split: CircuitState.splits)

lemma breaker_failure_inv:
  assumes "breaker_inv cb" and "breaker_record_failure now cb = Some cb'"
  shows "breaker_inv cb'"
proof (cases "cb_state cb")
  case Closed
  with assms(2) obtain n where n: "cb' = (if failure_threshold (cb_config cb) \<le> n
      then cb\<lparr>last_failure_time := Some now, failure_count := n, cb_state := Open, last_state_change := now\<rparr>
      else cb\<lparr>last_failure_time := Some now, failure_count := n\<rparr>)"
    by (auto simp: breaker_record_failure_def Let_def bind_eq_Some_conv)
  show ?thesis using Closed by (cases "failure_threshold (cb_config cb) \<le> n") (simp_all add: n breaker_inv_def not_le)
next
  case Open
  with assms show ?thesis by (auto simp: breaker_record_failure_def breaker_inv_def)
next
  case HalfOpen
  with assms(2) show ?thesis by (auto simp: breaker_record_failure_def breaker_inv_def)
qed

lemma breaker_success_inv:
  assumes "breaker_inv cb" and "breaker_record_success now cb = Some cb'"
  shows "breaker_inv cb'"
proof (cases "cb_state cb")
  case HalfOpen
  with assms(2) obtain n where n: "cb' = (if success_threshold (cb_config cb) \<le> n
      then cb\<lparr>cb_state := Closed, last_state_change := now, failure_count := 0, success_count := 0\<rparr>
      else cb\<lparr>success_count := n\<rparr>)"
    by (auto simp: breaker_record_success_def bind_eq_Some_conv)
  show ?thesis using HalfOpen by (cases "success_threshold (cb_config cb) \<le> n") (simp_all add: n breaker_inv_def not_le)
next
  case Open
  with assms show ?thesis by (auto simp: breaker_record_success_def)
next
  case Closed
  with assms(2) show ?thesis by (auto simp: breaker_record_success_def breaker_inv_def)
qed

lemma breaker_transition_inv:
  "breaker_inv cb \<Longrightarrow> breaker_inv (maybe_transition_from_open now cb)" "breaker_inv (breaker_reset now cb)"
  by (auto simp: maybe_transition_from_open_def breaker_reset_def breaker_inv_def Let_def)

interpretation breaker: invariant_system "\<lambda>cb. \<exists>config now. cb = breaker_new config now" breaker_step breaker_inv
proof
  show "\<exists>config now. cb = breaker_new config now \<Longrightarrow> breaker_inv cb" for cb
    by (auto simp: breaker_new_def breaker_inv_def)
  show "breaker_inv cb \<Longrightarrow> breaker_step cb cb' \<Longrightarrow> breaker_inv cb'" for cb cb'
    by (erule breaker_step.cases) (auto intro: breaker_success_inv breaker_failure_inv breaker_transition_inv)
qed

text \<open>Failures in a row, at the given instants.\<close>

fun breaker_failures :: "nat list \<Rightarrow> CircuitBreaker \<Rightarrow> CircuitBreaker option" where
  "breaker_failures [] cb = Some cb"
| "breaker_failures (t # ts) cb = Option.bind (breaker_record_failure t cb) (breaker_failures ts)"

lemma breaker_failures_closed:
  assumes "cb_state cb = Closed" and "unat (failure_count cb) + length ts < unat (failure_threshold (cb_config cb))"
  shows "\<exists>cb'. breaker_failures ts cb = Some cb' \<and> cb_state cb' = Closed \<and> cb_config cb' = cb_config cb \<and>
    unat (failure_count cb') = unat (failure_count cb) + length ts"
  using assms
proof (induction ts arbitrary: cb)
  case (Cons t ts)
  then obtain m where m: "checked_add (failure_count cb) 1 = Some m" "unat m = unat (failure_count cb) + 1"
    using checked_Suc [of "failure_count cb" "failure_threshold (cb_config cb)"] by (auto simp: word_less_nat_alt)
  with Cons.prems have "\<not> failure_threshold (cb_config cb) \<le> m" by (simp add: word_le_nat_alt)
  with m Cons.prems Cons.IH [of "cb\<lparr>last_failure_time := Some t, failure_count := m\<rparr>"] show ?case
    by (auto simp: breaker_record_failure_def Let_def)
qed simp

text \<open>The failure that reaches the threshold opens the breaker at its instant.\<close>

lemma breaker_failure_opens:
  assumes "cb_state cb = Closed" and "unat (failure_count cb) + 1 = unat (failure_threshold (cb_config cb))"
  shows "\<exists>cb'. breaker_record_failure t cb = Some cb' \<and> cb_state cb' = Open \<and> cb_config cb' = cb_config cb \<and>
    last_state_change cb' = t"
proof -
  obtain m where m: "checked_add (failure_count cb) 1 = Some m" "unat m = unat (failure_count cb) + 1"
    using assms checked_Suc [of "failure_count cb" "failure_threshold (cb_config cb)"] by (auto simp: word_less_nat_alt)
  with assms show ?thesis by (auto simp: breaker_record_failure_def Let_def word_le_nat_alt)
qed

section \<open>Rate limiter\<close>

record RateLimitConfig =
  requests_per_second :: rat
  burst_capacity :: u64

record RateLimiter =
  rl_config :: RateLimitConfig
  tokens :: rat
  last_refill :: nat

text \<open>\<open>Duration::as_secs_f64\<close>.\<close>

definition as_secs_f64 :: "nat \<Rightarrow> rat" where
  "as_secs_f64 d = f64_add (f64_of_int (int (d div 10 ^ 9))) (f64_div (f64_of_int (int (d mod 10 ^ 9))) (10 ^ 9))"

definition limiter_new :: "RateLimitConfig \<Rightarrow> nat \<Rightarrow> RateLimiter" where
  "limiter_new config now = \<lparr>rl_config = config, tokens = f64_of_u64 (burst_capacity config), last_refill = now\<rparr>"

definition refill :: "nat \<Rightarrow> RateLimiter \<Rightarrow> RateLimiter" where
  "refill now rl =
     (let elapsed_secs = as_secs_f64 (now - last_refill rl);
          new_tokens = f64_mul elapsed_secs (requests_per_second (rl_config rl))
      in rl\<lparr>tokens := min (f64_add (tokens rl) new_tokens) (f64_of_u64 (burst_capacity (rl_config rl))), last_refill := now\<rparr>)"

definition try_acquire :: "nat \<Rightarrow> RateLimiter \<Rightarrow> bool \<times> RateLimiter" where
  "try_acquire now rl0 =
     (let rl = refill now rl0 in
      if 1 \<le> tokens rl then (True, rl\<lparr>tokens := f64_sub (tokens rl) 1\<rparr>) else (False, rl))"

text \<open>
  \<open>acquire\<close> tries again after every sleep; \<open>polls\<close> are the instants at which it wakes up.
  It has waited since \<open>start\<close> when a token is there, and still waits when the polls end.
\<close>

fun acquire :: "nat \<Rightarrow> nat list \<Rightarrow> RateLimiter \<Rightarrow> nat option \<times> RateLimiter" where
  "acquire start [] rl = (None, rl)"
| "acquire start (now # polls) rl =
     (let rl1 = refill now rl in
      if 1 \<le> tokens rl1 then (Some (now - start), rl1\<lparr>tokens := f64_sub (tokens rl1) 1\<rparr>)
      else acquire start polls rl1)"

definition available_tokens :: "nat \<Rightarrow> RateLimiter \<Rightarrow> rat \<times> RateLimiter" where
  "available_tokens now rl = (let rl1 = refill now rl in (tokens rl1, rl1))"

text \<open>Any number of tries, at the given instants: what each returned.\<close>

fun tries :: "nat list \<Rightarrow> RateLimiter \<Rightarrow> bool list" where
  "tries [] rl = []"
| "tries (t # ts) rl = (let (ok, rl1) = try_acquire t rl in ok # tries ts rl1)"

lemma as_secs_f64_0 [simp]: "as_secs_f64 0 = 0"
  by (simp add: as_secs_f64_def f64_of_int_def f64_add_def f64_div_def)

lemma tries_at_once:
  assumes "tokens rl = of_int n" and "0 \<le> n" and "n \<le> 2 ^ 53" and "rat_of_int n \<le> f64_of_u64 (burst_capacity (rl_config rl))"
    and "last_refill rl = t"
  shows "tries (replicate k t) rl = replicate (min k (nat n)) True @ replicate (k - nat n) False"
  using assms
proof (induction k arbitrary: rl n)
  case (Suc k)
  have r: "refill t rl = rl"
    using Suc.prems f64_round_int [of n] by (simp add: refill_def Let_def f64_mul_def f64_add_def min_def)
  show ?case
  proof (cases "1 \<le> n")
    case True
    have sub: "f64_sub (of_int n) 1 = of_int (n - 1)"
      using f64_round_int [of "n - 1"] True Suc.prems(3) by (simp add: f64_sub_def)
    then have "try_acquire t rl = (True, rl\<lparr>tokens := of_int (n - 1)\<rparr>)"
      using True Suc.prems by (simp add: try_acquire_def r Let_def)
    moreover have "tries (replicate k t) (rl\<lparr>tokens := of_int (n - 1)\<rparr>) =
        replicate (min k (nat (n - 1))) True @ replicate (k - nat (n - 1)) False"
      using True Suc.prems by (intro Suc.IH) (auto intro: order_trans [rotated])
    moreover have "nat n = Suc (nat (n - 1))" using True by simp
    ultimately show ?thesis by simp
  next
    case False
    then have n: "n = 0" using Suc.prems by simp
    have "try_acquire t rl = (False, rl)" using Suc.prems by (simp add: try_acquire_def r Let_def n)
    with Suc.IH [OF Suc.prems] n show ?thesis by simp
  qed
qed simp

end
