(* ===== verification/Properties_Client.thy ===== *)
theory Properties_Client
  imports Client_Flow Properties_Exec Rpc_Guards
begin

text \<open>
  The properties of the off-chain client: what a worker sends and when it reports, which
  instructions the executor builds, how staging and processor hand threads on, and how
  requests fail over. Each property is followed by a witness in a sample world.
\<close>

section \<open>A world to evaluate\<close>

definition sample_client :: client_env where
  "sample_client = \<lparr>seahash = (\<lambda>d. of_nat (length d)),
     try_deserialize_thread = (\<lambda>d. if d = [7, 7, 7, 7, 7, 7, 7, 7] then Some (sample_thread (Slot 0) (Block 0 0)) else None),
     rpc_get_account = (\<lambda>_. Inr (Some (''Z'', ''base64+zstd''))),
     base64_decode = (\<lambda>s. if s = ''F'' then Some (acc_data (sample_stored sample_key)) else if s = ''C'' then Some [9] else Some [1]),
     zstd_decompress = (\<lambda>_. Some [7, 7, 7, 7, 7, 7, 7, 7])\<rparr>"

definition sample_executor :: ExecutorLogic where
  "sample_executor = \<lparr>ex_pubkey = [40], forgo_executor_commission = False, ex_program_id = THREAD_PROGRAM_ID\<rparr>"

text \<open>A moment is a millisecond; every request is answered, and every signature confirmed.\<close>

definition sample_world :: world where
  "sample_world = \<lparr>wt_env = sample_env, wc_env = sample_client,
     get_account_at = (\<lambda>_ k. Inr (Some (if k = config_pubkey sample_env then (''C'', ''base64'') else (''F'', ''base64'')))),
     blockhash_at = (\<lambda>_. Inr [1]),
     simulate_at = (\<lambda>_ _ _. Inr \<lparr>units_consumed = Some 10, sim_accounts = None\<rparr>),
     send_at = (\<lambda>_ _. Inr [2]),
     status_at = (\<lambda>_ _. Inr (Some (Inr ()))),
     cancelled_at = (\<lambda>_. False), instant_at = (\<lambda>i. i), utc_at = (\<lambda>_. 5), wake = (\<lambda>i ms. Suc (i + ms)),
     others_at = (\<lambda>_ s. s), tpu_available = False, signature_of = (\<lambda>_. [2]),
     message_size = (\<lambda>ixs _. Some (100 * length ixs)),
     set_compute_unit_limit = (\<lambda>_. \<lparr>program_id = [50], ix_accounts = [], ix_data = [0]\<rparr>),
     set_compute_unit_price = (\<lambda>_. \<lparr>program_id = [50], ix_accounts = [], ix_data = [1]\<rparr>),
     thread_exec_metas = (\<lambda>ea. map readonly (exec_account_infos ea)),
     exec_thread_data = (\<lambda>b c. [if b then 1 else 0, c]),
     deserialize_compiled = dec_compiled, try_deserialize_config = (\<lambda>d. if d = [9] then Some sample_config else None),
     decode_error = (\<lambda>_ _. []), deserialize_error = (\<lambda>_. []), RECENT_BLOCKHASHES_ID = [60]\<rparr>"

definition sample_lb :: LoadBalancer where
  "sample_lb = \<lparr>executor_pubkey = [40], lb_config = LoadBalancerConfig_default, tracking = [(sample_key, ThreadTracking_default)],
     at_capacity = False\<rparr>"

definition sample_task :: task where
  "sample_task = \<lparr>now = 0, tk_cache = (\<lambda>_. None), tk_lb = sample_lb, tk_sent = []\<rparr>"

lemma sample_clock_laws: "clock_laws sample_world"
  by (simp add: clock_laws_def sample_world_def)

abbreviation sample_slot_thread :: Thread where
  "sample_slot_thread \<equiv> sample_thread (Slot 0) (Block 0 0)"

abbreviation sample_batch :: "(exec_error + batch) \<times> task" where
  "sample_batch \<equiv> build_execute_transaction sample_world sample_executor sample_key sample_slot_thread None sample_task"

lemma sample_batch_ok:
  "case sample_batch of (Inr (ixs, fee, cont, nxt), st) \<Rightarrow> length ixs = 1 \<and> fee = 0 \<and> \<not> cont \<and> nxt = None | _ \<Rightarrow> False"
  by code_simp

lemma sample_batch_value: "\<exists>ix st. sample_batch = (Inr ([ix], 0, False, None), st)"
proof -
  obtain r st where "sample_batch = (r, st)" by fastforce
  moreover from this sample_batch_ok obtain ixs where "r = Inr (ixs, 0, False, None)" "length ixs = 1" by (cases r) auto
  ultimately show ?thesis by (auto simp: length_Suc_conv)
qed

lemma sample_batch_accounts:
  "case sample_batch of (Inr (ixs, _), st) \<Rightarrow> \<forall>ix\<in>set ixs. \<forall>m\<in>set (ix_accounts ix). am_pubkey m \<noteq> FIBER_PROGRAM_ID | _ \<Rightarrow> False"
  by code_simp

definition sample_fiber :: Fiber where
  "sample_fiber = V1 (sample_v1 sample_key 0\<lparr>fv_compiled_instruction := enc_compiled (projr (compile_instruction (\<lambda>ks. ks) sample_ix))\<rparr>)"

text \<open>A thread that is late is executed, and the execution confirmed.\<close>

lemma sample_world_simps [simp]:
  "cancelled_at sample_world i = False" "instant_at sample_world i = i" "blockhash_at sample_world i = Inr [1]"
  "send_at sample_world i tx = Inr [2]" "status_at sample_world i sig = Inr (Some (Inr ()))" "tpu_available sample_world = False"
  "simulate_at sample_world i tx ks = Inr \<lparr>units_consumed = Some 10, sim_accounts = None\<rparr>"
  "utc_at sample_world i = 5" "signature_of sample_world tx = [2]"
  by (simp_all add: sample_world_def)

lemma sample_submit: "\<exists>st'. submit_and_confirm_batch sample_world sample_executor sample_key ixs st = Some (Submitted [2], st')"
  by (simp add: submit_and_confirm_batch_def submit_loop.simps submit_attempt_def tpu_phase_def rpc_phase_def rpc_send_def Let_def
      wait_for_confirmation_def wait_loop.simps recorded_def lb_record_def record_execution_result_def MAX_ATTEMPTS_def)

lemma sample_decision: "should_process sample_key [] True 20 sample_lb = Some (Process, sample_lb)"
  by (simp add: should_process_def update_ownership_def decide_def LoadBalancerConfig_default_def sample_lb_def lose_def track_of_def set_track_def
      ThreadTracking_default_def pubkey_default_def Let_def)

lemma sample_execution:
  "\<exists>st'. execute_thread sample_world sample_executor sample_key sample_slot_thread True 20 sample_task = Some (Some (result_success sample_key), st')"
proof -
  have t: "tk_lb sample_task = sample_lb" "now sample_task = 0" "sample_task\<lparr>tk_lb := sample_lb\<rparr> = sample_task" by (simp_all add: sample_task_def)
  have "th_last_executor sample_slot_thread = []" by (simp add: sample_thread_def)
  then have "current_last_executor sample_world sample_key sample_slot_thread (tk_cache sample_task) = Inr []"
    by (simp add: current_last_executor_def sample_task_def)
  then have run: "execute_thread sample_world sample_executor sample_key sample_slot_thread True 20 sample_task =
      batch_loop sample_world sample_executor sample_key sample_slot_thread 0 0 None (sample_task\<lparr>tk_lb := sample_lb\<rparr>)"
    using sample_decision t(1,2) by (simp add: execute_thread_def claim_delay_def Let_def pubkey_default_def)
  obtain ix st where b: "sample_batch = (Inr ([ix], 0, False, None), st)" using sample_batch_value by blast
  then have bb: "build_batch sample_world sample_executor sample_key sample_slot_thread 1 None sample_task = Some (Inr ([ix], 0, False, None), st)"
    using t by (simp add: build_batch_def trigger_loop.simps)
  obtain cu st1 where e: "estimate_compute_units sample_world sample_executor sample_key [ix] st = (Inr cu, st1)"
    by (auto simp: estimate_compute_units_def simulate_transaction_def io_bind_def request_def io_return_def)
  obtain st2 where s: "submit_and_confirm_batch sample_world sample_executor sample_key (with_compute_budget sample_world cu 0 [ix]) st1 = Some (Submitted [2], st2)"
    using sample_submit by blast
  have "batch_loop sample_world sample_executor sample_key sample_slot_thread 0 0 None sample_task = Some (Some (result_success sample_key), st2)"
    using bb e s by (subst batch_loop.simps) (simp add: submit_batch_def Let_def MAX_CONTINUATION_BATCHES_def)
  with run [unfolded t(3)] show ?thesis by simp
qed

section \<open>Workers\<close>

text \<open>
  C9: A worker's run of a thread always ends. It sends at most 100 transactions over RPC (five
  attempts for each of twenty batches), and it reports an execution only after the node has
  confirmed a transaction that this very run has sent.
\<close>

theorem worker_run_ends:
  assumes "clock_laws w"
  shows "\<exists>r st' new. execute_thread w ex key thread overdue seconds st = Some (r, st') \<and> tk_sent st' = tk_sent st @ new \<and>
    rpc_sends new \<le> 100 \<and>
    (\<forall>result. r = Some result \<and> er_success result \<and> \<not> er_skipped result \<longrightarrow>
       (\<exists>s\<in>set new. \<exists>i. now st \<le> i \<and> i < now st' \<and> status_at w i (signature_of w (sent_tx s)) = Inr (Some (Inr ()))))"
  using execute_thread_correct [OF assms, of ex key thread overdue seconds st]
  unfolding progressed_def confirmed_def by (metis claims.simps(2))

theorem worker_run_ends_witness:
  "\<exists>result st' s. execute_thread sample_world sample_executor sample_key sample_slot_thread True 20 sample_task = Some (Some result, st') \<and>
    er_success result \<and> s \<in> set (tk_sent st') \<and> rpc_sends (tk_sent st') \<le> 100"
proof -
  obtain r st' new where run: "execute_thread sample_world sample_executor sample_key sample_slot_thread True 20 sample_task = Some (r, st')"
      "tk_sent st' = tk_sent sample_task @ new" "rpc_sends new \<le> 100"
      "\<forall>result. r = Some result \<and> er_success result \<and> \<not> er_skipped result \<longrightarrow> (\<exists>s\<in>set new. \<exists>i. now sample_task \<le> i \<and> i < now st' \<and>
         status_at sample_world i (signature_of sample_world (sent_tx s)) = Inr (Some (Inr ())))"
    using worker_run_ends [OF sample_clock_laws, of sample_executor sample_key sample_slot_thread True 20 sample_task] by blast
  moreover have "r = Some (result_success sample_key)" using run(1) sample_execution by auto
  moreover have "tk_sent sample_task = []" by (simp add: sample_task_def)
  ultimately show ?thesis by (auto simp: result_success_def)
qed

section \<open>Instructions\<close>

text \<open>Borsh's \<open>try_from_slice\<close> is \<open>deserialize\<close> with the check that nothing is left over.\<close>

definition borsh_prefix_law :: "world \<Rightarrow> bool" where
  "borsh_prefix_law w \<longleftrightarrow> (\<forall>bs c. try_from_slice_compiled (fenv (wt_env w)) bs = Some c \<longrightarrow> deserialize_compiled w bs = Some c)"

text \<open>The fibers in the order in which the thread program goes through them.\<close>

definition on_chain_fiber :: "Thread \<Rightarrow> u8 option \<Rightarrow> nat \<Rightarrow> u8" where
  "on_chain_fiber thread override n =
     ((\<lambda>c. next_fiber_index (thread\<lparr>th_fiber_cursor := c\<rparr>)) ^^ n) (case override of Some c \<Rightarrow> c | None \<Rightarrow> th_fiber_cursor thread)"

lemma on_chain_fiber_nth:
  "on_chain_fiber thread override n = nth_fiber thread n (case override of Some c \<Rightarrow> c | None \<Rightarrow> th_fiber_cursor thread)"
proof -
  have "(\<lambda>c. next_fiber_index (thread\<lparr>th_fiber_cursor := c\<rparr>)) = next_fiber_in_sequence (th_fiber_ids thread)"
    using next_fiber_in_sequence_index [of "thread\<lparr>th_fiber_cursor := c\<rparr>" for c] by fastforce
  then show ?thesis by (simp add: on_chain_fiber_def)
qed

text \<open>
  C19: A batch the executor builds is empty, or executes the fibers one after the other from the
  cursor on, in the order in which the thread program advances its cursor, in at most five
  instructions that fit into one transaction, with the closing instruction last. A
  continuation is announced only by a batch of fewer than five instructions, and a cursor
  announced with it is the first fiber left out.
\<close>

theorem batch_in_sequence:
  assumes "build_execute_transaction w ex key thread override st = (Inr (ixs, fee, needs_continuation, next_cursor), st')"
  shows "ixs = [] \<and> \<not> needs_continuation \<or>
    length ixs \<le> 5 \<and> estimate_transaction_size_with_budget w ex ixs \<le> 1232 \<and>
    (needs_continuation \<longrightarrow> length ixs < 5) \<and>
    (\<exists>execs tail. ixs = execs @ tail \<and>
       (\<forall>i<length execs. exec_ix w ex key thread (on_chain_fiber thread override i) (execs ! i)) \<and>
       (tail = [] \<or> (\<exists>c. tail = [c] \<and> close_ix w ex key thread c \<and> \<not> needs_continuation)) \<and>
       (next_cursor = None \<or> needs_continuation \<and> next_cursor = Some (on_chain_fiber thread override (length execs))))"
proof -
  from build_execute_transaction_spec [OF assms]
  consider "(ixs, fee, needs_continuation, next_cursor) = ([], 0, False, None)"
    | "batch_ok w ex key thread (case override of Some c \<Rightarrow> c | None \<Rightarrow> th_fiber_cursor thread) (ixs, fee, needs_continuation, next_cursor)"
    by blast
  then show ?thesis
  proof cases
    case 1
    then show ?thesis by simp
  next
    case 2
    then show ?thesis
      unfolding batch_ok_def prod.case on_chain_fiber_nth would_fit_in_transaction_def MAX_BATCHED_EXECS_def MAX_TRANSACTION_SIZE_def by blast
  qed
qed

theorem batch_in_sequence_witness:
  "\<exists>ix st. sample_batch = (Inr ([ix], 0, False, None), st) \<and> exec_ix sample_world sample_executor sample_key sample_slot_thread 0 ix"
proof -
  obtain ix st where b: "sample_batch = (Inr ([ix], 0, False, None), st)" using sample_batch_value by blast
  have c: "on_chain_fiber sample_slot_thread None 0 = 0" by (simp add: on_chain_fiber_def sample_thread_def)
  from batch_in_sequence [OF b]
  obtain execs tail where et: "[ix] = execs @ tail" "tail = [] \<or> (\<exists>c. tail = [c] \<and> close_ix sample_world sample_executor sample_key sample_slot_thread c)"
      "\<forall>i<length execs. exec_ix sample_world sample_executor sample_key sample_slot_thread (on_chain_fiber sample_slot_thread None i) (execs ! i)"
    by auto
  have "\<not> close_ix sample_world sample_executor sample_key sample_slot_thread ix"
  proof -
    have "\<forall>m\<in>set (ix_accounts ix). am_pubkey m \<noteq> FIBER_PROGRAM_ID" using sample_batch_accounts b by simp
    then show ?thesis by (force simp: close_ix_def readonly_def)
  qed
  with et have "execs = [ix]" by (cases execs) auto
  with et(3) c b show ?thesis by auto
qed

text \<open>
  C10: Every account and the program of the instruction that the thread program is going to
  invoke for a fiber, with the executor in place of the payer, is among the accounts the
  executor passes along, writable exactly where the invocation needs it, and none of them as
  a signer; the fiber account is the address of the cursor.
\<close>

theorem executor_passes_fiber_accounts:
  assumes "build_execute_instruction w ex key thread cursor (fiber_compiled_instruction fiber) st = (Inr ix, st')"
    and "get_instruction (fenv (wt_env w)) fiber (ex_pubkey ex) = Inr ins" and "borsh_prefix_law w"
  shows "\<exists>base rem. ix_accounts ix = base @ rem \<and>
    (\<forall>a\<in>set (ix_accounts ins). \<exists>r\<in>set rem. am_pubkey r = am_pubkey a \<and> is_writable r = is_writable a) \<and>
    (program_id ins \<noteq> PAYER_PUBKEY \<longrightarrow> (\<exists>r\<in>set rem. am_pubkey r = program_id ins)) \<and> (\<forall>r\<in>set rem. \<not> is_signer r) \<and>
    (\<exists>admin rest. ix_accounts ix =
       thread_exec_metas w (exec_accounts_for w ex key thread (fiber_at_index (wt_env w) key cursor) admin) @ rest)"
proof -
  have d: "decompile_with_payer (fenv (wt_env w)) (fiber_compiled_instruction fiber) (ex_pubkey ex) = Inr ins"
    using assms(2) by (cases fiber) simp_all
  then obtain c ins0 where c: "try_from_slice_compiled (fenv (wt_env w)) (fiber_compiled_instruction fiber) = Some c"
      "decompile_instruction c = Inr ins0" and ins: "ins = substitute_payer (ex_pubkey ex) ins0"
    by (auto simp: decompile_with_payer_def res_simps substitute_payer_def)
  have p: "program_id ins = program_id ins0" by (simp add: ins substitute_payer_def)
  have "deserialize_compiled w (fiber_compiled_instruction fiber) = Some c" using assms(3) c(1) by (simp add: borsh_prefix_law_def)
  from build_execute_instruction_spec(2) [OF assms(1) this c(2)]
  obtain base rem where br: "ix_accounts ix = base @ rem" "covers ex rem ins0" by blast
  then show ?thesis
    using build_execute_instruction_spec(1) [OF assms(1)]
    by (intro exI [of _ base] exI [of _ rem]) (auto simp: exec_ix_def covers_def ins [symmetric] p resolve_payer_def)
qed

theorem executor_passes_fiber_accounts_witness:
  "\<exists>ix st. build_execute_instruction sample_world sample_executor sample_key sample_slot_thread 0 (fiber_compiled_instruction sample_fiber) sample_task = (Inr ix, st) \<and>
    (\<exists>r\<in>set (ix_accounts ix). am_pubkey r = [1] \<and> is_writable r)"
proof -
  have "\<not> isl (fst (build_execute_instruction sample_world sample_executor sample_key sample_slot_thread 0 (fiber_compiled_instruction sample_fiber) sample_task))"
    by code_simp
  then obtain ix st where b: "build_execute_instruction sample_world sample_executor sample_key sample_slot_thread 0 (fiber_compiled_instruction sample_fiber) sample_task = (Inr ix, st)"
    by (metis right_result prod.collapse)
  have "case get_instruction sample_fiber_env sample_fiber [40] of
      Inr ins \<Rightarrow> \<lparr>am_pubkey = [1], is_signer = True, is_writable = True\<rparr> \<in> set (ix_accounts ins) | Inl _ \<Rightarrow> False"
    by code_simp
  then obtain ins where i: "get_instruction sample_fiber_env sample_fiber [40] = Inr ins"
      "\<lparr>am_pubkey = [1], is_signer = True, is_writable = True\<rparr> \<in> set (ix_accounts ins)"
    by (auto split: sum.splits)
  have law: "borsh_prefix_law sample_world" by (simp add: borsh_prefix_law_def sample_world_def sample_fiber_env_def)
  have "get_instruction (fenv (wt_env sample_world)) sample_fiber (ex_pubkey sample_executor) = Inr ins"
    using i(1) by (simp add: sample_world_def sample_executor_def)
  from executor_passes_fiber_accounts [OF b this law] i(2) b show ?thesis by fastforce
qed

end
