(* ===== verification/Worker_Pool.thy ===== *)
theory Worker_Pool
  imports Processor
begin

text \<open>
  The actor part of \<open>crates/client/src/actors/worker.rs\<close> and its composition with the processor:
  a worker starts a task, the task runs \<open>execute_thread\<close> and posts one report to the processor,
  the processor cancels and replaces workers. The steps of tasks, of reports in transit and of
  other messages interleave freely. That a worker reports once and only while the processor
  counts it, which the processor on its own has to assume, is proved here.
\<close>

section \<open>The actor\<close>

datatype WorkerMessage = WM_Cancel

record WorkerState =
  ws_pubkey :: pubkey
  ws_thread :: Thread
  ws_cancelled :: bool

text \<open>The state of the actor, and what the task was given besides.\<close>

record worker =
  wk_state :: WorkerState
  wk_overdue :: bool
  wk_seconds :: i64

definition worker_pre_start :: "ReadyThread \<Rightarrow> Thread \<Rightarrow> worker" where
  "worker_pre_start ready thread =
     \<lparr>wk_state = \<lparr>ws_pubkey = rt_pubkey ready, ws_thread = thread, ws_cancelled = False\<rparr>,
      wk_overdue = is_overdue ready, wk_seconds = overdue_seconds ready\<rparr>"

fun handle_worker :: "WorkerMessage \<Rightarrow> WorkerState \<Rightarrow> WorkerState" where
  "handle_worker WM_Cancel st = st\<lparr>ws_cancelled := True\<rparr>"

text \<open>
  The result of the task: a report, or none when it panics. The flag is only ever set, so a
  task that saw it set ends with it set.
\<close>

definition task_ends :: "world \<Rightarrow> ExecutorLogic \<Rightarrow> worker \<Rightarrow> ExecutionResult option \<Rightarrow> bool" where
  "task_ends w ex wk r \<longleftrightarrow>
     (\<forall>i. cancelled_at w i \<longrightarrow> ws_cancelled (wk_state wk)) \<and>
     (\<exists>st st'. execute_thread w ex (ws_pubkey (wk_state wk)) (ws_thread (wk_state wk)) (wk_overdue wk) (wk_seconds wk) st = Some (r, st'))"

section \<open>The pool\<close>

text \<open>
  The processor, the running tasks by thread, the reports on their way, and the threads whose
  task has panicked: nothing is reported for them and nobody stops their actor.
\<close>

record pool =
  po_processor :: ProcessorState
  po_tasks :: "pubkey \<rightharpoonup> worker"
  po_reports :: "ExecutionResult list"
  po_dead :: "pubkey set"

fun deliver_out :: "processor_out \<Rightarrow> (pubkey \<rightharpoonup> worker) \<Rightarrow> (pubkey \<rightharpoonup> worker)" where
  "deliver_out (SpawnWorker ready thread) tasks = tasks(rt_pubkey ready \<mapsto> worker_pre_start ready thread)"
| "deliver_out (CancelWorker key) tasks =
     (case tasks key of None \<Rightarrow> tasks | Some wk \<Rightarrow> tasks(key \<mapsto> wk\<lparr>wk_state := handle_worker WM_Cancel (wk_state wk)\<rparr>))"
| "deliver_out (StopWorker key) tasks = tasks"
| "deliver_out (ThreadCompleted key reason) tasks = tasks"
| "deliver_out (Status s) tasks = tasks"

definition pool_start :: "nat \<Rightarrow> cache \<Rightarrow> pool" where
  "pool_start n c = \<lparr>po_processor = processor_start n c, po_tasks = Map.empty, po_reports = [], po_dead = {}\<rparr>"

inductive pool_step :: "processor_env \<Rightarrow> pool \<Rightarrow> pool \<Rightarrow> bool" for env :: processor_env where
  message: "handle_processor env msg (po_processor p) = (Inr (), st, out) \<Longrightarrow> (\<forall>r. msg \<noteq> PM_WorkerCompleted r) \<Longrightarrow>
    pool_step env p (p\<lparr>po_processor := st, po_tasks := fold deliver_out out (po_tasks p)\<rparr>)"
| ends: "po_tasks p key = Some wk \<Longrightarrow> task_ends w ex wk (Some r) \<Longrightarrow>
    pool_step env p (p\<lparr>po_tasks := (po_tasks p)(key := None), po_reports := po_reports p @ [r]\<rparr>)"
| panics: "po_tasks p key = Some wk \<Longrightarrow> task_ends w ex wk None \<Longrightarrow>
    pool_step env p (p\<lparr>po_tasks := (po_tasks p)(key := None), po_dead := insert key (po_dead p)\<rparr>)"
| report: "po_reports p = r # rs \<Longrightarrow> handle_processor env (PM_WorkerCompleted r) (po_processor p) = (Inr (), st, out) \<Longrightarrow>
    pool_step env p (p\<lparr>po_processor := st, po_reports := rs, po_tasks := fold deliver_out out (po_tasks p)\<rparr>)"

inductive_cases pool_stepE: "pool_step env p q"

section \<open>Reports\<close>

text \<open>A task reports the thread it was started for.\<close>

lemma submit_batch_key:
  "submit_batch w ex key n fee b st = Some (Finished (Some r), st') \<Longrightarrow> er_pubkey r = key"
  by (cases b)
    (auto simp: submit_batch_def Let_def result_success_def result_failed_def result_skipped_def failed_with_def
      split: if_splits sum.splits option.splits prod.splits submit_result.splits exec_error.splits)

lemma batch_loop_key:
  "batch_loop w ex key thread n fee cursor st = Some (Some r, st') \<Longrightarrow> er_pubkey r = key"
proof (induction w ex key thread n fee cursor st rule: batch_loop.induct)
  case (1 w ex key thread n fee cursor st)
  show ?case
  proof (cases "n + 1 > MAX_CONTINUATION_BATCHES")
    case True
    then show ?thesis using 1(2) by (auto simp: batch_loop.simps [of _ _ _ _ n] result_success_def)
  next
    case False
    then show ?thesis using 1 submit_batch_key
      by (auto simp: batch_loop.simps [of _ _ _ _ n] failed_with_def result_failed_def
          split: option.splits prod.splits sum.splits batch_end.splits exec_error.splits)
  qed
qed

lemma execute_thread_key:
  "execute_thread w ex key thread od secs st = Some (Some r, st') \<Longrightarrow> er_pubkey r = key"
  by (auto simp: execute_thread_def result_failed_def split: if_splits sum.splits option.splits prod.splits ProcessDecision.splits bool.splits
      dest: batch_loop_key)

lemma task_ends_key: "task_ends w ex wk (Some r) \<Longrightarrow> er_pubkey r = ws_pubkey (wk_state wk)"
  by (auto simp: task_ends_def dest: execute_thread_key)

section \<open>The invariant\<close>

text \<open>The threads the processor counts are those with a running task, a report on its way or a dead task, each in one way only.\<close>

definition counted :: "'a set \<Rightarrow> 'a set \<Rightarrow> 'a set \<Rightarrow> 'a set \<Rightarrow> bool" where
  "counted all tasks reports dead \<longleftrightarrow> all = tasks \<union> reports \<union> dead \<and> tasks \<inter> (reports \<union> dead) = {} \<and> reports \<inter> dead = {}"

definition own_keys :: "(pubkey \<rightharpoonup> worker) \<Rightarrow> bool" where
  "own_keys tasks \<longleftrightarrow> (\<forall>key wk. tasks key = Some wk \<longrightarrow> ws_pubkey (wk_state wk) = key)"

definition pool_inv :: "nat \<Rightarrow> pool \<Rightarrow> bool" where
  "pool_inv n p \<longleftrightarrow>
     permits_inv n (po_processor p) \<and>
     counted (active_workers (po_processor p)) (dom (po_tasks p)) (er_pubkey ` set (po_reports p)) (po_dead p) \<and>
     distinct (map er_pubkey (po_reports p)) \<and> own_keys (po_tasks p)"

lemma counted_spawn: "counted A T R D \<Longrightarrow> new \<inter> A = {} \<Longrightarrow> counted (A \<union> new) (T \<union> new) R D"
  unfolding counted_def by blast

lemma counted_end: "counted A T R D \<Longrightarrow> k \<in> T \<Longrightarrow> counted A (T - {k}) (insert k R) D \<and> counted A (T - {k}) R (insert k D)"
  unfolding counted_def by blast

lemma counted_report: "counted A T (insert k R) D \<Longrightarrow> k \<notin> R \<Longrightarrow> counted (A - {k}) T R D"
  unfolding counted_def by blast

text \<open>What the processor sends after a spawn attempt adds to the tasks exactly what it adds to its workers.\<close>

lemma spawn_delivered:
  assumes "try_spawn_next_worker env st = (Inr (), st', out)" and "own_keys tasks"
  shows "\<exists>new. active_workers st' = active_workers st \<union> new \<and> new \<inter> active_workers st = {} \<and>
    dom (fold deliver_out out tasks) = dom tasks \<union> new \<and> own_keys (fold deliver_out out tasks)"
  using assms(1)
proof (cases rule: try_spawn_cases)
  case (spawn ready q c thread)
  then show ?thesis using assms(2)
    by (intro exI [of _ "{rt_pubkey ready}"]) (auto simp: own_keys_def worker_pre_start_def)
qed (use assms(2) in \<open>auto simp: notify_done_def intro!: exI [of _ "{}"]\<close>)

lemma cancel_delivered:
  "own_keys tasks \<Longrightarrow> dom (deliver_out (CancelWorker key) tasks) = dom tasks \<and> own_keys (deliver_out (CancelWorker key) tasks)"
  by (auto simp: own_keys_def split: option.splits)

lemma message_delivered:
  assumes "handle_processor env msg st = (Inr (), st', out)" and "\<forall>r. msg \<noteq> PM_WorkerCompleted r" and "own_keys tasks"
  shows "\<exists>new. active_workers st' = active_workers st \<union> new \<and> new \<inter> active_workers st = {} \<and>
    dom (fold deliver_out out tasks) = dom tasks \<union> new \<and> own_keys (fold deliver_out out tasks)"
proof (cases msg)
  case (PM_ProcessReady ready)
  then show ?thesis
    using spawn_delivered [of env "st\<lparr>pending_queue := pending_queue st @ [ready]\<rparr>" st' out tasks] assms(1,3) by simp
next
  case (PM_CancelThread key)
  then show ?thesis
    using assms(1,3) cancel_delivered [OF assms(3), of key]
    by (intro exI [of _ "{}"], cases "key \<in> active_workers st") (fastforce simp del: deliver_out.simps)+
qed (use assms in \<open>auto intro!: exI [of _ "{}"]\<close>)

lemma report_delivered:
  assumes "handle_processor env (PM_WorkerCompleted r) st = (Inr (), st', out)" and "own_keys tasks"
  shows "\<exists>new. active_workers st' = active_workers st - {er_pubkey r} \<union> new \<and> new \<inter> (active_workers st - {er_pubkey r}) = {} \<and>
    dom (fold deliver_out out tasks) = dom tasks \<union> new \<and> own_keys (fold deliver_out out tasks)"
proof -
  let ?st = "st\<lparr>active_workers := active_workers st - {er_pubkey r}, available_permits := available_permits st + 1\<rparr>"
  obtain out2 pre where s: "try_spawn_next_worker env ?st = (Inr (), st', out2)" and o: "out = pre @ out2"
    and pre: "set pre \<subseteq> {StopWorker (er_pubkey r)} \<union> range (\<lambda>x. ThreadCompleted (er_pubkey r) x)"
    using assms(1) by (auto simp: Let_def handle_execution_result_def split: prod.splits if_splits)
  have "fold deliver_out xs tasks = tasks" if "set xs \<subseteq> {StopWorker (er_pubkey r)} \<union> range (\<lambda>x. ThreadCompleted (er_pubkey r) x)" for xs
    using that by (induction xs) auto
  from this [OF pre] o have "fold deliver_out out tasks = fold deliver_out out2 tasks" by simp
  with spawn_delivered [OF s assms(2)] show ?thesis by simp
qed

lemma processor_part:
  assumes "pool_inv n p" and "pool_step env p q"
  shows "po_processor q = po_processor p \<or> processor_step env (po_processor p) (po_processor q)"
  using assms(2)
proof (cases rule: pool_step.cases)
  case (message msg st out)
  then show ?thesis by (auto intro: processor_step.intros)
next
  case (report r rs st out)
  then have "er_pubkey r \<in> active_workers (po_processor p)" using assms(1) by (auto simp: pool_inv_def counted_def)
  then show ?thesis using report processor_step.intros [OF report(3)] by auto
qed auto

interpretation pool: invariant_system "\<lambda>p. \<exists>c. p = pool_start n c" "pool_step env" "pool_inv n" for n env
proof
  show "\<exists>c. p = pool_start n c \<Longrightarrow> pool_inv n p" for p
    by (auto simp: pool_start_def pool_inv_def counted_def own_keys_def processor_start_def permits_inv_def)
  show "pool_inv n q" if inv: "pool_inv n p" and step: "pool_step env p q" for p q
  proof -
    have permits: "permits_inv n (po_processor q)"
      using processor_part [OF inv step] inv processor.step_inv [of n "po_processor p" env] by (auto simp: pool_inv_def)
    have own: "own_keys (po_tasks p)" and d: "distinct (map er_pubkey (po_reports p))"
      and c: "counted (active_workers (po_processor p)) (dom (po_tasks p)) (er_pubkey ` set (po_reports p)) (po_dead p)"
      using inv by (simp_all add: pool_inv_def)
    from step show ?thesis
    proof (cases rule: pool_step.cases)
      case (message msg st out)
      from message_delivered [OF message(2,3) own] show ?thesis
        using permits d counted_spawn [OF c] unfolding message(1) by (auto simp: pool_inv_def)
    next
      case (ends key wk w ex r)
      have k: "er_pubkey r = key" using task_ends_key [OF ends(3)] own ends(2) by (simp add: own_keys_def)
      have "key \<notin> er_pubkey ` set (po_reports p)" using c ends(2) by (auto simp: counted_def)
      moreover have "key \<in> dom (po_tasks p)" using ends(2) by blast
      ultimately show ?thesis
        using permits d own counted_end [OF c, of key] unfolding ends(1) by (simp add: pool_inv_def k own_keys_def)
    next
      case (panics key wk w ex)
      then have "key \<in> dom (po_tasks p)" by blast
      then show ?thesis
        using permits d own counted_end [OF c, of key] unfolding panics(1) by (simp add: pool_inv_def own_keys_def)
    next
      case (report r rs st out)
      have c': "counted (active_workers (po_processor p) - {er_pubkey r}) (dom (po_tasks p)) (er_pubkey ` set rs) (po_dead p)"
        by (rule counted_report) (use c d report(2) in auto)
      from report_delivered [OF report(3) own] show ?thesis
        using permits d report(2) counted_spawn [OF c'] unfolding report(1) by (auto simp: pool_inv_def)
    qed
  qed
qed

lemma pool_dead_grows: "(pool_step env)\<^sup>*\<^sup>* p q \<Longrightarrow> po_dead p \<subseteq> po_dead q"
  by (induction rule: rtranclp_induct) (auto elim!: pool_stepE)

lemma pool_count:
  assumes "pool_inv n p"
  shows "available_permits (po_processor p) + card (dom (po_tasks p)) + length (po_reports p) + card (po_dead p) = n"
proof -
  let ?R = "er_pubkey ` set (po_reports p)"
  have c: "counted (active_workers (po_processor p)) (dom (po_tasks p)) ?R (po_dead p)"
    and f: "finite (active_workers (po_processor p))" "available_permits (po_processor p) + card (active_workers (po_processor p)) = n"
    and d: "distinct (map er_pubkey (po_reports p))"
    using assms by (simp_all add: pool_inv_def permits_inv_def)
  have "card ?R = length (po_reports p)" using distinct_card [OF d] by simp
  moreover have "card (active_workers (po_processor p)) = card (dom (po_tasks p)) + card ?R + card (po_dead p)"
    using c f(1) by (simp add: counted_def card_Un_disjoint Int_Un_distrib Int_Un_distrib2)
  ultimately show ?thesis using f(2) by simp
qed

text \<open>The processor of a running pool is a processor that runs on its own.\<close>

lemma pool_refines_processor:
  assumes "reach (\<lambda>p. \<exists>c. p = pool_start n c) (pool_step env) p"
  shows "reach (\<lambda>st. \<exists>c. st = processor_start n c) (processor_step env) (po_processor p)"
  using assms
proof (induction rule: reach.induct)
  case (reach_start s)
  then show ?case by (intro reach.reach_start) (auto simp: pool_start_def)
next
  case (reach_step s t)
  then show ?case using processor_part [OF pool.reach_inv [OF reach_step(1)] reach_step(2)] by (auto intro: reach.reach_step)
qed

end
