(* ===== verification/Properties_Flow.thy ===== *)
theory Properties_Flow
  imports Properties_Client Worker_Pool
begin

text \<open>
  The properties of the client's actors and shared services: staging, processor, load
  balancer, account cache and RPC pool, and three ways in which a thread that is due can
  be left behind. Each property is followed by a witness.
\<close>

section \<open>Staging and processor\<close>

definition sample_staging_env :: staging_env where
  "sample_staging_env = \<lparr>cenv = sample_client, heap_order = sort_key trigger_value, processor_alive = True, CLOCK_SYSVAR = [99]\<rparr>"

lemma sample_heap_laws: "heap_laws sample_staging_env"
  by (simp add: heap_laws_def sample_staging_env_def)

definition sample_staging :: StagingState where
  "sample_staging = (staging_start sample_lb (\<lambda>_. None))\<lparr>processor_set := True,
     tracked_threads := [sample_key \<mapsto> tracked_of sample_slot_thread],
     slot_queue := [\<lparr>trigger_value = 3, sc_pubkey = sample_key, sc_exec_count = 0\<rparr>, \<lparr>trigger_value = 2, sc_pubkey = sample_key, sc_exec_count = 0\<rparr>]\<rparr>"



text \<open>
  C23: Processor, running tasks and reports on their way, in every interleaving: the free permits,
  the running tasks, the reports and the tasks that have panicked add up to the configured
  number, so that never more workers run; no thread is counted twice. A task that has panicked
  keeps its permit for ever, and no other task is ever started for its thread.
\<close>

theorem worker_pool_conserved:
  assumes "reach (\<lambda>p. \<exists>c. p = pool_start n c) (pool_step env) p"
  shows "available_permits (po_processor p) + card (dom (po_tasks p)) + length (po_reports p) + card (po_dead p) = n \<and>
    active_workers (po_processor p) = dom (po_tasks p) \<union> er_pubkey ` set (po_reports p) \<union> po_dead p \<and>
    (\<forall>p'. (pool_step env)\<^sup>*\<^sup>* p p' \<longrightarrow> po_dead p \<subseteq> po_dead p' \<and> po_dead p \<subseteq> active_workers (po_processor p') \<and>
       dom (po_tasks p') \<inter> po_dead p = {})"
proof -
  note inv = pool.reach_inv [OF assms]
  have "po_dead p \<subseteq> po_dead p' \<and> po_dead p \<subseteq> active_workers (po_processor p') \<and> dom (po_tasks p') \<inter> po_dead p = {}"
    if "(pool_step env)\<^sup>*\<^sup>* p p'" for p'
    using pool_dead_grows [OF that] pool.steps_inv [OF inv that] by (auto simp: pool_inv_def counted_def)
  with pool_count [OF inv] inv show ?thesis by (auto simp: pool_inv_def counted_def)
qed

definition sample_processor_env :: processor_env where
  "sample_processor_env = \<lparr>pc_env = sample_client, staging_alive = True, spawn_worker = (\<lambda>_. Inr ())\<rparr>"

definition sample_cached :: cache where
  "sample_cached = (\<lambda>_. Some \<lparr>ca_data = [7, 7, 7, 7, 7, 7, 7, 7], ca_slot = 5, ca_hash = 8, ca_trigger_type = CacheBlock\<rparr>)"

definition sample_worker_pool :: pool where
  "sample_worker_pool =
     (let ready = \<lparr>rt_pubkey = sample_key, rt_exec_count = 0, is_overdue = False, overdue_seconds = 0\<rparr> in
      case handle_processor sample_processor_env (PM_ProcessReady ready) (processor_start 2 sample_cached) of
        (_, st, out) \<Rightarrow> (pool_start 2 sample_cached)\<lparr>po_processor := st, po_tasks := fold deliver_out out Map.empty\<rparr>)"

theorem worker_pool_conserved_witness:
  "reach (\<lambda>p. \<exists>c. p = pool_start 2 c) (pool_step sample_processor_env) sample_worker_pool \<and> dom (po_tasks sample_worker_pool) = {sample_key} \<and>
     available_permits (po_processor sample_worker_pool) + 1 = 2"
proof -
  let ?r = "\<lparr>rt_pubkey = sample_key, rt_exec_count = 0, is_overdue = False, overdue_seconds = 0\<rparr>"
  obtain st out where h: "handle_processor sample_processor_env (PM_ProcessReady ?r) (processor_start 2 sample_cached) = (Inr (), st, out)"
      "dom (fold deliver_out out Map.empty) = {sample_key}"
    by (simp add: processor_start_def try_spawn_next_worker_def thread_for_worker_def sample_cached_def sample_processor_env_def
        sample_client_def Let_def sample_thread_def)
  have eq: "sample_worker_pool = (pool_start 2 sample_cached)\<lparr>po_processor := st,
      po_tasks := fold deliver_out out (po_tasks (pool_start 2 sample_cached))\<rparr>"
    using h(1) by (simp add: sample_worker_pool_def pool_start_def)
  have r: "reach (\<lambda>p. \<exists>c. p = pool_start 2 c) (pool_step sample_processor_env) sample_worker_pool"
  proof (rule reach_step)
    show "reach (\<lambda>p. \<exists>c. p = pool_start 2 c) (pool_step sample_processor_env) (pool_start 2 sample_cached)" by (rule reach_start) blast
    show "pool_step sample_processor_env (pool_start 2 sample_cached) sample_worker_pool"
      unfolding eq by (rule pool_step.message [of _ "PM_ProcessReady ?r"]) (use h(1) in \<open>simp_all add: pool_start_def\<close>)
  qed
  have "po_reports sample_worker_pool = []" "po_dead sample_worker_pool = {}" "dom (po_tasks sample_worker_pool) = {sample_key}"
    using h(2) by (simp_all add: eq pool_start_def)
  with worker_pool_conserved [OF r] r show ?thesis by simp
qed

section \<open>Threads left behind\<close>



text \<open>
  When the only worker completes and the entry at the head of the queue is stale, the
  processor drops that entry and starts nothing: the rest of the queue waits with all permits
  free and no worker left whose completion would start it.
\<close>

theorem stale_entry_stalls_queue:
  assumes "permits_inv n st" and "pending_queue st = stale # q" and "active_workers st = {er_pubkey result}" and "rt_pubkey stale \<noteq> er_pubkey result"
    and "pr_cache st (rt_pubkey stale) = Some cached" and "try_deserialize_thread (pc_env env) (ca_data cached) = Some thread"
    and "th_exec_count thread \<noteq> rt_exec_count stale" and "staging_alive env"
  shows "\<exists>st' out. handle_processor env (PM_WorkerCompleted result) st = (Inr (), st', out) \<and>
    pending_queue st' = q \<and> active_workers st' = {} \<and> available_permits st' = n \<and> (\<forall>r t. SpawnWorker r t \<notin> set out)"
  using stale_head_stalls [OF assms(2-8)] assms(1,3) by (auto simp: permits_inv_def)

theorem stale_entry_stalls_queue_witness:
  "\<exists>st' out. handle_processor sample_processor_env (PM_WorkerCompleted (result_success [8]))
      \<lparr>pending_queue = [\<lparr>rt_pubkey = sample_key, rt_exec_count = 4, is_overdue = False, overdue_seconds = 0\<rparr>,
                        \<lparr>rt_pubkey = [9], rt_exec_count = 0, is_overdue = False, overdue_seconds = 0\<rparr>],
       active_workers = {[8]}, available_permits = 0, pr_cache = sample_cached\<rparr> = (Inr (), st', out) \<and>
    length (pending_queue st') = 1 \<and> active_workers st' = {} \<and> available_permits st' = 1"
proof -
  let ?stale = "\<lparr>rt_pubkey = sample_key, rt_exec_count = 4, is_overdue = False, overdue_seconds = 0\<rparr>"
  let ?q = "[\<lparr>rt_pubkey = [9], rt_exec_count = 0, is_overdue = False, overdue_seconds = 0\<rparr>]"
  let ?st = "\<lparr>pending_queue = ?stale # ?q, active_workers = {[8]}, available_permits = 0, pr_cache = sample_cached\<rparr>"
  let ?e = "\<lparr>ca_data = [7, 7, 7, 7, 7, 7, 7, 7], ca_slot = 5, ca_hash = 8, ca_trigger_type = CacheBlock\<rparr>"
  have h: "permits_inv 1 ?st" "pending_queue ?st = ?stale # ?q" "active_workers ?st = {er_pubkey (result_success [8])}"
      "rt_pubkey ?stale \<noteq> er_pubkey (result_success [8])"
    by (simp_all add: permits_inv_def result_success_def sample_key_def SEED_THREAD_def)
  have c: "pr_cache ?st (rt_pubkey ?stale) = Some ?e"
      "try_deserialize_thread (pc_env sample_processor_env) (ca_data ?e) = Some sample_slot_thread"
      "th_exec_count sample_slot_thread \<noteq> rt_exec_count ?stale" "staging_alive sample_processor_env"
    by (simp_all add: sample_cached_def sample_processor_env_def sample_client_def sample_thread_def)
  from stale_entry_stalls_queue [OF h c] show ?thesis by (elim exE conjE) (intro exI conjI, assumption, simp_all)
qed

text \<open>
  A thread whose cache entry has been evicted is fetched again without decompressing the
  answer. When the node answers with compressed data, as it is asked to, the fetch fails
  although the data decodes to the thread, and the tick that handles the eviction stops
  tracking the thread.
\<close>

theorem refetch_drops_thread:
  assumes "eviction_rx st = key # rest" and "st_cache st key = None"
    and "rpc_get_account (cenv env) key = Inr (Some (answer, ''base64+zstd''))" and "base64_decode (cenv env) answer = Some packed"
    and "zstd_decompress (cenv env) packed = Some data" and "try_deserialize_thread (cenv env) data = Some thread"
    and "try_deserialize_thread (cenv env) packed = None"
  shows "Option.bind (decode_account_data (cenv env) answer ''base64+zstd'') (try_deserialize_thread (cenv env)) = Some thread \<and>
    process_evictions env 1 st = st\<lparr>eviction_rx := rest, tracked_threads := (tracked_threads st)(key := None),
      queued_threads := queued_threads st - {key}\<rparr>"
proof -
  have "get_thread_or_fetch (cenv env) key (st_cache st) = (None, st_cache st)"
    using assms(2-4,7) by (intro fetch_compressed_fails)
  moreover have "st\<lparr>st_cache := st_cache st\<rparr> = st" by simp
  ultimately show ?thesis using assms by (simp add: decode_account_data_def One_nat_def)
qed

theorem refetch_drops_thread_witness:
  "tracked_threads (process_evictions sample_staging_env 1 (sample_staging\<lparr>eviction_rx := [sample_key]\<rparr>)) sample_key = None"
proof -
  let ?st = "sample_staging\<lparr>eviction_rx := [sample_key]\<rparr>"
  have e: "eviction_rx ?st = sample_key # []" "st_cache ?st sample_key = None"
    by (simp_all add: sample_staging_def staging_start_def)
  have c: "rpc_get_account (cenv sample_staging_env) sample_key = Inr (Some (''Z'', ''base64+zstd''))"
      "base64_decode (cenv sample_staging_env) ''Z'' = Some [1]" "zstd_decompress (cenv sample_staging_env) [1] = Some [7, 7, 7, 7, 7, 7, 7, 7]"
      "try_deserialize_thread (cenv sample_staging_env) [7, 7, 7, 7, 7, 7, 7, 7] = Some sample_slot_thread"
      "try_deserialize_thread (cenv sample_staging_env) [1] = None"
    by (simp_all add: sample_staging_env_def sample_client_def)
  from refetch_drops_thread [OF e c] show ?thesis by simp
qed

section \<open>Shared services\<close>

text \<open>
  Failover tries every usable endpoint at most once, in an order of the strategy, and
  stops at the first that answers; the endpoints before it have recorded a failure, it has
  recorded a success, and the others are as they were. Without an answer, and unless the
  request panicked, every usable endpoint has recorded a failure.
\<close>

theorem failover_in_order:
  assumes "execute_with_failover env t0 read_only pool = (answer, pool')"
  shows "\<exists>tried. mset tried = mset (available_endpoints read_only pool) \<and> distinct tried \<and>
    (case answer of
       Inr r \<Rightarrow> \<exists>pre i post. tried = pre @ i # post \<and>
         (\<forall>j\<in>set pre. \<exists>t. endpoints pool' ! j = record_failure t (endpoints pool ! j)) \<and>
         (\<exists>t l. endpoints pool' ! i = record_success t l (endpoints pool ! i)) \<and>
         (\<forall>j. j \<notin> set pre \<longrightarrow> j \<noteq> i \<longrightarrow> endpoints pool' ! j = endpoints pool ! j)
     | Inl e \<Rightarrow> e \<noteq> RpcPanic \<longrightarrow> (\<forall>j\<in>set tried. \<exists>t. endpoints pool' ! j = record_failure t (endpoints pool ! j)) \<and>
         (\<forall>j. j \<notin> set tried \<longrightarrow> endpoints pool' ! j = endpoints pool ! j))"
proof -
  obtain tried pool1 where sel: "select_endpoints read_only pool = (tried, pool1)" by fastforce
  have m: "mset tried = mset (available_endpoints read_only pool)" using select_endpoints_mset [of read_only pool] sel by simp
  have d: "distinct tried" using m available_distinct [of read_only pool] by (metis mset_eq_imp_distinct_iff)
  have e: "endpoints pool1 = endpoints pool" using select_endpoints_frame [of read_only pool] sel by simp
  have s: "set tried \<subseteq> {..<length (endpoints pool1)}"
    using m e by (metis available_iff lessThan_iff mset_eq_setD subsetI)
  show ?thesis
  proof (cases "tried = []")
    case True
    then have "answer = Inl NoHealthyEndpoints" "pool' = pool1" using assms sel by (auto simp: execute_with_failover_def)
    then show ?thesis using True m d e by auto
  next
    case False
    then have run: "try_endpoints env t0 tried NoHealthyEndpoints pool1 = (answer, pool')"
      using assms sel by (simp add: execute_with_failover_def)
    show ?thesis
    proof (cases answer)
      case (Inr r)
      then show ?thesis
        using try_endpoints_Inr [OF run [unfolded Inr] d s] m d unfolding e by (intro exI [of _ tried]) simp
    next
      case (Inl x)
      then show ?thesis
        using try_endpoints_Inl [OF run [unfolded Inl] _ d s] m d unfolding e by (intro exI [of _ tried]) simp
    qed
  qed
qed

definition sample_pool :: RpcPool where
  "sample_pool = \<lparr>endpoints = map (\<lambda>u. endpoint_new (EndpointConfig_new u)) [''a'', ''b''], load_balance_strategy = RoundRobin, round_robin_idx = 0\<rparr>"

definition sample_rpc :: "string rpc_env" where
  "sample_rpc = \<lparr>http_post = (\<lambda>url _. Some (url = ''b'', Some ''ok'')), parse_rpc_error = (\<lambda>_. None), parse_response = Some, http_latency = (\<lambda>_ _. 1)\<rparr>"

theorem failover_in_order_witness:
  "\<exists>pool'. execute_with_failover sample_rpc 0 True sample_pool = (Inr ''ok'', pool') \<and>
    (\<exists>i<2. \<exists>t l. endpoints pool' ! i = record_success t l (endpoints sample_pool ! i))"
proof -
  obtain answer pool' where run: "execute_with_failover sample_rpc 0 True sample_pool = (answer, pool')" by fastforce
  have "fst (execute_with_failover sample_rpc 0 True sample_pool) = Inr ''ok''" by code_simp
  then have a: "answer = Inr ''ok''" using run by simp
  from failover_in_order [OF run [unfolded a], unfolded sum.case]
  obtain tried pre i post where t: "mset tried = mset (available_endpoints True sample_pool)" "tried = pre @ i # post"
      "\<exists>t l. endpoints pool' ! i = record_success t l (endpoints sample_pool ! i)" by blast
  have "i \<in> set (available_endpoints True sample_pool)" using t(1,2) by (metis in_set_conv_decomp mset_eq_setD)
  then have "i < 2" by (auto simp: available_iff sample_pool_def)
  with t(3) run a show ?thesis by auto
qed

text \<open>
  An executor keeps a thread it owns through every series of losses shorter than the
  capacity threshold and gives it up with the loss that reaches it, whoever wins.
\<close>

theorem ownership_released_at_threshold:
  assumes "owned (track_of k lb)" and "consecutive_losses (track_of k lb) = 0"
    and "length es + 1 = unat (capacity_threshold (lb_config lb))"
    and "\<forall>e\<in>insert final (set es). e \<noteq> executor_pubkey lb \<and> e \<noteq> pubkey_default"
  shows "\<exists>lb1 lb2. losses k es lb = Some lb1 \<and> owned (track_of k lb1) \<and>
    update_ownership k final lb1 = Some lb2 \<and> \<not> owned (track_of k lb2) \<and> consecutive_losses (track_of k lb2) = 0"
proof -
  obtain lb1 where l: "losses k es lb = Some lb1" "owned (track_of k lb1)" "lb_config lb1 = lb_config lb"
      "executor_pubkey lb1 = executor_pubkey lb" "unat (consecutive_losses (track_of k lb1)) = length es"
    using losses_count [of k lb es] assms by auto
  then have "unat (consecutive_losses (track_of k lb1)) + 1 = unat (capacity_threshold (lb_config lb1))" using assms(3) by simp
  from last_loss_releases [OF l(2) this, of final] assms(4) l show ?thesis by auto
qed

theorem ownership_released_at_threshold_witness:
  "\<exists>lb1 lb2. losses sample_key [[41], [42], [41], [41]] (set_track sample_key \<lparr>consecutive_losses = 0, owned = True, last_attempt = None\<rparr> sample_lb) = Some lb1 \<and>
    owned (track_of sample_key lb1) \<and> update_ownership sample_key [42] lb1 = Some lb2 \<and> \<not> owned (track_of sample_key lb2)"
proof -
  let ?lb = "set_track sample_key \<lparr>consecutive_losses = 0, owned = True, last_attempt = None\<rparr> sample_lb"
  have "owned (track_of sample_key ?lb)" "consecutive_losses (track_of sample_key ?lb) = 0" by simp_all
  moreover have "length [[41], [42], [41], [41 :: u8]] + 1 = unat (capacity_threshold (lb_config ?lb))"
    by (simp add: sample_lb_def LoadBalancerConfig_default_def)
  moreover have "\<forall>e\<in>insert [42] (set [[41], [42], [41], [41]]). e \<noteq> executor_pubkey ?lb \<and> e \<noteq> pubkey_default"
  proof -
    have "length [41 :: u8] \<noteq> length pubkey_default" "length [42 :: u8] \<noteq> length pubkey_default" by (simp_all add: pubkey_default_def)
    then have "pubkey_default \<noteq> [41]" "pubkey_default \<noteq> [42]" by metis+
    then show ?thesis by (auto simp: sample_lb_def)
  qed
  ultimately show ?thesis using ownership_released_at_threshold [of sample_key ?lb "[[41], [42], [41], [41]]" "[42]"] by blast
qed

text \<open>
  No sequence of updates takes a cached account back to an older slot, whatever order the
  updates arrive in, and an update of the cached slot or a later one whose data differs in
  its hash is always taken over.
\<close>

theorem cache_never_goes_back:
  assumes "c key = Some e"
  shows "(\<exists>e'. put_all env key updates c key = Some e' \<and> ca_slot e \<le> ca_slot e') \<and>
    (ca_slot e \<le> slot \<and> seahash env data \<noteq> ca_hash e \<longrightarrow>
       (\<exists>c' e'. put_if_newer env key data slot c = (True, c') \<and> c' key = Some e' \<and> ca_data e' = data \<and> ca_slot e' = slot))"
proof -
  obtain ok c' where p: "put_if_newer env key data slot c = (ok, c')" by fastforce
  note r = put_if_newer_result [OF p]
  show ?thesis using put_all_slot_mono [of c key e env updates] r assms p by (cases ok) auto
qed

theorem cache_never_goes_back_witness:
  "\<exists>e'. put_all sample_client sample_key [([1], 4), ([1, 2], 9), ([1], 6)] sample_cached sample_key = Some e' \<and> 5 \<le> ca_slot e'"
proof -
  have c: "sample_cached sample_key = Some \<lparr>ca_data = [7, 7, 7, 7, 7, 7, 7, 7], ca_slot = 5, ca_hash = 8, ca_trigger_type = CacheBlock\<rparr>"
    by (simp add: sample_cached_def)
  from cache_never_goes_back [where c = sample_cached and key = sample_key and updates = "[([1], 4), ([1, 2], 9), ([1], 6)]" and env = sample_client, OF c]
  show ?thesis by auto
qed

end
