(* ===== verification/Ws_Transport.thy ===== *)
theory Ws_Transport
  imports F64
begin

text \<open>
  \<open>crates/ws\<close>: the reconnecting WebSocket transport. The network is a script: for every
  attempt to connect its outcome, the result of the \<open>on_connect\<close> callback and what each
  round of the \<open>select!\<close> loop finds ready. The transport is a function from the script to
  the trace of its actions; a script that runs out leaves it running. Durations are
  nanoseconds. \<open>f64::powi\<close>, whose precision the library leaves open, is a parameter.
\<close>

section \<open>Backoff\<close>

record Backoff =
  initial :: nat
  max_delay :: nat
  factor :: rat

definition exponential :: "nat \<Rightarrow> nat \<Rightarrow> rat \<Rightarrow> Backoff" where
  "exponential i m f = \<lparr>initial = i, max_delay = m, factor = f\<rparr>"

definition backoff_constant :: "nat \<Rightarrow> Backoff" where
  "backoff_constant d = \<lparr>initial = d, max_delay = d, factor = 1\<rparr>"

definition Backoff_default :: Backoff where
  "Backoff_default = exponential (100 * 10 ^ 6) (30 * 10 ^ 9) 2"

definition as_secs_f64 :: "nat \<Rightarrow> rat" where
  "as_secs_f64 d = f64_add (f64_of_int (int (d div 10 ^ 9))) (f64_div (f64_of_int (int (d mod 10 ^ 9))) (10 ^ 9))"

text \<open>\<open>None\<close> is the panic on a negative or too long duration.\<close>

definition from_secs_f64 :: "rat \<Rightarrow> nat option" where
  "from_secs_f64 x = (let n = round_half_even (x * 10 ^ 9) in if x < 0 \<or> 2 ^ 64 * 10 ^ 9 \<le> n then None else Some (nat n))"

text \<open>
  The exponent is cast to \<open>i32\<close>. A product beyond the range of the doubles would be infinite;
  with a positive initial delay, \<open>min\<close> gives the maximum either way.
\<close>

definition backoff_delay :: "(rat \<Rightarrow> int \<Rightarrow> rat) \<Rightarrow> Backoff \<Rightarrow> u64 \<Rightarrow> nat option" where
  "backoff_delay pw b attempt =
     (if attempt = 0 then Some 0
      else
        let exp = sint (ucast (attempt - 1) :: u32);
            scaled = f64_mul (as_secs_f64 (initial b)) (pw (factor b) exp);
            m = as_secs_f64 (max_delay b)
        in from_secs_f64 (max (min scaled m) 0))"

section \<open>Messages and events\<close>

type_synonym close_frame = "nat \<times> string"

datatype Message = WText string | WBinary bytes | WClose "close_frame option"

datatype frame = F_Text string | F_Binary bytes | F_Ping bytes | F_Pong bytes | F_Close "close_frame option" | F_Frame bytes

fun into_tungstenite :: "Message \<Rightarrow> frame" where
  "into_tungstenite (WText s) = F_Text s"
| "into_tungstenite (WBinary b) = F_Binary b"
| "into_tungstenite (WClose f) = F_Close f"

datatype DisconnectReason = ServerClose | Transport string | WsShutdown

datatype ws_event = Connected | Disconnected DisconnectReason | Reconnecting u64 nat

text \<open>What the transport does, in order. Events are offered with \<open>try_send\<close> and may be dropped.\<close>

datatype action =
    FirstConnect "string + unit"
  | Offer ws_event
  | Callback
  | Read frame
  | Write frame
  | Deliver Message
  | Sleep nat

section \<open>One connection\<close>

text \<open>
  One round of the loop: which branches are ready (the outbound channel, closed if \<open>Some None\<close>;
  the socket, ended if \<open>Some None\<close>; the keepalive tick), whether a write fails, and
  whether the handle still holds the receiver of inbound messages.
\<close>

record poll =
  out_ready :: "Message option option"
  in_ready :: "(string + frame) option option"
  tick_ready :: bool
  write_error :: "string option"
  receiver_alive :: bool

definition write_frame :: "poll \<Rightarrow> frame \<Rightarrow> DisconnectReason option \<times> action list" where
  "write_frame p f = (case write_error p of Some e \<Rightarrow> (Some (Transport e), []) | None \<Rightarrow> (None, [Write f]))"

definition deliver :: "poll \<Rightarrow> Message \<Rightarrow> DisconnectReason option \<times> action list" where
  "deliver p m = (if receiver_alive p then (None, [Deliver m]) else (Some WsShutdown, []))"

fun handle_inbound :: "bool \<Rightarrow> poll \<Rightarrow> frame \<Rightarrow> DisconnectReason option \<times> action list" where
  "handle_inbound pong p (F_Text s) = deliver p (WText s)"
| "handle_inbound pong p (F_Binary b) = deliver p (WBinary b)"
| "handle_inbound pong p (F_Ping x) = (if pong then write_frame p (F_Pong x) else (None, []))"
| "handle_inbound pong p (F_Pong _) = (None, [])"
| "handle_inbound pong p (F_Close fr) = (Some ServerClose, snd (deliver p (WClose fr)))"
| "handle_inbound pong p (F_Frame _) = (None, [])"

text \<open>The branches in the order of \<open>biased\<close>.\<close>

definition pump_round :: "bool \<Rightarrow> nat option \<Rightarrow> poll \<Rightarrow> DisconnectReason option \<times> action list" where
  "pump_round pong keepalive p =
     (case out_ready p of
        Some None \<Rightarrow> (Some WsShutdown, snd (write_frame p (F_Close None)))
      | Some (Some msg) \<Rightarrow> write_frame p (into_tungstenite msg)
      | None \<Rightarrow>
          (case in_ready p of
             Some None \<Rightarrow> (Some (Transport ''ConnectionClosed''), [])
           | Some (Some (Inl e)) \<Rightarrow> (Some (Transport e), [])
           | Some (Some (Inr f)) \<Rightarrow> (let (r, acts) = handle_inbound pong p f in (r, Read f # acts))
           | None \<Rightarrow>
               if keepalive \<noteq> None \<and> tick_ready p then write_frame p (F_Ping []) else (None, [])))"

fun pump :: "bool \<Rightarrow> nat option \<Rightarrow> poll list \<Rightarrow> DisconnectReason option \<times> action list" where
  "pump pong keepalive [] = (None, [])"
| "pump pong keepalive (p # ps) =
     (case pump_round pong keepalive p of
        (Some reason, acts) \<Rightarrow> (Some reason, acts)
      | (None, acts) \<Rightarrow> (let (r, acts') = pump pong keepalive ps in (r, acts @ acts')))"

section \<open>The transport task\<close>

record connection =
  connect_async :: "string + unit"
  callback_ok :: bool
  polls :: "poll list"

record ws_config =
  ws_keepalive :: "nat option"
  ws_backoff :: Backoff
  ws_on_connect :: bool
  ws_pong :: bool
  ws_powi :: "rat \<Rightarrow> int \<Rightarrow> rat"

datatype ws_status = WsRunning | WsReturned | WsPanicked

text \<open>Waiting before the next attempt: count it, announce it, sleep. \<open>None\<close> is a panic.\<close>

definition back_off :: "ws_config \<Rightarrow> u64 \<Rightarrow> (u64 \<times> action list) option" where
  "back_off cfg attempt =
     Option.bind (checked_add attempt 1) (\<lambda>next.
       map_option (\<lambda>d. (next, [Offer (Reconnecting next d), Sleep d])) (backoff_delay (ws_powi cfg) (ws_backoff cfg) next))"

fun run_ws :: "ws_config \<Rightarrow> bool \<Rightarrow> u64 \<Rightarrow> connection list \<Rightarrow> ws_status \<times> action list" where
  "run_ws cfg first attempt [] = (WsRunning, [])"
| "run_ws cfg first attempt (c # cs) =
     (case connect_async c of
        Inl e \<Rightarrow>
          if first then (WsReturned, [FirstConnect (Inl e)])
          else (case back_off cfg attempt of
              None \<Rightarrow> (WsPanicked, [Offer (Disconnected (Transport e))])
            | Some (next, acts) \<Rightarrow>
                let (st, rest) = run_ws cfg False next cs in (st, Offer (Disconnected (Transport e)) # acts @ rest))
      | Inr _ \<Rightarrow>
          let start = (if first then [FirstConnect (Inr ())] else []) @ [Offer Connected] @ (if ws_on_connect cfg then [Callback] else []) in
          if ws_on_connect cfg \<and> \<not> callback_ok c then (WsReturned, start @ [Offer (Disconnected WsShutdown)])
          else
            let (reason, acts) = pump (ws_pong cfg) (ws_keepalive cfg) (polls c) in
            case reason of
              None \<Rightarrow> (WsRunning, start @ acts)
            | Some r \<Rightarrow>
                if r = WsShutdown then (WsReturned, start @ acts @ [Offer (Disconnected r)])
                else (case back_off cfg 0 of
                    None \<Rightarrow> (WsPanicked, start @ acts @ [Offer (Disconnected r)])
                  | Some (next, wait) \<Rightarrow>
                      let (st, rest) = run_ws cfg False next cs in (st, start @ acts @ [Offer (Disconnected r)] @ wait @ rest)))"

text \<open>\<open>spawn\<close> starts with the first connection pending and no attempt counted.\<close>

definition spawn_ws :: "ws_config \<Rightarrow> connection list \<Rightarrow> ws_status \<times> action list" where
  "spawn_ws cfg cs = run_ws cfg True 0 cs"

section \<open>The default delays\<close>

lemma ilog2_unique: "0 < x \<Longrightarrow> 2 powi k \<le> x \<Longrightarrow> x < 2 powi (k + 1) \<Longrightarrow> ilog2 x = k"
  using ilog2_bounds [of x] powi_le_iff [of k "ilog2 x"] powi_le_iff [of "ilog2 x" k]
    powi_le_iff [of "k + 1" "ilog2 x"] powi_le_iff [of "ilog2 x + 1" k]
  by linarith

lemma ilog2_scale: "0 < x \<Longrightarrow> ilog2 (x * 2 powi k) = ilog2 x + k"
proof (rule ilog2_unique)
  assume x: "0 < x"
  note b = ilog2_bounds [OF x]
  show "0 < x * 2 powi k" using x by simp
  show "2 powi (ilog2 x + k) \<le> x * 2 powi k" using b(1) by (simp add: powi_mult [symmetric])
  have "2 powi (ilog2 x + k + 1) = 2 powi (ilog2 x + 1) * (2 powi k :: rat)" by (simp add: powi_mult ac_simps)
  then show "x * 2 powi k < 2 powi (ilog2 x + k + 1)" using b(2) by simp
qed

text \<open>Multiplying by a power of two is exact.\<close>

lemma f64_round_scale: "0 < x \<Longrightarrow> f64_round (x * 2 powi k) = f64_round x * 2 powi k"
proof -
  assume x: "0 < x"
  have u: "(2::rat) powi (ilog2 x + k - 52) = 2 powi (ilog2 x - 52) * 2 powi k" by (simp add: powi_mult algebra_simps)
  then have "x * 2 powi k / 2 powi (ilog2 x + k - 52) = x / 2 powi (ilog2 x - 52)" by simp
  with x u show ?thesis by (simp add: f64_round_def ilog2_scale Let_def)
qed

lemma powi_neg: "(2::rat) powi (- numeral n) = 1 / 2 ^ numeral n"
  by (simp only: power_int_minus power_int_numeral inverse_eq_divide)

lemma f64_round_tenth: "f64_round (1 / 10) = 3602879701896397 / 2 ^ 55"
proof -
  have l: "ilog2 (1 / 10) = - 4" by (rule ilog2_unique) (simp_all add: powi_neg)
  have f: "\<lfloor>36028797018963968 / (5 :: rat)\<rfloor> = 7205759403792793" by (simp add: floor_eq_iff)
  show ?thesis by (simp add: f64_round_def Let_def l powi_neg round_half_even_def f)
qed

lemma f64_round_tenth_idem: "f64_round (3602879701896397 / 2 ^ 55) = 3602879701896397 / 2 ^ 55"
proof -
  have "f64_round (of_int 3602879701896397 * 2 powi (- 55)) = f64_round (of_int 3602879701896397) * 2 powi (- 55)"
    by (rule f64_round_scale) simp
  then show ?thesis using f64_round_int [of 3602879701896397] by (simp add: powi_neg)
qed

lemma default_secs:
  "as_secs_f64 (initial Backoff_default) = 3602879701896397 / 2 ^ 55" "as_secs_f64 (max_delay Backoff_default) = 30"
proof -
  have "f64_round (of_int 100000000) = 100000000" "f64_round (of_int 30) = 30" by (subst f64_round_int; simp)+
  then show "as_secs_f64 (initial Backoff_default) = 3602879701896397 / 2 ^ 55" "as_secs_f64 (max_delay Backoff_default) = 30"
    using f64_round_tenth_idem
    by (simp_all add: f64_round_tenth as_secs_f64_def Backoff_default_def exponential_def f64_add_def f64_div_def f64_of_int_def)
qed

lemma round_half_even_near: "\<bar>x - of_int n\<bar> < 1 / 2 \<Longrightarrow> round_half_even x = n"
proof -
  assume a: "\<bar>x - of_int n\<bar> < 1 / 2"
  show ?thesis
  proof (cases "of_int n \<le> x")
    case True
    then have "\<lfloor>x\<rfloor> = n" using a by (simp add: floor_eq_iff)
    then show ?thesis using a True by (simp add: round_half_even_def Let_def)
  next
    case False
    then have "\<lfloor>x\<rfloor> = n - 1" using a by (simp add: floor_eq_iff)
    then show ?thesis using a False by (simp add: round_half_even_def Let_def)
  qed
qed

text \<open>The law about \<open>powi\<close>: powers of two are exact, as products of powers of two are.\<close>

definition powi_law :: "(rat \<Rightarrow> int \<Rightarrow> rat) \<Rightarrow> bool" where
  "powi_law pw \<longleftrightarrow> (\<forall>n. pw 2 n = 2 powi n)"

abbreviation tenth :: rat where "tenth \<equiv> 3602879701896397 / 2 ^ 55"

lemma default_scaled:
  assumes "powi_law pw"
  shows "f64_mul tenth (pw (factor Backoff_default) n) = tenth * 2 powi n"
proof -
  have "pw (factor Backoff_default) n = 2 powi n" using assms by (simp add: powi_law_def Backoff_default_def exponential_def)
  then show ?thesis using f64_round_scale [of tenth n] by (simp only: f64_mul_def f64_round_tenth_idem) simp
qed

lemma default_delay_total:
  assumes "powi_law pw"
  shows "\<exists>d \<le> 30 * 10 ^ 9. backoff_delay pw Backoff_default attempt = Some d"
proof (cases "attempt = 0")
  case False
  define x where "x = max (min (tenth * 2 powi sint (ucast (attempt - 1) :: u32)) 30) 0"
  have x: "0 \<le> x" "x \<le> 30" by (simp_all add: x_def)
  have d: "backoff_delay pw Backoff_default attempt = from_secs_f64 x"
    using False by (simp only: backoff_delay_def Let_def default_scaled [OF assms] default_secs x_def if_False)
  have "round_half_even (x * 10 ^ 9) \<le> round_half_even (of_int (30 * 10 ^ 9))"
    using x by (intro round_half_even_mono) simp
  then have "round_half_even (x * 10 ^ 9) \<le> 30 * 10 ^ 9" by (simp only: round_half_even_of_int)
  then show ?thesis using x(1) d by (auto simp: from_secs_f64_def Let_def)
qed (simp add: backoff_delay_def)

lemma default_delay:
  assumes "powi_law pw" and "attempt \<noteq> 0" and "attempt \<le> 2 ^ 31"
  shows "backoff_delay pw Backoff_default attempt = Some (min (10 ^ 8 * 2 ^ (unat attempt - 1)) (30 * 10 ^ 9))"
proof -
  define k where "k = unat attempt - 1"
  have a: "0 < unat attempt" "unat attempt \<le> 2 ^ 31" using assms(2,3) by (simp_all add: unat_gt_0 word_le_nat_alt)
  then have m: "unat (attempt - 1) = k" "k < 2 ^ 31" by (auto simp: k_def unat_minus_one assms(2))
  then have "uint (attempt - 1) = int k" by (metis uint_nat)
  then have e: "sint (ucast (attempt - 1) :: u32) = int k"
    using m(2) by (simp add: sint_uint unsigned_ucast_eq take_bit_int_eq_self signed_take_bit_int_eq_self)
  define x where "x = min (tenth * 2 ^ k) 30"
  have x: "0 \<le> x" by (simp add: x_def)
  have d: "backoff_delay pw Backoff_default attempt = from_secs_f64 x"
    using assms(2) x by (simp only: backoff_delay_def Let_def default_scaled [OF assms(1)] default_secs e power_int_of_nat x_def if_False max.absorb1)
  have "backoff_delay pw Backoff_default attempt = Some (min (10 ^ 8 * 2 ^ k) (30 * 10 ^ 9))"
  proof (cases "k < 9")
    case True
    then consider "k = 0" | "k = 1" | "k = 2" | "k = 3" | "k = 4" | "k = 5" | "k = 6" | "k = 7" | "k = 8" by linarith
    then have near: "\<bar>x * 10 ^ 9 - of_int (10 ^ 8 * 2 ^ k)\<bar> < 1 / 2 \<and> (10 :: nat) ^ 8 * 2 ^ k \<le> 30 * 10 ^ 9 \<and> (10 :: int) ^ 8 * 2 ^ k \<le> 30 * 10 ^ 9"
      by cases (simp_all add: x_def)
    then have "round_half_even (x * 10 ^ 9) = 10 ^ 8 * 2 ^ k" by (intro round_half_even_near) simp
    with near d x show ?thesis by (simp add: from_secs_f64_def Let_def nat_mult_distrib nat_power_eq min_def)
  next
    case False
    then have "(2 :: rat) ^ 9 \<le> 2 ^ k" "(2 :: nat) ^ 9 \<le> 2 ^ k" by (simp_all only: power_increasing not_less one_le_numeral)
    then have "x = 30" "(30 :: nat) * 10 ^ 9 \<le> 10 ^ 8 * 2 ^ k" by (simp_all add: x_def)
    moreover have "round_half_even (of_int (30 * 10 ^ 9)) = 30 * 10 ^ 9" by (rule round_half_even_of_int)
    ultimately show ?thesis using d by (simp add: from_secs_f64_def Let_def min_def)
  qed
  then show ?thesis by (simp add: k_def)
qed

section \<open>Reconnecting and delivering\<close>

fun delivered :: "action list \<Rightarrow> Message list" where
  "delivered [] = []"
| "delivered (Deliver m # as) = m # delivered as"
| "delivered (_ # as) = delivered as"

fun as_message :: "frame \<Rightarrow> Message option" where
  "as_message (F_Text s) = Some (WText s)"
| "as_message (F_Binary b) = Some (WBinary b)"
| "as_message (F_Close fr) = Some (WClose fr)"
| "as_message _ = None"

text \<open>The application messages among the frames read, in the order of reading.\<close>

fun messages_read :: "action list \<Rightarrow> Message list" where
  "messages_read [] = []"
| "messages_read (Read f # as) = (case as_message f of Some m \<Rightarrow> m # messages_read as | None \<Rightarrow> messages_read as)"
| "messages_read (_ # as) = messages_read as"

lemma delivered_append [simp]: "delivered (as @ bs) = delivered as @ delivered bs"
  by (induction as rule: delivered.induct) auto

lemma messages_read_append [simp]: "messages_read (as @ bs) = messages_read as @ messages_read bs"
  by (induction as rule: messages_read.induct) (auto split: option.split)

fun sleeps :: "action list \<Rightarrow> nat list" where
  "sleeps [] = []"
| "sleeps (Sleep d # as) = d # sleeps as"
| "sleeps (_ # as) = sleeps as"

lemma sleeps_append [simp]: "sleeps (as @ bs) = sleeps as @ sleeps bs"
  by (induction as rule: sleeps.induct) auto

text \<open>The handle is held: its receiver is alive and the outbound channel is not closed.\<close>

definition held :: "poll \<Rightarrow> bool" where
  "held p \<longleftrightarrow> receiver_alive p \<and> out_ready p \<noteq> Some None"

definition faithful :: "action list \<Rightarrow> bool" where
  "faithful as \<longleftrightarrow> delivered as = messages_read as \<and> sleeps as = []"

lemma faithful_append: "faithful as \<Longrightarrow> faithful bs \<Longrightarrow> faithful (as @ bs)"
  by (simp add: faithful_def)

lemma write_frame_faithful: "faithful (snd (write_frame p f)) \<and> fst (write_frame p f) \<noteq> Some WsShutdown"
  by (simp add: write_frame_def faithful_def split: option.split)

lemma handle_inbound_held:
  assumes "held p"
  shows "faithful (Read f # snd (handle_inbound pong p f)) \<and> fst (handle_inbound pong p f) \<noteq> Some WsShutdown"
  using assms by (cases f) (auto simp: held_def deliver_def write_frame_def faithful_def split: option.split)

lemma pump_round_held:
  assumes "held p"
  shows "faithful (snd (pump_round pong ka p)) \<and> fst (pump_round pong ka p) \<noteq> Some WsShutdown"
proof (cases "out_ready p")
  case (Some m)
  then obtain msg where "m = Some msg" using assms by (cases m) (auto simp: held_def)
  then show ?thesis using Some write_frame_faithful by (simp add: pump_round_def)
next
  case None
  consider "in_ready p = None" | "in_ready p = Some None" | e where "in_ready p = Some (Some (Inl e))"
    | f where "in_ready p = Some (Some (Inr f))" by (metis option.exhaust sum.exhaust)
  then show ?thesis
  proof cases
    case 4
    then show ?thesis using None handle_inbound_held [OF assms, of f pong] by (auto simp: pump_round_def split: prod.split)
  qed (use None write_frame_faithful in \<open>auto simp: pump_round_def faithful_def\<close>)
qed

lemma pump_held:
  "\<forall>p\<in>set ps. held p \<Longrightarrow> faithful (snd (pump pong ka ps)) \<and> fst (pump pong ka ps) \<noteq> Some WsShutdown"
proof (induction ps)
  case (Cons p ps)
  obtain r as where 1: "pump_round pong ka p = (r, as)" by fastforce
  obtain r' as' where 2: "pump pong ka ps = (r', as')" by fastforce
  from Cons 1 2 pump_round_held [of p pong ka] show ?case
    by (auto simp: faithful_append split: option.split)
qed (simp add: faithful_def)

text \<open>
  Once connected, the transport goes on for ever as long as the handle is held and the
  callback succeeds, whatever the network does; no wait is longer than the maximum, and what
  has been read is delivered in order.
\<close>

lemma back_off_default:
  assumes "powi_law (ws_powi cfg)" and "ws_backoff cfg = Backoff_default" and "unat attempt + 1 < 2 ^ 64"
  shows "\<exists>d \<le> 30 * 10 ^ 9. back_off cfg attempt = Some (attempt + 1, [Offer (Reconnecting (attempt + 1) d), Sleep d])"
  using default_delay_total [OF assms(1), of "attempt + 1"] assms(2,3)
  by (auto simp: back_off_def checked_add_def)

lemma run_ws_persists:
  assumes "powi_law (ws_powi cfg)" and "ws_backoff cfg = Backoff_default"
  shows "unat attempt + length cs < 2 ^ 64 \<Longrightarrow> \<forall>c\<in>set cs. callback_ok c \<and> (\<forall>p\<in>set (polls c). held p) \<Longrightarrow>
    run_ws cfg False attempt cs = (st, as) \<Longrightarrow>
    st = WsRunning \<and> delivered as = messages_read as \<and> (\<forall>d\<in>set (sleeps as). d \<le> 30 * 10 ^ 9)"
proof (induction cs arbitrary: attempt st as)
  case (Cons c cs)
  have next_ok: "unat (attempt + 1) + length cs < 2 ^ 64" using Cons.prems(1) by (simp add: unat_word_ariths)
  show ?case
  proof (cases "connect_async c")
    case (Inl e)
    obtain d where d: "d \<le> 30 * 10 ^ 9" "back_off cfg attempt = Some (attempt + 1, [Offer (Reconnecting (attempt + 1) d), Sleep d])"
      using back_off_default [OF assms, of attempt] Cons.prems(1) by auto
    obtain st' rest where r: "run_ws cfg False (attempt + 1) cs = (st', rest)" by fastforce
    from Cons.IH [OF next_ok _ r] Cons.prems(2) have "st' = WsRunning \<and> delivered rest = messages_read rest \<and> (\<forall>d\<in>set (sleeps rest). d \<le> 30 * 10 ^ 9)"
      by simp
    with Inl d r Cons.prems(3) show ?thesis by auto
  next
    case (Inr u)
    obtain reason acts where p: "pump (ws_pong cfg) (ws_keepalive cfg) (polls c) = (reason, acts)" by fastforce
    have pa: "delivered acts = messages_read acts" "sleeps acts = []" "reason \<noteq> Some WsShutdown"
      using pump_held [of "polls c" "ws_pong cfg" "ws_keepalive cfg"] Cons.prems(2) p by (auto simp: faithful_def)
    show ?thesis
    proof (cases reason)
      case None
      with Inr p pa Cons.prems(2,3) show ?thesis by (auto split: if_splits)
    next
      case (Some r)
      obtain d where d: "d \<le> 30 * 10 ^ 9" "back_off cfg 0 = Some (1, [Offer (Reconnecting 1 d), Sleep d])"
        using back_off_default [OF assms, of 0] by auto
      obtain st' rest where run: "run_ws cfg False 1 cs = (st', rest)" by fastforce
      have "unat (1 :: u64) + length cs < 2 ^ 64" using Cons.prems(1) by simp
      from Cons.IH [OF this _ run] Cons.prems(2)
      have "st' = WsRunning \<and> delivered rest = messages_read rest \<and> (\<forall>d\<in>set (sleeps rest). d \<le> 30 * 10 ^ 9)" by simp
      with Inr p pa Some d run Cons.prems(2,3) show ?thesis by (auto split: if_splits)
    qed
  qed
qed simp

end
