(* ===== verification/Datasource.thy ===== *)
theory Datasource
  imports Client_Flow Client_Config Ws_Transport
begin

text \<open>
  \<open>crates/client/src/actors/datasource.rs\<close> and \<open>datasources/rpc.rs\<close>: where account
  updates come from. A source actor handles one message at a time over its own state and
  the shared account cache, and answers with the actions it takes: messages to staging and to
  itself, subscription tasks it spawns. The subscription tasks turn what the transport hands
  them into messages to the actor. JSON, Base58, Bincode and the node's answer to
  \<open>getProgramAccounts\<close> are parameters.
\<close>

section \<open>Notifications\<close>

record ProgramNotification =
  pn_method :: "string option"
  pn_params :: "(u64 \<times> string \<times> string \<times> string) option"

record AccountNotification =
  an_method :: "string option"
  an_params :: "(u64 \<times> string \<times> string) option"

text \<open>
  The parameters of a notification: the slot of its context, for a program notification the
  address, and the account's data with its encoding. \<open>json_program\<close> and \<open>json_account\<close>
  are the deserialisers serde derives.
\<close>

record source_env =
  ds_client :: client_env
  json_program :: "string \<Rightarrow> ProgramNotification option"
  json_account :: "string \<Rightarrow> AccountNotification option"
  pubkey_from_str :: "string \<Rightarrow> pubkey option"
  bincode_clock :: "bytes \<Rightarrow> Clock option"
  get_program_accounts :: "string + (pubkey \<times> string \<times> string) list"
  staging_accepts :: bool
  mailbox_accepts :: "nat \<Rightarrow> bool"
  url_valid :: "string \<Rightarrow> bool"

definition parse_program_notification :: "source_env \<Rightarrow> string \<Rightarrow> AccountUpdate option" where
  "parse_program_notification env txt =
     Option.bind (json_program env txt) (\<lambda>n.
       if pn_method n \<noteq> Some ''programNotification'' then None
       else Option.bind (pn_params n) (\<lambda>(slot, key, data, encoding).
         Option.bind (pubkey_from_str env key) (\<lambda>pk.
           Option.bind (decode_account_data (ds_client env) data encoding) (\<lambda>bs.
             Some \<lparr>au_pubkey = pk, au_data = bs, au_slot = slot\<rparr>))))"

definition parse_clock_notification :: "source_env \<Rightarrow> string \<Rightarrow> Clock option" where
  "parse_clock_notification env txt =
     Option.bind (json_account env txt) (\<lambda>n.
       if an_method n \<noteq> Some ''accountNotification'' then None
       else Option.bind (an_params n) (\<lambda>(slot, data, encoding).
         Option.bind (decode_account_data (ds_client env) data encoding) (bincode_clock env)))"

section \<open>The RPC source actor\<close>

datatype RpcSourceMessage =
    UpdateReceived AccountUpdate
  | ClockReceived Clock
  | Reconnected
  | SubscriptionDied string

record RpcSourceState =
  rs_ws_url :: string
  cancelled :: bool
  program_restart_count :: u32
  clock_restart_count :: u32

datatype source_action =
    ToStaging StagingMessage
  | ToSelf RpcSourceMessage
  | SpawnProgram string
  | SpawnClock string

definition MAX_SUBSCRIPTION_RESTARTS :: u32 where "MAX_SUBSCRIPTION_RESTARTS = 3"

definition source_start :: "RpcEndpoint \<Rightarrow> RpcSourceState \<times> source_action list" where
  "source_start endpoint =
     (let url = get_ws_url endpoint in
      (\<lparr>rs_ws_url = url, cancelled = False, program_restart_count = 0, clock_restart_count = 0\<rparr>, [SpawnProgram url, SpawnClock url]))"

text \<open>
  The updates the backfill sends to the actor's own mailbox: accounts whose data cannot be
  decoded are skipped, a mailbox that refuses a message (the \<open>i\<close>-th it is sent) ends the loop.
\<close>

fun backfill_loop :: "source_env \<Rightarrow> nat \<Rightarrow> (pubkey \<times> string \<times> string) list \<Rightarrow> RpcSourceMessage list" where
  "backfill_loop env i [] = []"
| "backfill_loop env i ((key, data, encoding) # accounts) =
     (case decode_account_data (ds_client env) data encoding of
        None \<Rightarrow> backfill_loop env i accounts
      | Some bs \<Rightarrow>
          if mailbox_accepts env i
          then UpdateReceived \<lparr>au_pubkey = key, au_data = bs, au_slot = 0\<rparr> # backfill_loop env (i + 1) accounts
          else [])"

definition perform_backfill :: "source_env \<Rightarrow> (string + nat) \<times> RpcSourceMessage list" where
  "perform_backfill env =
     (case get_program_accounts env of
        Inl e \<Rightarrow> (Inl e, [])
      | Inr accounts \<Rightarrow> (Inr (length accounts), backfill_loop env 0 accounts))"

text \<open>Through the cache to staging, as both kinds of sources do it; \<open>None\<close> when staging is gone.\<close>

definition forward_if_new :: "source_env \<Rightarrow> AccountUpdate \<Rightarrow> cache \<Rightarrow> source_action list option \<times> cache" where
  "forward_if_new env u c =
     (let (is_new, c') = put_if_newer (ds_client env) (au_pubkey u) (au_data u) (au_slot u) c in
      if is_new then ((if staging_accepts env then Some [ToStaging (SM_AccountUpdate u)] else None), c')
      else (Some [], c'))"

text \<open>The counters are \<open>u32\<close> under overflow checks; a counter never passes four.\<close>

fun handle_source :: "source_env \<Rightarrow> RpcSourceMessage \<Rightarrow> RpcSourceState \<Rightarrow> cache \<Rightarrow>
    (string + unit) \<times> RpcSourceState \<times> cache \<times> source_action list" where
  "handle_source env (UpdateReceived u) st c =
     (case forward_if_new env u c of
        (Some acts, c') \<Rightarrow> (Inr (), st, c', acts)
      | (None, c') \<Rightarrow> (Inl ''Failed to send to staging'', st, c', []))"
| "handle_source env (ClockReceived clock) st c =
     (if staging_accepts env then (Inr (), st, c, [ToStaging (SM_ClockTick clock)])
      else (Inl ''Failed to send clock to staging'', st, c, []))"
| "handle_source env Reconnected st c = (Inr (), st, c, map ToSelf (snd (perform_backfill env)))"
| "handle_source env (SubscriptionDied which) st c =
     (if which = ''program'' then
        let n = program_restart_count st + 1; st' = st\<lparr>program_restart_count := n\<rparr> in
        if MAX_SUBSCRIPTION_RESTARTS < n then (Inl ''program subscription exceeded max restarts'', st', c, [])
        else (Inr (), st', c, [SpawnProgram (rs_ws_url st)])
      else if which = ''clock'' then
        let n = clock_restart_count st + 1; st' = st\<lparr>clock_restart_count := n\<rparr> in
        if MAX_SUBSCRIPTION_RESTARTS < n then (Inl ''clock subscription exceeded max restarts'', st', c, [])
        else (Inr (), st', c, [SpawnClock (rs_ws_url st)])
      else (Inr (), st, c, []))"

definition source_post_stop :: "RpcSourceState \<Rightarrow> RpcSourceState" where
  "source_post_stop st = st\<lparr>cancelled := True\<rparr>"

text \<open>The actor's mailbox, up to the first handler that fails, which stops the actor.\<close>

fun run_source :: "source_env \<Rightarrow> RpcSourceMessage list \<Rightarrow> RpcSourceState \<Rightarrow> cache \<Rightarrow>
    (string + unit) \<times> RpcSourceState \<times> cache \<times> source_action list" where
  "run_source env [] st c = (Inr (), st, c, [])"
| "run_source env (m # ms) st c =
     (case handle_source env m st c of
        (Inl e, st1, c1, acts) \<Rightarrow> (Inl e, st1, c1, acts)
      | (Inr _, st1, c1, acts) \<Rightarrow> (let (r, st2, c2, acts2) = run_source env ms st1 c1 in (r, st2, c2, acts @ acts2)))"

section \<open>Subscriptions\<close>

text \<open>
  What a subscription task sees of the transport once it is connected: the callback of a
  connection, with the answer of \<open>send_text\<close>, and inbound messages. The first mailbox that
  refuses an update ends the task; the notice of a connection is sent without looking.
\<close>

datatype ws_input = OnConnect bool | Inbound Message

fun program_inputs :: "source_env \<Rightarrow> nat \<Rightarrow> ws_input list \<Rightarrow> RpcSourceMessage list" where
  "program_inputs env i [] = []"
| "program_inputs env i (OnConnect sent # ins) =
     (if sent then (if mailbox_accepts env i then [Reconnected] else []) @ program_inputs env (i + 1) ins
      else program_inputs env i ins)"
| "program_inputs env i (Inbound (WText txt) # ins) =
     (case parse_program_notification env txt of
        None \<Rightarrow> program_inputs env i ins
      | Some u \<Rightarrow> if mailbox_accepts env i then UpdateReceived u # program_inputs env (i + 1) ins else [])"
| "program_inputs env i (Inbound (WBinary _) # ins) = program_inputs env i ins"
| "program_inputs env i (Inbound (WClose _) # ins) = program_inputs env i ins"

fun clock_inputs :: "source_env \<Rightarrow> nat \<Rightarrow> ws_input list \<Rightarrow> RpcSourceMessage list" where
  "clock_inputs env i [] = []"
| "clock_inputs env i (OnConnect sent # ins) = clock_inputs env i ins"
| "clock_inputs env i (Inbound (WText txt) # ins) =
     (case parse_clock_notification env txt of
        None \<Rightarrow> clock_inputs env i ins
      | Some clock \<Rightarrow> if mailbox_accepts env i then ClockReceived clock # clock_inputs env (i + 1) ins else [])"
| "clock_inputs env i (Inbound (WBinary _) # ins) = clock_inputs env i ins"
| "clock_inputs env i (Inbound (WClose _) # ins) = clock_inputs env i ins"

text \<open>
  The whole task: an invalid URL or a first connection that fails ends it at once. Its
  watcher then tells the actor, whatever the reason.
\<close>

definition program_subscription :: "source_env \<Rightarrow> string \<Rightarrow> bool \<Rightarrow> ws_input list \<Rightarrow> RpcSourceMessage list" where
  "program_subscription env url up ins =
     (if \<not> url_valid env url \<or> \<not> up then [] else program_inputs env 0 ins)"

definition clock_subscription :: "source_env \<Rightarrow> string \<Rightarrow> bool \<Rightarrow> ws_input list \<Rightarrow> RpcSourceMessage list" where
  "clock_subscription env url up ins =
     (if \<not> url_valid env url \<or> \<not> up then [] else clock_inputs env 0 ins)"

definition spawn_program_subscription :: "source_env \<Rightarrow> string \<Rightarrow> bool \<Rightarrow> ws_input list \<Rightarrow> RpcSourceMessage list" where
  "spawn_program_subscription env url up ins = program_subscription env url up ins @ [SubscriptionDied ''program'']"

definition spawn_clock_subscription :: "source_env \<Rightarrow> string \<Rightarrow> bool \<Rightarrow> ws_input list \<Rightarrow> RpcSourceMessage list" where
  "spawn_clock_subscription env url up ins = clock_subscription env url up ins @ [SubscriptionDied ''clock'']"

section \<open>The Geyser source and the supervisor\<close>

text \<open>The consumer of the plugin's channel, up to its end, a cancellation or a staging actor that is gone.\<close>

fun geyser_consumer :: "source_env \<Rightarrow> AccountUpdate list \<Rightarrow> cache \<Rightarrow> cache \<times> source_action list" where
  "geyser_consumer env [] c = (c, [])"
| "geyser_consumer env (u # us) c =
     (case forward_if_new env u c of
        (None, c') \<Rightarrow> (c', [])
      | (Some acts, c') \<Rightarrow> (let (c2, acts2) = geyser_consumer env us c' in (c2, acts @ acts2)))"

text \<open>
  The supervisor starts one source for every endpoint that may be read from, in order.
  Starting an actor may fail; the runtime sees the names that are registered already.
\<close>

type_synonym spawner = "string set \<Rightarrow> string \<Rightarrow> string + unit"

fun start_sources :: "spawner \<Rightarrow> string set \<Rightarrow> RpcEndpoint list \<Rightarrow> string + (string \<times> RpcSourceState) list" where
  "start_sources spawn names [] = Inr []"
| "start_sources spawn names (e # es) =
     (if re_role e = Datasource \<or> re_role e = Both then
        (let actor_name = ''rpc-source-'' @ re_url e in
         case spawn names actor_name of
           Inl err \<Rightarrow> Inl (''Failed to spawn RpcSourceActor: '' @ err)
         | Inr _ \<Rightarrow>
             (case start_sources spawn (insert actor_name names) es of
                Inl err \<Rightarrow> Inl err
              | Inr rest \<Rightarrow> Inr ((actor_name, fst (source_start e)) # rest)))
      else start_sources spawn names es)"

record DatasourceState =
  rpc_sources :: "(string \<times> RpcSourceState) list"
  geyser_source :: bool

definition datasource_start :: "spawner \<Rightarrow> string set \<Rightarrow> ClientConfig \<Rightarrow> bool \<Rightarrow> string + DatasourceState" where
  "datasource_start spawn names config has_receiver =
     (case start_sources spawn names (rpc_endpoints config) of
        Inl err \<Rightarrow> Inl err
      | Inr sources \<Rightarrow>
          if has_receiver then
            (case spawn (fst ` set sources \<union> names) ''geyser-source'' of
               Inl err \<Rightarrow> Inl (''Failed to spawn GeyserSourceActor: '' @ err)
             | Inr _ \<Rightarrow> Inr \<lparr>rpc_sources = sources, geyser_source = True\<rparr>)
          else Inr \<lparr>rpc_sources = sources, geyser_source = False\<rparr>)"

datatype DatasourceMessage = DS_AccountUpdate AccountUpdate | DS_Shutdown

fun handle_datasource :: "DatasourceMessage \<Rightarrow> DatasourceState \<Rightarrow> (string + unit) \<times> DatasourceState" where
  "handle_datasource (DS_AccountUpdate _) st = (Inr (), st)"
| "handle_datasource DS_Shutdown st = (Inl ''Shutdown signal received'', st)"

section \<open>What staging is told of one account\<close>

fun forwarded :: "pubkey \<Rightarrow> source_action list \<Rightarrow> AccountUpdate list" where
  "forwarded key [] = []"
| "forwarded key (ToStaging (SM_AccountUpdate u) # as) = (if au_pubkey u = key then u # forwarded key as else forwarded key as)"
| "forwarded key (_ # as) = forwarded key as"

fun updates_of :: "pubkey \<Rightarrow> RpcSourceMessage list \<Rightarrow> AccountUpdate list" where
  "updates_of key [] = []"
| "updates_of key (UpdateReceived u # ms) = (if au_pubkey u = key then u # updates_of key ms else updates_of key ms)"
| "updates_of key (_ # ms) = updates_of key ms"

lemma forwarded_append [simp]: "forwarded key (as @ bs) = forwarded key as @ forwarded key bs"
  by (induction key as rule: forwarded.induct) auto

lemma forwarded_ToSelf [simp]: "forwarded key (map ToSelf ms) = []"
  by (induction ms) auto

text \<open>
  The specification of one account: from the slot and hash known so far, an update is news
  unless it repeats the hash or is older.
\<close>

fun news :: "(bytes \<Rightarrow> u64) \<Rightarrow> (u64 \<times> u64) option \<Rightarrow> AccountUpdate list \<Rightarrow> AccountUpdate list" where
  "news h k [] = []"
| "news h k (u # us) =
     (if (case k of Some (slot, hash) \<Rightarrow> hash = h (au_data u) \<or> au_slot u < slot | None \<Rightarrow> False) then news h k us
      else u # news h (Some (au_slot u, h (au_data u))) us)"

definition known :: "pubkey \<Rightarrow> cache \<Rightarrow> (u64 \<times> u64) option" where
  "known key c = map_option (\<lambda>e. (ca_slot e, ca_hash e)) (c key)"

definition known_after :: "(bytes \<Rightarrow> u64) \<Rightarrow> (u64 \<times> u64) option \<Rightarrow> AccountUpdate list \<Rightarrow> (u64 \<times> u64) option" where
  "known_after h k us = (if us = [] then k else Some (au_slot (last us), h (au_data (last us))))"

lemma known_after_Cons: "known_after h k (u # us) = known_after h (Some (au_slot u, h (au_data u))) us"
  by (simp add: known_after_def)

text \<open>The entry an update makes, and the entry of an account after the updates forwarded for it.\<close>

definition entry_of :: "client_env \<Rightarrow> AccountUpdate \<Rightarrow> CachedAccount" where
  "entry_of env u = \<lparr>ca_data = au_data u, ca_slot = au_slot u, ca_hash = seahash env (au_data u),
     ca_trigger_type = (case try_deserialize_thread env (au_data u) of Some thread \<Rightarrow> from_thread thread | None \<Rightarrow> CacheUnknown)\<rparr>"

definition entry_after :: "client_env \<Rightarrow> CachedAccount option \<Rightarrow> AccountUpdate list \<Rightarrow> CachedAccount option" where
  "entry_after env e us = (if us = [] then e else Some (entry_of env (last us)))"

lemma known_entry_after:
  "c' key = entry_after env (c key) us \<Longrightarrow> known key c' = known_after (seahash env) (known key c) us"
  by (simp add: known_def known_after_def entry_after_def entry_of_def)

lemma entry_after_append: "entry_after env e (us @ vs) = entry_after env (entry_after env e us) vs"
  by (simp add: entry_after_def)

text \<open>News come in the order of their slots, none older than what was known, no two in a row alike.\<close>

lemma news_sorted:
  "sorted (map au_slot (news h k us)) \<and> (\<forall>slot hash. k = Some (slot, hash) \<longrightarrow> (\<forall>u\<in>set (news h k us). slot \<le> au_slot u))"
proof (induction h k us rule: news.induct)
  case (2 h k u us)
  then show ?case by (auto simp: not_less split: option.splits if_splits intro: order_trans)
qed simp

lemma news_fresh:
  "successively (\<lambda>u v. h (au_data u) \<noteq> h (au_data v)) (news h k us) \<and>
   (\<forall>slot hash u. k = Some (slot, hash) \<longrightarrow> news h k us \<noteq> [] \<longrightarrow> h (au_data (hd (news h k us))) \<noteq> hash)"
proof (induction h k us rule: news.induct)
  case (2 h k u us)
  then show ?case by (cases "news h (Some (au_slot u, h (au_data u))) us") (auto split: option.splits if_splits)
qed simp

lemma forward_if_new_key:
  assumes "forward_if_new env u c = (Some acts, c')"
  shows "forwarded key acts = (if au_pubkey u = key then news (seahash (ds_client env)) (known key c) [u] else []) \<and>
    c' key = entry_after (ds_client env) (c key) (forwarded key acts)"
  using assms
  by (auto simp: forward_if_new_def put_if_newer_def known_def entry_after_def entry_of_def Let_def split: if_splits option.splits)

lemma handle_source_key:
  assumes "handle_source env m st c = (Inr (), st', c', acts)"
  shows "forwarded key acts = news (seahash (ds_client env)) (known key c) (updates_of key [m]) \<and>
    c' key = entry_after (ds_client env) (c key) (forwarded key acts)"
proof (cases m)
  case (UpdateReceived u)
  then have "forward_if_new env u c = (Some acts, c')"
    using assms by (cases "forward_if_new env u c"; cases "fst (forward_if_new env u c)") auto
  from forward_if_new_key [OF this, of key] UpdateReceived show ?thesis by simp
qed (use assms in \<open>auto simp: entry_after_def Let_def split: if_splits\<close>)

lemma news_append:
  "news h k (us @ vs) = news h k us @ news h (known_after h k (news h k us)) vs"
proof (induction h k us rule: news.induct)
  case (2 h k u us)
  then show ?case by (simp add: known_after_Cons)
qed (simp add: known_after_def)

lemma updates_of_Cons: "updates_of key (m # ms) = updates_of key [m] @ updates_of key ms"
  by (cases m) auto

text \<open>The actor refines the specification.\<close>

lemma run_source_key:
  "run_source env ms st c = (Inr (), st', c', acts) \<Longrightarrow>
    forwarded key acts = news (seahash (ds_client env)) (known key c) (updates_of key ms) \<and>
    c' key = entry_after (ds_client env) (c key) (forwarded key acts)"
proof (induction ms arbitrary: st c acts)
  case (Cons m ms)
  obtain r1 st1 c1 acts1 where 1: "handle_source env m st c = (r1, st1, c1, acts1)" by (metis prod_cases4)
  with Cons.prems have r1: "r1 = Inr ()" by (cases r1) auto
  obtain acts2 where 2: "run_source env ms st1 c1 = (Inr (), st', c', acts2)" "acts = acts1 @ acts2"
    using Cons.prems 1 r1 by (auto split: prod.splits)
  note step = handle_source_key [OF 1 [unfolded r1], of key]
  from step Cons.IH [OF 2(1)] known_entry_after [of c1 key _ c, OF conjunct2 [OF step]] show ?case
    by (simp add: 2(2) updates_of_Cons [of key m ms] news_append entry_after_append)
qed (simp add: entry_after_def)

section \<open>Backfill\<close>

lemma run_source_total:
  assumes "staging_accepts env" and "\<forall>m\<in>set ms. \<exists>u. m = UpdateReceived u"
  shows "fst (run_source env ms st c) = Inr ()"
  using assms(2)
proof (induction ms arbitrary: st c)
  case (Cons m ms)
  then obtain u where "m = UpdateReceived u" by auto
  moreover have "fst (forward_if_new env u c) \<noteq> None" using assms(1) by (simp add: forward_if_new_def split: prod.split)
  then obtain acts c1 where "forward_if_new env u c = (Some acts, c1)" by (cases "forward_if_new env u c") auto
  ultimately show ?case using Cons by (auto split: prod.split) (metis fst_conv)
qed simp

lemma backfill_loop_slot:
  "m \<in> set (backfill_loop env i accounts) \<Longrightarrow> \<exists>u. m = UpdateReceived u \<and> au_slot u = 0"
  by (induction env i accounts rule: backfill_loop.induct) (auto split: option.splits if_splits)

lemma backfill_loop_none: "key \<notin> fst ` set accounts \<Longrightarrow> updates_of key (backfill_loop env i accounts) = []"
  by (induction env i accounts rule: backfill_loop.induct) (auto split: option.splits)

lemma backfill_loop_updates:
  assumes "\<forall>i. mailbox_accepts env i" and "decode_account_data (ds_client env) data encoding = Some bs"
  shows "distinct (map fst accounts) \<Longrightarrow> (key, data, encoding) \<in> set accounts \<Longrightarrow>
    updates_of key (backfill_loop env i accounts) = [\<lparr>au_pubkey = key, au_data = bs, au_slot = 0\<rparr>]"
proof (induction accounts arbitrary: i)
  case (Cons a accounts)
  obtain k d e where a: "a = (k, d, e)" by (metis prod_cases3)
  show ?case
  proof (cases "k = key")
    case True
    then have "d = data" "e = encoding" "key \<notin> fst ` set accounts" using Cons.prems a by (auto simp: rev_image_eqI)
    then show ?thesis using a True assms by (simp add: backfill_loop_none)
  next
    case False
    then show ?thesis using Cons a assms(1) by (simp split: option.split)
  qed
qed simp

lemma news_stale: "0 < slot \<Longrightarrow> \<forall>u\<in>set us. au_slot u = 0 \<Longrightarrow> news h (Some (slot, hash)) us = []"
  by (induction us) auto

lemma updates_of_set: "u \<in> set (updates_of key ms) \<Longrightarrow> UpdateReceived u \<in> set ms"
  by (induction key ms rule: updates_of.induct) (auto split: if_splits)

section \<open>Restarts\<close>

definition deaths :: "string \<Rightarrow> RpcSourceMessage list \<Rightarrow> nat" where
  "deaths which ms = length (filter (\<lambda>m. m = SubscriptionDied which) ms)"

definition spawns_program :: "source_action list \<Rightarrow> nat" where
  "spawns_program as = length (filter (\<lambda>a. case a of SpawnProgram _ \<Rightarrow> True | _ \<Rightarrow> False) as)"

lemma spawns_program_simps [simp]:
  "spawns_program [] = 0" "spawns_program (SpawnProgram u # as) = Suc (spawns_program as)" "spawns_program (SpawnClock u # as) = spawns_program as"
  "spawns_program (ToStaging m # as) = spawns_program as" "spawns_program (ToSelf r # as) = spawns_program as"
  "spawns_program (as @ bs) = spawns_program as + spawns_program bs" "spawns_program (map ToSelf ms) = 0"
  by (simp_all add: spawns_program_def filter_False)

lemma forward_no_spawn: "forward_if_new env u c = (Some acts, c') \<Longrightarrow> spawns_program acts = 0"
  by (auto simp: forward_if_new_def split: prod.splits if_splits)

text \<open>One message: the counter goes up with every death, and up to the limit every death is answered by a restart.\<close>

lemma handle_source_restarts:
  assumes "handle_source env m st c = (Inr (), st', c', acts)" and "unat (program_restart_count st) \<le> 3"
  shows "unat (program_restart_count st') = unat (program_restart_count st) + deaths ''program'' [m] \<and>
    unat (program_restart_count st') \<le> 3 \<and> spawns_program acts = deaths ''program'' [m]"
proof (cases m)
  case (UpdateReceived u)
  then have "forward_if_new env u c = (Some acts, c')" "st' = st"
    using assms(1) by (cases "forward_if_new env u c"; cases "fst (forward_if_new env u c)"; auto)+
  then show ?thesis using UpdateReceived assms(2) by (auto simp: deaths_def dest: forward_no_spawn)
next
  case (SubscriptionDied which)
  have "unat (program_restart_count st + 1) = unat (program_restart_count st) + 1"
    using assms(2) by (simp add: unat_word_ariths)
  then show ?thesis using SubscriptionDied assms
    by (auto simp: deaths_def Let_def MAX_SUBSCRIPTION_RESTARTS_def word_less_nat_alt not_less split: if_splits)
qed (use assms in \<open>auto simp: deaths_def split: if_splits\<close>)

lemma run_source_restarts:
  "run_source env ms st c = (Inr (), st', c', acts) \<Longrightarrow> unat (program_restart_count st) \<le> 3 \<Longrightarrow>
    unat (program_restart_count st') = unat (program_restart_count st) + deaths ''program'' ms \<and>
    unat (program_restart_count st') \<le> 3 \<and> spawns_program acts = deaths ''program'' ms"
proof (induction ms arbitrary: st c acts)
  case (Cons m ms)
  obtain r1 st1 c1 acts1 where 1: "handle_source env m st c = (r1, st1, c1, acts1)" by (metis prod_cases4)
  with Cons.prems have r1: "r1 = Inr ()" by (cases r1) auto
  obtain acts2 where 2: "run_source env ms st1 c1 = (Inr (), st', c', acts2)" "acts = acts1 @ acts2"
    using Cons.prems 1 r1 by (auto split: prod.splits)
  note step = handle_source_restarts [OF 1 [unfolded r1] Cons.prems(2)]
  from step Cons.IH [OF 2(1)] show ?case by (auto simp: 2(2) deaths_def)
qed (simp add: deaths_def)

section \<open>Sources in parallel\<close>

text \<open>
  The sources share the cache, and \<open>put_if_newer\<close> is a lookup followed by an insertion. A
  source that has looked and found its update new has it pending until it inserts.
\<close>

definition pin_stale :: "client_env \<Rightarrow> cache \<Rightarrow> AccountUpdate \<Rightarrow> bool" where
  "pin_stale env c u = (case c (au_pubkey u) of
     Some existing \<Rightarrow> ca_hash existing = seahash env (au_data u) \<or> au_slot u < ca_slot existing
   | None \<Rightarrow> False)"

definition pin_insert :: "client_env \<Rightarrow> AccountUpdate \<Rightarrow> cache \<Rightarrow> cache" where
  "pin_insert env u c = c(au_pubkey u \<mapsto> entry_of env u)"

lemma put_if_newer_phases:
  "put_if_newer env (au_pubkey u) (au_data u) (au_slot u) c =
     (if pin_stale env c u then (False, c) else (True, pin_insert env u c))"
  by (simp add: put_if_newer_def pin_stale_def pin_insert_def entry_of_def Let_def)

record shared =
  sh_cache :: cache
  pending :: "nat \<Rightarrow> AccountUpdate option"

inductive source_step :: "client_env \<Rightarrow> shared \<Rightarrow> shared \<Rightarrow> bool" for env :: client_env where
  look: "pending s i = None \<Longrightarrow> \<not> pin_stale env (sh_cache s) u \<Longrightarrow> source_step env s (s\<lparr>pending := (pending s)(i \<mapsto> u)\<rparr>)"
| insert: "pending s i = Some u \<Longrightarrow>
    source_step env s (s\<lparr>sh_cache := pin_insert env u (sh_cache s), pending := (pending s)(i := None)\<rparr>)"

text \<open>
  While at most one update of an account is pending at a time, its slot in the cache does not
  fall: the pending update is at least as new as the entry, which only it can replace.
\<close>

definition one_pending :: "pubkey \<Rightarrow> shared \<Rightarrow> bool" where
  "one_pending key s \<longleftrightarrow> (\<forall>i j u v. pending s i = Some u \<longrightarrow> pending s j = Some v \<longrightarrow> au_pubkey u = key \<longrightarrow> au_pubkey v = key \<longrightarrow> i = j)"

definition pending_newer :: "pubkey \<Rightarrow> shared \<Rightarrow> bool" where
  "pending_newer key s \<longleftrightarrow> (\<forall>i u e. pending s i = Some u \<longrightarrow> au_pubkey u = key \<longrightarrow> sh_cache s key = Some e \<longrightarrow> ca_slot e \<le> au_slot u)"

lemma source_step_one_pending:
  assumes "source_step env s s'" and "pending_newer key s" and "one_pending key s" and "sh_cache s key = Some e"
  shows "pending_newer key s' \<and> (\<exists>e'. sh_cache s' key = Some e' \<and> ca_slot e \<le> ca_slot e')"
  using assms(1)
proof cases
  case (look i u)
  then show ?thesis using assms(2,4) by (auto simp: pending_newer_def pin_stale_def not_less)
next
  case (insert i u)
  note 2 = insert
  show ?thesis
  proof (cases "au_pubkey u = key")
    case True
    then have "\<forall>j v. pending s' j = Some v \<longrightarrow> au_pubkey v \<noteq> key" using 2 assms(3) by (auto simp: one_pending_def)
    moreover have "ca_slot e \<le> au_slot u" using assms(2,4) 2 True by (auto simp: pending_newer_def)
    ultimately show ?thesis using 2 True by (auto simp: pending_newer_def pin_insert_def entry_of_def)
  next
    case False
    then show ?thesis using 2 assms(2,4) by (auto simp: pending_newer_def pin_insert_def)
  qed
qed

end
