(* ===== verification/Client_Start.thy ===== *)
theory Client_Start
  imports Datasource
begin

text \<open>
  \<open>crates/client/src/actors/root.rs\<close>: the root supervisor, which starts the other actors in
  order and stops the client when one of them ends. The key file, the expansion of the
  home directory and the actor runtime are parameters. The executor is its address and
  its commission flag; the observability agent is whether it runs.
\<close>

record root_env =
  tilde :: "string \<Rightarrow> string"
  read_keypair_file :: "string \<Rightarrow> string + pubkey"
  spawn_linked :: spawner
  staging_up :: bool

record Client =
  cl_executor :: pubkey
  cl_forgo_commission :: bool
  cl_staging :: StagingState
  cl_processor :: ProcessorState
  cl_datasources :: DatasourceState
  cl_observability :: bool

text \<open>What the runtime promises: an actor starts unless its name is taken.\<close>

definition registry_law :: "spawner \<Rightarrow> bool" where
  "registry_law spawn \<longleftrightarrow> (\<forall>names n. spawn names n = Inr () \<longleftrightarrow> n \<notin> names)"

definition balancer_config :: "ClientConfig \<Rightarrow> LoadBalancerConfig" where
  "balancer_config config = \<lparr>lb_enabled = True, capacity_threshold = 5,
     thread_takeover_delay = u64_as_i64 (lf_grace_period (cc_load_balancer config)),
     thread_process_delay = lf_thread_process_delay (cc_load_balancer config)\<rparr>"

text \<open>\<open>map_err\<close> with a format string that puts the error behind a text.\<close>

definition map_err :: "string \<Rightarrow> string + 'a \<Rightarrow> string + 'a" where
  "map_err txt r = (case r of Inl e \<Rightarrow> Inl (txt @ e) | Inr x \<Rightarrow> Inr x)"

definition root_start :: "root_env \<Rightarrow> ClientConfig \<Rightarrow> SharedResources \<Rightarrow> bool \<Rightarrow> string + Client" where
  "root_start env config resources has_receiver =
     then_do (map_err ''Failed to load executor keypair: '' (read_keypair_file env (tilde env (keypair_path (cc_executor config))))) (\<lambda>pk.
     let lb = lb_new pk (balancer_config config) in
     then_do (map_err ''Failed to spawn StagingActor: '' (spawn_linked env {} ''staging-actor'')) (\<lambda>_.
     let staging = staging_start lb (sr_cache resources) in
     then_do (map_err ''Failed to spawn ProcessorFactory: '' (spawn_linked env {''staging-actor''} ''processor-factory'')) (\<lambda>_.
     let processor = processor_start (max_concurrent_threads config) (sr_cache resources);
         names = {''staging-actor'', ''processor-factory''} in
     then_do (require (staging_up env) ''Failed to set processor ref in staging'') (\<lambda>_.
     then_do (map_err ''Failed to spawn DatasourceSupervisor: '' (
       then_do (spawn_linked env names ''datasource-supervisor'') (\<lambda>_.
         datasource_start (spawn_linked env) (insert ''datasource-supervisor'' names) config has_receiver))) (\<lambda>ds.
     let names' = fst ` set (rpc_sources ds) \<union> (if geyser_source ds then {''geyser-source''} else {}) \<union> insert ''datasource-supervisor'' names in
     then_do (if ob_enabled (observability config)
              then then_do (map_err ''Failed to spawn ObservabilityActor: '' (spawn_linked env names' ''observability'')) (\<lambda>_. Inr True)
              else Inr False) (\<lambda>observed.
     Inr \<lparr>cl_executor = pk, cl_forgo_commission = forgo_commission (cc_executor config), cl_staging = set_processor_ref staging,
       cl_processor = processor, cl_datasources = ds, cl_observability = observed\<rparr>))))))"

datatype RootMessage = RM_Shutdown

fun handle_root :: "RootMessage \<Rightarrow> string + unit" where
  "handle_root RM_Shutdown = Inl ''Shutdown signal received''"

text \<open>What a child reports; \<open>True\<close> is the call of \<open>stop\<close>.\<close>

datatype SupervisionEvent = ActorTerminated string | ActorFailed string string | ActorOther

fun handle_supervisor_evt :: "SupervisionEvent \<Rightarrow> bool" where
  "handle_supervisor_evt (ActorTerminated _) = True"
| "handle_supervisor_evt (ActorFailed _ _) = True"
| "handle_supervisor_evt ActorOther = False"

section \<open>Starting\<close>

abbreviation readable :: "RpcEndpoint \<Rightarrow> bool" where
  "readable e \<equiv> re_role e = Datasource \<or> re_role e = Both"

abbreviation source_name :: "RpcEndpoint \<Rightarrow> string" where
  "source_name e \<equiv> ''rpc-source-'' @ re_url e"

lemma start_sources_iff:
  assumes "registry_law spawn"
  shows "(\<exists>sources. start_sources spawn names es = Inr sources) \<longleftrightarrow>
    distinct (map source_name (filter readable es)) \<and> source_name ` set (filter readable es) \<inter> names = {}"
proof (induction es arbitrary: names)
  case (Cons e es)
  have s: "spawn names n = Inr u \<longleftrightarrow> n \<notin> names" for names n u using assms by (simp add: registry_law_def)
  show ?case
  proof (cases "readable e")
    case True
    show ?thesis
    proof (cases "source_name e \<in> names")
      case taken: True
      then obtain err where "spawn names (source_name e) = Inl err" using s [of names "source_name e"]
        by (cases "spawn names (source_name e)") auto
      with True taken show ?thesis by simp
    next
      case False
      then have "spawn names (source_name e) = Inr ()" using s by simp
      then have "(\<exists>sources. start_sources spawn names (e # es) = Inr sources) \<longleftrightarrow>
          (\<exists>sources. start_sources spawn (insert (source_name e) names) es = Inr sources)"
        using True by (auto simp: Let_def split: sum.splits)
      then show ?thesis using Cons.IH [of "insert (source_name e) names"] True False by auto
    qed
  next
    case False
    then show ?thesis using Cons.IH [of names] by simp
  qed
qed simp

lemma start_sources_names:
  "start_sources spawn names es = Inr sources \<Longrightarrow> map fst sources = map source_name (filter readable es) \<and>
     map (rs_ws_url \<circ> snd) sources = map get_ws_url (filter readable es)"
proof (induction es arbitrary: names sources)
  case (Cons e es)
  then show ?case by (auto simp: source_start_def Let_def split: if_splits sum.splits)
qed simp

lemma map_err_simps [simp]: "map_err txt (Inr x) = Inr x" "map_err txt r = Inr x \<longleftrightarrow> r = Inr x"
  by (simp_all add: map_err_def split: sum.split)

lemma spawn_fresh: "registry_law spawn \<Longrightarrow> n \<notin> names \<Longrightarrow> spawn names n = Inr ()"
  by (simp add: registry_law_def)

text \<open>The names of the sources differ from those of the other actors.\<close>

lemma datasource_start_ok:
  assumes "registry_law spawn" and "distinct (map re_url (filter readable (rpc_endpoints config)))"
    and "names \<subseteq> {''datasource-supervisor'', ''staging-actor'', ''processor-factory''}"
  shows "\<exists>ds. datasource_start spawn names config g = Inr ds \<and>
    map fst (rpc_sources ds) = map source_name (filter readable (rpc_endpoints config)) \<and>
    map (rs_ws_url \<circ> snd) (rpc_sources ds) = map get_ws_url (filter readable (rpc_endpoints config)) \<and> geyser_source ds = g"
proof -
  have "distinct (map source_name (filter readable (rpc_endpoints config)))"
    using assms(2) by (simp add: distinct_map inj_on_def)
  moreover have "source_name ` set (filter readable (rpc_endpoints config)) \<inter> names = {}" using assms(3) by auto
  ultimately obtain sources where s: "start_sources spawn names (rpc_endpoints config) = Inr sources"
    using start_sources_iff [OF assms(1)] by blast
  note n = start_sources_names [OF s]
  have "fst ` set sources = source_name ` set (filter readable (rpc_endpoints config))" using n by (metis list.set_map)
  then have "''geyser-source'' \<notin> fst ` set sources \<union> names" using assms(3) by auto
  with s n spawn_fresh [OF assms(1)] show ?thesis by (simp add: datasource_start_def)
qed

lemma root_start_ok:
  assumes "registry_law (spawn_linked env)" and "distinct (map re_url (filter readable (rpc_endpoints config)))"
    and "read_keypair_file env (tilde env (keypair_path (cc_executor config))) = Inr pk" and "staging_up env"
  shows "\<exists>client. root_start env config resources g = Inr client \<and> cl_executor client = pk \<and> processor_set (cl_staging client) \<and>
    available_permits (cl_processor client) = max_concurrent_threads config \<and>
    map (rs_ws_url \<circ> snd) (rpc_sources (cl_datasources client)) = map get_ws_url (filter readable (rpc_endpoints config))"
proof -
  let ?names = "{''datasource-supervisor'', ''staging-actor'', ''processor-factory''}"
  obtain ds where ds: "datasource_start (spawn_linked env) ?names config g = Inr ds"
      "map fst (rpc_sources ds) = map source_name (filter readable (rpc_endpoints config))"
      "map (rs_ws_url \<circ> snd) (rpc_sources ds) = map get_ws_url (filter readable (rpc_endpoints config))"
    using datasource_start_ok [OF assms(1,2), of ?names g] by auto
  have "fst ` set (rpc_sources ds) = source_name ` set (filter readable (rpc_endpoints config))" using ds(2) by (metis list.set_map)
  then have "''observability'' \<notin> fst ` set (rpc_sources ds) \<union> (if geyser_source ds then {''geyser-source''} else {}) \<union> ?names" by auto
  note fresh = spawn_fresh [OF assms(1) this]
  with ds fresh assms(3,4) show ?thesis
    by (simp add: root_start_def Let_def spawn_fresh [OF assms(1)] set_processor_ref_def processor_start_def)
qed

text \<open>Two endpoints to read from under one URL pass validation and keep the client from starting.\<close>

lemma duplicate_endpoints_block_start:
  assumes "registry_law (spawn_linked env)" and "\<not> distinct (map re_url (filter readable (rpc_endpoints config)))"
  shows "\<exists>err. root_start env config resources g = Inl err"
proof -
  have "\<not> distinct (map source_name (filter readable (rpc_endpoints config)))" using assms(2) by (simp add: distinct_map inj_on_def)
  then have "\<nexists>sources. start_sources (spawn_linked env) names (rpc_endpoints config) = Inr sources" for names
    using start_sources_iff [OF assms(1)] by blast
  then have fails: "\<exists>err. datasource_start (spawn_linked env) names config g = Inl err" for names
    by (cases "start_sources (spawn_linked env) names (rpc_endpoints config)") (simp_all add: datasource_start_def)
  have "\<nexists>client. root_start env config resources g = Inr client"
    using fails [of "{''datasource-supervisor'', ''staging-actor'', ''processor-factory''}"] by (auto simp: root_start_def Let_def res_simps)
  then show ?thesis by (simp only: sum_Inl_not_Inr)
qed

end
