(* ===== verification/Properties_Source.thy ===== *)
theory Properties_Source
  imports Properties_Flow Client_Start
begin

text \<open>
  The properties of the sources of account updates: what staging is told of an account, the
  backfill after a connection, sources in parallel, the transport below them, and the start
  of the client as a whole. Each property is followed by a witness.
\<close>

section \<open>Updates\<close>

definition sample_source_env :: source_env where
  "sample_source_env = \<lparr>ds_client = sample_client, json_program = (\<lambda>_. None), json_account = (\<lambda>_. None),
     pubkey_from_str = (\<lambda>_. None), bincode_clock = (\<lambda>_. None),
     get_program_accounts = Inr [(sample_key, ''Z'', ''base64+zstd''), ([1], ''Q'', ''base64'')],
     staging_accepts = True, mailbox_accepts = (\<lambda>_. True), url_valid = (\<lambda>_. True)\<rparr>"

definition sample_source :: RpcSourceState where
  "sample_source = \<lparr>rs_ws_url = ''ws://n'', cancelled = False, program_restart_count = 0, clock_restart_count = 0\<rparr>"

abbreviation sample_update :: "bytes \<Rightarrow> u64 \<Rightarrow> AccountUpdate" where
  "sample_update data slot \<equiv> \<lparr>au_pubkey = sample_key, au_data = data, au_slot = slot\<rparr>"



text \<open>
  A backfill tells staging of every account the cache does not know, and of nothing the
  cache knows from a live notification: its updates carry slot 0 and lose against every
  slot, so that a change missed while the connection was down stays missed however often
  the source reconnects.
\<close>

theorem backfill_learns_only_unknown:
  assumes "get_program_accounts env = Inr accounts" and "\<forall>i. mailbox_accepts env i" and "staging_accepts env"
    and "distinct (map fst accounts)" and "(key, data, encoding) \<in> set accounts"
    and "decode_account_data (ds_client env) data encoding = Some bs"
    and "handle_source env Reconnected st c = (r0, st0, c0, map ToSelf ms)" and "run_source env ms st0 c0 = (r, st', c', acts)"
  shows "r0 = Inr () \<and> r = Inr () \<and>
    (c key = None \<longrightarrow> forwarded key acts = [\<lparr>au_pubkey = key, au_data = bs, au_slot = 0\<rparr>] \<and> map_option ca_data (c' key) = Some bs) \<and>
    (\<forall>e. c key = Some e \<longrightarrow> 0 < ca_slot e \<longrightarrow> forwarded key acts = [] \<and> c' key = Some e)"
proof -
  have ms: "ms = backfill_loop env 0 accounts" and c0: "c0 = c" "r0 = Inr ()"
    using assms(1,7) by (auto simp: perform_backfill_def inj_map_eq_map inj_on_def)
  have r: "r = Inr ()"
    using run_source_total [OF assms(3), of ms st0 c0] backfill_loop_slot assms(8) unfolding ms by fastforce
  have u: "updates_of key ms = [\<lparr>au_pubkey = key, au_data = bs, au_slot = 0\<rparr>]"
    unfolding ms by (rule backfill_loop_updates [OF assms(2,6,4,5)])
  note run = run_source_key [OF assms(8) [unfolded r c0(1)], of key, unfolded u]
  show ?thesis using r c0(2) run by (auto simp: known_def entry_after_def entry_of_def word_gt_0)
qed

theorem backfill_learns_only_unknown_witness:
  "\<exists>st' c' acts. run_source sample_source_env (backfill_loop sample_source_env 0 [(sample_key, ''Z'', ''base64+zstd''), ([1], ''Q'', ''base64'')])
      sample_source sample_cached = (Inr (), st', c', acts) \<and> forwarded sample_key acts = [] \<and> c' sample_key = sample_cached sample_key"
proof -
  let ?accounts = "[(sample_key, ''Z'', ''base64+zstd''), ([1], ''Q'', ''base64'')]"
  let ?ms = "backfill_loop sample_source_env 0 ?accounts"
  obtain r st' c' acts where run: "run_source sample_source_env ?ms sample_source sample_cached = (r, st', c', acts)" by (metis prod_cases4)
  have a: "get_program_accounts sample_source_env = Inr ?accounts" "\<forall>i. mailbox_accepts sample_source_env i" "staging_accepts sample_source_env"
    by (simp_all add: sample_source_env_def)
  have b: "distinct (map fst ?accounts)" "(sample_key, ''Z'', ''base64+zstd'') \<in> set ?accounts" by (simp_all add: sample_key_def)
  have d: "decode_account_data (ds_client sample_source_env) ''Z'' ''base64+zstd'' = Some [7, 7, 7, 7, 7, 7, 7, 7]"
    by (simp add: decode_account_data_def sample_source_env_def sample_client_def)
  have h: "handle_source sample_source_env Reconnected sample_source sample_cached = (Inr (), sample_source, sample_cached, map ToSelf ?ms)"
    using a(1) by (simp add: perform_backfill_def)
  from backfill_learns_only_unknown [OF a b d h run] run show ?thesis by (auto simp: sample_cached_def)
qed

section \<open>Sources in parallel\<close>

text \<open>
  Two sources that share the cache can take it back to an older slot: each looks the account
  up before it inserts, so a source that has found its update new can insert it after the
  other has inserted a newer one.
\<close>

theorem sources_race:
  fixes old new :: AccountUpdate
  assumes "c key = Some e" and "au_pubkey old = key" and "au_pubkey new = key"
    and "ca_slot e \<le> au_slot old" and "au_slot old < au_slot new"
    and "seahash env (au_data old) \<noteq> ca_hash e" and "seahash env (au_data new) \<noteq> ca_hash e"
  shows "\<exists>s s'. reach (\<lambda>s. s = \<lparr>sh_cache = c, pending = (\<lambda>_. None)\<rparr>) (source_step env) s \<and> source_step env s s' \<and>
    map_option ca_slot (sh_cache s key) = Some (au_slot new) \<and> map_option ca_slot (sh_cache s' key) = Some (au_slot old)"
proof -
  let ?s0 = "\<lparr>sh_cache = c, pending = (\<lambda>_. None)\<rparr>"
  let ?s1 = "?s0\<lparr>pending := (pending ?s0)(0 \<mapsto> old)\<rparr>"
  let ?s2 = "?s1\<lparr>pending := (pending ?s1)(1 \<mapsto> new)\<rparr>"
  let ?s3 = "?s2\<lparr>sh_cache := pin_insert env new (sh_cache ?s2), pending := (pending ?s2)(1 := None)\<rparr>"
  let ?s4 = "?s3\<lparr>sh_cache := pin_insert env old (sh_cache ?s3), pending := (pending ?s3)(0 := None)\<rparr>"
  have fresh: "\<not> pin_stale env c old" "\<not> pin_stale env c new" using assms by (auto simp: pin_stale_def not_less)
  have 1: "source_step env ?s0 ?s1" by (rule source_step.look) (use fresh in simp_all)
  have 2: "source_step env ?s1 ?s2" by (rule source_step.look) (use fresh in simp_all)
  have 3: "source_step env ?s2 ?s3" by (rule source_step.insert) simp
  have 4: "source_step env ?s3 ?s4" by (rule source_step.insert) simp
  have "reach (\<lambda>s. s = ?s0) (source_step env) ?s0" by (rule reach_start) simp
  then have "reach (\<lambda>s. s = ?s0) (source_step env) ?s1" using 1 by (rule reach_step)
  then have "reach (\<lambda>s. s = ?s0) (source_step env) ?s2" using 2 by (rule reach_step)
  then have "reach (\<lambda>s. s = ?s0) (source_step env) ?s3" using 3 by (rule reach_step)
  moreover have "map_option ca_slot (sh_cache ?s3 key) = Some (au_slot new)" "map_option ca_slot (sh_cache ?s4 key) = Some (au_slot old)"
    using assms(2,3) by (simp_all add: pin_insert_def entry_of_def)
  ultimately show ?thesis using 4 by blast
qed

theorem sources_race_witness:
  "\<exists>s s'. reach (\<lambda>s. s = \<lparr>sh_cache = sample_cached, pending = (\<lambda>_. None)\<rparr>) (source_step sample_client) s \<and> source_step sample_client s s' \<and>
    map_option ca_slot (sh_cache s sample_key) = Some 7 \<and> map_option ca_slot (sh_cache s' sample_key) = Some 6"
  using sources_race [of sample_cached sample_key _ "sample_update [1] 6" "sample_update [2, 2] 7" sample_client]
  by (simp add: sample_cached_def sample_client_def)

section \<open>Transport\<close>

definition sample_ws :: ws_config where
  "sample_ws = \<lparr>ws_keepalive = Some 10, ws_backoff = Backoff_default, ws_on_connect = True, ws_pong = True, ws_powi = (\<lambda>b n. b powi n)\<rparr>"

definition sample_network :: "connection list" where
  "sample_network =
     [\<lparr>connect_async = Inr (), callback_ok = True,
        polls = [\<lparr>out_ready = None, in_ready = Some (Some (Inr (F_Text ''a''))), tick_ready = False, write_error = None, receiver_alive = True\<rparr>,
                 \<lparr>out_ready = None, in_ready = Some None, tick_ready = False, write_error = None, receiver_alive = True\<rparr>]\<rparr>,
      \<lparr>connect_async = Inl ''refused'', callback_ok = True, polls = []\<rparr>,
      \<lparr>connect_async = Inr (), callback_ok = True,
        polls = [\<lparr>out_ready = None, in_ready = Some (Some (Inr (F_Text ''b''))), tick_ready = False, write_error = None, receiver_alive = True\<rparr>]\<rparr>]"



section \<open>Starting the client\<close>

definition sample_root_env :: root_env where
  "sample_root_env = \<lparr>tilde = (\<lambda>s. s), read_keypair_file = (\<lambda>_. Inr [40]),
     spawn_linked = (\<lambda>names n. if n \<in> names then Inl ''taken'' else Inr ()), staging_up = True\<rparr>"



end
