(* ===== verification/Rpc_Requests.thy ===== *)
theory Rpc_Requests
  imports Rpc_Pool Ws_Transport Solana
begin

text \<open>
  The requests of \<open>crates/client/src/rpc/pool.rs\<close> above its failover, the number
  deserialisers of \<open>rpc/response.rs\<close> and the account watcher of \<open>rpc/websocket.rs\<close>. A
  request is the JSON value the source builds; the deserialisers serde derives, Bincode,
  Base64 and Base58 are parameters. \<open>serde_json::Value\<close> is a datatype, its numbers split
  as the library splits them.
\<close>

section \<open>JSON values and numbers\<close>

datatype json_value =
    V_Null
  | V_Bool bool
  | V_PosInt u64
  | V_NegInt int
  | V_Float rat
  | V_String string
  | V_Array "json_value list"
  | V_Object "(string \<times> json_value) list"

fun value_get :: "string \<Rightarrow> json_value \<Rightarrow> json_value option" where
  "value_get k (V_Object kvs) = map_of kvs k"
| "value_get k _ = None"

fun value_nth :: "nat \<Rightarrow> json_value \<Rightarrow> json_value option" where
  "value_nth i (V_Array vs) = (if i < length vs then Some (vs ! i) else None)"
| "value_nth i _ = None"

fun as_u64 :: "json_value \<Rightarrow> u64 option" where
  "as_u64 (V_PosInt n) = Some n"
| "as_u64 _ = None"

fun as_f64 :: "json_value \<Rightarrow> rat option" where
  "as_f64 (V_PosInt n) = Some (f64_of_u64 n)"
| "as_f64 (V_NegInt n) = Some (f64_of_int n)"
| "as_f64 (V_Float x) = Some x"
| "as_f64 _ = None"

datatype U64OrFloat = UF_U64 u64 | UF_Float rat

text \<open>A finite float to \<open>u64\<close>, as both deserialisers do it; \<open>1.8e19\<close> is exactly representable.\<close>

definition float_to_u64 :: "rat \<Rightarrow> u64 option" where
  "float_to_u64 v = (if 18 * 10 ^ 18 \<le> v then Some (- 1) else if 0 \<le> v then Some (f64_as_u64 v) else None)"

fun deserialize_u64_or_float :: "U64OrFloat \<Rightarrow> string + u64" where
  "deserialize_u64_or_float (UF_U64 v) = Inr v"
| "deserialize_u64_or_float (UF_Float v) = ok_or (float_to_u64 v) ''negative float cannot be converted to u64''"

fun deserialize_optional_u64 :: "json_value option \<Rightarrow> string + u64 option" where
  "deserialize_optional_u64 None = Inr None"
| "deserialize_optional_u64 (Some v) =
     (if v = V_Null then Inr None
      else case as_u64 v of
        Some n \<Rightarrow> Inr (Some n)
      | None \<Rightarrow>
          (case as_f64 v of
             Some f \<Rightarrow> then_do (ok_or (float_to_u64 f) ''negative float for u64'') (\<lambda>n. Inr (Some n))
           | None \<Rightarrow> Inl ''expected u64 or float''))"

section \<open>Answers\<close>

record SafeUiAccount =
  ui_lamports :: u64
  ui_data :: "string \<times> string"
  ui_owner :: string
  ui_executable :: bool
  ui_rent_epoch :: u64

record SafeSimulationValue =
  sv_err :: "json_value option"
  sv_logs :: "string list option"
  sv_units_consumed :: "u64 option"
  sv_accounts :: "SafeUiAccount option list option"

record SignatureStatus =
  ss_err :: "json_value option"
  confirmation_status :: "string option"

datatype request_error =
    Failed rpc_error
  | NoResult
  | BadAnswer
  | BadTransaction
  | SimulationError json_value
  | ConfirmationTimeout
  | TransactionFailed u32

text \<open>
  The network and the parsers. A parser gives the \<open>result\<close> field of the response, which is
  optional except for simulations.
\<close>

record 'tx net =
  net_post :: "string \<Rightarrow> json_value \<Rightarrow> nat \<Rightarrow> (bool \<times> string option) option"
  net_latency :: "string \<Rightarrow> json_value \<Rightarrow> nat \<Rightarrow> nat"
  net_rpc_error :: "string \<Rightarrow> string option"
  parse_blockhash :: "string \<Rightarrow> (string \<times> u64) option option"
  parse_string :: "string \<Rightarrow> string option option"
  parse_account :: "string \<Rightarrow> SafeUiAccount option option option"
  parse_balance :: "string \<Rightarrow> u64 option option"
  parse_accounts :: "string \<Rightarrow> SafeUiAccount option list option option"
  parse_program :: "string \<Rightarrow> (string \<times> SafeUiAccount) list option option"
  parse_simulation :: "string \<Rightarrow> SafeSimulationValue option"
  parse_statuses :: "string \<Rightarrow> SignatureStatus option list option option"
  pubkey_to_string :: "pubkey \<Rightarrow> string"
  pubkey_parse :: "string \<Rightarrow> pubkey option"
  hash_parse :: "string \<Rightarrow> bytes option"
  signature_to_string :: "bytes \<Rightarrow> string"
  signature_parse :: "string \<Rightarrow> bytes option"
  tx_serialize :: "'tx \<Rightarrow> bytes option"
  net_base64_encode :: "bytes \<Rightarrow> string"

section \<open>Requests\<close>

definition rpc_body :: "string \<Rightarrow> json_value list \<Rightarrow> json_value" where
  "rpc_body rpc_method params = V_Object [(''jsonrpc'', V_String ''2.0''), (''id'', V_PosInt 1),
     (''method'', V_String rpc_method), (''params'', V_Array params)]"

definition encoded_confirmed :: json_value where
  "encoded_confirmed = V_Object [(''encoding'', V_String ''base64+zstd''), (''commitment'', V_String ''confirmed'')]"

definition request :: "'tx net \<Rightarrow> (string \<Rightarrow> 'r option) \<Rightarrow> json_value \<Rightarrow> nat \<Rightarrow> bool \<Rightarrow> RpcPool \<Rightarrow> (request_error + 'r) \<times> RpcPool" where
  "request net parse body now read_only pool =
     (case execute_with_failover \<lparr>http_post = (\<lambda>url t. net_post net url body t), parse_rpc_error = net_rpc_error net,
             parse_response = parse, http_latency = (\<lambda>url t. net_latency net url body t)\<rparr> now read_only pool of
        (Inl e, pool') \<Rightarrow> (Inl (Failed e), pool')
      | (Inr r, pool') \<Rightarrow> (Inr r, pool'))"

text \<open>What is done with the answer; the pool is what the request left.\<close>

definition on_answer :: "('e + 'a) \<times> 'p \<Rightarrow> ('a \<Rightarrow> 'e + 'b) \<Rightarrow> ('e + 'b) \<times> 'p" where
  "on_answer r f = (then_do (fst r) f, snd r)"

definition get_latest_blockhash :: "'tx net \<Rightarrow> nat \<Rightarrow> RpcPool \<Rightarrow> (request_error + bytes \<times> u64) \<times> RpcPool" where
  "get_latest_blockhash net now pool =
     on_answer (request net (parse_blockhash net) (rpc_body ''getLatestBlockhash'' [V_Object [(''commitment'', V_String ''confirmed'')]]) now True pool)
       (\<lambda>result. then_do (ok_or result NoResult) (\<lambda>(blockhash, height).
          then_do (ok_or (hash_parse net blockhash) BadAnswer) (\<lambda>h. Inr (h, height))))"

definition send_transaction :: "'tx net \<Rightarrow> 'tx \<Rightarrow> nat \<Rightarrow> RpcPool \<Rightarrow> (request_error + bytes) \<times> RpcPool" where
  "send_transaction net tx now pool =
     (case tx_serialize net tx of
        None \<Rightarrow> (Inl BadTransaction, pool)
      | Some bs \<Rightarrow>
          on_answer (request net (parse_string net) (rpc_body ''sendTransaction'' [V_String (net_base64_encode net bs),
              V_Object [(''encoding'', V_String ''base64''), (''skipPreflight'', V_Bool False),
                (''preflightCommitment'', V_String ''confirmed''), (''maxRetries'', V_PosInt 3)]]) now False pool)
            (\<lambda>result. then_do (ok_or result NoResult) (\<lambda>s. ok_or (signature_parse net s) BadAnswer)))"

definition get_account :: "'tx net \<Rightarrow> pubkey \<Rightarrow> nat \<Rightarrow> RpcPool \<Rightarrow> (request_error + SafeUiAccount option) \<times> RpcPool" where
  "get_account net key now pool =
     on_answer (request net (parse_account net) (rpc_body ''getAccountInfo'' [V_String (pubkey_to_string net key), encoded_confirmed]) now True pool)
       (\<lambda>result. Inr (Option.bind result (\<lambda>v. v)))"

definition get_balance :: "'tx net \<Rightarrow> pubkey \<Rightarrow> nat \<Rightarrow> RpcPool \<Rightarrow> (request_error + u64) \<times> RpcPool" where
  "get_balance net key now pool =
     on_answer (request net (parse_balance net) (rpc_body ''getBalance'' [V_String (pubkey_to_string net key),
         V_Object [(''commitment'', V_String ''confirmed'')]]) now True pool)
       (\<lambda>result. ok_or result NoResult)"

definition get_multiple_accounts :: "'tx net \<Rightarrow> pubkey list \<Rightarrow> nat \<Rightarrow> RpcPool \<Rightarrow> (request_error + SafeUiAccount option list) \<times> RpcPool" where
  "get_multiple_accounts net keys now pool =
     on_answer (request net (parse_accounts net) (rpc_body ''getMultipleAccounts''
         [V_Array (map (\<lambda>k. V_String (pubkey_to_string net k)) keys), encoded_confirmed]) now True pool)
       (\<lambda>result. Inr (case result of Some v \<Rightarrow> v | None \<Rightarrow> []))"

fun collect_accounts :: "'tx net \<Rightarrow> (string \<times> SafeUiAccount) list \<Rightarrow> request_error + (pubkey \<times> SafeUiAccount) list" where
  "collect_accounts net [] = Inr []"
| "collect_accounts net ((k, account) # items) =
     then_do (ok_or (pubkey_parse net k) BadAnswer) (\<lambda>key.
       then_do (collect_accounts net items) (\<lambda>rest. Inr ((key, account) # rest)))"

definition get_program_accounts_rpc :: "'tx net \<Rightarrow> pubkey \<Rightarrow> json_value list option \<Rightarrow> nat \<Rightarrow> RpcPool \<Rightarrow>
    (request_error + (pubkey \<times> SafeUiAccount) list) \<times> RpcPool" where
  "get_program_accounts_rpc net pid filters now pool =
     (let params = V_Object ([(''encoding'', V_String ''base64+zstd''), (''commitment'', V_String ''confirmed'')] @
            (case filters of Some f \<Rightarrow> [(''filters'', V_Array f)] | None \<Rightarrow> [])) in
      on_answer (request net (parse_program net) (rpc_body ''getProgramAccounts'' [V_String (pubkey_to_string net pid), params]) now True pool)
        (\<lambda>result. collect_accounts net (case result of Some v \<Rightarrow> v | None \<Rightarrow> [])))"

definition simulate_transaction_rpc :: "'tx net \<Rightarrow> 'tx \<Rightarrow> pubkey list \<Rightarrow> nat \<Rightarrow> RpcPool \<Rightarrow> (request_error + SafeSimulationValue) \<times> RpcPool" where
  "simulate_transaction_rpc net tx addresses now pool =
     (case tx_serialize net tx of
        None \<Rightarrow> (Inl BadTransaction, pool)
      | Some bs \<Rightarrow>
          on_answer (request net (parse_simulation net) (rpc_body ''simulateTransaction'' [V_String (net_base64_encode net bs),
              V_Object [(''sigVerify'', V_Bool False), (''replaceRecentBlockhash'', V_Bool True), (''commitment'', V_String ''processed''),
                (''encoding'', V_String ''base64''), (''accounts'', V_Object [(''encoding'', V_String ''base64+zstd''),
                  (''addresses'', V_Array (map (\<lambda>k. V_String (pubkey_to_string net k)) addresses))])]]) now True pool)
            (\<lambda>result. case sv_err result of Some err \<Rightarrow> Inl (SimulationError err) | None \<Rightarrow> Inr result))"

definition error_code :: "json_value \<Rightarrow> u32" where
  "error_code err =
     (case Option.bind (Option.bind (Option.bind (value_get ''InstructionError'' err) (value_nth 1)) (value_get ''Custom'')) as_u64 of
        Some n \<Rightarrow> ucast n
      | None \<Rightarrow> 0)"

text \<open>\<open>Some (Inl code)\<close> stands for \<open>InstructionError(0, Custom(code))\<close>.\<close>

definition signature_status :: "SignatureStatus option list \<Rightarrow> (u32 + unit) option" where
  "signature_status statuses =
     (case statuses of
        Some status # _ \<Rightarrow>
          if confirmation_status status = Some ''confirmed'' \<or> confirmation_status status = Some ''finalized'' then
            (case ss_err status of Some err \<Rightarrow> Some (Inl (error_code err)) | None \<Rightarrow> Some (Inr ()))
          else None
      | _ \<Rightarrow> None)"

definition get_signature_status :: "'tx net \<Rightarrow> bytes \<Rightarrow> nat \<Rightarrow> RpcPool \<Rightarrow> (request_error + (u32 + unit) option) \<times> RpcPool" where
  "get_signature_status net signature now pool =
     on_answer (request net (parse_statuses net) (rpc_body ''getSignatureStatuses'' [V_Array [V_String (signature_to_string net signature)]]) now True pool)
       (\<lambda>result. Inr (signature_status (case result of Some v \<Rightarrow> v | None \<Rightarrow> [])))"

text \<open>
  Polling for a confirmation: \<open>tm i\<close> is the instant (in nanoseconds) of the \<open>i\<close>-th round. The
  loop may go on for ever if time does not pass.
\<close>

partial_function (option) confirm_loop :: "'tx net \<Rightarrow> (nat \<Rightarrow> nat) \<Rightarrow> nat \<Rightarrow> bytes \<Rightarrow> RpcPool \<Rightarrow> ((request_error + bytes) \<times> RpcPool) option" where
  "confirm_loop net tm i signature pool =
     (if 30 * 10 ^ 9 < tm i - tm 0 then Some (Inl ConfirmationTimeout, pool)
      else case get_signature_status net signature (tm i) pool of
        (Inl e, pool') \<Rightarrow> Some (Inl e, pool')
      | (Inr None, pool') \<Rightarrow> confirm_loop net tm (i + 1) signature pool'
      | (Inr (Some (Inr _)), pool') \<Rightarrow> Some (Inr signature, pool')
      | (Inr (Some (Inl code)), pool') \<Rightarrow> Some (Inl (TransactionFailed code), pool'))"

definition send_and_confirm_transaction :: "'tx net \<Rightarrow> (nat \<Rightarrow> nat) \<Rightarrow> 'tx \<Rightarrow> nat \<Rightarrow> RpcPool \<Rightarrow> ((request_error + bytes) \<times> RpcPool) option" where
  "send_and_confirm_transaction net tm tx now pool =
     (case send_transaction net tx now pool of
        (Inl e, pool') \<Rightarrow> Some (Inl e, pool')
      | (Inr signature, pool') \<Rightarrow> confirm_loop net tm 0 signature pool')"

section \<open>Watching an account\<close>

record WsAccountUpdate =
  wu_pubkey :: pubkey
  wu_account :: SafeUiAccount
  wu_slot :: u64

record watch_env =
  json_notification :: "string \<Rightarrow> (string option \<times> (u64 \<times> json_value) option) option"
  program_value :: "json_value \<Rightarrow> (string \<times> SafeUiAccount) option"
  account_value :: "json_value \<Rightarrow> SafeUiAccount option"
  watch_pubkey :: "string \<Rightarrow> pubkey option"

definition parse_notification :: "watch_env \<Rightarrow> string \<Rightarrow> pubkey option \<Rightarrow> string + WsAccountUpdate option" where
  "parse_notification env txt subscribed =
     then_do (ok_or (json_notification env txt) ''not a notification'') (\<lambda>(method_name, params).
       case method_name of
         None \<Rightarrow> Inr None
       | Some m \<Rightarrow>
           then_do (ok_or params ''Missing params'') (\<lambda>(slot, v).
             if m = ''programNotification'' then
               then_do (ok_or (program_value env v) ''Failed to parse programNotification value'') (\<lambda>(k, account).
                 then_do (ok_or (watch_pubkey env k) ''Invalid pubkey'') (\<lambda>key.
                   Inr (Some \<lparr>wu_pubkey = key, wu_account = account, wu_slot = slot\<rparr>)))
             else if m = ''accountNotification'' then
               then_do (ok_or (account_value env v) ''Failed to parse accountNotification value'') (\<lambda>account.
                 Inr (Some \<lparr>wu_pubkey = (case subscribed of Some k \<Rightarrow> k | None \<Rightarrow> pubkey_default), wu_account = account, wu_slot = slot\<rparr>))
             else Inr None))"

text \<open>The loop over the messages of the transport, which end when its task does.\<close>

fun wait_until :: "watch_env \<Rightarrow> pubkey \<Rightarrow> (SafeUiAccount \<Rightarrow> bool) \<Rightarrow> Message list \<Rightarrow> string + SafeUiAccount" where
  "wait_until env key accept [] = Inl ''Account subscription closed unexpectedly''"
| "wait_until env key accept (WText txt # ms) =
     then_do (parse_notification env txt (Some key)) (\<lambda>found.
       case found of
         Some u \<Rightarrow> if accept (wu_account u) then Inr (wu_account u) else wait_until env key accept ms
       | None \<Rightarrow> wait_until env key accept ms)"
| "wait_until env key accept (_ # ms) = wait_until env key accept ms"

section \<open>Numbers\<close>

text \<open>An unsigned number survives being printed as an integer, and \<open>u64::MAX\<close> being rounded to a float.\<close>

lemma deserialize_optional_integer: "deserialize_optional_u64 (Some (V_PosInt n)) = Inr (Some n)"
  by simp

lemma deserialize_max_as_float: "deserialize_u64_or_float (UF_Float (f64_of_u64 (- 1))) = Inr (- 1)"
proof -
  have "f64_round (of_int 34332275390625 * 2 powi 19) = 18 * 10 ^ 18"
    using f64_round_scale [of "of_int 34332275390625" 19] f64_round_int [of 34332275390625] by simp
  moreover have "f64_round (of_int 34332275390625 * 2 powi 19) \<le> f64_round (of_int (2 ^ 64 - 1))"
    by (rule f64_round_mono) simp_all
  moreover have "uint (- 1 :: u64) = 2 ^ 64 - 1" by code_simp
  then have "f64_of_u64 (- 1) = f64_round (of_int (2 ^ 64 - 1))" by (simp only: f64_of_u64_def f64_of_int_def)
  ultimately show ?thesis by (simp add: float_to_u64_def)
qed

section \<open>Endpoints that are given up\<close>

lemma no_healthy_endpoints:
  assumes "\<forall>e\<in>set (endpoints pool). health e = Unhealthy"
  shows "execute_with_failover env now read_only pool = (Inl NoHealthyEndpoints, pool)"
proof -
  have "available_endpoints read_only pool = []"
    using assms by (simp add: available_endpoints_def is_available_def Let_def filter_empty_conv)
  then show ?thesis by (simp add: execute_with_failover_def select_endpoints_def Let_def)
qed

text \<open>An answer comes from an endpoint of the right role, which has recorded it.\<close>

lemma failover_answered:
  assumes "execute_with_failover env now read_only pool = (Inr r, pool')"
  shows "\<exists>i\<in>set (available_endpoints read_only pool). \<exists>t l. endpoints pool' ! i = record_success t l (endpoints pool ! i)"
proof -
  obtain tried pool1 where sel: "select_endpoints read_only pool = (tried, pool1)" by fastforce
  have m: "mset tried = mset (available_endpoints read_only pool)" using select_endpoints_mset [of read_only pool] sel by simp
  have d: "distinct tried" using m available_distinct [of read_only pool] by (metis mset_eq_imp_distinct_iff)
  have e: "endpoints pool1 = endpoints pool" using select_endpoints_frame [of read_only pool] sel by simp
  have s: "set tried \<subseteq> {..<length (endpoints pool1)}" using m e by (metis available_iff lessThan_iff mset_eq_setD subsetI)
  have "try_endpoints env now tried NoHealthyEndpoints pool1 = (Inr r, pool')"
    using assms sel by (auto simp: execute_with_failover_def split: if_splits)
  from try_endpoints_Inr [OF this d s] obtain pre i post where "tried = pre @ i # post" "\<exists>t l. endpoints pool' ! i = record_success t l (endpoints pool ! i)"
    unfolding e by blast
  with m show ?thesis by (metis in_set_conv_decomp mset_eq_setD)
qed

text \<open>An error the node reports in its answer counts as a failure of the endpoint.\<close>

lemma rpc_error_is_failure:
  assumes "http_post env url now = Some (True, Some body)" and "parse_rpc_error env body = Some msg"
  shows "execute_request env url now = Inl (RpcErrorResponse msg)"
  using assms by (simp add: execute_request_def)

fun run_requests :: "('r rpc_env \<times> nat \<times> bool) list \<Rightarrow> RpcPool \<Rightarrow> RpcPool" where
  "run_requests [] pool = pool"
| "run_requests ((env, now, read_only) # rs) pool = run_requests rs (snd (execute_with_failover env now read_only pool))"

lemma single_endpoint_fails:
  assumes "endpoints pool = [e]" and "can_fetch e" and "can_submit e" and "is_available e"
    and "execute_request env (ec_url (ep_config e)) now = Inl err" and "err \<noteq> RpcPanic"
  shows "\<exists>t. endpoints (snd (execute_with_failover env now read_only pool)) = [record_failure t e]"
proof -
  have "fst (select_endpoints read_only pool) = [0]" "endpoints (snd (select_endpoints read_only pool)) = [e]"
    using assms select_endpoints_frame [of read_only pool]
    by (auto simp: select_endpoints_def available_endpoints_def Let_def split: LoadBalanceStrategy.split)
  then show ?thesis using assms(5,6)
    by (auto simp: execute_with_failover_def on_endpoint_def Let_def split: prod.split)
qed

lemma single_endpoint_failures:
  assumes "endpoints pool = [e]" and "can_fetch e" and "can_submit e" and "health e = health_after k" and "unat (consecutive_failures e) = k"
    and "k + length reqs \<le> 5"
    and "\<forall>(env, now, read_only)\<in>set reqs. \<exists>err. execute_request env (ec_url (ep_config e)) now = Inl err \<and> err \<noteq> RpcPanic"
  shows "\<exists>e'. endpoints (run_requests reqs pool) = [e'] \<and> health e' = health_after (k + length reqs)"
  using assms
proof (induction reqs arbitrary: pool e k)
  case (Cons r reqs)
  obtain env now read_only where r: "r = (env, now, read_only)" by (metis prod_cases3)
  have av: "is_available e" using Cons.prems(4,6) by (simp add: is_available_def health_after_def)
  obtain err where "execute_request env (ec_url (ep_config e)) now = Inl err" "err \<noteq> RpcPanic" using Cons.prems(7) r by auto
  from single_endpoint_fails [OF Cons.prems(1-3) av this] obtain t
    where t: "endpoints (snd (execute_with_failover env now read_only pool)) = [record_failure t e]" by blast
  have "unat (consecutive_failures e + 1) = k + 1" using Cons.prems(5,6) by (simp add: unat_word_ariths)
  then have h: "health (record_failure t e) = health_after (k + 1)" "unat (consecutive_failures (record_failure t e)) = k + 1"
    using Cons.prems(4)
    by (auto simp: record_failure_def maybe_downgrade_health_def health_after_def Let_def word_le_nat_alt split: if_splits)
  have roles: "can_fetch (record_failure t e)" "can_submit (record_failure t e)" using Cons.prems(2,3) by (simp_all add: can_fetch_def can_submit_def)
  from Cons.IH [OF t roles h] Cons.prems(6,7) r show ?case by auto
qed simp

section \<open>Confirmation\<close>

definition time_passes :: "(nat \<Rightarrow> nat) \<Rightarrow> bool" where
  "time_passes tm \<longleftrightarrow> (\<forall>i. tm i + 500 * 10 ^ 6 \<le> tm (i + 1))"

lemma time_passes_far: "time_passes tm \<Longrightarrow> tm 0 + i * (500 * 10 ^ 6) \<le> tm i"
proof (induction i)
  case (Suc i)
  then show ?case using order_trans [of "tm 0 + Suc i * (500 * 10 ^ 6)" "tm i + 500 * 10 ^ 6" "tm (Suc i)"]
    by (simp add: time_passes_def)
qed simp

text \<open>The node reports the signature as confirmed or finalised, without an error.\<close>

definition status_body :: "'tx net \<Rightarrow> bytes \<Rightarrow> json_value" where
  "status_body net signature = rpc_body ''getSignatureStatuses'' [V_Array [V_String (signature_to_string net signature)]]"

definition confirmed_at :: "'tx net \<Rightarrow> bytes \<Rightarrow> nat \<Rightarrow> RpcPool \<Rightarrow> bool" where
  "confirmed_at net signature now pool \<longleftrightarrow>
     (\<exists>status rest. fst (request net (parse_statuses net) (status_body net signature) now True pool) = Inr (Some (Some status # rest)) \<and>
        confirmation_status status \<in> {Some ''confirmed'', Some ''finalized''} \<and> ss_err status = None)"

lemma status_confirmed:
  assumes "get_signature_status net signature now pool = (Inr (Some (Inr ())), pool')"
  shows "confirmed_at net signature now pool"
proof -
  obtain result where r: "fst (request net (parse_statuses net) (status_body net signature) now True pool) = Inr result"
      "signature_status (case result of Some v \<Rightarrow> v | None \<Rightarrow> []) = Some (Inr ())"
    using assms by (auto simp: get_signature_status_def on_answer_def status_body_def res_simps)
  then show ?thesis
    by (auto simp: confirmed_at_def signature_status_def split: option.splits list.splits if_splits)
qed

lemma confirm_loop_ends:
  assumes "time_passes tm"
  shows "i \<le> 61 \<Longrightarrow> \<exists>answer pool'. confirm_loop net tm i signature pool = Some (answer, pool') \<and>
    (\<forall>s. answer = Inr s \<longrightarrow> s = signature \<and> (\<exists>j p. i \<le> j \<and> j \<le> 60 \<and> confirmed_at net signature (tm j) p))"
proof (induction "61 - i" arbitrary: i pool)
  case 0
  then have "30 * 10 ^ 9 < tm i - tm 0" using time_passes_far [OF assms, of i] by simp
  then show ?case by (subst confirm_loop.simps) simp
next
  case (Suc n)
  show ?case
  proof (cases "30 * 10 ^ 9 < tm i - tm 0")
    case True
    then show ?thesis by (subst confirm_loop.simps) simp
  next
    case False
    obtain r pool1 where g: "get_signature_status net signature (tm i) pool = (r, pool1)" by fastforce
    have i: "i \<le> 60" "n = 61 - (i + 1)" "i + 1 \<le> 61" using Suc.hyps(2) by linarith+
    consider e where "r = Inl e" | "r = Inr None" | "r = Inr (Some (Inr ()))" | code where "r = Inr (Some (Inl code))"
      by (cases r; cases "projr r"; cases "the (projr r)") auto
    then show ?thesis
    proof cases
      case 2
      have "confirm_loop net tm i signature pool = confirm_loop net tm (i + 1) signature pool1"
        using False g 2 by (subst confirm_loop.simps) simp
      with Suc.hyps(1) [OF i(2,3), of pool1] show ?thesis by (metis Suc_eq_plus1 Suc_leD)
    next
      case 3
      have "confirm_loop net tm i signature pool = Some (Inr signature, pool1)"
        using False g 3 by (subst confirm_loop.simps) simp
      moreover have "confirmed_at net signature (tm i) pool" using g 3 by (simp add: status_confirmed)
      ultimately show ?thesis using i(1) by auto
    qed (use False g in \<open>subst confirm_loop.simps, simp\<close>)+
  qed
qed

end
