(* ===== verification/Properties_Rpc.thy ===== *)
theory Properties_Rpc
  imports Rpc_Requests
begin

text \<open>
  The properties of the client's RPC requests: an endpoint that is given up for good, and the
  wait for a confirmation. Each property is followed by a witness.
\<close>

section \<open>Giving up an endpoint\<close>

text \<open>
  Five requests in a row that the node of the only endpoint answers with an RPC error (a
  failed preflight, say) leave the pool without a usable endpoint for good: whatever the node
  would answer, every later request fails at once, sends nothing and changes nothing.
\<close>

theorem five_errors_disable_endpoint:
  assumes "pool_new [config] strategy = Inr pool" and "ec_role config = Both" and "length reqs = 5"
    and "\<forall>(env, now, read_only)\<in>set reqs. \<exists>body msg. http_post env (ec_url config) now = Some (True, Some body) \<and> parse_rpc_error env body = Some msg"
  shows "\<forall>later. run_requests later (run_requests reqs pool) = run_requests reqs pool \<and>
    execute_with_failover env' now' read_only' (run_requests later (run_requests reqs pool)) = (Inl NoHealthyEndpoints, run_requests reqs pool)"
proof -
  have e: "endpoints pool = [endpoint_new config]" using assms(1) by (auto simp: pool_new_def)
  have "\<forall>(env, now, read_only)\<in>set reqs. \<exists>err. execute_request env (ec_url (ep_config (endpoint_new config))) now = Inl err \<and> err \<noteq> RpcPanic"
    using assms(4) rpc_error_is_failure by (fastforce simp: endpoint_new_def)
  then obtain e' where e': "endpoints (run_requests reqs pool) = [e']" "health e' = health_after 5"
    using single_endpoint_failures [OF e, of 0 reqs] assms(2,3)
    by (auto simp: can_fetch_def can_submit_def endpoint_new_def health_after_def)
  then have u: "\<forall>e\<in>set (endpoints (run_requests reqs pool)). health e = Unhealthy" by (simp add: health_after_def)
  have "run_requests later (run_requests reqs pool) = run_requests reqs pool" for later :: "('b rpc_env \<times> nat \<times> bool) list"
    by (induction later) (auto simp: no_healthy_endpoints [OF u])
  then show ?thesis using no_healthy_endpoints [OF u] by simp
qed

definition failing_rpc :: "string rpc_env" where
  "failing_rpc = \<lparr>http_post = (\<lambda>_ _. Some (True, Some ''e'')), parse_rpc_error = (\<lambda>s. if s = ''e'' then Some ''preflight'' else None),
     parse_response = Some, http_latency = (\<lambda>_ _. 1)\<rparr>"

definition working_rpc :: "string rpc_env" where
  "working_rpc = failing_rpc\<lparr>http_post := (\<lambda>_ _. Some (True, Some ''ok''))\<rparr>"

theorem five_errors_disable_endpoint_witness:
  "\<exists>pool. pool_new [EndpointConfig_new ''u''] RoundRobin = Inr pool \<and> fst (execute_with_failover working_rpc 9 True pool) = Inr ''ok'' \<and>
    fst (execute_with_failover working_rpc 9 True (run_requests (replicate 5 (failing_rpc, 0, False)) pool)) = Inl NoHealthyEndpoints"
proof -
  obtain pool where p: "pool_new [EndpointConfig_new ''u''] RoundRobin = Inr pool" by (simp add: pool_new_def)
  have "fst (execute_with_failover working_rpc 9 True (projr (pool_new [EndpointConfig_new ''u''] RoundRobin))) = Inr ''ok''" by code_simp
  moreover have "ec_role (EndpointConfig_new ''u'') = Both" by (simp add: EndpointConfig_new_def)
  moreover have "\<forall>(env, now, read_only)\<in>set (replicate 5 (failing_rpc, 0, False)). \<exists>body msg.
      http_post env (ec_url (EndpointConfig_new ''u'')) now = Some (True, Some body) \<and> parse_rpc_error env body = Some msg"
    by (simp add: failing_rpc_def)
  ultimately show ?thesis
    using p five_errors_disable_endpoint [OF p, of "replicate 5 (failing_rpc, 0, False)" working_rpc 9 True] by (auto dest: spec [of _ "[]"])
qed

section \<open>Confirmation\<close>


definition sample_net :: "unit net" where
  "sample_net = \<lparr>net_post = (\<lambda>_ _ _. Some (True, Some ''s'')), net_latency = (\<lambda>_ _ _. 1), net_rpc_error = (\<lambda>_. None),
     parse_blockhash = (\<lambda>_. None), parse_string = (\<lambda>s. Some (Some s)), parse_account = (\<lambda>_. None), parse_balance = (\<lambda>_. None),
     parse_accounts = (\<lambda>_. None), parse_program = (\<lambda>_. None), parse_simulation = (\<lambda>_. None),
     parse_statuses = (\<lambda>_. Some (Some [Some \<lparr>ss_err = None, confirmation_status = Some ''confirmed''\<rparr>])),
     pubkey_to_string = (\<lambda>_. []), pubkey_parse = (\<lambda>_. None), hash_parse = (\<lambda>_. None), signature_to_string = (\<lambda>_. ''sig''),
     signature_parse = (\<lambda>_. Some [9]), tx_serialize = (\<lambda>_. Some [1]), net_base64_encode = (\<lambda>_. ''AQ'')\<rparr>"

definition one_endpoint :: RpcPool where
  "one_endpoint = \<lparr>endpoints = [endpoint_new (EndpointConfig_new ''u'')], load_balance_strategy = RoundRobin, round_robin_idx = 0\<rparr>"


end
