(* ===== verification/Cli_Thread.thy ===== *)
theory Cli_Thread
  imports Cli_Text Rpc_Requests Thread_Instructions "HOL-Library.AList" "HOL-Library.List_Lexorder"
begin

text \<open>
  The thread commands of the command line tool (\<open>cli/antegen/src/commands/thread.rs\<close>): the
  grammar of triggers and signals on the command line, the registry of test threads and the
  commands that create, extend and delete them.

  The commands talk to a cluster through the RPC pool. The cluster is a state of any type
  behind the fields of \<open>cli_env\<close>: reading an account, the latest blockhash, and sending a
  transaction, which may change it. A transaction is the list of its instructions with the
  accounts and arguments the commands build (Anchor serialises them), its payer and its
  signers. What is printed is left out. The two hash maps are association lists; where the
  order in which a hash map is walked shows, it is a field of \<open>cli_env\<close>.
\<close>

section \<open>Triggers and signals on the command line\<close>

datatype cli_error =
    InvalidInterval | InvalidTimestamp | InvalidSlot | InvalidEpoch | InvalidAccount
  | UnknownTrigger | InvalidNextIndex | UnknownSignal | InvalidFiber string | InvalidTarget string
  | UnknownSignalType string | InvalidSignalFormat string
  | RegistryUnreadable | RegistryNotSaved | NotInRegistry string | InvalidRegistryPubkey
  | FetchFailed | AccountNotFound | DecodeFailed | DeserializeFailed | BlockhashFailed | SendFailed
  | UnknownTestType string | NothingToDelete | CliPanic

definition parse_trigger :: "(string \<Rightarrow> pubkey option) \<Rightarrow> string \<Rightarrow> cli_error + Trigger" where
  "parse_trigger from_str s =
     (if s = ''immediate'' then Inr (Immediate 0)
      else if starts_with s ''cron:'' then Inr (Cron (trim_start_matches s ''cron:'') True 0)
      else if starts_with s ''interval:'' then
        then_do (ok_or (parse_i64 (trim_start_matches s ''interval:'')) InvalidInterval) (\<lambda>seconds.
          Inr (Interval seconds True 0))
      else if starts_with s ''timestamp:'' then
        then_do (ok_or (parse_i64 (trim_start_matches s ''timestamp:'')) InvalidTimestamp) (\<lambda>unix_ts.
          Inr (Timestamp unix_ts 0))
      else if starts_with s ''slot:'' then
        then_do (ok_or (parse_u64 (trim_start_matches s ''slot:'')) InvalidSlot) (\<lambda>slot. Inr (Slot slot))
      else if starts_with s ''epoch:'' then
        then_do (ok_or (parse_u64 (trim_start_matches s ''epoch:'')) InvalidEpoch) (\<lambda>epoch. Inr (Epoch epoch))
      else if starts_with s ''account:'' then
        then_do (ok_or (from_str (trim_start_matches s ''account:'')) InvalidAccount) (\<lambda>address.
          Inr (Account address 0 100))
      else Inl UnknownTrigger)"

fun parse_single_fiber_signal :: "string option \<Rightarrow> cli_error + Signal option" where
  "parse_single_fiber_signal None = Inr None"
| "parse_single_fiber_signal (Some s) =
     (if s = ''none'' then Inr (Some Signal_None)
      else if s = ''repeat'' then Inr (Some Repeat)
      else if s = ''close'' then Inr (Some Close)
      else if s = ''chain'' then Inr (Some Chain)
      else if starts_with s ''next:'' then
        then_do (ok_or (parse_u8 (trim_start_matches s ''next:'')) InvalidNextIndex) (\<lambda>idx. Inr (Some (Next idx)))
      else Inl UnknownSignal)"

definition parse_signal_with_fiber :: "string \<Rightarrow> cli_error + u8 \<times> Signal" where
  "parse_signal_with_fiber s =
     (if s = ''repeat'' then Inr (0, Repeat)
      else if s = ''close'' then Inr (0, Close)
      else if s = ''none'' then Inr (0, Signal_None)
      else case split_on (CHR '':'') s of
        [fiber, kind] \<Rightarrow>
          then_do (ok_or (parse_u8 fiber) (InvalidFiber fiber)) (\<lambda>fiber_idx.
            if kind = ''chain'' then Inr (fiber_idx, Chain)
            else if kind = ''repeat'' then Inr (fiber_idx, Repeat)
            else if kind = ''close'' then Inr (fiber_idx, Close)
            else if kind = ''none'' then Inr (fiber_idx, Signal_None)
            else Inl (UnknownSignalType kind))
      | [fiber, kind, to] \<Rightarrow>
          if kind = ''next'' then
            then_do (ok_or (parse_u8 fiber) (InvalidFiber fiber)) (\<lambda>fiber_idx.
            then_do (ok_or (parse_u8 to) (InvalidTarget to)) (\<lambda>target. Inr (fiber_idx, Next target)))
          else Inl (InvalidSignalFormat s)
      | _ \<Rightarrow> Inl (InvalidSignalFormat s))"

fun join_strings :: "string \<Rightarrow> string list \<Rightarrow> string" where
  "join_strings sep [] = []"
| "join_strings sep [s] = s"
| "join_strings sep (s # rest) = s @ sep @ join_strings sep rest"

type_synonym FiberSignalConfig = "(u8 \<times> Signal) list"

fun insert_signals :: "FiberSignalConfig \<Rightarrow> string list \<Rightarrow> cli_error + FiberSignalConfig" where
  "insert_signals config [] = Inr config"
| "insert_signals config (s # rest) =
     then_do (parse_signal_with_fiber s) (\<lambda>(fiber_idx, signal). insert_signals (AList.update fiber_idx signal config) rest)"

definition parse_fiber_signals :: "string list \<Rightarrow> cli_error + FiberSignalConfig" where
  "parse_fiber_signals signals = insert_signals [] signals"

text \<open>The largest index a signal speaks of; the walk over the hash map.\<close>

fun signal_target :: "u8 \<times> Signal \<Rightarrow> u8" where
  "signal_target (fiber_idx, Next index) = max fiber_idx index"
| "signal_target (fiber_idx, _) = fiber_idx"

definition max_index :: "FiberSignalConfig \<Rightarrow> u8" where
  "max_index config = fold (\<lambda>e max_idx. max max_idx (signal_target e)) config 0"

definition implied_fiber_count :: "FiberSignalConfig \<Rightarrow> cli_error + u8" where
  "implied_fiber_count config = (if config = [] then Inr 1 else ok_or (checked_add (max_index config) 1) CliPanic)"

section \<open>The registry of test threads\<close>

record TestThreadEntry =
  te_pubkey :: string
  te_trigger :: string
  te_signal :: "string option"
  te_fibers :: u8
  te_created_at :: string

record TestThreadRegistry =
  next_id :: u32
  threads :: "(string \<times> TestThreadEntry) list"

definition TestThreadRegistry_default :: TestThreadRegistry where
  "TestThreadRegistry_default = \<lparr>next_id = 0, threads = []\<rparr>"

definition test_thread_name :: "nat \<Rightarrow> string" where "test_thread_name n = ''test-'' @ show_nat n"

definition next_thread_id :: "TestThreadRegistry \<Rightarrow> cli_error + string \<times> TestThreadRegistry" where
  "next_thread_id r =
     then_do (ok_or (checked_add (next_id r) 1) CliPanic) (\<lambda>n.
       Inr (test_thread_name (unat n), r\<lparr>next_id := n\<rparr>))"

definition add_thread :: "string \<Rightarrow> TestThreadEntry \<Rightarrow> TestThreadRegistry \<Rightarrow> TestThreadRegistry" where
  "add_thread thread_id entry r = r\<lparr>threads := AList.update thread_id entry (threads r)\<rparr>"

definition remove_test_thread :: "string \<Rightarrow> TestThreadRegistry \<Rightarrow> TestThreadRegistry" where
  "remove_test_thread thread_id r = r\<lparr>threads := AList.delete thread_id (threads r)\<rparr>"

definition get_thread :: "string \<Rightarrow> TestThreadRegistry \<Rightarrow> TestThreadEntry option" where
  "get_thread thread_id r = map_of (threads r) thread_id"

definition reset_if_empty :: "TestThreadRegistry \<Rightarrow> TestThreadRegistry" where
  "reset_if_empty r = (if threads r = [] then r\<lparr>next_id := 0\<rparr> else r)"

text \<open>The registry file: absent, unreadable (or not YAML of this shape), or a registry.\<close>

datatype registry_file = NoFile | Unreadable | Stored TestThreadRegistry

fun load :: "registry_file \<Rightarrow> cli_error + TestThreadRegistry" where
  "load NoFile = Inr TestThreadRegistry_default"
| "load Unreadable = Inl RegistryUnreadable"
| "load (Stored r) = Inr r"

section \<open>Instructions the commands build\<close>

text \<open>The accounts in the order of the \<open>Accounts\<close> structs, then the arguments.\<close>

datatype cli_instruction =
    CreateThread create_accounts u64 ThreadId Trigger "bool option" "SerializableInstruction option" "u64 option" "pubkey list"
  | CreateFiber pubkey pubkey pubkey u8 SerializableInstruction u64 "pubkey list"
  | CloseThread pubkey pubkey pubkey bool "pubkey list"
  | CloseFiber pubkey pubkey pubkey u8

record cli_transaction =
  ct_payer :: pubkey
  ct_signers :: "pubkey list"
  ct_instructions :: "cli_instruction list"

text \<open>
  \<open>memo_data\<close> is Anchor's serialisation of the memo instruction; \<open>ce_key_order\<close> the order in
  which the registry's map is walked; \<open>ce_saves\<close> whether the registry file can be written.
\<close>

record 'w cli_env =
  ce_fenv :: fiber_env
  from_str :: "string \<Rightarrow> pubkey option"
  to_str :: "pubkey \<Rightarrow> string"
  string_bytes :: "string \<Rightarrow> bytes"
  memo_data :: "string \<Rightarrow> Signal option \<Rightarrow> bytes"
  fetch_account :: "pubkey \<Rightarrow> 'w \<Rightarrow> (unit + SafeUiAccount option)"
  decode_ui :: "SafeUiAccount \<Rightarrow> bytes option"
  deserialize_thread :: "bytes \<Rightarrow> Thread option"
  blockhash :: "'w \<Rightarrow> bytes option"
  send_and_confirm :: "cli_transaction \<Rightarrow> 'w \<Rightarrow> bool \<times> 'w"
  ce_key_order :: "string list \<Rightarrow> string list"
  ce_now :: string
  ce_saves :: bool

definition derive_thread_pda :: "'w cli_env \<Rightarrow> pubkey \<Rightarrow> string \<Rightarrow> pubkey" where
  "derive_thread_pda env authority thread_id =
     fst (find_program_address (ce_fenv env) [SEED_THREAD, authority, string_bytes env thread_id] THREAD_PROGRAM_ID)"

definition build_thread_memo_instruction :: "'w cli_env \<Rightarrow> pubkey \<Rightarrow> string \<Rightarrow> Signal option \<Rightarrow> Instruction" where
  "build_thread_memo_instruction env thread_key memo signal =
     \<lparr>program_id = THREAD_PROGRAM_ID,
      ix_accounts = [\<lparr>am_pubkey = thread_key, is_signer = True, is_writable = False\<rparr>],
      ix_data = memo_data env memo signal\<rparr>"

definition build_fiber_create_instruction :: "'w cli_env \<Rightarrow> pubkey \<Rightarrow> pubkey \<Rightarrow> u8 \<Rightarrow> Signal option \<Rightarrow> cli_instruction" where
  "build_fiber_create_instruction env authority thread_key fiber_index signal =
     CreateFiber authority thread_key (fiber_pubkey (ce_fenv env) thread_key fiber_index) fiber_index
       (serializable_from (build_thread_memo_instruction env thread_key
          (''Fiber '' @ show_nat (unat fiber_index) @ '' executed'') signal)) 0 []"

text \<open>
  The thread creation all three creating commands send: no nonce and no fiber account, a tenth
  of a SOL, and a memo as the first fiber's instruction.
\<close>

definition create_thread_instruction :: "'w cli_env \<Rightarrow> pubkey \<Rightarrow> pubkey \<Rightarrow> string \<Rightarrow> Trigger \<Rightarrow> string \<Rightarrow> Signal option \<Rightarrow> cli_instruction" where
  "create_thread_instruction env payer authority thread_id trigger memo signal =
     (let thread_key = derive_thread_pda env authority thread_id in
      CreateThread
        \<lparr>ca_authority = authority, ca_payer = payer, ca_thread = thread_key, ca_nonce_account = None,
         ca_recent_blockhashes = None, ca_rent = None, ca_fiber = None, ca_fiber_program = False\<rparr>
        100000000 (Id_Bytes (string_bytes env thread_id)) trigger None
        (Some (serializable_from (build_thread_memo_instruction env thread_key memo signal))) (Some 0) [])"

section \<open>Commands\<close>

text \<open>A transaction: the blockhash is fetched first; the error of either step ends the command.\<close>

definition send_tx :: "'w cli_env \<Rightarrow> pubkey \<Rightarrow> pubkey \<Rightarrow> cli_instruction list \<Rightarrow> 'w \<Rightarrow> (cli_error + unit) \<times> 'w" where
  "send_tx env payer authority ixs w =
     (case blockhash env w of
        None \<Rightarrow> (Inl BlockhashFailed, w)
      | Some _ \<Rightarrow>
          (case send_and_confirm env \<lparr>ct_payer = payer, ct_signers = [payer, authority], ct_instructions = ixs\<rparr> w of
             (True, w') \<Rightarrow> (Inr (), w')
           | (False, w') \<Rightarrow> (Inl SendFailed, w')))"

definition fetch_test_thread :: "'w cli_env \<Rightarrow> pubkey \<Rightarrow> 'w \<Rightarrow> cli_error + Thread" where
  "fetch_test_thread env key w =
     then_do (case fetch_account env key w of Inl _ \<Rightarrow> Inl FetchFailed | Inr r \<Rightarrow> Inr r) (\<lambda>found.
     then_do (ok_or found AccountNotFound) (\<lambda>account.
     then_do (ok_or (decode_ui env account) DecodeFailed) (\<lambda>data.
       ok_or (deserialize_thread env data) DeserializeFailed)))"

definition create_additional_fiber :: "'w cli_env \<Rightarrow> pubkey \<Rightarrow> pubkey \<Rightarrow> pubkey \<Rightarrow> u8 \<Rightarrow> Signal option \<Rightarrow> 'w \<Rightarrow> (cli_error + unit) \<times> 'w" where
  "create_additional_fiber env payer authority thread_key fiber_index signal w =
     send_tx env payer authority [build_fiber_create_instruction env authority thread_key fiber_index signal] w"

definition create_test_thread :: "'w cli_env \<Rightarrow> pubkey \<Rightarrow> pubkey \<Rightarrow> string \<Rightarrow> string \<Rightarrow> FiberSignalConfig \<Rightarrow> u8 \<Rightarrow> 'w \<Rightarrow> (cli_error + unit) \<times> 'w" where
  "create_test_thread env payer authority thread_id trigger_str signal_config fiber_count w =
     (case parse_trigger (from_str env) trigger_str of
        Inl e \<Rightarrow> (Inl e, w)
      | Inr trigger \<Rightarrow>
          send_tx env payer authority
            (create_thread_instruction env payer authority thread_id trigger
               (''Test thread '' @ [CHR 0x27] @ thread_id @ [CHR 0x27] @ '' fiber 0 executed'') (map_of signal_config 0) #
             map (\<lambda>i. build_fiber_create_instruction env authority (derive_thread_pda env authority thread_id) (of_nat i)
                        (map_of signal_config (of_nat i))) [1..<unat fiber_count]) w)"

definition delete_test_thread :: "'w cli_env \<Rightarrow> pubkey \<Rightarrow> pubkey \<Rightarrow> pubkey \<Rightarrow> 'w \<Rightarrow> (cli_error + unit) \<times> 'w" where
  "delete_test_thread env payer authority thread_key w =
     (case fetch_test_thread env thread_key w of
        Inl e \<Rightarrow> (Inl e, w)
      | Inr thread \<Rightarrow>
          send_tx env payer authority
            [CloseThread authority payer thread_key (th_fiber_ids thread \<noteq> [])
               (map (fiber_pubkey (ce_fenv env) thread_key) (th_fiber_ids thread))] w)"

definition TEST_THREAD_RECURRING_ID :: string where "TEST_THREAD_RECURRING_ID = ''antegen-test-recurring''"
definition TEST_THREAD_WATCHER_ID :: string where "TEST_THREAD_WATCHER_ID = ''antegen-test-watcher''"
definition TEST_THREAD_CHAIN_ID :: string where "TEST_THREAD_CHAIN_ID = ''antegen-test-chain''"

definition create_account_trigger_test :: "'w cli_env \<Rightarrow> pubkey \<Rightarrow> pubkey \<Rightarrow> 'w \<Rightarrow> (cli_error + unit) \<times> 'w" where
  "create_account_trigger_test env payer authority w =
     and_then
       (send_tx env payer authority
          [create_thread_instruction env payer authority TEST_THREAD_RECURRING_ID (Interval 30 True 0) ''Recurring update'' None] w)
       (\<lambda>_. send_tx env payer authority
          [create_thread_instruction env payer authority TEST_THREAD_WATCHER_ID
             (Account (derive_thread_pda env authority TEST_THREAD_RECURRING_ID) 0 100) ''Detected change in Thread A!'' None])"

definition create_chain_test :: "'w cli_env \<Rightarrow> pubkey \<Rightarrow> pubkey \<Rightarrow> 'w \<Rightarrow> (cli_error + unit) \<times> 'w" where
  "create_chain_test env payer authority w =
     (let thread_key = derive_thread_pda env authority TEST_THREAD_CHAIN_ID in
      and_then
       (send_tx env payer authority
          [create_thread_instruction env payer authority TEST_THREAD_CHAIN_ID (Interval 30 True 0)
             ''Fiber 0 executed - chaining to next fiber'' (Some Chain)] w)
       (\<lambda>_ w. and_then (create_additional_fiber env payer authority thread_key 1 (Some Chain) w)
       (\<lambda>_. create_additional_fiber env payer authority thread_key 2 None)))"

text \<open>Deleting the fixed test threads: an absent account is \<open>Ok(None)\<close>, which the match takes for a thread.\<close>

definition delete_account_trigger_test :: "'w cli_env \<Rightarrow> pubkey \<Rightarrow> pubkey \<Rightarrow> 'w \<Rightarrow> (cli_error + unit) \<times> 'w" where
  "delete_account_trigger_test env payer authority w =
     (Inr (), fold (\<lambda>thread_id w.
        let key = derive_thread_pda env authority thread_id in
        case fetch_account env key w of
          Inr _ \<Rightarrow> snd (delete_test_thread env payer authority key w)
        | Inl _ \<Rightarrow> w) [TEST_THREAD_RECURRING_ID, TEST_THREAD_WATCHER_ID] w)"

definition delete_chain_test :: "'w cli_env \<Rightarrow> pubkey \<Rightarrow> pubkey \<Rightarrow> 'w \<Rightarrow> (cli_error + unit) \<times> 'w" where
  "delete_chain_test env payer authority w =
     (let key = derive_thread_pda env authority TEST_THREAD_CHAIN_ID in
      case fetch_account env key w of
        Inr _ \<Rightarrow> delete_test_thread env payer authority key w
      | Inl _ \<Rightarrow> (Inr (), w))"

section \<open>Commands on the registry\<close>

definition registered :: "'w cli_env \<Rightarrow> registry_file \<Rightarrow> string \<Rightarrow> cli_error + pubkey" where
  "registered env file thread_id =
     then_do (load file) (\<lambda>registry.
     then_do (ok_or (get_thread thread_id registry) (NotInRegistry thread_id)) (\<lambda>entry.
       ok_or (from_str env (te_pubkey entry)) InvalidRegistryPubkey))"

text \<open>A command's outcome, the registry file and the cluster after it.\<close>

type_synonym 'w outcome = "(cli_error + unit) \<times> registry_file \<times> 'w"

definition save :: "'w cli_env \<Rightarrow> TestThreadRegistry \<Rightarrow> registry_file \<Rightarrow> 'w \<Rightarrow> 'w outcome" where
  "save env registry file w = (if ce_saves env then (Inr (), Stored registry, w) else (Inl RegistryNotSaved, file, w))"

text \<open>A command that leaves the registry file alone.\<close>

definition on_cluster :: "registry_file \<Rightarrow> (cli_error + unit) \<times> 'w \<Rightarrow> 'w outcome" where
  "on_cluster file r = (fst r, file, snd r)"

definition list_test_threads :: "registry_file \<Rightarrow> cli_error + (string \<times> TestThreadEntry) list" where
  "list_test_threads file = then_do (load file) (\<lambda>registry. Inr (sort_key (\<lambda>e. map (of_char :: char \<Rightarrow> nat) (fst e)) (threads registry)))"

definition delete_thread_by_id :: "'w cli_env \<Rightarrow> pubkey \<Rightarrow> pubkey \<Rightarrow> string \<Rightarrow> registry_file \<Rightarrow> 'w \<Rightarrow> 'w outcome" where
  "delete_thread_by_id env payer authority thread_id file w =
     (case then_do (load file) (\<lambda>registry. then_do (registered env file thread_id) (\<lambda>key. Inr (registry, key))) of
        Inl e \<Rightarrow> (Inl e, file, w)
      | Inr (registry, key) \<Rightarrow>
          (case delete_test_thread env payer authority key w of
             (Inl e, w') \<Rightarrow> (Inl e, file, w')
           | (Inr _, w') \<Rightarrow> save env (reset_if_empty (remove_test_thread thread_id registry)) file w'))"

text \<open>The loop of \<open>--all\<close>: a failed deletion is printed, and the entry goes all the same.\<close>

fun delete_each :: "'w cli_env \<Rightarrow> pubkey \<Rightarrow> pubkey \<Rightarrow> string list \<Rightarrow> TestThreadRegistry \<Rightarrow> 'w \<Rightarrow> TestThreadRegistry \<times> 'w" where
  "delete_each env payer authority [] registry w = (registry, w)"
| "delete_each env payer authority (thread_id # rest) registry w =
     delete_each env payer authority rest (remove_test_thread thread_id registry)
       (case get_thread thread_id registry of
          None \<Rightarrow> w
        | Some entry \<Rightarrow>
            (case from_str env (te_pubkey entry) of
               None \<Rightarrow> w
             | Some key \<Rightarrow> snd (delete_test_thread env payer authority key w)))"

definition delete_all_registered_threads :: "'w cli_env \<Rightarrow> pubkey \<Rightarrow> pubkey \<Rightarrow> registry_file \<Rightarrow> 'w \<Rightarrow> 'w outcome" where
  "delete_all_registered_threads env payer authority file w =
     (case load file of
        Inl e \<Rightarrow> (Inl e, file, w)
      | Inr registry \<Rightarrow>
          if threads registry = [] then (Inr (), file, w)
          else
            (case delete_each env payer authority (ce_key_order env (map fst (threads registry))) registry w of
               (registry', w') \<Rightarrow> save env (reset_if_empty registry') file w'))"

definition test_fiber_add :: "'w cli_env \<Rightarrow> pubkey \<Rightarrow> pubkey \<Rightarrow> string \<Rightarrow> string option \<Rightarrow> registry_file \<Rightarrow> 'w \<Rightarrow> (cli_error + unit) \<times> 'w" where
  "test_fiber_add env payer authority thread_id signal_str file w =
     (case then_do (registered env file thread_id) (\<lambda>key.
           then_do (fetch_test_thread env key w) (\<lambda>thread.
           then_do (parse_single_fiber_signal signal_str) (\<lambda>signal. Inr (key, th_fiber_next_id thread, signal)))) of
        Inl e \<Rightarrow> (Inl e, w)
      | Inr (key, fiber_index, signal) \<Rightarrow> create_additional_fiber env payer authority key fiber_index signal w)"

definition test_fiber_list :: "'w cli_env \<Rightarrow> string \<Rightarrow> registry_file \<Rightarrow> 'w \<Rightarrow> cli_error + (u8 \<times> pubkey \<times> nat option) list" where
  "test_fiber_list env thread_id file w =
     then_do (registered env file thread_id) (\<lambda>key.
     then_do (fetch_test_thread env key w) (\<lambda>thread.
       Inr (map (\<lambda>fiber_id.
         let fiber_key = fiber_pubkey (ce_fenv env) key fiber_id in
         (fiber_id, fiber_key,
          case fetch_account env fiber_key w of
            Inr (Some account) \<Rightarrow> Some (case decode_ui env account of Some d \<Rightarrow> length d | None \<Rightarrow> 0)
          | _ \<Rightarrow> None)) (th_fiber_ids thread))))"

definition test_fiber_delete :: "'w cli_env \<Rightarrow> pubkey \<Rightarrow> pubkey \<Rightarrow> string \<Rightarrow> u8 \<Rightarrow> registry_file \<Rightarrow> 'w \<Rightarrow> (cli_error + unit) \<times> 'w" where
  "test_fiber_delete env payer authority thread_id fiber_index file w =
     (case registered env file thread_id of
        Inl e \<Rightarrow> (Inl e, w)
      | Inr key \<Rightarrow>
          send_tx env payer authority [CloseFiber authority key (fiber_pubkey (ce_fenv env) key fiber_index) fiber_index] w)"

text \<open>
  The dispatcher, after the payer's key, the test authority's key and the RPC client are set up.
  Creating: the name is taken from the registry, the signals are parsed, the transaction is sent
  and only then the registry is saved.
\<close>

datatype TestCommands =
    TC_Create string "string list" "u8 option" "string option"
  | TC_List
  | TC_Delete "string option" bool "string option"
  | TC_Fiber_Add string "string option"
  | TC_Fiber_List string
  | TC_Fiber_Delete string u8

definition create_command :: "'w cli_env \<Rightarrow> pubkey \<Rightarrow> pubkey \<Rightarrow> string \<Rightarrow> string list \<Rightarrow> u8 option \<Rightarrow> registry_file \<Rightarrow> 'w \<Rightarrow> 'w outcome" where
  "create_command env payer authority trigger_str signals fibers_override file w =
     (case then_do (load file) (\<lambda>registry.
           then_do (next_thread_id registry) (\<lambda>(thread_id, registry).
           then_do (parse_fiber_signals signals) (\<lambda>signal_config.
           then_do (case fibers_override of Some n \<Rightarrow> Inr n | None \<Rightarrow> implied_fiber_count signal_config) (\<lambda>fiber_count.
             Inr (thread_id, registry, signal_config, fiber_count))))) of
        Inl e \<Rightarrow> (Inl e, file, w)
      | Inr (thread_id, registry, signal_config, fiber_count) \<Rightarrow>
          (case create_test_thread env payer authority thread_id trigger_str signal_config fiber_count w of
             (Inl e, w') \<Rightarrow> (Inl e, file, w')
           | (Inr _, w') \<Rightarrow>
               save env (add_thread thread_id
                 \<lparr>te_pubkey = to_str env (derive_thread_pda env authority thread_id), te_trigger = trigger_str,
                  te_signal = (if signals = [] then None else Some (join_strings '', '' signals)),
                  te_fibers = fiber_count, te_created_at = ce_now env\<rparr> registry) file w'))"

definition outcome_of :: "cli_error + 'a \<Rightarrow> registry_file \<Rightarrow> 'w \<Rightarrow> 'w outcome" where
  "outcome_of r file w = (map_sum id (\<lambda>_. ()) r, file, w)"

definition test :: "'w cli_env \<Rightarrow> pubkey \<Rightarrow> pubkey \<Rightarrow> TestCommands \<Rightarrow> registry_file \<Rightarrow> 'w \<Rightarrow> 'w outcome" where
  "test env payer authority cmd file w =
     (case cmd of
        TC_List \<Rightarrow> outcome_of (list_test_threads file) file w
      | TC_Create trigger_str signals fiber_override (Some tt) \<Rightarrow>
          if tt = ''account'' then on_cluster file (create_account_trigger_test env payer authority w)
          else if tt = ''chain'' then on_cluster file (create_chain_test env payer authority w)
          else (Inl (UnknownTestType tt), file, w)
      | TC_Create trigger_str signals fiber_override None \<Rightarrow> create_command env payer authority trigger_str signals fiber_override file w
      | TC_Delete thread_id everything (Some tt) \<Rightarrow>
          if tt = ''account'' then on_cluster file (delete_account_trigger_test env payer authority w)
          else if tt = ''chain'' then on_cluster file (delete_chain_test env payer authority w)
          else (Inl (UnknownTestType tt), file, w)
      | TC_Delete thread_id everything None \<Rightarrow>
          if everything then delete_all_registered_threads env payer authority file w
          else (case thread_id of
                  Some i \<Rightarrow> delete_thread_by_id env payer authority i file w
                | None \<Rightarrow> outcome_of (then_do (list_test_threads file) (\<lambda>_. Inl NothingToDelete :: cli_error + unit)) file w)
      | TC_Fiber_Add thread_id signal \<Rightarrow> on_cluster file (test_fiber_add env payer authority thread_id signal file w)
      | TC_Fiber_List thread_id \<Rightarrow> outcome_of (test_fiber_list env thread_id file w) file w
      | TC_Fiber_Delete thread_id index \<Rightarrow> on_cluster file (test_fiber_delete env payer authority thread_id index file w))"

section \<open>The commands against the thread program\<close>

text \<open>
  What the thread program does with an instruction of the commands, given the copy of the thread
  Anchor hands over and the account store.
\<close>

definition process_cli :: "thread_env \<Rightarrow> Clock \<Rightarrow> pubkey list \<Rightarrow> Thread \<Rightarrow> bank \<Rightarrow> cli_instruction \<Rightarrow> error + bank" where
  "process_cli env clock signers th b ix =
     (case ix of
        CreateThread ca amount thread_id trigger paused instruction priority_fee lookup_tables \<Rightarrow>
          map_sum id snd (thread_create env signers ca clock amount thread_id trigger paused instruction priority_fee lookup_tables th b)
      | CreateFiber authority key fiber fiber_index instruction priority_fee lookup_tables \<Rightarrow>
          map_sum id snd (fiber_create env signers authority key fiber fiber_index instruction priority_fee lookup_tables th b)
      | CloseThread authority close_to key fiber_program remaining_accounts \<Rightarrow>
          thread_close env signers authority close_to key fiber_program remaining_accounts th b
      | CloseFiber authority key fiber fiber_index \<Rightarrow>
          map_sum id snd (fiber_close env signers authority key fiber fiber_index th b))"

end
