(* ===== verification/Properties_Cli.thy ===== *)
theory Properties_Cli
  imports Cli_Thread Properties_Thread
begin

text \<open>
  The command line tool's thread commands: the grammar of triggers and signals read back what
  is written, the number of fibers the signals imply, the names of the registry, and what the
  thread program does with the transactions the commands send.
\<close>

section \<open>The grammar of triggers and signals\<close>

lemma trim_start_matches_append [simp]: "pat \<noteq> [] \<Longrightarrow> trim_start_matches (pat @ s) pat = trim_start_matches s pat"
  by (subst trim_start_matches.simps) (simp add: starts_with_def)

lemma trim_start_matches_id: "\<not> starts_with s pat \<Longrightarrow> trim_start_matches s pat = s"
  by (subst trim_start_matches.simps) simp

lemma starts_with_self: "starts_with (pat @ s) pat"
  by (simp add: starts_with_def)

lemma starts_with_mem: "starts_with s pat \<Longrightarrow> c \<in> set pat \<Longrightarrow> c \<in> set s"
  by (metis in_set_takeD starts_with_def)

text \<open>A number, as the commands' users write it.\<close>

definition show_int :: "int \<Rightarrow> string" where
  "show_int i = (if i < 0 then CHR ''-'' # show_nat (nat (- i)) else show_nat (nat i))"

lemma parse_number_show: "parse_number (show_nat n) = Some n"
  by (simp add: parse_number_def parse_digits_show)

lemma parse_u8_show: "parse_u8 (show_nat (unat (w :: u8))) = Some w"
  using parse_unsigned_show [of "unat w" 8] unsigned_less [of w, where 'a = nat] by (simp add: parse_u8_def)

lemma parse_u64_show: "parse_u64 (show_nat (unat (w :: u64))) = Some w"
  using parse_unsigned_show [of "unat w" 64] unsigned_less [of w, where 'a = nat] by (simp add: parse_u64_def)

lemma parse_i64_show: "in_i64 i \<Longrightarrow> parse_i64 (show_int i) = Some i"
proof (cases "i < 0")
  case True
  assume "in_i64 i"
  then show ?thesis using True by (simp add: parse_i64_def show_int_def parse_number_show i64_checked_def)
next
  case False
  assume i: "in_i64 i"
  obtain c cs where s: "show_nat (nat i) = c # cs" by (cases "show_nat (nat i)") auto
  then have "c \<noteq> CHR ''+'' \<and> c \<noteq> CHR ''-''" using show_nat_no_sign [of c "nat i"] by auto
  then show ?thesis using False i s parse_number_show [of "nat i"]
    by (simp add: parse_i64_def show_int_def i64_checked_def)
qed

lemma show_nat_no_colon: "CHR '':'' \<notin> set (show_nat n)"
  using show_nat_no_sign [of "CHR '':''" n] by auto

lemma show_int_no_colon: "CHR '':'' \<notin> set (show_int i)"
  using show_nat_no_colon by (auto simp: show_int_def)

text \<open>How a trigger is written; only these can be.\<close>

fun trigger_text :: "(pubkey \<Rightarrow> string) \<Rightarrow> Trigger \<Rightarrow> string" where
  "trigger_text print_key (Account address _ _) = ''account:'' @ print_key address"
| "trigger_text print_key (Immediate _) = ''immediate''"
| "trigger_text print_key (Timestamp unix_ts _) = ''timestamp:'' @ show_int unix_ts"
| "trigger_text print_key (Interval seconds _ _) = ''interval:'' @ show_int seconds"
| "trigger_text print_key (Cron schedule _ _) = ''cron:'' @ schedule"
| "trigger_text print_key (Slot slot) = ''slot:'' @ show_nat (unat slot)"
| "trigger_text print_key (Epoch epoch) = ''epoch:'' @ show_nat (unat epoch)"

fun cli_trigger :: "Trigger \<Rightarrow> bool" where
  "cli_trigger (Account _ offset len) \<longleftrightarrow> offset = 0 \<and> len = 100"
| "cli_trigger (Immediate jitter) \<longleftrightarrow> jitter = 0"
| "cli_trigger (Timestamp unix_ts jitter) \<longleftrightarrow> in_i64 unix_ts \<and> jitter = 0"
| "cli_trigger (Interval seconds skippable jitter) \<longleftrightarrow> in_i64 seconds \<and> skippable \<and> jitter = 0"
| "cli_trigger (Cron schedule skippable jitter) \<longleftrightarrow> \<not> starts_with schedule ''cron:'' \<and> skippable \<and> jitter = 0"
| "cli_trigger (Slot _) \<longleftrightarrow> True"
| "cli_trigger (Epoch _) \<longleftrightarrow> True"

lemma trim_tail: "CHR '':'' \<notin> set s \<Longrightarrow> CHR '':'' \<in> set pat \<Longrightarrow> trim_start_matches (pat @ s) pat = s"
proof -
  assume s: "CHR '':'' \<notin> set s" and pat: "CHR '':'' \<in> set pat"
  have "\<not> starts_with s pat" using starts_with_mem s pat by blast
  moreover have "pat \<noteq> []" using pat by auto
  ultimately show ?thesis by (simp add: trim_start_matches_id)
qed

lemma starts_with_Cons [simp]:
  "starts_with s []" "starts_with (c # s) (d # pat) \<longleftrightarrow> c = d \<and> starts_with s pat" "\<not> starts_with [] (d # pat)"
  by (auto simp: starts_with_def)

text \<open>How a signal of a fiber is written.\<close>

fun signal_text :: "u8 \<Rightarrow> Signal \<Rightarrow> string" where
  "signal_text f Chain = show_nat (unat f) @ '':chain''"
| "signal_text f Repeat = show_nat (unat f) @ '':repeat''"
| "signal_text f Close = show_nat (unat f) @ '':close''"
| "signal_text f Signal_None = show_nat (unat f) @ '':none''"
| "signal_text f (Next t) = show_nat (unat f) @ '':next:'' @ show_nat (unat t)"
| "signal_text f (Update _ _ _) = []"

fun cli_signal :: "Signal \<Rightarrow> bool" where
  "cli_signal (Update _ _ _) \<longleftrightarrow> False"
| "cli_signal _ \<longleftrightarrow> True"

lemma split_colon: "split_on (CHR '':'') (show_nat n @ CHR '':'' # t) = show_nat n # split_on (CHR '':'') t"
  by (simp add: split_on_append show_nat_no_colon)

lemma show_nat_neq: "CHR '':'' \<notin> set u \<Longrightarrow> show_nat n @ CHR '':'' # t \<noteq> u"
  by auto

lemma signal_with_colon:
  "parse_signal_with_fiber (show_nat n @ CHR '':'' # t) =
     (case show_nat n # split_on (CHR '':'') t of
        [fiber, kind] \<Rightarrow>
          then_do (ok_or (parse_u8 fiber) (InvalidFiber fiber)) (\<lambda>fiber_idx.
            if kind = ''chain'' then Inr (fiber_idx, Chain)
            else if kind = ''repeat'' then Inr (fiber_idx, Repeat)
            else if kind = ''close'' then Inr (fiber_idx, Close)
            else if kind = ''none'' then Inr (fiber_idx, Signal_None)
            else Inl (UnknownSignalType kind))
      | [fiber, kind, to] \<Rightarrow>
          if kind = ''next'' then
            then_do (ok_or (parse_u8 fiber) (InvalidFiber fiber)) (\<lambda>fiber_idx.
            then_do (ok_or (parse_u8 to) (InvalidTarget to)) (\<lambda>target. Inr (fiber_idx, Next target)))
          else Inl (InvalidSignalFormat (show_nat n @ CHR '':'' # t))
      | _ \<Rightarrow> Inl (InvalidSignalFormat (show_nat n @ CHR '':'' # t)))"
proof -
  have "show_nat n @ CHR '':'' # t \<noteq> ''repeat''" "show_nat n @ CHR '':'' # t \<noteq> ''close''"
    "show_nat n @ CHR '':'' # t \<noteq> ''none''" by (rule show_nat_neq, simp)+
  then show ?thesis by (simp only: parse_signal_with_fiber_def split_colon if_False)
qed

lemma trigger_grammar:
  assumes "\<And>k offset len. t = Account k offset len \<Longrightarrow> read_key (print_key k) = Some k \<and> CHR '':'' \<notin> set (print_key k)"
    and "cli_trigger t"
  shows "parse_trigger read_key (trigger_text print_key t) = Inr t"
proof (cases t)
  case (Account k offset len)
  then show ?thesis using assms trim_tail [of "print_key k" "''account:''"]
    by (simp add: parse_trigger_def ok_or_def then_do_def)
next
  case (Timestamp u j)
  then show ?thesis using assms trim_tail [of "show_int u" "''timestamp:''"]
    by (simp add: parse_trigger_def ok_or_def then_do_def parse_i64_show show_int_no_colon)
next
  case (Interval u sk j)
  then show ?thesis using assms trim_tail [of "show_int u" "''interval:''"]
    by (simp add: parse_trigger_def ok_or_def then_do_def parse_i64_show show_int_no_colon)
next
  case (Cron u sk j)
  then show ?thesis using assms trim_start_matches_append [of "''cron:''" u]
    by (simp add: parse_trigger_def trim_start_matches_id)
next
  case (Slot u)
  then show ?thesis using trim_tail [of "show_nat (unat u)" "''slot:''"]
    by (simp add: parse_trigger_def ok_or_def then_do_def parse_u64_show show_nat_no_colon)
next
  case (Epoch u)
  then show ?thesis using trim_tail [of "show_nat (unat u)" "''epoch:''"]
    by (simp add: parse_trigger_def ok_or_def then_do_def parse_u64_show show_nat_no_colon)
qed (use assms in \<open>simp add: parse_trigger_def\<close>)

lemma signal_grammar: "cli_signal s \<Longrightarrow> parse_signal_with_fiber (signal_text f s) = Inr (f, s)"
  by (cases s)
     (simp_all add: signal_with_colon split_on_append split_on_free show_nat_no_colon parse_u8_show ok_or_def then_do_def)

text \<open>The form \<open>F:chain:T\<close>, which the help text of \<open>thread test create\<close> gives, is refused.\<close>

lemma documented_chain_refused:
  "parse_signal_with_fiber (show_nat f @ '':chain:'' @ show_nat t) = Inl (InvalidSignalFormat (show_nat f @ '':chain:'' @ show_nat t))"
  using signal_with_colon [of f "''chain:'' @ show_nat t"]
  by (simp add: split_on_append [of _ "''chain''", simplified] split_on_free show_nat_no_colon)

section \<open>The number of fibers\<close>

definition mentioned :: "FiberSignalConfig \<Rightarrow> u8 set" where
  "mentioned config = fst ` set config \<union> {t. Next t \<in> snd ` set config}"

lemma mentioned_Cons: "mentioned (e # c) = mentioned [e] \<union> mentioned c"
  by (auto simp: mentioned_def)

lemma mentioned_single: "i \<in> mentioned [e] \<Longrightarrow> i \<le> signal_target e" "signal_target e \<in> mentioned [e]"
proof -
  obtain f sg where e: "e = (f, sg)" by force
  show "i \<in> mentioned [e] \<Longrightarrow> i \<le> signal_target e" unfolding e by (cases sg) (auto simp: mentioned_def)
  show "signal_target e \<in> mentioned [e]" unfolding e by (cases sg) (auto simp: mentioned_def max_def)
qed

lemma fold_max_index:
  "fold (\<lambda>e m. max m (signal_target e)) c m0 \<in> insert m0 (mentioned c) \<and>
   m0 \<le> fold (\<lambda>e m. max m (signal_target e)) c m0 \<and>
   (\<forall>i\<in>mentioned c. i \<le> fold (\<lambda>e m. max m (signal_target e)) c m0)"
proof (induction c arbitrary: m0)
  case Nil
  then show ?case by (simp add: mentioned_def)
next
  case (Cons e c)
  have m: "max m0 (signal_target e) \<in> insert m0 (mentioned [e])"
    using mentioned_single(2) [of e] by (auto simp: max_def)
  show ?case
    using Cons.IH [of "max m0 (signal_target e)"] m mentioned_single(1) [of _ e]
    by (subst (1 2) mentioned_Cons) (auto intro: order_trans)
qed

lemma max_index_mentioned:
  "i \<in> mentioned c \<Longrightarrow> i \<le> max_index c" "c \<noteq> [] \<Longrightarrow> max_index c \<in> insert 0 (mentioned c)"
  using fold_max_index [of c 0] by (auto simp: max_index_def)

lemma checked_add_u8_None: "checked_add (w :: u8) 1 = None \<longleftrightarrow> w = 255"
proof -
  have "unat w < 256" using unsigned_less [of w, where 'a = nat] by simp
  moreover have "w = 255 \<longleftrightarrow> unat w = 255" by (simp add: word_unat_eq_iff)
  ultimately show ?thesis by (auto simp: checked_add_def)
qed

lemma implied_fiber_count_Inr:
  "implied_fiber_count c = Inr n \<Longrightarrow> 0 < n \<and> (\<forall>i\<in>mentioned c. i < n) \<and> (n = 1 \<or> n - 1 \<in> mentioned c)"
proof (cases "c = []")
  case True
  moreover assume "implied_fiber_count c = Inr n"
  ultimately show ?thesis by (simp add: implied_fiber_count_def mentioned_def)
next
  case False
  assume "implied_fiber_count c = Inr n"
  then have c: "checked_add (max_index c) 1 = Some n" using False by (simp add: implied_fiber_count_def res_simps split: option.splits)
  then have u: "unat n = unat (max_index c) + 1" and n: "n = max_index c + 1"
    by (simp add: checked_add_Some, simp add: checked_add_def split: if_splits)
  have "i < n" if "i \<in> mentioned c" for i
    using max_index_mentioned(1) [OF that] u by (simp add: word_less_nat_alt word_le_nat_alt)
  moreover have "0 < n" using u by (simp add: word_less_nat_alt)
  moreover have "n = 1 \<or> n - 1 \<in> mentioned c" using max_index_mentioned(2) [OF False] n by auto
  ultimately show ?thesis by blast
qed

lemma implied_fiber_count_panics: "implied_fiber_count c = Inl e \<longleftrightarrow> 255 \<in> mentioned c \<and> e = CliPanic"
proof (cases "c = []")
  case True
  then show ?thesis by (simp add: implied_fiber_count_def mentioned_def)
next
  case False
  have none: "checked_add (max_index c) 1 = None \<longleftrightarrow> max_index c = 255"
    by (simp add: checked_add_u8_None)
  have "max_index c = 255 \<longleftrightarrow> 255 \<in> mentioned c"
    using max_index_mentioned(1) [of 255 c] max_index_mentioned(2) [of c] False word8_le_255 [of "max_index c"] by (auto dest: antisym)
  then show ?thesis using False none
    by (auto simp: implied_fiber_count_def res_simps split: option.splits)
qed

section \<open>The registry\<close>

text \<open>Every name is \<open>test-k\<close> with \<open>k\<close> at most the counter, so the next name is free.\<close>

definition registry_ok :: "TestThreadRegistry \<Rightarrow> bool" where
  "registry_ok r \<longleftrightarrow> distinct (map fst (threads r)) \<and>
     (\<forall>name\<in>fst ` set (threads r). \<exists>k. 0 < k \<and> k \<le> unat (next_id r) \<and> name = test_thread_name k)"

fun file_ok :: "registry_file \<Rightarrow> bool" where
  "file_ok (Stored r) = registry_ok r"
| "file_ok _ = True"

lemma test_thread_name_inj: "test_thread_name j = test_thread_name k \<longleftrightarrow> j = k"
  by (simp add: test_thread_name_def show_nat_inj)

lemma load_ok: "file_ok f \<Longrightarrow> load f = Inr r \<Longrightarrow> registry_ok r"
  by (cases f) (auto simp: registry_ok_def TestThreadRegistry_default_def)

lemma next_thread_id_fresh:
  assumes "registry_ok r" and "next_thread_id r = Inr (name, r')"
  shows "get_thread name r = None" and "threads r' = threads r" and "registry_ok (add_thread name e r')"
proof -
  from assms(2) obtain n where n: "unat n = unat (next_id r) + 1" "name = test_thread_name (unat n)" "r' = r\<lparr>next_id := n\<rparr>"
    by (auto simp: next_thread_id_def res_simps checked_add_Some split: option.splits)
  have "name \<notin> fst ` set (threads r)"
  proof
    assume "name \<in> fst ` set (threads r)"
    then obtain k where "k \<le> unat (next_id r)" "name = test_thread_name k" using assms(1) unfolding registry_ok_def by blast
    then show False using n(1,2) by (simp add: test_thread_name_inj)
  qed
  then show "get_thread name r = None" by (simp add: get_thread_def map_of_eq_None_iff)
  show "threads r' = threads r" using n(3) by simp
  have "\<exists>k. 0 < k \<and> k \<le> unat n \<and> x = test_thread_name k" if "x \<in> fst ` set (threads r) \<or> x = name" for x
    using that assms(1) n(1,2) unfolding registry_ok_def by (metis le_Suc_eq Suc_eq_plus1 zero_less_Suc order_refl)
  then show "registry_ok (add_thread name e r')" using assms(1) n(3)
    by (auto simp: registry_ok_def add_thread_def distinct_update dom_update)
qed

lemma dom_delete_keys: "fst ` set (AList.delete i al) = fst ` set al - {i}"
  using arg_cong [OF delete_keys [of i al], where f = set] by simp

lemma remove_test_thread_ok: "registry_ok r \<Longrightarrow> registry_ok (remove_test_thread i r)"
  unfolding registry_ok_def remove_test_thread_def
  using distinct_delete [of "threads r" i] delete_keys [of i "threads r"]
  by (auto simp: dom_delete_keys)

lemma reset_if_empty_ok: "registry_ok r \<Longrightarrow> registry_ok (reset_if_empty r)"
  by (auto simp: registry_ok_def reset_if_empty_def)

text \<open>A command of the tool, run by anybody against any cluster.\<close>

inductive cli_step :: "registry_file \<times> 'w \<Rightarrow> registry_file \<times> 'w \<Rightarrow> bool" where
  cli_command: "test env payer authority cmd f w = (r, f', w') \<Longrightarrow> cli_step (f, w) (f', w')"

inductive_cases cli_stepE: "cli_step s s'"

lemma save_file: "save env r f w = (res, f', w') \<Longrightarrow> f' = f \<or> f' = Stored r"
  by (auto simp: save_def split: if_splits)

lemma save_ok: "save env r f w = (res, f', w') \<Longrightarrow> file_ok f \<Longrightarrow> registry_ok r \<Longrightarrow> file_ok f'"
  by (auto dest: save_file)

lemma delete_each_ok: "registry_ok r \<Longrightarrow> registry_ok (fst (delete_each env payer authority ids r w))"
  by (induction ids arbitrary: r w) (auto intro: remove_test_thread_ok)

lemma create_command_ok:
  "create_command env payer authority t sigs n f w = (res, f', w') \<Longrightarrow> file_ok f \<Longrightarrow> file_ok f'"
  by (auto simp: create_command_def res_simps split: sum.splits prod.splits elim!: save_ok intro: next_thread_id_fresh(3) load_ok)

lemma delete_commands_ok:
  "delete_thread_by_id env payer authority i f w = (res, f', w') \<Longrightarrow> file_ok f \<Longrightarrow> file_ok f'"
  "delete_all_registered_threads env payer authority f w = (res, f', w') \<Longrightarrow> file_ok f \<Longrightarrow> file_ok f'"
proof -
  show "delete_thread_by_id env payer authority i f w = (res, f', w') \<Longrightarrow> file_ok f \<Longrightarrow> file_ok f'"
    by (auto simp: delete_thread_by_id_def res_simps split: sum.splits prod.splits
        elim!: save_ok intro: reset_if_empty_ok remove_test_thread_ok load_ok)
  assume "delete_all_registered_threads env payer authority f w = (res, f', w')" and f: "file_ok f"
  then consider "f' = f"
    | r ids w1 where "load f = Inr r" "save env (reset_if_empty (fst (delete_each env payer authority ids r w))) f w1 = (res, f', w')"
    by (auto simp: delete_all_registered_threads_def split: sum.splits if_splits prod.splits) (metis fst_conv)
  then show "file_ok f'"
  proof cases
    case 2
    then show ?thesis using f by (auto elim!: save_ok intro: reset_if_empty_ok delete_each_ok load_ok)
  qed (use f in simp)
qed

lemma test_file_ok: "test env payer authority cmd f w = (r, f', w') \<Longrightarrow> file_ok f \<Longrightarrow> file_ok f'"
  by (auto simp: test_def on_cluster_def outcome_of_def split: TestCommands.splits option.splits if_splits
      intro: create_command_ok delete_commands_ok)

interpretation registry_file: invariant_system "\<lambda>s. fst s = NoFile" cli_step "\<lambda>s. file_ok (fst s)"
  by unfold_locales (auto elim!: cli_stepE intro: test_file_ok)

section \<open>The transactions against the thread program\<close>

lemma map_sum_InrE: "map_sum f g x = Inr y \<Longrightarrow> (\<And>z. x = Inr z \<Longrightarrow> y = g z \<Longrightarrow> P) \<Longrightarrow> P"
  by (cases x) auto

lemma create_needs_fiber_account:
  "ca_fiber ca = None \<Longrightarrow> thread_create tenv signers ca clock amount tid trigger paused (Some ix) fee lts th b \<noteq> Inr r"
  by (auto simp: thread_create_def create_first_fiber_def res_simps Let_def split: prod.splits)

lemma create_thread_rejected:
  "process_cli tenv clock signers th b (create_thread_instruction env payer authority tid trigger memo signal) \<noteq> Inr b'"
  using create_needs_fiber_account [of "\<lparr>ca_authority = authority, ca_payer = payer, ca_thread = derive_thread_pda env authority tid,
    ca_nonce_account = None, ca_recent_blockhashes = None, ca_rent = None, ca_fiber = None, ca_fiber_program = False\<rparr>"]
  by (auto simp: process_cli_def create_thread_instruction_def Let_def elim!: map_sum_InrE)

text \<open>A cluster that confirms a transaction only when the program accepted each of its instructions.\<close>

definition runs_program :: "thread_env \<Rightarrow> 'w cli_env \<Rightarrow> bool" where
  "runs_program tenv env \<longleftrightarrow> (\<forall>tx w w'. send_and_confirm env tx w = (True, w') \<longrightarrow>
     (\<forall>ix\<in>set (ct_instructions tx). \<exists>clock th b b'. process_cli tenv clock (ct_signers tx) th b ix = Inr b'))"

lemma send_tx_Inr:
  "runs_program tenv env \<Longrightarrow> send_tx env payer authority ixs w = (Inr (), w') \<Longrightarrow> ix \<in> set ixs \<Longrightarrow>
   \<exists>clock th b b'. process_cli tenv clock [payer, authority] th b ix = Inr b'"
  by (fastforce simp: send_tx_def runs_program_def split: option.splits prod.splits bool.splits)

lemma send_create_fails:
  "runs_program tenv env \<Longrightarrow> fst (send_tx env payer authority (create_thread_instruction env payer authority tid trigger memo signal # ixs) w) \<noteq> Inr ()"
proof
  assume "runs_program tenv env"
    and "fst (send_tx env payer authority (create_thread_instruction env payer authority tid trigger memo signal # ixs) w) = Inr ()"
  then obtain clock th b b' where
    "process_cli tenv clock [payer, authority] th b (create_thread_instruction env payer authority tid trigger memo signal) = Inr b'"
    using send_tx_Inr [of tenv env payer authority _ w _ "create_thread_instruction env payer authority tid trigger memo signal"]
    by (metis list.set_intros(1) prod.collapse)
  then show False by (simp add: create_thread_rejected)
qed

lemma and_then_fails: "fst r \<noteq> Inr () \<Longrightarrow> fst (and_then r f) \<noteq> Inr b"
  by (auto simp: and_then_def split: prod.splits sum.splits)

text \<open>
  The address list of the close instruction: one account per tracked fiber, so a close that the
  program carries out leaves no fiber behind.
\<close>

lemma close_fibers_length:
  "close_fibers tenv key fp accounts ids b = Inr (ids', b') \<Longrightarrow> length ids' + length accounts = length ids"
proof (induction accounts arbitrary: ids b)
  case (Cons a accounts)
  then obtain pos b1 where "position (\<lambda>idx. fiber_pubkey (fenv tenv) key idx = a) ids = Some pos"
    "close_fibers tenv key fp accounts (remove_nth pos ids) b1 = Inr (ids', b')"
    by (auto simp: res_simps)
  then show ?case using Cons.IH [of "remove_nth pos ids" b1] by (auto dest!: position_SomeD simp: length_remove_nth)
qed simp

lemma close_lists_every_fiber:
  "close_fibers tenv key fp (map (fiber_pubkey fe key) ids) ids b = Inr (ids', b') \<Longrightarrow> ids' = []"
  using close_fibers_length by fastforce

section \<open>A cluster\<close>

text \<open>
  A cluster whose state is the list of confirmed transactions: it confirms what \<open>accepts\<close> allows,
  knows no accounts, and addresses are written as their bytes in unary notation.
\<close>

definition sample_cli :: "(cli_transaction \<Rightarrow> bool) \<Rightarrow> cli_transaction list cli_env" where
  "sample_cli accepts = \<lparr>
     ce_fenv = sample_fiber_env, from_str = (\<lambda>s. Some (map (of_nat \<circ> of_char) s)), to_str = map (char_of \<circ> unat),
     string_bytes = map (of_nat \<circ> of_char), memo_data = (\<lambda>m s. [1]),
     fetch_account = (\<lambda>k w. Inr None), decode_ui = (\<lambda>a. None), deserialize_thread = (\<lambda>d. None),
     blockhash = (\<lambda>w. Some [7]), send_and_confirm = (\<lambda>tx w. if accepts tx then (True, tx # w) else (False, w)),
     ce_key_order = id, ce_now = ''now'', ce_saves = True\<rparr>"

definition sample_cli_clock :: Clock where "sample_cli_clock = \<lparr>clk_slot = 1, clk_epoch = 0, unix_timestamp = 100\<rparr>"

text \<open>The program run on an empty store.\<close>

definition program_accepts :: "Thread \<Rightarrow> cli_transaction \<Rightarrow> bool" where
  "program_accepts th tx = list_all (\<lambda>ix. case process_cli sample_env sample_cli_clock (ct_signers tx) th
     (\<lambda>_. \<lparr>lamports = 1000000000, acc_data = [], acc_owner = SYSTEM_PROGRAM_ID\<rparr>) ix of Inl _ \<Rightarrow> False | Inr _ \<Rightarrow> True) (ct_instructions tx)"

lemma sample_runs_program: "runs_program sample_env (sample_cli (program_accepts th))"
  unfolding runs_program_def
proof (intro allI impI ballI)
  fix tx w w' ix
  assume "send_and_confirm (sample_cli (program_accepts th)) tx w = (True, w')" and ix: "ix \<in> set (ct_instructions tx)"
  then have "program_accepts th tx" by (simp add: sample_cli_def split: if_splits)
  with ix show "\<exists>clock th b b'. process_cli sample_env clock (ct_signers tx) th b ix = Inr b'"
    unfolding program_accepts_def list_all_iff by (metis (mono_tags, lifting) old.sum.exhaust old.sum.simps(5))
qed

lemma sample_create:
  "\<exists>r. fst (snd (test (sample_cli (\<lambda>_. True)) [1] [2] (TC_Create ''immediate'' [''0:chain''] None None) NoFile [])) =
     Stored \<lparr>next_id = 1, threads = [(test_thread_name 1, r)]\<rparr>"
  by (simp add: test_def create_command_def TestThreadRegistry_default_def next_thread_id_def checked_add_def
      parse_fiber_signals_def parse_signal_with_fiber_def parse_u8_def parse_unsigned_def parse_number_def digit_of_def
      implied_fiber_count_def max_index_def create_test_thread_def parse_trigger_def send_tx_def save_def sample_cli_def
      add_thread_def then_do_def ok_or_def)

text \<open>
  Deleting everything: whatever the cluster did with the deletions, the registry forgets all
  threads and numbers from one again.
\<close>

lemma delete_each_threads:
  "set (map fst (threads r)) \<subseteq> set ids \<Longrightarrow> threads (fst (delete_each env payer authority ids r w)) = []"
proof (induction ids arbitrary: r w)
  case (Cons i ids)
  then have "set (map fst (threads (remove_test_thread i r))) \<subseteq> set ids"
    by (auto simp: remove_test_thread_def dom_delete_keys [unfolded set_map [symmetric]] delete_keys simp flip: set_map)
  then show ?case by (simp add: Cons.IH)
qed simp

lemma delete_all_forgets:
  assumes "\<And>ks. set (ce_key_order env ks) = set ks" and "ce_saves env" and "threads r \<noteq> []"
  shows "fst (snd (delete_all_registered_threads env payer authority (Stored r) w)) = Stored TestThreadRegistry_default"
proof -
  obtain r' w' where d: "delete_each env payer authority (ce_key_order env (map fst (threads r))) r w = (r', w')" by force
  then have "threads r' = []" using delete_each_threads [of r "ce_key_order env (map fst (threads r))" env payer authority w] assms(1) by simp
  then show ?thesis using assms(2,3) d
    by (simp add: delete_all_registered_threads_def save_def reset_if_empty_def TestThreadRegistry_default_def)
qed

text \<open>Deleting a chain test that does not exist is an error; the branch meant for it is reached on a failed request only.\<close>

lemma delete_absent_chain_test:
  "fetch_account env (derive_thread_pda env authority TEST_THREAD_CHAIN_ID) w = Inr None \<Longrightarrow>
   delete_chain_test env payer authority w = (Inl AccountNotFound, w)"
  "fetch_account env (derive_thread_pda env authority TEST_THREAD_CHAIN_ID) w = Inl () \<Longrightarrow>
   delete_chain_test env payer authority w = (Inr (), w)"
  by (simp_all add: delete_chain_test_def Let_def delete_test_thread_def fetch_test_thread_def then_do_def ok_or_def)

section \<open>Properties\<close>

text \<open>
  The command line reads back what its grammar can express: a trigger of the commands'
  kinds, written with its prefix, parses to itself, provided the text of the watched address
  is that address and has no colon (a base58 string); a signal written for a fiber parses to
  that fiber and signal; the form \<open>F:chain:T\<close>, which the help text shows, is refused; and the
  number of fibers the signals imply is the least that has every index they mention, except
  that an index of 255 makes the count overflow.
\<close>

theorem cli_grammar:
  assumes "\<And>k offset len. t = Account k offset len \<Longrightarrow> read_key (print_key k) = Some k \<and> CHR '':'' \<notin> set (print_key k)"
    and "cli_trigger t" and "cli_signal s"
  shows "parse_trigger read_key (trigger_text print_key t) = Inr t \<and>
    parse_signal_with_fiber (signal_text f s) = Inr (f, s) \<and>
    parse_signal_with_fiber (show_nat m @ '':chain:'' @ show_nat n) =
      Inl (InvalidSignalFormat (show_nat m @ '':chain:'' @ show_nat n)) \<and>
    (case implied_fiber_count c of
       Inr k \<Rightarrow> 0 < k \<and> (\<forall>i\<in>mentioned c. i < k) \<and> (k = 1 \<or> k - 1 \<in> mentioned c)
     | Inl e \<Rightarrow> 255 \<in> mentioned c \<and> e = CliPanic)"
  using trigger_grammar [OF assms(1,2)] signal_grammar [OF assms(3)] documented_chain_refused
    implied_fiber_count_Inr [of c] implied_fiber_count_panics [of c]
  by (auto split: sum.splits)

theorem cli_grammar_witness:
  "parse_trigger (\<lambda>s. if s = ''AB'' then Some [1] else None) ''account:AB'' = Inr (Account [1] 0 100) \<and>
   parse_signal_with_fiber (signal_text 2 (Next 7)) = Inr (2, Next 7)"
  using cli_grammar [of "Account [1] 0 100" "\<lambda>s. if s = ''AB'' then Some [1] else None" "\<lambda>_. ''AB''" "Next 7" 2] by simp

text \<open>
  The names of the registry: in every state the commands can leave, whoever ran them and
  whatever the cluster answered, the registered names are distinct and the next name is not
  among them.
\<close>

theorem registry_names_fresh:
  assumes "reach (\<lambda>s. fst s = NoFile) cli_step (f, w)" and "load f = Inr r" and "next_thread_id r = Inr (name, r')"
  shows "distinct (map fst (threads r)) \<and> get_thread name r = None \<and> threads r' = threads r"
  using load_ok [OF _ assms(2)] registry_file.reach_inv [OF assms(1)] next_thread_id_fresh(1,2) [OF _ assms(3)]
  by (auto simp: registry_ok_def)

theorem registry_names_fresh_witness:
  "\<exists>f w r. reach (\<lambda>s. fst s = NoFile) cli_step (f, w :: cli_transaction list) \<and> load f = Inr r \<and>
     length (threads r) = 1 \<and> get_thread (test_thread_name 2) r = None"
proof -
  obtain res f' w' where t: "test (sample_cli (\<lambda>_. True)) [1] [2] (TC_Create ''immediate'' [''0:chain''] None None) NoFile [] = (res, f', w')"
    using prod_cases3 by blast
  with sample_create obtain e where f': "f' = Stored \<lparr>next_id = 1, threads = [(test_thread_name 1, e)]\<rparr>" by auto
  let ?r = "\<lparr>next_id = 1, threads = [(test_thread_name 1, e)]\<rparr>"
  have "reach (\<lambda>s. fst s = NoFile) cli_step (f', w')"
    using reach_step [where step = cli_step, OF reach_start, of "\<lambda>s. fst s = NoFile" "(NoFile, [])"] cli_command [OF t] by simp
  moreover from this have "get_thread (test_thread_name 2) ?r = None"
    using registry_names_fresh [of f' w' ?r "test_thread_name 2" "?r\<lparr>next_id := 2\<rparr>"] f'
    by (simp add: next_thread_id_def checked_add_def then_do_def ok_or_def)
  ultimately show ?thesis using f' by (intro exI [of _ f'] exI [of _ w'] exI [of _ ?r]) simp
qed

text \<open>
  C33: Creating a test thread never succeeds against the thread program: the commands pass a
  first instruction without the fiber account it needs, so the program refuses each creation.
  On a cluster that confirms only what the program accepted, the create command ends in an
  error and leaves the registry as it was.
\<close>

theorem cli_create_never_succeeds:
  assumes "runs_program tenv env" and "test env payer authority (TC_Create trigger_str signals n tt) f w = (r, f', w')"
  shows "r \<noteq> Inr () \<and> f' = f"
proof -
  have "fst (create_account_trigger_test env payer authority w) \<noteq> Inr ()"
    unfolding create_account_trigger_test_def by (intro and_then_fails send_create_fails [OF assms(1)])
  moreover have "fst (create_chain_test env payer authority w) \<noteq> Inr ()"
    unfolding create_chain_test_def Let_def by (intro and_then_fails send_create_fails [OF assms(1)])
  moreover have "fst (create_test_thread env payer authority tid trigger_str config m w) \<noteq> Inr ()" for tid config m
    using send_create_fails [OF assms(1)] by (auto simp: create_test_thread_def split: sum.splits)
  ultimately show ?thesis using assms(2)
    by (auto simp: test_def on_cluster_def create_command_def split: option.splits if_splits sum.splits prod.splits) (metis fst_conv)+
qed

theorem cli_create_never_succeeds_witness:
  "runs_program sample_env (sample_cli (program_accepts (sample_thread (Slot 0) (Timed 0 0)))) \<and>
   fst (test (sample_cli (program_accepts (sample_thread (Slot 0) (Timed 0 0)))) [1] [2] (TC_Create ''immediate'' [''0:chain''] (Some 3) None) NoFile []) \<noteq> Inr ()"
proof -
  obtain res f' w' where t: "test (sample_cli (program_accepts (sample_thread (Slot 0) (Timed 0 0)))) [1] [2] (TC_Create ''immediate'' [''0:chain''] (Some 3) None) NoFile [] = (res, f', w')"
    using prod_cases3 by blast
  show ?thesis using sample_runs_program cli_create_never_succeeds [OF sample_runs_program t] t by simp
qed

end
