(* ===== verification/Cli_Update.thy ===== *)
theory Cli_Update
  imports Cli_Text "HOL-Library.List_Lexorder" "HOL-Library.Product_Lexorder"
begin

text \<open>
  The version manager of the command line tools (\<open>cli/core/src/commands/update.rs\<close>): versions,
  the releases on offer, downloading and installing binaries under versioned names and the
  symbolic links that select one.

  The file system is a map from absolute paths to files and symbolic links. What an operation
  on it may do, the releases, the downloads, running a binary and \<open>cargo\<close> are fields of
  \<open>host\<close>. Directories, permissions and printing are left out. The commands that end in
  restarting the service are here up to that point and complete in \<open>Cli_Service\<close>.
\<close>

section \<open>Versions\<close>

type_synonym version = "u32 \<times> u32 \<times> u32"

definition parse_version :: "string \<Rightarrow> version option" where
  "parse_version v =
     (case split_on (CHR ''.'') (case strip_prefix v ''v'' of Some r \<Rightarrow> r | None \<Rightarrow> v) of
        [a, b, c] \<Rightarrow>
          Option.bind (parse_u32 a) (\<lambda>major. Option.bind (parse_u32 b) (\<lambda>minor. Option.bind (parse_u32 c) (\<lambda>patch.
            Some (major, minor, patch))))
      | _ \<Rightarrow> None)"

definition version_less_than :: "string \<Rightarrow> string \<Rightarrow> bool" where
  "version_less_than v1 v2 = (case (parse_version v1, parse_version v2) of (Some a, Some b) \<Rightarrow> a < b | _ \<Rightarrow> False)"

definition MIN_NODE_VERSION :: string where "MIN_NODE_VERSION = ''v4.1.1''"

definition is_node_version_supported :: "string \<Rightarrow> bool" where
  "is_node_version_supported v =
     (case (parse_version v, parse_version MIN_NODE_VERSION) of (Some a, Some m) \<Rightarrow> m \<le> a | _ \<Rightarrow> False)"

definition normalize_version :: "string \<Rightarrow> string" where
  "normalize_version v = (if starts_with v ''v'' then v else ''v'' @ v)"

text \<open>The comparator of the version lists, newest first; \<open>None\<close> of the parser on either side falls back to the text.\<close>

definition version_before :: "string \<Rightarrow> string \<Rightarrow> bool" where
  "version_before a b =
     (case (parse_version a, parse_version b) of
        (Some va, Some vb) \<Rightarrow> vb < va
      | _ \<Rightarrow> map (of_char :: char \<Rightarrow> nat) b < map of_char a)"

section \<open>Releases\<close>

datatype update_error =
    NoHome | Io_Error | ReleasesFailed | NoReleases | DownloadFailed | NotSupported string
  | NoCargoBinary | NoLocalBuild | VersionRequired | CargoFailed | BinaryMissing | NoWorkspace
  | NoVersionOutput

definition cli_release :: "string \<Rightarrow> bool" where
  "cli_release v \<longleftrightarrow> \<not> starts_with v ''geyser-'' \<and> \<not> starts_with v ''node-''"

definition node_release :: "string \<Rightarrow> bool" where
  "node_release v \<longleftrightarrow> starts_with v ''node-v'' \<or> starts_with v ''node-''"

definition node_release_version :: "string \<Rightarrow> string" where
  "node_release_version v = normalize_version (case strip_prefix v ''node-'' of Some r \<Rightarrow> r | None \<Rightarrow> v)"

definition fetch_latest_version :: "string list option \<Rightarrow> update_error + string" where
  "fetch_latest_version releases =
     then_do (ok_or releases ReleasesFailed) (\<lambda>rs. map_sum id normalize_version (ok_or (find cli_release rs) NoReleases))"

definition fetch_all_versions :: "string list option \<Rightarrow> update_error + string list" where
  "fetch_all_versions releases =
     then_do (ok_or releases ReleasesFailed) (\<lambda>rs. Inr (map normalize_version (filter cli_release rs)))"

definition fetch_latest_node_version :: "string list option \<Rightarrow> update_error + string" where
  "fetch_latest_node_version releases =
     then_do (ok_or releases ReleasesFailed) (\<lambda>rs. map_sum id node_release_version (ok_or (find node_release rs) NoReleases))"

definition fetch_all_node_versions :: "string list option \<Rightarrow> update_error + string list" where
  "fetch_all_node_versions releases =
     then_do (ok_or releases ReleasesFailed) (\<lambda>rs. Inr (map node_release_version (filter node_release rs)))"

section \<open>The file system\<close>

datatype fnode = File string | Symlink string

type_synonym fs = "string \<rightharpoonup> fnode"

datatype fs_op =
    Op_Mkdir string | Op_Copy string | Op_Chmod string | Op_Remove string | Op_Symlink string | Op_Rename string
  | Op_Write string | Op_Append string

record host =
  home_dir :: "string option"
  temp_dir :: string
  current_dir :: "string option"
  current_exe :: "string option"
  dev_build :: bool
  pkg_version :: string
  platform :: string
  path_var :: "string option"
  releases :: "string list option"
  http_get :: "string \<Rightarrow> string option"
  permits :: "fs_op \<Rightarrow> bool"
  run_version :: "string \<Rightarrow> fs \<Rightarrow> string option"
  cargo_build :: "string \<Rightarrow> fs \<Rightarrow> bool \<times> fs"

text \<open>Links are followed, at most forty of them.\<close>

fun resolve :: "nat \<Rightarrow> fs \<Rightarrow> string \<Rightarrow> string option" where
  "resolve 0 fs p = None"
| "resolve (Suc n) fs p = (case fs p of Some (Symlink t) \<Rightarrow> resolve n fs t | _ \<Rightarrow> Some p)"

definition read_to_string :: "fs \<Rightarrow> string \<Rightarrow> string option" where
  "read_to_string fs p =
     Option.bind (resolve 40 fs p) (\<lambda>q. case fs q of Some (File c) \<Rightarrow> Some c | _ \<Rightarrow> None)"

definition path_exists :: "fs \<Rightarrow> string \<Rightarrow> bool" where
  "path_exists fs p \<longleftrightarrow> (case resolve 40 fs p of Some q \<Rightarrow> fs q \<noteq> None | None \<Rightarrow> False)"

definition read_link :: "fs \<Rightarrow> string \<Rightarrow> string option" where
  "read_link fs p = (case fs p of Some (Symlink t) \<Rightarrow> Some t | _ \<Rightarrow> None)"

definition permit :: "host \<Rightarrow> fs_op \<Rightarrow> (fs \<Rightarrow> (update_error + unit) \<times> fs) \<Rightarrow> fs \<Rightarrow> (update_error + unit) \<times> fs" where
  "permit host op act fs = (if permits host op then act fs else (Inl Io_Error, fs))"

definition put_file :: "string \<Rightarrow> string \<Rightarrow> fs \<Rightarrow> (update_error + unit) \<times> fs" where
  "put_file p c fs = (case resolve 40 fs p of Some q \<Rightarrow> (Inr (), fs(q \<mapsto> File c)) | None \<Rightarrow> (Inl Io_Error, fs))"

definition fs_write :: "host \<Rightarrow> string \<Rightarrow> string \<Rightarrow> fs \<Rightarrow> (update_error + unit) \<times> fs" where
  "fs_write host p c = permit host (Op_Write p) (put_file p c)"

definition create_dir_all :: "host \<Rightarrow> string \<Rightarrow> fs \<Rightarrow> (update_error + unit) \<times> fs" where
  "create_dir_all host p = permit host (Op_Mkdir p) (Pair (Inr ()))"

text \<open>Copying, then the permission bits.\<close>

definition copy_executable :: "host \<Rightarrow> string \<Rightarrow> string \<Rightarrow> fs \<Rightarrow> (update_error + unit) \<times> fs" where
  "copy_executable host from to fs =
     and_then (permit host (Op_Copy to) (\<lambda>fs.
         case read_to_string fs from of Some c \<Rightarrow> put_file to c fs | None \<Rightarrow> (Inl Io_Error, fs)) fs)
       (\<lambda>_. permit host (Op_Chmod to) (Pair (Inr ())))"

definition path_join :: "string \<Rightarrow> string \<Rightarrow> string" where
  "path_join d p = (if d \<noteq> [] \<and> last d = CHR ''/'' then d @ p else d @ ''/'' @ p)"

definition components :: "string \<Rightarrow> string list" where
  "components p = filter (\<lambda>c. c \<noteq> [] \<and> c \<noteq> ''.'') (split_on (CHR ''/'') p)"

definition file_name :: "string \<Rightarrow> string option" where
  "file_name p = (if components p = [] \<or> last (components p) = ''..'' then None else Some (last (components p)))"

definition with_file_name :: "string \<Rightarrow> string \<Rightarrow> string" where
  "with_file_name p n = rev (dropWhile (\<lambda>c. c \<noteq> CHR ''/'') (rev p)) @ n"

section \<open>Paths\<close>

definition in_home :: "host \<Rightarrow> string \<Rightarrow> update_error + string" where
  "in_home host p = map_sum id (\<lambda>h. path_join h p) (ok_or (home_dir host) NoHome)"

definition bin_dir :: "host \<Rightarrow> update_error + string" where "bin_dir host = in_home host ''.local/bin''"
definition binary_path :: "host \<Rightarrow> update_error + string" where "binary_path host = in_home host ''.local/bin/antegen''"
definition antegenctl_symlink_path :: "host \<Rightarrow> update_error + string" where
  "antegenctl_symlink_path host = in_home host ''.local/bin/antegenctl''"
definition versioned_binary_path :: "host \<Rightarrow> string \<Rightarrow> update_error + string" where
  "versioned_binary_path host v = in_home host (''.local/bin/antegen-'' @ v)"
definition node_binary_path :: "host \<Rightarrow> update_error + string" where
  "node_binary_path host = in_home host ''.local/bin/antegen-node''"
definition versioned_node_binary_path :: "host \<Rightarrow> string \<Rightarrow> update_error + string" where
  "versioned_node_binary_path host v = in_home host (''.local/bin/antegen-node-'' @ v)"
definition node_version_path :: "host \<Rightarrow> update_error + string" where
  "node_version_path host = in_home host ''.antegen/node-version''"

definition current_version :: "host \<Rightarrow> string" where "current_version host = ''v'' @ pkg_version host"

definition build_download_url :: "host \<Rightarrow> string \<Rightarrow> string" where
  "build_download_url host v =
     ''https://github.com/wuwei-labs/antegen/releases/download/'' @ v @ ''/antegen-'' @ v @ ''-'' @ platform host"

definition build_node_download_url :: "host \<Rightarrow> string \<Rightarrow> string" where
  "build_node_download_url host v =
     ''https://github.com/wuwei-labs/antegen/releases/download/node-'' @ v @ ''/antegen-node-'' @ v @ ''-'' @ platform host"

text \<open>A value that does not touch the file system.\<close>

definition pure :: "'e + 'a \<Rightarrow> 's \<Rightarrow> ('e + 'a) \<times> 's" where "pure r s = (r, s)"

section \<open>Installing\<close>

definition download_binary :: "host \<Rightarrow> string \<Rightarrow> string \<Rightarrow> fs \<Rightarrow> (update_error + string) \<times> fs" where
  "download_binary host url temp_name fs =
     (case http_get host url of
        None \<Rightarrow> (Inl DownloadFailed, fs)
      | Some body \<Rightarrow>
          let temp_path = path_join (temp_dir host) temp_name in
          and_then (fs_write host temp_path body fs) (\<lambda>_. pure (Inr temp_path)))"

definition install_binary_to :: "host \<Rightarrow> string \<Rightarrow> string \<Rightarrow> fs \<Rightarrow> (update_error + unit) \<times> fs" where
  "install_binary_to host temp_path dest_path fs =
     and_then (pure (bin_dir host) fs) (\<lambda>dir fs.
     and_then (create_dir_all host dir fs) (\<lambda>_ fs.
     and_then (copy_executable host temp_path dest_path fs) (\<lambda>_ fs.
       (Inr (), if permits host (Op_Remove temp_path) then fs(temp_path := None) else fs))))"

definition update_symlink :: "host \<Rightarrow> string \<Rightarrow> string \<Rightarrow> fs \<Rightarrow> (update_error + unit) \<times> fs" where
  "update_symlink host link target fs =
     and_then (if path_exists fs link \<or> read_link fs link \<noteq> None
               then permit host (Op_Remove link) (\<lambda>fs. (Inr (), fs(link := None))) fs else (Inr (), fs)) (\<lambda>_.
       permit host (Op_Symlink link) (\<lambda>fs. (Inr (), fs(link \<mapsto> Symlink target))))"

text \<open>Both command line links.\<close>

definition link_cli :: "host \<Rightarrow> string \<Rightarrow> fs \<Rightarrow> (update_error + unit) \<times> fs" where
  "link_cli host target fs =
     and_then (pure (binary_path host) fs) (\<lambda>link fs.
     and_then (update_symlink host link target fs) (\<lambda>_ fs.
     and_then (pure (antegenctl_symlink_path host) fs) (\<lambda>ctl.
       update_symlink host ctl target)))"

definition NL :: char where "NL = char_of (10 :: nat)"

definition ENV_SCRIPT :: string where
  "ENV_SCRIPT = concat (map (\<lambda>l. l @ [NL])
     [''# Antegen PATH setup - sourced by shell rc files'',
      ''# Add ~/.local/bin to PATH if not already present'',
      ''case '' @ [CHR 0x22] @ '':${PATH}:'' @ [CHR 0x22] @ '' in'',
      ''    *:'' @ [CHR 0x22] @ ''$HOME/.local/bin'' @ [CHR 0x22] @ '':*)'',
      ''        ;;'',
      ''    *)'',
      ''        export PATH='' @ [CHR 0x22] @ ''$HOME/.local/bin:$PATH'' @ [CHR 0x22],
      ''        ;;'',
      ''esac''])"

definition rc_line :: string where
  "rc_line = [NL] @ ''# Added by antegen'' @ [NL] @ ''. '' @ [CHR 0x22] @ ''$HOME/.antegen/env'' @ [CHR 0x22] @ [NL]"

text \<open>The first shell file that exists gets the line, unless a file read on the way has it already.\<close>

fun configure_rc :: "host \<Rightarrow> string \<Rightarrow> string list \<Rightarrow> fs \<Rightarrow> fs" where
  "configure_rc host home [] fs = fs"
| "configure_rc host home (rc_name # rest) fs =
     (let rc_path = path_join home rc_name in
      if \<not> path_exists fs rc_path then configure_rc host home rest fs
      else case read_to_string fs rc_path of
        None \<Rightarrow> configure_rc host home rest fs
      | Some content \<Rightarrow>
          if contains content ''.antegen/env'' then fs
          else if permits host (Op_Append rc_path) then snd (put_file rc_path (content @ rc_line) fs)
          else configure_rc host home rest fs)"

definition ensure_path_configured :: "host \<Rightarrow> fs \<Rightarrow> fs" where
  "ensure_path_configured host fs =
     (case home_dir host of
        None \<Rightarrow> fs
      | Some home \<Rightarrow>
          let antegen_dir = path_join home ''.antegen''; env_file = path_join antegen_dir ''env'' in
          case (if path_exists fs env_file then (Inr (), fs)
                else and_then (create_dir_all host antegen_dir fs) (\<lambda>_. fs_write host env_file ENV_SCRIPT)) of
            (Inl _, fs1) \<Rightarrow> fs1
          | (Inr _, fs1) \<Rightarrow>
              if (case path_var host of Some p \<Rightarrow> contains p ''.local/bin'' | None \<Rightarrow> False) then fs1
              else configure_rc host home [''.zshenv'', ''.zshrc'', ''.bashrc'', ''.bash_profile'', ''.profile''] fs1)"

section \<open>The command line tool's versions\<close>

definition get_installed_version :: "host \<Rightarrow> fs \<Rightarrow> string option" where
  "get_installed_version host fs =
     (case binary_path host of
        Inl _ \<Rightarrow> None
      | Inr link \<Rightarrow> Option.bind (read_link fs link) (\<lambda>target. Option.bind (file_name target) (\<lambda>f. strip_prefix f ''antegen-'')))"

text \<open>The development build's own path; none in a production build.\<close>

definition get_dev_binary :: "host \<Rightarrow> string option" where
  "get_dev_binary host =
     (if dev_build host then
        Option.bind (current_exe host) (\<lambda>exe.
          if contains exe ''/target/debug/'' \<or> contains exe ''/target/release/'' then Some exe else None)
      else None)"

text \<open>Download a version unless its file is there.\<close>

definition download_version :: "host \<Rightarrow> string \<Rightarrow> string \<Rightarrow> string \<Rightarrow> fs \<Rightarrow> (update_error + unit) \<times> fs" where
  "download_version host url temp_name versioned_path fs =
     (if path_exists fs versioned_path then (Inr (), fs)
      else and_then (download_binary host url temp_name fs) (\<lambda>temp_path. install_binary_to host temp_path versioned_path))"

definition wanted_version :: "host \<Rightarrow> string option \<Rightarrow> update_error + string" where
  "wanted_version host v = (case v of Some v \<Rightarrow> Inr (normalize_version v) | None \<Rightarrow> fetch_latest_version (releases host))"

definition update :: "host \<Rightarrow> string option \<Rightarrow> fs \<Rightarrow> (update_error + unit) \<times> fs" where
  "update host v fs =
     (let installed = (case get_installed_version host fs of Some i \<Rightarrow> i | None \<Rightarrow> current_version host) in
      and_then (pure (wanted_version host v) fs) (\<lambda>latest fs.
      if v = None \<and> \<not> version_less_than installed latest then (Inr (), fs)
      else
        and_then (download_binary host (build_download_url host latest) ''antegen-update'' fs) (\<lambda>temp_path fs.
        and_then (pure (binary_path host) fs) (\<lambda>link fs.
        and_then (pure (versioned_binary_path host latest) fs) (\<lambda>new_path fs.
        and_then (pure (versioned_binary_path host installed) fs) (\<lambda>old_path fs.
        and_then (install_binary_to host temp_path new_path fs) (\<lambda>_ fs.
        and_then (if path_exists fs link \<and> read_link fs link = None
                  then permit host (Op_Rename link) (\<lambda>fs. (Inr (), fs(old_path := fs link, link := None))) fs
                  else (Inr (), fs)) (\<lambda>_ fs.
        and_then (link_cli host new_path fs) (\<lambda>_ fs.
          (Inr (), ensure_path_configured host fs))))))))))"

definition ensure_binary_installed :: "host \<Rightarrow> string option \<Rightarrow> fs \<Rightarrow> (update_error + string) \<times> fs" where
  "ensure_binary_installed host v fs =
     and_then (pure (binary_path host) fs) (\<lambda>link fs.
     and_then (pure (bin_dir host) fs) (\<lambda>dir fs.
     and_then (create_dir_all host dir fs) (\<lambda>_ fs.
     case (v, get_dev_binary host) of
       (None, Some dev_binary) \<Rightarrow>
         and_then (pure (versioned_binary_path host (current_version host)) fs) (\<lambda>path fs.
         if \<not> path_exists fs path \<or> read_link fs link \<noteq> Some path then
           and_then (copy_executable host dev_binary path fs) (\<lambda>_ fs.
           and_then (link_cli host path fs) (\<lambda>_. pure (Inr link)))
         else (Inr link, fs))
     | _ \<Rightarrow>
         if v = None \<and> path_exists fs link then (Inr link, fs)
         else
           and_then (pure (wanted_version host v) fs) (\<lambda>ver fs.
           and_then (pure (versioned_binary_path host ver) fs) (\<lambda>path fs.
           and_then (download_version host (build_download_url host ver) ''antegen-update'' path fs) (\<lambda>_ fs.
           and_then (link_cli host path fs) (\<lambda>_ fs.
             (Inr link, ensure_path_configured host fs))))))))"

definition install :: "host \<Rightarrow> string option \<Rightarrow> fs \<Rightarrow> (update_error + unit) \<times> fs" where
  "install host v fs =
     and_then (pure (wanted_version host v) fs) (\<lambda>target fs.
     and_then (ensure_binary_installed host (Some target) fs) (\<lambda>_. pure (Inr ())))"

definition use_cli_version :: "host \<Rightarrow> string \<Rightarrow> fs \<Rightarrow> (update_error + unit) \<times> fs" where
  "use_cli_version host v fs =
     (if v = ''cargo'' then
        and_then (pure (in_home host ''.cargo/bin/antegen'') fs) (\<lambda>cargo_bin fs.
        if \<not> path_exists fs cargo_bin then (Inl NoCargoBinary, fs) else link_cli host cargo_bin fs)
      else
        let ver = normalize_version v in
        and_then (pure (versioned_binary_path host ver) fs) (\<lambda>path fs.
        and_then (download_version host (build_download_url host ver) ''antegen-update'' path fs) (\<lambda>_.
          link_cli host path)))"

definition install_cli_version :: "host \<Rightarrow> string \<Rightarrow> fs \<Rightarrow> (update_error + unit) \<times> fs" where
  "install_cli_version host v fs =
     (let ver = normalize_version v in
      and_then (pure (versioned_binary_path host ver) fs) (\<lambda>path.
        download_version host (build_download_url host ver) ''antegen-update'' path))"

definition import_current_binary :: "host \<Rightarrow> fs \<Rightarrow> (update_error + unit) \<times> fs" where
  "import_current_binary host fs =
     and_then (pure (ok_or (current_exe host) Io_Error) fs) (\<lambda>exe fs.
     and_then (pure (versioned_binary_path host (current_version host)) fs) (\<lambda>path fs.
     and_then (pure (bin_dir host) fs) (\<lambda>dir fs.
     and_then (create_dir_all host dir fs) (\<lambda>_ fs.
     and_then (if map_option length (read_to_string fs path) = None
                  \<or> map_option length (read_to_string fs path) \<noteq> map_option length (read_to_string fs exe)
               then copy_executable host exe path fs else (Inr (), fs)) (\<lambda>_ fs.
     and_then (link_cli host path fs) (\<lambda>_ fs.
       (Inr (), ensure_path_configured host fs)))))))"

section \<open>The node's versions\<close>

definition write_node_version :: "host \<Rightarrow> string \<Rightarrow> fs \<Rightarrow> (update_error + unit) \<times> fs" where
  "write_node_version host v fs =
     and_then (pure (node_version_path host) fs) (\<lambda>path fs.
     and_then (pure (in_home host ''.antegen'') fs) (\<lambda>dir fs.
     and_then (create_dir_all host dir fs) (\<lambda>_. fs_write host path v)))"

definition read_node_version :: "host \<Rightarrow> fs \<Rightarrow> string option" where
  "read_node_version host fs =
     (case node_version_path host of
        Inl _ \<Rightarrow> None
      | Inr path \<Rightarrow> Option.bind (read_to_string fs path) (\<lambda>c. if trim c = [] then None else Some (trim c)))"

definition get_installed_node_version :: "host \<Rightarrow> fs \<Rightarrow> string option" where
  "get_installed_node_version host fs =
     (case node_binary_path host of
        Inl _ \<Rightarrow> None
      | Inr link \<Rightarrow> Option.bind (read_link fs link) (\<lambda>target. Option.bind (file_name target) (\<lambda>f. strip_prefix f ''antegen-node-'')))"

definition ensure_node_downloaded :: "host \<Rightarrow> string \<Rightarrow> fs \<Rightarrow> (update_error + string) \<times> fs" where
  "ensure_node_downloaded host v fs =
     (let ver = normalize_version v in
      and_then (pure (versioned_node_binary_path host ver) fs) (\<lambda>path fs.
      case get_dev_binary host of
        Some exe \<Rightarrow>
          if path_exists fs (with_file_name exe ''antegen-node'') then
            and_then (pure (bin_dir host) fs) (\<lambda>dir fs.
            and_then (create_dir_all host dir fs) (\<lambda>_ fs.
            and_then (copy_executable host (with_file_name exe ''antegen-node'') path fs) (\<lambda>_. pure (Inr path))))
          else and_then (download_version host (build_node_download_url host ver) ''antegen-node-update'' path fs) (\<lambda>_. pure (Inr path))
      | None \<Rightarrow>
          and_then (download_version host (build_node_download_url host ver) ''antegen-node-update'' path fs) (\<lambda>_. pure (Inr path))))"

text \<open>The directories on the way up from a path, the path first.\<close>

definition ancestors :: "string \<Rightarrow> string list" where
  "ancestors p = map (\<lambda>n. concat (map (\<lambda>c. CHR ''/'' # c) (take n (components p)))) (rev [0..<Suc (length (components p))])"

fun find_root :: "fs \<Rightarrow> string list \<Rightarrow> update_error + string" where
  "find_root fs [] = Inl NoWorkspace"
| "find_root fs (dir # up) =
     (let cargo_toml = path_join dir ''Cargo.toml'' in
      if path_exists fs cargo_toml then
        case read_to_string fs cargo_toml of
          None \<Rightarrow> Inl Io_Error
        | Some contents \<Rightarrow> if contains contents ''[workspace]'' then Inr dir else find_root fs up
      else find_root fs up)"

definition find_workspace_root :: "host \<Rightarrow> fs \<Rightarrow> update_error + string" where
  "find_workspace_root host fs = then_do (ok_or (current_dir host) Io_Error) (\<lambda>d. find_root fs (ancestors d))"

definition version_word :: "nat \<Rightarrow> string \<Rightarrow> string option" where
  "version_word n out = (if n < length (split_whitespace out) then Some (normalize_version (split_whitespace out ! n)) else None)"

definition detect_local_node_build :: "host \<Rightarrow> fs \<Rightarrow> (string \<times> string) option" where
  "detect_local_node_build host fs =
     (case find_workspace_root host fs of
        Inl _ \<Rightarrow> None
      | Inr workspace_root \<Rightarrow>
          let built = path_join workspace_root ''target/release/antegen-node'' in
          if \<not> path_exists fs built then None
          else Option.bind (run_version host built fs) (\<lambda>out. Option.bind (version_word 1 out) (\<lambda>v. Some (built, v))))"

definition cargo_build_and_install_node :: "host \<Rightarrow> fs \<Rightarrow> (update_error + string) \<times> fs" where
  "cargo_build_and_install_node host fs =
     and_then (pure (find_workspace_root host fs) fs) (\<lambda>workspace_root fs.
     and_then (case cargo_build host workspace_root fs of (True, fs) \<Rightarrow> (Inr (), fs) | (False, fs) \<Rightarrow> (Inl CargoFailed, fs)) (\<lambda>_ fs.
     let built = path_join workspace_root ''target/release/antegen-node'' in
     if \<not> path_exists fs built then (Inl BinaryMissing, fs)
     else
       and_then (pure (then_do (ok_or (run_version host built fs) NoVersionOutput) (\<lambda>out. ok_or (version_word 1 out) NoVersionOutput)) fs) (\<lambda>ver fs.
       and_then (pure (versioned_node_binary_path host ver) fs) (\<lambda>path fs.
       and_then (pure (bin_dir host) fs) (\<lambda>dir fs.
       and_then (create_dir_all host dir fs) (\<lambda>_ fs.
       and_then (copy_executable host built path fs) (\<lambda>_. pure (Inr ver))))))))"

text \<open>Select a node binary: the link, then the recorded version.\<close>

definition activate_node :: "host \<Rightarrow> string \<Rightarrow> string \<Rightarrow> fs \<Rightarrow> (update_error + unit) \<times> fs" where
  "activate_node host ver path fs =
     and_then (pure (node_binary_path host) fs) (\<lambda>link fs.
     and_then (update_symlink host link path fs) (\<lambda>_.
       write_node_version host ver))"

text \<open>A node binary beside the running program or in the enclosing \<open>target\<close> directory.\<close>

definition node_candidates :: "string \<Rightarrow> string list" where
  "node_candidates exe =
     [with_file_name exe ''antegen-node'',
      case find (\<lambda>d. file_name d = Some ''target'') (tl (ancestors exe)) of
        Some d \<Rightarrow> path_join d ''release/antegen-node''
      | None \<Rightarrow> ''/nonexistent'']"

definition import_node_binary :: "host \<Rightarrow> fs \<Rightarrow> (update_error + unit) \<times> fs" where
  "import_node_binary host fs =
     and_then (pure (ok_or (current_exe host) Io_Error) fs) (\<lambda>exe fs.
     case find (path_exists fs) (node_candidates exe) of
       None \<Rightarrow> (Inr (), fs)
     | Some node_binary \<Rightarrow>
         and_then (pure (then_do (ok_or (run_version host node_binary fs) NoVersionOutput) (\<lambda>out.
             if split_whitespace out = [] then Inl NoVersionOutput else Inr (normalize_version (last (split_whitespace out))))) fs) (\<lambda>ver fs.
         and_then (pure (versioned_node_binary_path host ver) fs) (\<lambda>path fs.
         and_then (pure (bin_dir host) fs) (\<lambda>dir fs.
         and_then (create_dir_all host dir fs) (\<lambda>_ fs.
         and_then (copy_executable host node_binary path fs) (\<lambda>_.
           activate_node host ver path))))))"

text \<open>
  \<open>update_node\<close> and \<open>use_node_version\<close> up to the service: the version that was selected, if
  the command did not end before.
\<close>

definition update_node_files :: "host \<Rightarrow> string option \<Rightarrow> bool \<Rightarrow> fs \<Rightarrow> (update_error + string option) \<times> fs" where
  "update_node_files host v local fs =
     (if local then
        and_then (cargo_build_and_install_node host fs) (\<lambda>ver fs.
        and_then (pure (versioned_node_binary_path host ver) fs) (\<lambda>path fs.
        and_then (activate_node host ver path fs) (\<lambda>_. pure (Inr (Some ver)))))
      else
        let installed = (case get_installed_node_version host fs of
                           Some i \<Rightarrow> i
                         | None \<Rightarrow> (case read_node_version host fs of Some i \<Rightarrow> i | None \<Rightarrow> ''none'')) in
        and_then (pure (case v of
            Some v \<Rightarrow> Inr (normalize_version v)
          | None \<Rightarrow> (case fetch_latest_node_version (releases host) of
                      Inr l \<Rightarrow> Inr l | Inl _ \<Rightarrow> fetch_latest_version (releases host))) fs) (\<lambda>latest fs.
        if \<not> is_node_version_supported latest then (Inl (NotSupported latest), fs)
        else if v = None \<and> installed \<noteq> ''none'' \<and> \<not> version_less_than installed latest then (Inr None, fs)
        else
          and_then (ensure_node_downloaded host latest fs) (\<lambda>path fs.
          and_then (activate_node host latest path fs) (\<lambda>_. pure (Inr (Some latest))))))"

definition select_node_version :: "host \<Rightarrow> string \<Rightarrow> fs \<Rightarrow> (update_error + string) \<times> fs" where
  "select_node_version host v fs =
     (if v = ''local'' then
        and_then (pure (ok_or (detect_local_node_build host fs) NoLocalBuild) fs) (\<lambda>(built, ver) fs.
        and_then (pure (versioned_node_binary_path host ver) fs) (\<lambda>path fs.
        and_then (pure (bin_dir host) fs) (\<lambda>dir fs.
        and_then (create_dir_all host dir fs) (\<lambda>_ fs.
        and_then (copy_executable host built path fs) (\<lambda>_ fs.
        and_then (activate_node host ver path fs) (\<lambda>_. pure (Inr ver)))))))
      else
        let ver = normalize_version v in
        if \<not> is_node_version_supported ver then (Inl (NotSupported ver), fs)
        else
          and_then (ensure_node_downloaded host ver fs) (\<lambda>path fs.
          and_then (activate_node host ver path fs) (\<lambda>_. pure (Inr ver))))"

definition install_node_version :: "host \<Rightarrow> string option \<Rightarrow> bool \<Rightarrow> fs \<Rightarrow> (update_error + unit) \<times> fs" where
  "install_node_version host v local fs =
     (if local then and_then (cargo_build_and_install_node host fs) (\<lambda>_. pure (Inr ()))
      else
        and_then (pure (ok_or (map_option normalize_version v) VersionRequired) fs) (\<lambda>ver fs.
        if \<not> is_node_version_supported ver then (Inl (NotSupported ver), fs)
        else
          and_then (pure (versioned_node_binary_path host ver) fs) (\<lambda>path.
            download_version host (build_node_download_url host ver) ''antegen-node-update'' path)))"

definition download_latest_node :: "host \<Rightarrow> fs \<Rightarrow> (update_error + unit) \<times> fs" where
  "download_latest_node host fs =
     and_then (pure (fetch_latest_node_version (releases host)) fs) (\<lambda>latest fs.
     if \<not> is_node_version_supported latest then (Inl (NotSupported latest), fs)
     else
       and_then (ensure_node_downloaded host latest fs) (\<lambda>path. activate_node host latest path))"

text \<open>The installed node versions of a directory listing, those that are supported.\<close>

definition installed_nodes :: "string list \<Rightarrow> string list" where
  "installed_nodes names =
     concat (map (\<lambda>name. case strip_prefix name ''antegen-node-'' of
                    Some ver \<Rightarrow> if starts_with ver ''v'' \<and> is_node_version_supported ver then [ver] else []
                  | None \<Rightarrow> []) names)"

definition installed_clis :: "string list \<Rightarrow> string list" where
  "installed_clis names =
     concat (map (\<lambda>name. if starts_with name ''antegen-node-'' then []
                          else case strip_prefix name ''antegen-'' of
                            Some ver \<Rightarrow> if starts_with ver ''v'' then [ver] else []
                          | None \<Rightarrow> []) names)"

end
