(* ===== verification/Properties_Update.thy ===== *)
theory Properties_Update
  imports Cli_Update
begin

text \<open>
  The version manager: versions are read as they are written, selecting a version leaves both
  command line links on its binary and the node's link alone, and what the comparisons of
  versions miss.
\<close>

section \<open>Versions\<close>

definition version_text :: "version \<Rightarrow> string" where
  "version_text = (\<lambda>(a, b, c). ''v'' @ show_nat (unat a) @ ''.'' @ show_nat (unat b) @ ''.'' @ show_nat (unat c))"

lemma parse_u32_show: "parse_u32 (show_nat (unat (w :: u32))) = Some w"
  using parse_unsigned_show [of "unat w" 32] unsigned_less [of w, where 'a = nat] by (simp add: parse_u32_def)

lemma show_nat_no_dot: "CHR ''.'' \<notin> set (show_nat n)"
  using show_nat_no_sign [of "CHR ''.''" n] by auto

lemma parse_version_text: "parse_version (version_text v) = Some v"
  by (cases v)
     (simp add: version_text_def parse_version_def strip_prefix_def starts_with_def split_on_append split_on_free
        show_nat_no_dot parse_u32_show)

lemma version_less_than_text: "version_less_than (version_text a) (version_text b) \<longleftrightarrow> a < b"
  by (simp add: version_less_than_def parse_version_text)

lemma normalize_version_idem [simp]: "normalize_version (normalize_version v) = normalize_version v"
  by (simp add: normalize_version_def starts_with_def)

text \<open>A version that is not three numbers is never older than another, so no update leaves it.\<close>

lemma update_stuck_on_unparsed:
  "get_installed_version host fs = Some i \<Longrightarrow> parse_version i = None \<Longrightarrow> wanted_version host None = Inr latest \<Longrightarrow>
   update host None fs = (Inr (), fs)"
  by (simp add: update_def version_less_than_def pure_def and_then_def)

text \<open>The order of the version lists has a cycle.\<close>

lemma version_order_cycle:
  "version_before ''v10.0.0'' ''v9.0.0'' \<and> version_before ''v9.0.0'' ''v5-rc1'' \<and> version_before ''v5-rc1'' ''v10.0.0''"
proof -
  have p: "parse_version ''v10.0.0'' = Some (10, 0, 0)" "parse_version ''v9.0.0'' = Some (9, 0, 0)" "parse_version ''v5-rc1'' = None"
    by (simp_all add: parse_version_def strip_prefix_def starts_with_def parse_u32_def parse_unsigned_def parse_number_def
        digit_of_def)
  show ?thesis by (simp add: version_before_def p less_prod_def)
qed

section \<open>Steps on the file system\<close>

lemma and_then_Inr: "and_then r f = (Inr b, s) \<longleftrightarrow> (\<exists>a s1. r = (Inr a, s1) \<and> f a s1 = (Inr b, s))"
  by (auto simp: and_then_def split: prod.splits sum.splits)

lemma pure_Inr: "pure r s = (Inr a, s') \<longleftrightarrow> r = Inr a \<and> s' = s"
  by (auto simp: pure_def)

lemma permit_Inr: "permit host op act fs = (Inr u, fs') \<Longrightarrow> act fs = (Inr u, fs')"
  by (auto simp: permit_def split: if_splits)

lemmas step_simps = and_then_Inr pure_Inr

lemma create_dir_all_Inr: "create_dir_all host p fs = (Inr u, fs') \<Longrightarrow> fs' = fs"
  by (auto simp: create_dir_all_def dest: permit_Inr)

lemma update_symlink_Inr: "update_symlink host link target fs = (Inr u, fs') \<Longrightarrow> fs' = fs(link \<mapsto> Symlink target)"
  by (auto simp: update_symlink_def step_simps dest!: permit_Inr split: if_splits)

lemma in_home_Inr: "home_dir host = Some h \<Longrightarrow> in_home host p = Inr (path_join h p)"
  by (simp add: in_home_def ok_or_def)

lemmas path_defs = bin_dir_def binary_path_def antegenctl_symlink_path_def versioned_binary_path_def node_binary_path_def
  versioned_node_binary_path_def node_version_path_def

lemma link_cli_Inr:
  "link_cli host target fs = (Inr u, fs') \<Longrightarrow> home_dir host = Some h \<Longrightarrow>
   fs' = fs(path_join h ''.local/bin/antegen'' \<mapsto> Symlink target, path_join h ''.local/bin/antegenctl'' \<mapsto> Symlink target)"
  by (auto simp: link_cli_def step_simps path_defs in_home_Inr dest!: update_symlink_Inr)

lemma resolve_40: "resolve 40 fs p = (case fs p of Some (Symlink t) \<Rightarrow> resolve 39 fs t | _ \<Rightarrow> Some p)"
  using resolve.simps(2) [of 39 fs p] by simp

lemma path_exists_file: "fs p = Some (File c) \<Longrightarrow> path_exists fs p"
  by (simp add: path_exists_def resolve_40)

lemma path_exists_plain: "read_link fs p = None \<Longrightarrow> path_exists fs p \<longleftrightarrow> (\<exists>c. fs p = Some (File c))"
  by (auto simp: path_exists_def resolve_40 read_link_def split: option.splits fnode.splits)

lemma put_file_plain: "read_link fs p = None \<Longrightarrow> put_file p c fs = (Inr (), fs(p \<mapsto> File c))"
  by (auto simp: put_file_def resolve_40 read_link_def split: option.splits fnode.splits)

lemma read_link_upd: "read_link (fs(p := x)) q = (if q = p then (case x of Some (Symlink t) \<Rightarrow> Some t | _ \<Rightarrow> None) else read_link fs q)"
  by (simp add: read_link_def)

lemma copy_executable_Inr:
  "copy_executable host from to fs = (Inr u, fs') \<Longrightarrow> read_link fs to = None \<Longrightarrow> \<exists>c. fs' = fs(to \<mapsto> File c)"
  by (auto simp: copy_executable_def step_simps put_file_plain dest!: permit_Inr split: option.splits)

text \<open>The temporary file the download goes through.\<close>

definition temp_free :: "host \<Rightarrow> string \<Rightarrow> fs \<Rightarrow> string \<Rightarrow> bool" where
  "temp_free host name fs p \<longleftrightarrow> path_join (temp_dir host) name \<noteq> p \<and> read_link fs (path_join (temp_dir host) name) = None"

text \<open>A download that succeeds leaves the version's file, and touches nothing but it and the temporary file.\<close>

lemma download_version_Inr:
  assumes d: "download_version host url name path fs = (Inr u, fs')"
    and plain: "read_link fs path = None" and t: "temp_free host name fs path"
  shows "\<exists>c. fs' path = Some (File c)" and "q \<noteq> path \<Longrightarrow> q \<noteq> path_join (temp_dir host) name \<Longrightarrow> fs' q = fs q"
proof -
  let ?temp = "path_join (temp_dir host) name"
  have "fs' = fs \<and> path_exists fs path \<or> (\<exists>c b. fs' path = Some (File c) \<and> (\<forall>q. q \<noteq> path \<longrightarrow> q \<noteq> ?temp \<longrightarrow> fs' q = fs q))"
  proof (cases "path_exists fs path")
    case False
    then obtain temp_path fs1 where dl: "download_binary host url name fs = (Inr temp_path, fs1)"
      and inst: "install_binary_to host temp_path path fs1 = (Inr u, fs')"
      using d by (auto simp: download_version_def step_simps)
    from dl t obtain b where 1: "temp_path = ?temp" "fs1 = fs(?temp \<mapsto> File b)"
      by (auto simp: download_binary_def step_simps fs_write_def temp_free_def put_file_plain Let_def dest!: permit_Inr split: option.splits)
    then have "read_link fs1 path = None" using plain t by (simp add: read_link_upd temp_free_def)
    with inst obtain c where "fs' = (fs1(path \<mapsto> File c))(temp_path := None) \<or> fs' = fs1(path \<mapsto> File c)"
      by (auto simp: install_binary_to_def step_simps dest!: create_dir_all_Inr copy_executable_Inr split: if_splits)
    then show ?thesis using 1 t by (auto simp: temp_free_def)
  qed (use d in \<open>simp add: download_version_def\<close>)
  then show "\<exists>c. fs' path = Some (File c)" "q \<noteq> path \<Longrightarrow> q \<noteq> ?temp \<Longrightarrow> fs' q = fs q"
    using path_exists_plain [OF plain] by auto
qed

section \<open>File names\<close>

lemma split_on_not_Nil [simp]: "split_on c s \<noteq> []"
  by (induction s) (auto split: list.splits)

lemma split_on_sep: "split_on c (s @ c # t) = split_on c s @ split_on c t"
proof (induction s)
  case (Cons x s)
  then show ?case by (cases "split_on c s") auto
qed simp

lemma last_filter: "xs \<noteq> [] \<Longrightarrow> P (last xs) \<Longrightarrow> last (filter P xs) = last xs"
  by (induction xs rule: rev_induct) auto

text \<open>The last component of a path is its file name.\<close>

lemma file_name_last:
  assumes "CHR ''/'' \<notin> set n" and "n \<notin> {[], ''.'', ''..''}"
  shows "file_name (d @ ''/'' @ n) = Some n"
proof -
  have s: "split_on (CHR ''/'') (d @ ''/'' @ n) = split_on (CHR ''/'') d @ [n]"
    using assms(1) by (simp add: split_on_sep split_on_free)
  then have "n \<in> set (components (d @ ''/'' @ n))" using assms(2) by (simp add: components_def)
  moreover have "last (components (d @ ''/'' @ n)) = n"
    using s assms(2) last_filter [of "split_on (CHR ''/'') (d @ ''/'' @ n)"] by (simp add: components_def)
  ultimately show ?thesis using assms(2) by (auto simp: file_name_def)
qed

lemma versioned_name:
  assumes "CHR ''/'' \<notin> set v"
  shows "file_name (path_join h (''.local/bin/antegen-'' @ v)) = Some (''antegen-'' @ v)"
proof -
  obtain d where "path_join h (''.local/bin/antegen-'' @ v) = d @ ''/'' @ (''antegen-'' @ v)"
  proof (cases "h \<noteq> [] \<and> last h = CHR ''/''")
    case True
    then show thesis using that [of "h @ ''.local/bin''"] by (simp add: path_join_def)
  next
    case False
    then show thesis using that [of "h @ ''/.local/bin''"] by (auto simp: path_join_def)
  qed
  then show ?thesis using file_name_last [of "''antegen-'' @ v"] assms by simp
qed

lemma path_join_eq: "path_join h p = path_join h q \<longleftrightarrow> p = q"
  by (simp add: path_join_def)

text \<open>An unsupported node version is refused before anything is touched.\<close>

lemma unsupported_node_refused:
  assumes "\<not> is_node_version_supported (normalize_version v)"
  shows "v \<noteq> ''local'' \<Longrightarrow> select_node_version host v fs = (Inl (NotSupported (normalize_version v)), fs)"
    and "install_node_version host (Some v) False fs = (Inl (NotSupported (normalize_version v)), fs)"
    and "update_node_files host (Some v) False fs = (Inl (NotSupported (normalize_version v)), fs)"
  using assms
  by (simp_all add: select_node_version_def install_node_version_def update_node_files_def Let_def pure_def and_then_def ok_or_def)

text \<open>A failed second step of replacing a link leaves no link at all.\<close>

lemma interrupted_switch_loses_link:
  "path_exists fs link \<Longrightarrow> permits host (Op_Remove link) \<Longrightarrow> \<not> permits host (Op_Symlink link) \<Longrightarrow>
   update_symlink host link target fs = (Inl Io_Error, fs(link := None))"
  by (simp add: update_symlink_def permit_def and_then_def)

section \<open>A host\<close>

definition sample_host :: host where
  "sample_host = \<lparr>home_dir = Some ''/h'', temp_dir = ''/tmp'', current_dir = Some ''/h'', current_exe = Some ''/h/x'',
     dev_build = False, pkg_version = ''5.0.0'', platform = ''p'', path_var = None, releases = Some [''v5.0.1''],
     http_get = (\<lambda>_. Some ''binary''), permits = (\<lambda>_. True), run_version = (\<lambda>_ _. None),
     cargo_build = (\<lambda>_ fs. (False, fs))\<rparr>"

lemma sample_use: "\<exists>fs'. use_cli_version sample_host ''5.0.1'' Map.empty = (Inr (), fs')"
  by (simp add: use_cli_version_def Let_def normalize_version_def starts_with_def path_defs in_home_def ok_or_def sample_host_def
      pure_def and_then_def download_version_def path_exists_def resolve_40 download_binary_def fs_write_def permit_def
      put_file_def install_binary_to_def create_dir_all_def copy_executable_def read_to_string_def link_cli_def update_symlink_def
      read_link_def path_join_def)

section \<open>Properties\<close>

text \<open>
  Selecting a version of the command line tool: when the command succeeds, both links
  lead to the binary of exactly that version, which is there; the installed version reads back
  as the one asked for; nothing else changes, so the node's link and recorded version stay;
  and versions are compared as triples of numbers. The version has no slash, neither its file
  nor the temporary file is a link, and the two are different files.
\<close>

theorem use_selects_version:
  assumes "use_cli_version host v fs = (Inr (), fs')" and "v \<noteq> ''cargo''" and "home_dir host = Some h"
    and path: "path = path_join h (''.local/bin/antegen-'' @ normalize_version v)"
    and "read_link fs path = None" and "CHR ''/'' \<notin> set v" and "temp_free host ''antegen-update'' fs path"
  shows "read_link fs' (path_join h ''.local/bin/antegen'') = Some path \<and>
    read_link fs' (path_join h ''.local/bin/antegenctl'') = Some path \<and>
    (\<exists>c. fs' path = Some (File c)) \<and>
    get_installed_version host fs' = Some (normalize_version v) \<and>
    (\<forall>q. q \<notin> {path, path_join h ''.local/bin/antegen'', path_join h ''.local/bin/antegenctl'', path_join (temp_dir host) ''antegen-update''}
       \<longrightarrow> fs' q = fs q) \<and>
    (version_less_than (version_text a) (version_text b) \<longleftrightarrow> a < b)"
proof -
  from assms(1,2,3) path obtain fs1 where
    d: "download_version host (build_download_url host (normalize_version v)) ''antegen-update'' path fs = (Inr (), fs1)" and
    l: "link_cli host path fs1 = (Inr (), fs')"
    by (auto simp: use_cli_version_def Let_def step_simps path_defs in_home_Inr)
  note dl = download_version_Inr [OF d assms(5,7)]
  have fs': "fs' = fs1(path_join h ''.local/bin/antegen'' \<mapsto> Symlink path, path_join h ''.local/bin/antegenctl'' \<mapsto> Symlink path)"
    using link_cli_Inr [OF l assms(3)] .
  have ne: "path \<noteq> path_join h ''.local/bin/antegen''" "path \<noteq> path_join h ''.local/bin/antegenctl''"
    "path_join h ''.local/bin/antegen'' \<noteq> path_join h ''.local/bin/antegenctl''"
    using path by (simp_all add: path_join_eq)
  have "file_name path = Some (''antegen-'' @ normalize_version v)"
    using path versioned_name [of "normalize_version v" h] assms(6) by (simp add: normalize_version_def)
  then have "get_installed_version host fs' = Some (normalize_version v)"
    using ne fs' assms(3) by (simp add: get_installed_version_def path_defs in_home_Inr read_link_upd strip_prefix_def starts_with_def)
  then show ?thesis using dl fs' ne version_less_than_text by (auto simp: read_link_upd)
qed

theorem use_selects_version_witness:
  "\<exists>fs'. use_cli_version sample_host ''5.0.1'' Map.empty = (Inr (), fs') \<and>
     get_installed_version sample_host fs' = Some ''v5.0.1'' \<and>
     read_link fs' ''/h/.local/bin/antegenctl'' = Some ''/h/.local/bin/antegen-v5.0.1''"
proof -
  obtain fs' where u: "use_cli_version sample_host ''5.0.1'' Map.empty = (Inr (), fs')" using sample_use by blast
  have "get_installed_version sample_host fs' = Some ''v5.0.1'' \<and>
     read_link fs' ''/h/.local/bin/antegenctl'' = Some ''/h/.local/bin/antegen-v5.0.1''"
    using use_selects_version [OF u, of "''/h''" "''/h/.local/bin/antegen-v5.0.1''"]
    by (simp add: sample_host_def temp_free_def path_join_def normalize_version_def starts_with_def read_link_def)
  with u show ?thesis by blast
qed

end
