(* ===== verification/Reentrance.thy ===== *)
theory Reentrance
  imports Thread_Exec
begin

text \<open>
  \<open>programs/reentrance-test/src/lib.rs\<close>: the program a fiber calls to change the fibers of
  its own thread while the thread executes. Each instruction forwards the thread's signature
  to the fiber program and returns \<open>Signal::None\<close>. The address of the fiber program comes
  from an unchecked account: a call to any other program is the parameter \<open>other_program\<close>.
  How Anchor decodes an instruction's data is the parameter \<open>decode_reentrance\<close>; the
  accounts it takes by position, with the checks of their types in the order of the fields.
\<close>

section \<open>The program\<close>

definition REENTRANCE_PROGRAM_ID :: pubkey where
  "REENTRANCE_PROGRAM_ID = [219, 178, 177, 214, 28, 155, 227, 10, 78, 137, 34, 249, 51, 98, 255, 33,
     173, 219, 233, 14, 55, 53, 238, 202, 123, 242, 209, 134, 160, 64, 65, 102]"

datatype reentrance_error =
    Fiber_Failed error
  | Not_Signer
  | Not_Writable
  | Invalid_Program_Id
  | Not_Enough_Keys
  | Unknown_Instruction

datatype fiber_call =
    Call_update u8 "Instruction option" "u64 option" "pubkey list option"
  | Call_close
  | Call_swap

datatype reentrance_call =
    Cpi_update_fiber u8
  | Cpi_close_fiber
  | Cpi_swap_fiber

record reentrance_env =
  renv :: fiber_env
  decode_reentrance :: "bytes \<Rightarrow> reentrance_call option"
  other_program :: "pubkey \<Rightarrow> fiber_call \<Rightarrow> pubkey list \<Rightarrow> bank \<Rightarrow> error + bank"

text \<open>
  Anchor's account loading. An account listed twice has the privileges of both entries. The
  \<open>mut\<close> constraints run after every field is loaded.
\<close>

definition meta_signer :: "AccountMeta list \<Rightarrow> pubkey \<Rightarrow> bool" where
  "meta_signer metas k \<longleftrightarrow> list_ex (\<lambda>m. am_pubkey m = k \<and> is_signer m) metas"

definition meta_writable :: "AccountMeta list \<Rightarrow> pubkey \<Rightarrow> bool" where
  "meta_writable metas k \<longleftrightarrow> list_ex (\<lambda>m. am_pubkey m = k \<and> is_writable m) metas"

definition nth_key :: "AccountMeta list \<Rightarrow> nat \<Rightarrow> reentrance_error + pubkey" where
  "nth_key metas n = (if n < length metas then Inr (am_pubkey (metas ! n)) else Inl Not_Enough_Keys)"

definition signer_key :: "AccountMeta list \<Rightarrow> nat \<Rightarrow> reentrance_error + pubkey" where
  "signer_key metas n =
     then_do (nth_key metas n) (\<lambda>k. then_do (require (meta_signer metas k) Not_Signer) (\<lambda>_. Inr k))"

definition writable_keys :: "AccountMeta list \<Rightarrow> pubkey list \<Rightarrow> reentrance_error + unit" where
  "writable_keys metas ks = require (list_all (meta_writable metas) ks) Not_Writable"

record CpiUpdateFiber =
  cu_thread :: pubkey
  cu_fiber :: pubkey
  cu_fiber_program :: pubkey
  cu_system_program :: pubkey

record CpiCloseFiber =
  cc_thread :: pubkey
  cc_fiber :: pubkey
  cc_fiber_program :: pubkey

record CpiSwapFiber =
  cs_thread :: pubkey
  cs_target :: pubkey
  cs_source :: pubkey
  cs_fiber_program :: pubkey

definition try_accounts_update :: "AccountMeta list \<Rightarrow> reentrance_error + CpiUpdateFiber" where
  "try_accounts_update metas =
     then_do (signer_key metas 0) (\<lambda>thread.
     then_do (nth_key metas 1) (\<lambda>fiber.
     then_do (nth_key metas 2) (\<lambda>fiber_program.
     then_do (nth_key metas 3) (\<lambda>system_program.
     then_do (require (system_program = SYSTEM_PROGRAM_ID) Invalid_Program_Id) (\<lambda>_.
     then_do (writable_keys metas [thread, fiber]) (\<lambda>_.
       Inr \<lparr>cu_thread = thread, cu_fiber = fiber, cu_fiber_program = fiber_program,
            cu_system_program = system_program\<rparr>))))))"

definition try_accounts_close :: "AccountMeta list \<Rightarrow> reentrance_error + CpiCloseFiber" where
  "try_accounts_close metas =
     then_do (signer_key metas 0) (\<lambda>thread.
     then_do (nth_key metas 1) (\<lambda>fiber.
     then_do (nth_key metas 2) (\<lambda>fiber_program.
     then_do (writable_keys metas [thread, fiber]) (\<lambda>_.
       Inr \<lparr>cc_thread = thread, cc_fiber = fiber, cc_fiber_program = fiber_program\<rparr>))))"

definition try_accounts_swap :: "AccountMeta list \<Rightarrow> reentrance_error + CpiSwapFiber" where
  "try_accounts_swap metas =
     then_do (signer_key metas 0) (\<lambda>thread.
     then_do (nth_key metas 1) (\<lambda>target.
     then_do (nth_key metas 2) (\<lambda>source.
     then_do (nth_key metas 3) (\<lambda>fiber_program.
     then_do (writable_keys metas [thread, target, source]) (\<lambda>_.
       Inr \<lparr>cs_thread = thread, cs_target = target, cs_source = source, cs_fiber_program = fiber_program\<rparr>)))))"

text \<open>The cross-program call: to the fiber program, whose effect is the second argument, or elsewhere.\<close>

definition fiber_cpi :: "reentrance_env \<Rightarrow> pubkey \<Rightarrow> fiber_call \<Rightarrow> pubkey list \<Rightarrow> (bank \<Rightarrow> error + bank) \<Rightarrow> bank \<Rightarrow> reentrance_error + bank" where
  "fiber_cpi env pid call accounts run b =
     (case (if pid = FIBER_PROGRAM_ID then run b else other_program env pid call accounts b) of
        Inl e \<Rightarrow> Inl (Fiber_Failed e) | Inr b' \<Rightarrow> Inr b')"

definition cpi_update_fiber :: "reentrance_env \<Rightarrow> CpiUpdateFiber \<Rightarrow> u8 \<Rightarrow> bank \<Rightarrow> reentrance_error + bank \<times> bytes" where
  "cpi_update_fiber env accs fiber_index b =
     (let simple_ix = \<lparr>program_id = cu_thread accs, ix_accounts = [], ix_data = [0xAB, 0xCD]\<rparr> in
      then_do (fiber_cpi env (cu_fiber_program accs) (Call_update fiber_index (Some simple_ix) (Some 42) None)
          [cu_thread accs, cu_fiber accs, cu_system_program accs]
          (update_fiber (renv env) [cu_thread accs] (cu_thread accs) (cu_fiber accs) fiber_index (Some simple_ix) (Some 42) None) b) (\<lambda>b1.
        Inr (b1, [0])))"

definition cpi_close_fiber :: "reentrance_env \<Rightarrow> CpiCloseFiber \<Rightarrow> bank \<Rightarrow> reentrance_error + bank \<times> bytes" where
  "cpi_close_fiber env accs b =
     then_do (fiber_cpi env (cc_fiber_program accs) Call_close [cc_thread accs, cc_fiber accs]
        (close_fiber (renv env) [cc_thread accs] (cc_thread accs) (cc_fiber accs)) b) (\<lambda>b1.
       Inr (b1, [0]))"

definition cpi_swap_fiber :: "reentrance_env \<Rightarrow> CpiSwapFiber \<Rightarrow> bank \<Rightarrow> reentrance_error + bank \<times> bytes" where
  "cpi_swap_fiber env accs b =
     then_do (fiber_cpi env (cs_fiber_program accs) Call_swap [cs_thread accs, cs_target accs, cs_source accs]
        (swap_fiber (renv env) [cs_thread accs] (cs_thread accs) (cs_target accs) (cs_source accs)) b) (\<lambda>b1.
       Inr (b1, [0]))"

text \<open>The entry point, with the return data the runtime hands back to the caller.\<close>

definition reentrance_test :: "reentrance_env \<Rightarrow> Instruction \<Rightarrow> bank \<Rightarrow> reentrance_error + bank \<times> (pubkey \<times> bytes) option" where
  "reentrance_test env ix b =
     then_do (ok_or (decode_reentrance env (ix_data ix)) Unknown_Instruction) (\<lambda>call.
     then_do (case call of
         Cpi_update_fiber i \<Rightarrow> then_do (try_accounts_update (ix_accounts ix)) (\<lambda>accs. cpi_update_fiber env accs i b)
       | Cpi_close_fiber \<Rightarrow> then_do (try_accounts_close (ix_accounts ix)) (\<lambda>accs. cpi_close_fiber env accs b)
       | Cpi_swap_fiber \<Rightarrow> then_do (try_accounts_swap (ix_accounts ix)) (\<lambda>accs. cpi_swap_fiber env accs b)) (\<lambda>(b1, data).
       Inr (b1, Some (REENTRANCE_PROGRAM_ID, data))))"

text \<open>
  What the runtime promises of an invocation of this program: when it succeeds, it did what
  the program's entry point does.
\<close>

definition runs_reentrance :: "thread_env \<Rightarrow> reentrance_env \<Rightarrow> bool" where
  "runs_reentrance tenv env \<longleftrightarrow> renv env = fenv tenv \<and>
     (\<forall>ix accs sg b b' ret. program_id ix = REENTRANCE_PROGRAM_ID \<longrightarrow>
        invoke_signed tenv ix accs sg b = Inr (b', ret) \<longrightarrow> reentrance_test env ix b = Inr (b', ret))"

section \<open>What the calls do\<close>

lemma fiber_cpi_Inr [res_simps]:
  "fiber_cpi env pid call accounts run b = Inr b' \<longleftrightarrow>
     (if pid = FIBER_PROGRAM_ID then run b = Inr b' else other_program env pid call accounts b = Inr b')"
  by (simp add: fiber_cpi_def split: sum.splits)

lemma try_accounts_close_Inr:
  assumes "try_accounts_close metas = Inr accs"
  shows "3 \<le> length metas" and "accs = \<lparr>cc_thread = am_pubkey (metas ! 0), cc_fiber = am_pubkey (metas ! 1),
    cc_fiber_program = am_pubkey (metas ! 2)\<rparr>" and "meta_signer metas (am_pubkey (metas ! 0))"
  using assms
  by (auto simp: try_accounts_close_def signer_key_def nth_key_def res_simps split: if_splits)

text \<open>Every call that succeeds returns \<open>[0]\<close>, the encoding of the first variant of \<open>Signal\<close>.\<close>

lemma reentrance_return:
  "reentrance_test env ix b = Inr (b', ret) \<Longrightarrow> ret = Some (REENTRANCE_PROGRAM_ID, [0])"
  by (cases "decode_reentrance env (ix_data ix)"; cases "the (decode_reentrance env (ix_data ix))")
    (auto simp: reentrance_test_def cpi_update_fiber_def cpi_close_fiber_def cpi_swap_fiber_def Let_def res_simps)

lemma reentrance_signal:
  assumes "runs_reentrance tenv env" and "program_id ix = REENTRANCE_PROGRAM_ID"
    and "try_from_slice_signal tenv [0] = Some Signal_None" and "invoke_signed tenv ix accs sg b = Inr (b', ret)"
  shows "parse_signal tenv ix ret = Signal_None"
proof -
  have "reentrance_test env ix b = Inr (b', ret)" using assms unfolding runs_reentrance_def by blast
  from reentrance_return [OF this] assms show ?thesis by (simp add: parse_signal_def)
qed

lemma reentrance_close:
  assumes "reentrance_test env ix b = Inr (b', ret)" and "decode_reentrance env (ix_data ix) = Some Cpi_close_fiber"
    and "ix_accounts ix = t # k # p # rest" and "am_pubkey p = FIBER_PROGRAM_ID"
  shows "close_fiber (renv env) [am_pubkey t] (am_pubkey t) (am_pubkey k) b = Inr b'"
  using assms
  by (auto simp: reentrance_test_def cpi_close_fiber_def res_simps dest!: try_accounts_close_Inr(2))

text \<open>Lamports: a call to the fiber program moves them between the thread and the fibers it names.\<close>

lemma write_case_lamports:
  "(case r of Legacy s \<Rightarrow> write_legacy env k (f s) b | V1 s \<Rightarrow> write_versioned env k (g s) b) = Inr b1 \<Longrightarrow>
     lamports (b1 j) = lamports (b j)"
  by (cases r) (auto simp: write_lamports)

lemma swap_fiber_total:
  assumes "swap_fiber env sg t target source b = Inr b'" and "source \<noteq> t" and "finite A" "source \<in> A" "t \<in> A"
  shows "total A b' = total A b"
proof -
  obtain b1 where b1: "\<And>j. lamports (b1 j) = lamports (b j)" and sw: "sweep_fiber_lamports source t b1 = Inr b'"
    using assms(1) unfolding swap_fiber_def Let_def then_do_eq_Inr
    by (elim exE conjE) (rule that, rule write_case_lamports, assumption+)
  from sweep_total [OF sw assms(2-5)] total_same_lamports [of b1 b, OF b1] show ?thesis by simp
qed

text \<open>
  Every account of the set that the call names keeps the total, whichever of the three calls
  it is, when the call goes to the fiber program.
\<close>

lemma reentrance_total:
  assumes "borsh_laws (renv env)" and "system_laws (renv env)" and "reentrance_test env ix b = Inr (b', ret)"
    and metas: "ix_accounts ix = m # ms" "am_pubkey m \<notin> am_pubkey ` set ms"
    and A: "finite A" "am_pubkey ` set (ix_accounts ix) \<subseteq> A"
    and other: "\<And>pid call accs c c'. pid \<noteq> FIBER_PROGRAM_ID \<Longrightarrow> other_program env pid call accs c = Inr c' \<Longrightarrow> total A c' = total A c"
  shows "total A b' = total A b"
proof -
  have mem: "am_pubkey (ix_accounts ix ! n) \<in> A" if "n < length (ix_accounts ix)" for n
    using that A(2) by (auto dest: nth_mem)
  have ne: "am_pubkey (ix_accounts ix ! Suc n) \<noteq> am_pubkey (ix_accounts ix ! 0)" if "Suc n < length (ix_accounts ix)" for n
    using that metas by (auto simp: image_iff dest!: nth_mem)
  obtain call where call: "decode_reentrance env (ix_data ix) = Some call"
    using assms(3) by (auto simp: reentrance_test_def res_simps)
  show ?thesis
  proof (cases call)
    case (Cpi_update_fiber i)
    with assms(3) call other show ?thesis
      by (auto simp: reentrance_test_def cpi_update_fiber_def Let_def res_simps split: if_splits
          intro: total_same_lamports [OF update_fiber_lamports [OF assms(1,2)]])
  next
    case Cpi_close_fiber
    with assms(3) call obtain accs where accs: "try_accounts_close (ix_accounts ix) = Inr accs"
      and cpi: "if cc_fiber_program accs = FIBER_PROGRAM_ID
        then close_fiber (renv env) [cc_thread accs] (cc_thread accs) (cc_fiber accs) b = Inr b'
        else other_program env (cc_fiber_program accs) Call_close [cc_thread accs, cc_fiber accs] b = Inr b'"
      by (auto simp: reentrance_test_def cpi_close_fiber_def res_simps)
    note a = try_accounts_close_Inr [OF accs]
    have "am_pubkey (ix_accounts ix ! 0) \<in> A" "am_pubkey (ix_accounts ix ! Suc 0) \<in> A"
      "am_pubkey (ix_accounts ix ! Suc 0) \<noteq> am_pubkey (ix_accounts ix ! 0)"
      using a(1) by (intro mem ne, linarith)+
    with cpi A(1) other show ?thesis
      by (auto simp: a(2) split: if_splits intro: close_fiber_total)
  next
    case Cpi_swap_fiber
    with assms(3) call obtain accs where accs: "try_accounts_swap (ix_accounts ix) = Inr accs"
      and cpi: "if cs_fiber_program accs = FIBER_PROGRAM_ID
        then swap_fiber (renv env) [cs_thread accs] (cs_thread accs) (cs_target accs) (cs_source accs) b = Inr b'
        else other_program env (cs_fiber_program accs) Call_swap [cs_thread accs, cs_target accs, cs_source accs] b = Inr b'"
      by (auto simp: reentrance_test_def cpi_swap_fiber_def res_simps)
    have a: "4 \<le> length (ix_accounts ix)" "cs_thread accs = am_pubkey (ix_accounts ix ! 0)"
      "cs_source accs = am_pubkey (ix_accounts ix ! 2)"
      using accs by (auto simp: try_accounts_swap_def signer_key_def nth_key_def res_simps split: if_splits)
    have "am_pubkey (ix_accounts ix ! 0) \<in> A" "am_pubkey (ix_accounts ix ! Suc 1) \<in> A"
      "am_pubkey (ix_accounts ix ! Suc 1) \<noteq> am_pubkey (ix_accounts ix ! 0)"
      using a(1) by (intro mem ne, linarith)+
    with cpi A(1) other show ?thesis
      by (auto simp: a(2,3) numeral_2_eq_2 split: if_splits intro: swap_fiber_total)
  qed
qed

end
