(* ===== verification/Properties_Reentrance.thy ===== *)
theory Properties_Reentrance
  imports Properties_Exec Reentrance
begin

text \<open>
  The thread program, the fiber program and a program that calls back into the fiber program,
  composed: what an execution leaves behind when its fiber closes a fiber of the same thread.
\<close>

section \<open>A store without the fiber of a listed index\<close>

lemma settle_fibers:
  assumes "settle ea cfg tsr forgo start b = Inr b'"
  shows "acc_data (b' k) = acc_data (b k)"
proof -
  obtain p where "distribute_payments (ea_thread ea) (ea_executor ea) (ea_admin ea) p b = Inr b'"
    using assms by (auto elim: settle_Inr)
  then show ?thesis
    by (auto elim!: distribute_payments_Inr simp: transfer_lamports_frame)
qed

lemma missing_fiber_no_exec:
  assumes "fibers (fenv env) b (fiber_at_index env (ea_thread ea) cur) = None" and "\<not> has_nonce_account th"
    and "th_fiber_signal th \<noteq> Close"
  shows "thread_exec env signers ea clock forgo cur rem cfg th b \<noteq> Inr r"
proof
  assume ok: "thread_exec env signers ea clock forgo cur rem cfg th b = Inr r"
  obtain th' b' where r: "r = (th', b')" by (cases r)
  from thread_exec_cases [OF ok [unfolded r]] assms(3) obtain th1 b1 tsr ix b2 ret signal where
    e: "executed env signers ea clock forgo cur rem cfg th b th1 b1 tsr ix b2 ret signal th' b'" by auto
  then have "b1 = b"
    using assms(2) by (auto simp: executed_def advance_nonce_if_required_def has_nonce_account_def split: if_splits)
  with e assms(1) show False
    by (auto simp: executed_def load_fiber_instruction_def res_simps fibers_def split: sum.splits)
qed

lemma missing_fiber_no_close:
  assumes "borsh_laws (fenv env)" and "i \<in> set (th_fiber_ids th)" and "fibers (fenv env) b (fiber_pubkey (fenv env) key i) = None"
  shows "thread_close env signers a close_to key fp accs th b \<noteq> Inr b'"
proof
  assume "thread_close env signers a close_to key fp accs th b = Inr b'"
  then obtain b1 where "close_fibers env key fp accs (th_fiber_ids th) b = Inr ([], b1)"
    by (auto simp: thread_close_def res_simps)
  then have each: "close_each (close_fiber (fenv env) [key] key) accs b = Inr b1"
    and ms: "image_mset (fiber_pubkey (fenv env) key) (mset (th_fiber_ids th)) = mset accs"
    by (auto dest: close_fibers_Inr)
  have "fiber_pubkey (fenv env) key i \<in> set accs"
    using assms(2) ms by (metis image_eqI set_image_mset set_mset_mset)
  then show False
    using fiber_closing.close_each_owner [OF fiber_closing_close_fiber [OF assms(1)] each] assms(3)
    by (auto simp del: fibers_Some)
qed

section \<open>A fiber that closes another\<close>


text \<open>
  The sample thread's fiber 0 closes its fiber 1: the environment runs the program for every
  instruction that names it.
\<close>

definition reentrance_sample :: reentrance_env where
  "reentrance_sample = \<lparr>renv = sample_fiber_env,
     decode_reentrance = (\<lambda>bs. if bs = [1] then Some Cpi_close_fiber else None),
     other_program = (\<lambda>pid call accs b. Inl (CpiFailed 1))\<rparr>"

definition reentrant_env :: thread_env where
  "reentrant_env = sample_env\<lparr>
     invoke_signed := (\<lambda>ix accs sg b. if program_id ix = REENTRANCE_PROGRAM_ID
       then (case reentrance_test reentrance_sample ix b of Inr r \<Rightarrow> Inr r | Inl _ \<Rightarrow> Inl (CpiFailed 0)) else Inr (b, None)),
     try_from_slice_signal := (\<lambda>bs. if bs = [0] then Some Signal_None else None)\<rparr>"

definition closing_ix :: Instruction where
  "closing_ix = \<lparr>program_id = REENTRANCE_PROGRAM_ID,
     ix_accounts = [\<lparr>am_pubkey = sample_key, is_signer = True, is_writable = True\<rparr>,
                    \<lparr>am_pubkey = fiber_pubkey sample_fiber_env sample_key 1, is_signer = False, is_writable = True\<rparr>,
                    \<lparr>am_pubkey = FIBER_PROGRAM_ID, is_signer = False, is_writable = False\<rparr>],
     ix_data = [1]\<rparr>"

definition closing_fiber :: FiberVersionedState where
  "closing_fiber = sample_v1 sample_key 0\<lparr>fv_compiled_instruction :=
     enc_compiled (projr (compile_instruction (\<lambda>ks. ks) closing_ix))\<rparr>"

definition closing_bank :: bank where
  "closing_bank = sample_exec_bank(fiber_pubkey sample_fiber_env sample_key 0 := \<lparr>lamports = 50,
     acc_data = [2, 2, 2, 2, 2, 2, 2, 2] @ enc_versioned closing_fiber, acc_owner = FIBER_PROGRAM_ID\<rparr>)"

definition closing_run :: "error + Thread \<times> bank" where
  "closing_run = thread_exec reentrant_env [[40]] sample_ea (sample_clock 3) False 0 [] sample_config
     (sample_thread (Interval 60 False 0) (Timed 0 0)) closing_bank"

lemma reentrant_env_runs: "runs_reentrance reentrant_env reentrance_sample"
  by (auto simp: runs_reentrance_def reentrant_env_def reentrance_sample_def split: sum.splits if_splits)

lemma closing_run_ok: "\<not> isl closing_run"
  by code_simp

lemma closing_fiber_ix:
  "fibers sample_fiber_env closing_bank (ea_fiber sample_ea) = Some (V1 closing_fiber)"
  "get_instruction sample_fiber_env (V1 closing_fiber) [40] = Inr closing_ix"
  by code_simp+


end
