(* ===== verification/Config_File.thy ===== *)
theory Config_File
  imports Client_Start Properties_Update
begin

text \<open>
  The configuration file: \<open>ClientConfig::load\<close> and \<open>save\<close> (\<open>crates/client/src/config.rs\<close>), the
  \<open>config\<close> commands of the command line tools (\<open>cli/core/src/commands/config.rs\<close>) and the key
  file helpers of \<open>cli/core/src/commands/mod.rs\<close>. The TOML and JSON encodings and the random
  key are parameters; printing, permissions and ownership of the written file are left out.
\<close>

section \<open>Data\<close>

record config_host =
  ch_host :: host
  config_dir :: "string option"
  toml_from_str :: "string \<Rightarrow> ClientConfig option"
  toml_to_string :: "ClientConfig \<Rightarrow> string option"
  fresh_keypair :: bytes
  keypair_json :: "bytes \<Rightarrow> string"
  keypair_of_json :: "string \<Rightarrow> bytes option"
  keypair_pubkey :: "bytes \<Rightarrow> pubkey"

datatype config_failure =
    Config_Exists
  | Config_Io update_error
  | Read_Failed
  | Parse_Failed
  | Serialize_Failed
  | Config_Invalid config_error
  | No_Home_Dir
  | No_Config_Dir
  | Keypair_Unreadable
  | No_Changes
  | Index_Panic

text \<open>What the encodings promise.\<close>

definition config_laws :: "config_host \<Rightarrow> bool" where
  "config_laws h \<longleftrightarrow>
     (\<forall>c s. toml_to_string h c = Some s \<longrightarrow> toml_from_str h s = Some c) \<and>
     (\<forall>k. keypair_of_json h (keypair_json h k) = Some k)"

text \<open>A step on the file system as a step of a configuration command.\<close>

definition config_io :: "(update_error + 'a) \<times> fs \<Rightarrow> (config_failure + 'a) \<times> fs" where
  "config_io r = (case r of (Inl e, fs) \<Rightarrow> (Inl (Config_Io e), fs) | (Inr a, fs) \<Rightarrow> (Inr a, fs))"

section \<open>Loading and saving\<close>

definition config_load :: "config_host \<Rightarrow> string \<Rightarrow> fs \<Rightarrow> config_failure + ClientConfig" where
  "config_load h path fs =
     then_do (ok_or (read_to_string fs path) Read_Failed) (\<lambda>content.
     then_do (ok_or (toml_from_str h content) Parse_Failed) (\<lambda>config.
     then_do (map_sum Config_Invalid id (validate config)) (\<lambda>_.
       Inr config)))"

definition config_save :: "config_host \<Rightarrow> ClientConfig \<Rightarrow> string \<Rightarrow> fs \<Rightarrow> (config_failure + unit) \<times> fs" where
  "config_save h config path fs =
     (case toml_to_string h config of
        None \<Rightarrow> (Inl Serialize_Failed, fs)
      | Some content \<Rightarrow> config_io (fs_write (ch_host h) path content fs))"

section \<open>Paths and keys\<close>

definition default_config_path :: "config_host \<Rightarrow> config_failure + string" where
  "default_config_path h =
     map_sum id (\<lambda>p. path_join (path_join p ''antegen'') ''antegen.toml'') (ok_or (config_dir h) No_Config_Dir)"

definition expand_tilde :: "config_host \<Rightarrow> string \<Rightarrow> config_failure + string" where
  "expand_tilde h path =
     (case strip_prefix path ''~/'' of
        Some stripped \<Rightarrow> map_sum id (\<lambda>home. path_join home stripped) (ok_or (home_dir (ch_host h)) No_Home_Dir)
      | None \<Rightarrow> Inr path)"

text \<open>\<open>Path::parent\<close>.\<close>

definition trim_slashes :: "string \<Rightarrow> string" where
  "trim_slashes p = rev (dropWhile (\<lambda>c. c = CHR ''/'') (rev p))"

definition parent :: "string \<Rightarrow> string option" where
  "parent p =
     (let q = trim_slashes p; d = rev (dropWhile (\<lambda>c. c \<noteq> CHR ''/'') (rev q)) in
      if q = [] then None
      else if d \<noteq> [] \<and> trim_slashes d = [] then Some ''/'' else Some (trim_slashes d))"

definition create_parent :: "config_host \<Rightarrow> string \<Rightarrow> fs \<Rightarrow> (config_failure + unit) \<times> fs" where
  "create_parent h path fs =
     (case parent path of
        None \<Rightarrow> (Inr (), fs)
      | Some d \<Rightarrow> if d = [] then (Inr (), fs) else config_io (create_dir_all (ch_host h) d fs))"

definition read_keypair :: "config_host \<Rightarrow> string \<Rightarrow> fs \<Rightarrow> pubkey option" where
  "read_keypair h path fs =
     map_option (keypair_pubkey h) (Option.bind (read_to_string fs path) (keypair_of_json h))"

definition ensure_keypair_exists :: "config_host \<Rightarrow> string \<Rightarrow> fs \<Rightarrow> (config_failure + pubkey) \<times> fs" where
  "ensure_keypair_exists h path fs =
     (if path_exists fs path then (ok_or (read_keypair h path fs) Keypair_Unreadable, fs)
      else
        and_then (create_parent h path fs) (\<lambda>_ fs.
        and_then (config_io (fs_write (ch_host h) path (keypair_json h (fresh_keypair h)) fs)) (\<lambda>_.
          pure (Inr (keypair_pubkey h (fresh_keypair h))))))"

section \<open>Commands\<close>

definition is_quote :: "char \<Rightarrow> bool" where
  "is_quote c \<longleftrightarrow> c = CHR 0x22 \<or> c = CHR 0x27"

definition strip_quotes :: "string \<Rightarrow> string" where
  "strip_quotes s = rev (dropWhile is_quote (rev (dropWhile is_quote s)))"

text \<open>\<open>endpoints[0].url = \<dots>\<close>, which panics on an empty list.\<close>

definition set_first_url :: "string \<Rightarrow> ClientConfig \<Rightarrow> config_failure + ClientConfig" where
  "set_first_url url config =
     (case rpc_endpoints config of
        [] \<Rightarrow> Inl Index_Panic
      | e # es \<Rightarrow> Inr (config\<lparr>rpc_endpoints := e\<lparr>re_url := url\<rparr> # es\<rparr>))"

definition set_keypair_path :: "string \<Rightarrow> ClientConfig \<Rightarrow> ClientConfig" where
  "set_keypair_path p config = config\<lparr>cc_executor := (cc_executor config)\<lparr>keypair_path := p\<rparr>\<rparr>"

definition set_storage_path :: "string \<Rightarrow> ClientConfig \<Rightarrow> ClientConfig" where
  "set_storage_path p config = config\<lparr>observability := (observability config)\<lparr>storage_path := p\<rparr>\<rparr>"

text \<open>\<open>if let Some(v) = arg\<close>.\<close>

definition with_arg :: "'a option \<Rightarrow> ('a \<Rightarrow> 'c \<Rightarrow> 'c) \<Rightarrow> 'c \<Rightarrow> 'c" where
  "with_arg arg f c = (case arg of None \<Rightarrow> c | Some v \<Rightarrow> f v c)"

definition config_file_init :: "config_host \<Rightarrow> string \<Rightarrow> string option \<Rightarrow> string option \<Rightarrow> string option \<Rightarrow> bool \<Rightarrow> fs \<Rightarrow> (config_failure + pubkey) \<times> fs" where
  "config_file_init h output rpc keypair storage force fs =
     (if path_exists fs output \<and> \<not> force then (Inl Config_Exists, fs)
      else
        and_then (create_parent h output fs) (\<lambda>_ fs.
        and_then (pure (case rpc of
                          Some url \<Rightarrow> set_first_url (strip_quotes url) (ClientConfig_default THREAD_PROGRAM_ID)
                        | None \<Rightarrow> Inr (ClientConfig_default THREAD_PROGRAM_ID)) fs) (\<lambda>c0 fs.
        let config = with_arg storage (set_storage_path \<circ> strip_quotes) (with_arg keypair (set_keypair_path \<circ> strip_quotes) c0) in
        and_then (config_save h config output fs) (\<lambda>_ fs.
        and_then (pure (expand_tilde h (keypair_path (cc_executor config))) fs) (\<lambda>keypair_path.
          ensure_keypair_exists h keypair_path)))))"

record config_args =
  a_rpc :: "string option"
  a_keypair_path :: "string option"
  a_forgo_commission :: "bool option"
  a_commitment :: "string option"
  a_max_threads :: "nat option"
  a_cache_max_capacity :: "u64 option"
  a_grace_period :: "u64 option"
  a_eviction_buffer :: "u64 option"
  a_thread_process_delay :: "u64 option"
  a_observability_enabled :: "bool option"
  a_observability_storage_path :: "string option"
  a_tpu_enabled :: "bool option"
  a_tpu_num_connections :: "nat option"
  a_tpu_leaders_fanout :: "nat option"

definition no_changes :: "config_args \<Rightarrow> bool" where
  "no_changes a \<longleftrightarrow> a_rpc a = None \<and> a_keypair_path a = None \<and> a_forgo_commission a = None \<and> a_commitment a = None \<and>
     a_max_threads a = None \<and> a_cache_max_capacity a = None \<and> a_grace_period a = None \<and> a_eviction_buffer a = None \<and>
     a_thread_process_delay a = None \<and> a_observability_enabled a = None \<and> a_observability_storage_path a = None \<and>
     a_tpu_enabled a = None \<and> a_tpu_num_connections a = None \<and> a_tpu_leaders_fanout a = None"

definition change_balancer :: "config_args \<Rightarrow> LoadBalancerConfigFile \<Rightarrow> LoadBalancerConfigFile" where
  "change_balancer a l =
     with_arg (a_thread_process_delay a) (\<lambda>v l. l\<lparr>lf_thread_process_delay := v\<rparr>)
     (with_arg (a_eviction_buffer a) (\<lambda>v l. l\<lparr>lf_eviction_buffer := v\<rparr>)
     (with_arg (a_grace_period a) (\<lambda>v l. l\<lparr>lf_grace_period := v\<rparr>) l))"

definition change_tpu :: "config_args \<Rightarrow> TpuConfig \<Rightarrow> TpuConfig" where
  "change_tpu a t =
     with_arg (a_tpu_leaders_fanout a) (\<lambda>v t. t\<lparr>leaders_fanout := v\<rparr>)
     (with_arg (a_tpu_num_connections a) (\<lambda>v t. t\<lparr>num_connections := v\<rparr>)
     (with_arg (a_tpu_enabled a) (\<lambda>v t. t\<lparr>tpu_enabled := v\<rparr>) t))"

text \<open>Every change but that of the endpoint; the fields are different ones, so their order does not matter.\<close>

definition change_fields :: "config_args \<Rightarrow> ClientConfig \<Rightarrow> ClientConfig" where
  "change_fields a c =
     with_arg (a_observability_storage_path a) (set_storage_path \<circ> strip_quotes)
     (with_arg (a_observability_enabled a) (\<lambda>v c. c\<lparr>observability := (observability c)\<lparr>ob_enabled := v\<rparr>\<rparr>)
     (with_arg (a_cache_max_capacity a) (\<lambda>v c. c\<lparr>max_capacity := v\<rparr>)
     (with_arg (a_max_threads a) (\<lambda>v c. c\<lparr>max_concurrent_threads := v\<rparr>)
     (with_arg (a_commitment a) (\<lambda>v c. c\<lparr>datasources := (datasources c)\<lparr>commitment := strip_quotes v\<rparr>\<rparr>)
     (with_arg (a_forgo_commission a) (\<lambda>v c. c\<lparr>cc_executor := (cc_executor c)\<lparr>forgo_commission := v\<rparr>\<rparr>)
     (with_arg (a_keypair_path a) (set_keypair_path \<circ> strip_quotes)
        (c\<lparr>cc_load_balancer := change_balancer a (cc_load_balancer c), tpu := change_tpu a (tpu c)\<rparr>)))))))"

definition config_set :: "config_host \<Rightarrow> string \<Rightarrow> config_args \<Rightarrow> fs \<Rightarrow> (config_failure + unit) \<times> fs" where
  "config_set h path a fs =
     and_then (pure (config_load h path fs) fs) (\<lambda>config fs.
     and_then (pure (case a_rpc a of Some v \<Rightarrow> set_first_url (strip_quotes v) config | None \<Rightarrow> Inr config) fs) (\<lambda>c0 fs.
     let c = change_fields a c0 in
     if no_changes a then (Inl No_Changes, fs)
     else
       and_then (pure (map_sum Config_Invalid id (validate c)) fs) (\<lambda>_.
         config_save h c path)))"

text \<open>The summary: the endpoints, those to read from and those to submit to.\<close>

definition config_validate :: "config_host \<Rightarrow> string \<Rightarrow> fs \<Rightarrow> config_failure + nat \<times> nat \<times> nat" where
  "config_validate h path fs =
     then_do (config_load h path fs) (\<lambda>config.
       Inr (length (rpc_endpoints config),
            length (filter (\<lambda>e. re_role e = Datasource \<or> re_role e = Both) (rpc_endpoints config)),
            length (filter (\<lambda>e. re_role e = Submission \<or> re_role e = Both) (rpc_endpoints config))))"

section \<open>Files written and read back\<close>

lemma resolve_not_link: "resolve n fs p = Some q \<Longrightarrow> fs q \<noteq> Some (Symlink t)"
  by (induction n fs p rule: resolve.induct) (auto split: option.splits fnode.splits)

lemma resolve_write: "resolve n fs p = Some q \<Longrightarrow> resolve n (fs(q \<mapsto> File c)) p = Some q"
proof (induction n fs p rule: resolve.induct)
  case (2 n fs p)
  show ?case
  proof (cases "\<exists>t. fs p = Some (Symlink t)")
    case True
    then obtain t where t: "fs p = Some (Symlink t)" by blast
    with 2(2) have q: "resolve n fs t = Some q" by simp
    then have "p \<noteq> q" using resolve_not_link [OF q] t by blast
    with 2(1) [OF _ _, of "Symlink t" t] t q show ?thesis by simp
  next
    case False
    with 2(2) show ?thesis by (auto split: option.splits fnode.splits)
  qed
qed simp

lemma resolve_plain: "read_link fs p = None \<Longrightarrow> resolve 40 fs p = Some p"
  by (simp add: resolve_40 read_link_def split: option.splits fnode.splits)

lemma fs_write_Inr:
  assumes "fs_write host p c fs = (Inr u, fs')"
  shows "\<exists>q. resolve 40 fs p = Some q \<and> fs' = fs(q \<mapsto> File c) \<and> resolve 40 fs' p = Some q"
  using assms by (auto simp: fs_write_def permit_def put_file_def resolve_write split: if_splits option.splits)

lemma fs_write_Inl: "fs_write host p c fs = (Inl e, fs') \<Longrightarrow> fs' = fs"
  by (auto simp: fs_write_def permit_def put_file_def split: if_splits option.splits)

lemma read_after_write: "fs_write host p c fs = (Inr u, fs') \<Longrightarrow> read_to_string fs' p = Some c"
  by (drule fs_write_Inr) (auto simp: read_to_string_def)

lemma config_io_simps [simp]:
  "config_io r = (Inr a, fs) \<longleftrightarrow> r = (Inr a, fs)" "config_io r = (Inl e, fs) \<longleftrightarrow> (\<exists>e'. e = Config_Io e' \<and> r = (Inl e', fs))"
  by (auto simp: config_io_def split: prod.splits sum.splits)

lemma config_save_Inr: "config_save h c p fs = (Inr u, fs') \<Longrightarrow> \<exists>s. toml_to_string h c = Some s \<and> fs_write (ch_host h) p s fs = (Inr (), fs')"
  by (auto simp: config_save_def split: option.splits)

lemma config_save_Inl: "config_save h c p fs = (Inl e, fs') \<Longrightarrow> fs' = fs \<and> e \<noteq> Index_Panic"
  by (auto simp: config_save_def dest: fs_write_Inl split: option.splits)

text \<open>What was saved is what is loaded, up to validation.\<close>

lemma load_after_save:
  assumes "config_laws h" and "config_save h c p fs = (Inr u, fs')"
  shows "config_load h p fs' = then_do (map_sum Config_Invalid id (validate c)) (\<lambda>_. Inr c)"
proof -
  obtain s where s: "toml_to_string h c = Some s" and w: "fs_write (ch_host h) p s fs = (Inr (), fs')"
    using config_save_Inr [OF assms(2)] by blast
  then have "toml_from_str h s = Some c" using assms(1) unfolding config_laws_def by blast
  with read_after_write [OF w] show ?thesis by (simp add: config_load_def)
qed

lemma config_load_valid: "config_load h p fs = Inr c \<Longrightarrow> validate c = Inr () \<and> rpc_endpoints c \<noteq> []"
  by (auto simp: config_load_def res_simps map_sum_def validate_def split: sum.splits if_splits)

section \<open>The commands\<close>

text \<open>The configuration after \<open>config set\<close>.\<close>

definition changed :: "config_args \<Rightarrow> ClientConfig \<Rightarrow> ClientConfig" where
  "changed a c = change_fields a (case a_rpc a of
     Some v \<Rightarrow> c\<lparr>rpc_endpoints := (hd (rpc_endpoints c))\<lparr>re_url := strip_quotes v\<rparr> # tl (rpc_endpoints c)\<rparr> | None \<Rightarrow> c)"

lemma config_set_eq:
  "config_set h path a fs =
     (case config_load h path fs of
        Inl e \<Rightarrow> (Inl e, fs)
      | Inr c \<Rightarrow>
          if no_changes a then (Inl No_Changes, fs)
          else case validate (changed a c) of
            Inl e \<Rightarrow> (Inl (Config_Invalid e), fs)
          | Inr _ \<Rightarrow> config_save h (changed a c) path fs)"
proof (cases "config_load h path fs")
  case (Inr c)
  then obtain e es where "rpc_endpoints c = e # es" using config_load_valid [OF Inr] by (cases "rpc_endpoints c") auto
  with Inr show ?thesis
    by (simp add: config_set_def and_then_def pure_def set_first_url_def changed_def Let_def split: option.splits sum.splits)
qed (simp add: config_set_def and_then_def pure_def)

lemma change_fields_endpoints [simp]: "rpc_endpoints (change_fields a c) = rpc_endpoints c"
  by (simp add: change_fields_def with_arg_def set_storage_path_def set_keypair_path_def split: option.splits)

text \<open>A new URL leaves the WebSocket URL of the endpoint as it was.\<close>

lemma changed_ws_urls:
  assumes "rpc_endpoints c \<noteq> []"
  shows "map re_ws_url (rpc_endpoints (changed a c)) = map re_ws_url (rpc_endpoints c)"
  using assms by (cases "rpc_endpoints c") (auto simp: changed_def split: option.splits)

text \<open>
  \<open>config init\<close> does not validate what it writes: a URL without scheme gives a file that no
  later command loads.
\<close>

lemma config_file_init_unvalidated:
  assumes laws: "config_laws h" and ok: "config_file_init h output (Some url) None None force fs = (Inr pk, fs')"
    and url: "strip_quotes url \<noteq> []" "\<not> starts_with (strip_quotes url) ''http://''" "\<not> starts_with (strip_quotes url) ''https://''"
    and key: "expand_tilde h (keypair_path ExecutorConfig_default) = Inr k" "path_exists fs k" "k \<noteq> output"
      "read_link fs output = None" "read_link fs k = None"
  shows "config_load h output fs' = Inl (Config_Invalid (BadEndpointUrl (strip_quotes url)))"
proof -
  let ?c = "(ClientConfig_default THREAD_PROGRAM_ID)\<lparr>rpc_endpoints := [\<lparr>re_url = strip_quotes url, re_ws_url = None, re_role = Both, re_priority = 1\<rparr>]\<rparr>"
  from ok obtain fs0 fs1 where p: "create_parent h output fs = (Inr (), fs0)" and sv: "config_save h ?c output fs0 = (Inr (), fs1)"
    and e: "ensure_keypair_exists h k fs1 = (Inr pk, fs')"
    using key(1)
    by (auto simp: config_file_init_def and_then_def pure_def set_first_url_def with_arg_def ClientConfig_default_def Let_def
        split: if_splits prod.splits sum.splits option.splits)
  have fs0: "fs0 = fs" using p by (auto simp: create_parent_def create_dir_all_def permit_def split: option.splits if_splits)
  obtain s where "fs_write (ch_host h) output s fs = (Inr (), fs1)" using config_save_Inr [OF sv] fs0 by blast
  then have "fs1 = fs(output \<mapsto> File s)"
    using fs_write_Inr resolve_plain [OF key(4)] by fastforce
  then have "path_exists fs1 k"
    using key(2,3,5) by (simp add: path_exists_def resolve_plain read_link_upd)
  with e have "fs' = fs1" by (simp add: ensure_keypair_exists_def)
  with load_after_save [OF laws sv] url show ?thesis
    by (simp add: validate_def ClientConfig_default_def ExecutorConfig_default_def)
qed

lemma written_keypair:
  assumes "config_laws h" and "fs_write host k (keypair_json h key) fs = (Inr (), fs')"
  shows "path_exists fs' k \<and> read_keypair h k fs' = Some (keypair_pubkey h key)"
proof -
  obtain q where "resolve 40 fs' k = Some q" "fs' q = Some (File (keypair_json h key))"
    using fs_write_Inr [OF assms(2)] by auto
  with read_after_write [OF assms(2)] assms(1) show ?thesis
    by (simp add: path_exists_def read_keypair_def config_laws_def)
qed

text \<open>A key is made once: a second call finds the key of the first.\<close>

lemma keypair_kept:
  assumes "config_laws h" and "ensure_keypair_exists h k fs = (Inr pk, fs')"
  shows "path_exists fs' k \<and> read_keypair h k fs' = Some pk \<and> ensure_keypair_exists h' k fs' = (ok_or (read_keypair h' k fs') Keypair_Unreadable, fs')"
proof (cases "path_exists fs k")
  case True
  with assms(2) show ?thesis by (auto simp: ensure_keypair_exists_def)
next
  case False
  with assms(2) obtain fs0 where w: "fs_write (ch_host h) k (keypair_json h (fresh_keypair h)) fs0 = (Inr (), fs')"
    and pk: "pk = keypair_pubkey h (fresh_keypair h)"
    by (auto simp: ensure_keypair_exists_def and_then_Inr pure_Inr)
  from written_keypair [OF assms(1) w] show ?thesis by (simp add: pk ensure_keypair_exists_def)
qed

end
