(* ===== verification/Node.thy ===== *)
theory Node
  imports Config_File Rpc_Requests
begin

text \<open>
  \<open>crates/client/src/node/main.rs\<close>, the executor binary, and \<open>run_standalone\<close> and
  \<open>PluginHandle\<close> of \<open>crates/client/src/lib.rs\<close>: from the arguments to a running client. A run
  that is still waiting for the executor to be funded is \<open>Waiting\<close>; what arrives while it
  waits is a list of events, in the order in which they win \<open>select!\<close>. Logging is left out.
\<close>

section \<open>Running the client\<close>

datatype client_failure =
    CF_Invalid config_error
  | CF_Resources string
  | CF_Root string

text \<open>\<open>None\<close> is the panic of \<open>SharedResources::new\<close>.\<close>

definition start_client :: "root_env \<Rightarrow> (TpuClientConfig \<Rightarrow> bool) \<Rightarrow> ClientConfig \<Rightarrow> bool \<Rightarrow> (client_failure + Client) option" where
  "start_client env tpu_new config has_receiver =
     (case validate config of
        Inl e \<Rightarrow> Some (Inl (CF_Invalid e))
      | Inr _ \<Rightarrow>
          (case SharedResources_new tpu_new config of
             None \<Rightarrow> None
           | Some (Inl e) \<Rightarrow> Some (Inl (CF_Resources e))
           | Some (Inr resources) \<Rightarrow> Some (map_sum (\<lambda>e. CF_Root (''Failed to spawn RootSupervisor: '' @ e)) id (root_start env config resources has_receiver))))"

definition run_standalone :: "root_env \<Rightarrow> (TpuClientConfig \<Rightarrow> bool) \<Rightarrow> ClientConfig \<Rightarrow> (client_failure + Client) option" where
  "run_standalone env tpu_new config = start_client env tpu_new config False"

section \<open>The plugin's handle\<close>

text \<open>The channel between the plugin and the client: what was sent and not yet received, and whether a receiver is left.\<close>

record channel =
  queue :: "AccountUpdate list"
  receiver_alive :: bool

definition CHANNEL_CAPACITY :: nat where "CHANNEL_CAPACITY = 1000"

definition plugin_spawn :: "root_env \<Rightarrow> (TpuClientConfig \<Rightarrow> bool) \<Rightarrow> ClientConfig \<Rightarrow> (client_failure + channel \<times> Client) option" where
  "plugin_spawn env tpu_new config =
     map_option (map_sum id (\<lambda>client. (\<lparr>queue = [], receiver_alive = True\<rparr>, client))) (start_client env tpu_new config True)"

datatype send_error = Channel_Full | Channel_Closed

definition try_send_update :: "AccountUpdate \<Rightarrow> channel \<Rightarrow> (send_error + unit) \<times> channel" where
  "try_send_update au ch =
     (if \<not> receiver_alive ch then (Inl Channel_Closed, ch)
      else if CHANNEL_CAPACITY \<le> length (queue ch) then (Inl Channel_Full, ch)
      else (Inr (), ch\<lparr>queue := queue ch @ [au]\<rparr>))"

section \<open>Waiting for funds\<close>

definition MIN_BALANCE_LAMPORTS :: u64 where "MIN_BALANCE_LAMPORTS = 1000000"

definition pool_with_url :: "string \<Rightarrow> string + RpcPool" where
  "pool_with_url url = pool_new [EndpointConfig_new url] RoundRobin"

datatype wait_event =
    WE_Frame Message
  | WE_Error string
  | WE_Poll nat

text \<open>
  A frame of the subscription, its end or failure, and the wake-up of the polling task at some
  time. An error of the subscription ends the wait; one of the poll does not.
\<close>

fun wait_funding :: "'tx net \<Rightarrow> watch_env \<Rightarrow> pubkey \<Rightarrow> wait_event list \<Rightarrow> RpcPool \<Rightarrow> (string + u64) option" where
  "wait_funding net env key [] pool = None"
| "wait_funding net env key (WE_Frame (WText txt) # es) pool =
     (case parse_notification env txt (Some key) of
        Inl e \<Rightarrow> Some (Inl e)
      | Inr None \<Rightarrow> wait_funding net env key es pool
      | Inr (Some u) \<Rightarrow>
          if MIN_BALANCE_LAMPORTS \<le> ui_lamports (wu_account u) then Some (Inr (ui_lamports (wu_account u)))
          else wait_funding net env key es pool)"
| "wait_funding net env key (WE_Frame _ # es) pool = wait_funding net env key es pool"
| "wait_funding net env key (WE_Error e # es) pool = Some (Inl e)"
| "wait_funding net env key (WE_Poll tm # es) pool =
     (case get_balance net key tm pool of
        (Inr bal, pool') \<Rightarrow> if MIN_BALANCE_LAMPORTS \<le> bal then Some (Inr bal) else wait_funding net env key es pool'
      | (Inl _, pool') \<Rightarrow> wait_funding net env key es pool')"

datatype node_failure =
    NF_Config config_failure
  | NF_No_Endpoint
  | NF_Pool string
  | NF_Balance request_error
  | NF_Wait string
  | NF_Client client_failure

definition check_balance_or_wait :: "'tx net \<Rightarrow> watch_env \<Rightarrow> config_host \<Rightarrow> string \<Rightarrow> string \<Rightarrow> nat \<Rightarrow> wait_event list \<Rightarrow> fs \<Rightarrow> (node_failure + unit) option" where
  "check_balance_or_wait net env h rpc_url path tm events fs =
     (case read_keypair h path fs of
        None \<Rightarrow> Some (Inl (NF_Config Keypair_Unreadable))
      | Some key \<Rightarrow>
          (case pool_with_url rpc_url of
             Inl e \<Rightarrow> Some (Inl (NF_Pool e))
           | Inr pool \<Rightarrow>
               (case get_balance net key tm pool of
                  (Inl e, _) \<Rightarrow> Some (Inl (NF_Balance e))
                | (Inr balance, pool') \<Rightarrow>
                    if MIN_BALANCE_LAMPORTS \<le> balance then Some (Inr ())
                    else map_option (map_sum NF_Wait (\<lambda>_. ())) (wait_funding net env key events pool'))))"

section \<open>The binary\<close>

record 'tx node_env =
  nd_host :: config_host
  nd_tilde :: "string \<Rightarrow> string"
  nd_spawn :: spawner
  nd_staging_up :: bool
  nd_tpu_new :: "TpuClientConfig \<Rightarrow> bool"
  nd_net :: "'tx net"
  nd_watch :: watch_env
  nd_now :: nat
  nd_events :: "wait_event list"

text \<open>The client reads the key file itself.\<close>

definition client_root :: "'tx node_env \<Rightarrow> fs \<Rightarrow> root_env" where
  "client_root env fs = \<lparr>tilde = nd_tilde env,
     read_keypair_file = (\<lambda>p. case read_keypair (nd_host env) p fs of Some k \<Rightarrow> Inr k | None \<Rightarrow> Inl ''unreadable key file''),
     spawn_linked = nd_spawn env, staging_up = nd_staging_up env\<rparr>"

definition resolve_config_path :: "config_host \<Rightarrow> string option \<Rightarrow> config_failure + string" where
  "resolve_config_path h config = (case config of Some p \<Rightarrow> Inr p | None \<Rightarrow> default_config_path h)"

definition override_rpc :: "string option \<Rightarrow> ClientConfig \<Rightarrow> ClientConfig" where
  "override_rpc rpc config =
     (case rpc of
        Some url \<Rightarrow> config\<lparr>rpc_endpoints := [\<lparr>re_url = url, re_ws_url = None, re_role = Both, re_priority = 1\<rparr>]\<rparr>
      | None \<Rightarrow> config)"

datatype node_outcome = Waiting | Panicked | Stopped node_failure | Started ClientConfig Client

text \<open>Up to the key: the configuration and the path and address of the key.\<close>

definition node_prepare :: "'tx node_env \<Rightarrow> string option \<Rightarrow> string option \<Rightarrow> fs \<Rightarrow> (config_failure + ClientConfig \<times> string) \<times> fs" where
  "node_prepare env config_arg rpc fs =
     (let h = nd_host env in
      and_then (pure (resolve_config_path h config_arg) fs) (\<lambda>config_path fs.
      and_then (if path_exists fs config_path then (Inr (), fs)
                else config_save h (ClientConfig_default THREAD_PROGRAM_ID) config_path fs) (\<lambda>_ fs.
      and_then (pure (config_load h config_path fs) fs) (\<lambda>loaded fs.
      let config = override_rpc rpc loaded; key_path = nd_tilde env (keypair_path (cc_executor loaded)) in
      and_then (ensure_keypair_exists h key_path fs) (\<lambda>_.
        pure (Inr (config, key_path)))))))"

definition node_main :: "'tx node_env \<Rightarrow> string option \<Rightarrow> string option \<Rightarrow> fs \<Rightarrow> node_outcome \<times> fs" where
  "node_main env config_arg rpc fs0 =
     (case node_prepare env config_arg rpc fs0 of
        (Inl e, fs) \<Rightarrow> (Stopped (NF_Config e), fs)
      | (Inr (config, key_path), fs) \<Rightarrow>
          (case rpc_endpoints config of
             [] \<Rightarrow> (Stopped NF_No_Endpoint, fs)
           | e # _ \<Rightarrow>
               (case check_balance_or_wait (nd_net env) (nd_watch env) (nd_host env) (re_url e) key_path (nd_now env) (nd_events env) fs of
                  None \<Rightarrow> (Waiting, fs)
                | Some (Inl err) \<Rightarrow> (Stopped err, fs)
                | Some (Inr _) \<Rightarrow>
                    (case run_standalone (client_root env fs) (nd_tpu_new env) config of
                       None \<Rightarrow> (Panicked, fs)
                     | Some (Inl err) \<Rightarrow> (Stopped (NF_Client err), fs)
                     | Some (Inr client) \<Rightarrow> (Started config client, fs)))))"

section \<open>Waiting\<close>

text \<open>Without polls the wait is that of the subscription alone.\<close>

lemma wait_funding_ws:
  "wait_funding net env key (map WE_Frame ms @ [WE_Error ''Account subscription closed unexpectedly'']) pool =
     Some (map_sum id ui_lamports (wait_until env key (\<lambda>a. MIN_BALANCE_LAMPORTS \<le> ui_lamports a) ms))"
proof (induction env key "\<lambda>a :: SafeUiAccount. MIN_BALANCE_LAMPORTS \<le> ui_lamports a" ms rule: wait_until.induct)
  case (2 env key s ms)
  then show ?case
    by (cases "parse_notification env s (Some key)") (auto split: option.splits)
qed simp_all

text \<open>A run that waited and went on saw at least the minimum balance.\<close>

lemma wait_funding_enough: "wait_funding net env key es pool = Some (Inr bal) \<Longrightarrow> MIN_BALANCE_LAMPORTS \<le> bal"
  by (induction net env key es pool rule: wait_funding.induct)
    (auto split: sum.splits option.splits if_splits prod.splits)

text \<open>One frame that does not parse stops the node, whatever a later poll would have found.\<close>

lemma bad_frame_stops_wait:
  "parse_notification env txt (Some key) = Inl e \<Longrightarrow> wait_funding net env key (WE_Frame (WText txt) # es) pool = Some (Inl e)"
  by simp

end
