(* ===== verification/Geyser_Plugin.thy ===== *)
theory Geyser_Plugin
  imports Node "HOL-Library.Sublist"
begin

text \<open>
  \<open>plugin/geyser/src/lib.rs\<close>: the validator's callbacks, and the path of an account update from
  a callback over the channel to the Geyser source of the client. The versions of the
  validator's account structs carry the fields the plugin reads. Loading composes the
  configuration file and the start of the client; whether a runtime can be built is an
  argument.
\<close>

section \<open>The plugin\<close>

record ReplicaAccountInfo =
  ri_pubkey :: bytes
  ri_lamports :: u64
  ri_owner :: bytes
  ri_executable :: bool
  ri_rent_epoch :: u64
  ri_data :: bytes
  ri_write_version :: u64

datatype ReplicaAccountInfoVersions = V0_0_1 ReplicaAccountInfo | V0_0_2 ReplicaAccountInfo | V0_0_3 ReplicaAccountInfo

datatype plugin_error = ConfigFileReadError string | AccountsUpdateError string

text \<open>What \<open>inner\<close> keeps: the sending end of the channel and the program whose accounts are wanted.\<close>

record plugin =
  pl_channel :: channel
  pl_program_id :: pubkey

definition on_load :: "config_host \<Rightarrow> root_env \<Rightarrow> (TpuClientConfig \<Rightarrow> bool) \<Rightarrow> bool \<Rightarrow> string \<Rightarrow> fs \<Rightarrow> (plugin_error + plugin \<times> Client) option" where
  "on_load h env tpu_new runtime_ok config_file fs =
     (case config_load h config_file fs of
        Inl _ \<Rightarrow> Some (Inl (ConfigFileReadError ''Failed to load config file''))
      | Inr config \<Rightarrow>
          if \<not> runtime_ok then Some (Inl (ConfigFileReadError ''Failed to create runtime''))
          else map_option (map_sum (\<lambda>_. ConfigFileReadError ''Failed to spawn client'')
                 (\<lambda>(ch, client). (\<lparr>pl_channel = ch, pl_program_id = dc_program_id (datasources config)\<rparr>, client)))
               (plugin_spawn env tpu_new config))"

definition on_unload :: "plugin option \<Rightarrow> plugin option" where
  "on_unload inner = None"

fun account_info :: "ReplicaAccountInfoVersions \<Rightarrow> ReplicaAccountInfo" where
  "account_info (V0_0_1 info) = info"
| "account_info (V0_0_2 info) = info"
| "account_info (V0_0_3 info) = info"

definition pubkey_try_from :: "bytes \<Rightarrow> pubkey option" where
  "pubkey_try_from bs = (if length bs = 32 then Some bs else None)"

definition update_account :: "pubkey \<Rightarrow> ReplicaAccountInfoVersions \<Rightarrow> u64 \<Rightarrow> plugin option \<Rightarrow> (plugin_error + unit) \<times> plugin option" where
  "update_account clock_id account slot inner =
     (case inner of
        None \<Rightarrow> (Inr (), None)
      | Some p \<Rightarrow>
          let info = account_info account in
          (case pubkey_try_from (ri_pubkey info) of
             None \<Rightarrow> (Inl (AccountsUpdateError ''Failed to parse account pubkey''), Some p)
           | Some pubkey \<Rightarrow>
               (case pubkey_try_from (ri_owner info) of
                  None \<Rightarrow> (Inl (AccountsUpdateError ''Failed to parse owner pubkey''), Some p)
                | Some owner \<Rightarrow>
                    if pubkey \<noteq> clock_id \<and> owner \<noteq> pl_program_id p then (Inr (), Some p)
                    else
                      (let au = \<lparr>au_pubkey = pubkey, au_data = ri_data info, au_slot = slot\<rparr>;
                           (_, ch) = try_send_update au (pl_channel p) in
                       (Inr (), Some (p\<lparr>pl_channel := ch\<rparr>))))))"

definition account_data_notifications_enabled :: bool where "account_data_notifications_enabled = True"
definition transaction_notifications_enabled :: bool where "transaction_notifications_enabled = False"

section \<open>From the callback to the client\<close>

text \<open>
  The plugin and the source run in parallel and meet in the channel: a callback, a step of the
  consumer that takes one update, or the unloading of the plugin. The last fields record what
  the consumer took and did.
\<close>

record feed =
  fd_plugin :: "plugin option"
  fd_channel :: channel
  fd_cache :: cache
  fd_received :: "AccountUpdate list"
  fd_actions :: "source_action list"

datatype feed_event = Callback ReplicaAccountInfoVersions u64 | Receive | Unload

text \<open>The consumer takes the oldest update; a staging actor that is gone ends it and drops the receiver.\<close>

definition consume :: "source_env \<Rightarrow> feed \<Rightarrow> feed" where
  "consume env s =
     (case queue (fd_channel s) of
        [] \<Rightarrow> s
      | u # us \<Rightarrow>
          if \<not> receiver_alive (fd_channel s) then s
          else (case forward_if_new env u (fd_cache s) of
              (None, c) \<Rightarrow> s\<lparr>fd_channel := \<lparr>queue = us, receiver_alive = False\<rparr>, fd_cache := c, fd_received := fd_received s @ [u]\<rparr>
            | (Some acts, c) \<Rightarrow> s\<lparr>fd_channel := (fd_channel s)\<lparr>queue := us\<rparr>, fd_cache := c,
                fd_received := fd_received s @ [u], fd_actions := fd_actions s @ acts\<rparr>))"

text \<open>The channel belongs to both sides; the plugin works on it through its handle.\<close>

fun feed_step :: "pubkey \<Rightarrow> source_env \<Rightarrow> feed_event \<Rightarrow> feed \<Rightarrow> feed" where
  "feed_step clock_id env (Callback account slot) s =
     (case snd (update_account clock_id account slot (map_option (\<lambda>p. p\<lparr>pl_channel := fd_channel s\<rparr>) (fd_plugin s))) of
        None \<Rightarrow> s
      | Some p \<Rightarrow> s\<lparr>fd_channel := pl_channel p\<rparr>)"
| "feed_step clock_id env Receive s = consume env s"
| "feed_step clock_id env Unload s = s\<lparr>fd_plugin := on_unload (fd_plugin s)\<rparr>"

definition feed_start :: "plugin \<Rightarrow> cache \<Rightarrow> feed" where
  "feed_start p c = \<lparr>fd_plugin = Some p, fd_channel = pl_channel p, fd_cache = c, fd_received = [], fd_actions = []\<rparr>"

definition feed_run :: "pubkey \<Rightarrow> source_env \<Rightarrow> feed_event list \<Rightarrow> feed \<Rightarrow> feed" where
  "feed_run clock_id env es s = fold (feed_step clock_id env) es s"

text \<open>What the plugin is asked to deliver: the wanted updates of the callbacks before it is unloaded.\<close>

fun wanted :: "pubkey \<Rightarrow> pubkey \<Rightarrow> feed_event list \<Rightarrow> AccountUpdate list" where
  "wanted clock_id pid [] = []"
| "wanted clock_id pid (Callback account slot # es) =
     (let info = account_info account in
      if length (ri_pubkey info) = 32 \<and> length (ri_owner info) = 32 \<and> (ri_pubkey info = clock_id \<or> ri_owner info = pid)
      then \<lparr>au_pubkey = ri_pubkey info, au_data = ri_data info, au_slot = slot\<rparr> # wanted clock_id pid es
      else wanted clock_id pid es)"
| "wanted clock_id pid (Receive # es) = wanted clock_id pid es"
| "wanted clock_id pid (Unload # es) = []"

section \<open>What arrives\<close>

lemma wanted_append:
  "wanted k pid (es @ fs) = wanted k pid es @ (if Unload \<in> set es then [] else wanted k pid fs)"
  by (induction k pid es rule: wanted.induct) (auto simp: Let_def)

text \<open>The consumer did not stop on these updates.\<close>

fun goes_on :: "source_env \<Rightarrow> AccountUpdate list \<Rightarrow> cache \<Rightarrow> bool" where
  "goes_on env [] c = True"
| "goes_on env (u # us) c = (fst (forward_if_new env u c) \<noteq> None \<and> goes_on env us (snd (forward_if_new env u c)))"

lemma geyser_consumer_snoc:
  assumes "goes_on env us c" and "geyser_consumer env us c = (c1, acts)"
  shows "geyser_consumer env (us @ [u]) c = (case forward_if_new env u c1 of (None, c2) \<Rightarrow> (c2, acts) | (Some a, c2) \<Rightarrow> (c2, acts @ a))"
    and "goes_on env (us @ [u]) c \<longleftrightarrow> fst (forward_if_new env u c1) \<noteq> None"
  using assms by (induction us arbitrary: c acts) (auto split: prod.splits option.splits)

text \<open>A callback appends the wanted update, or loses it when the channel is full or the receiver gone.\<close>

lemma feed_callback:
  assumes "fd_plugin s = Some p"
  shows "feed_step k env (Callback a slot) s =
    s\<lparr>fd_channel := fold (\<lambda>u ch. snd (try_send_update u ch)) (wanted k (pl_program_id p) [Callback a slot]) (fd_channel s)\<rparr>"
  using assms by (auto simp: update_account_def pubkey_try_from_def Let_def split: prod.split)

definition feed_ok :: "pubkey \<Rightarrow> source_env \<Rightarrow> plugin \<Rightarrow> cache \<Rightarrow> feed_event list \<Rightarrow> feed \<Rightarrow> bool" where
  "feed_ok k env p c es s \<longleftrightarrow>
     fd_plugin s = (if Unload \<in> set es then None else Some p) \<and>
     subseq (fd_received s @ queue (fd_channel s)) (wanted k (pl_program_id p) es) \<and>
     length (queue (fd_channel s)) \<le> CHANNEL_CAPACITY \<and>
     geyser_consumer env (fd_received s) c = (fd_cache s, fd_actions s) \<and>
     (receiver_alive (fd_channel s) \<longrightarrow> goes_on env (fd_received s) c) \<and>
     (staging_accepts env \<longrightarrow> receiver_alive (fd_channel s)) \<and>
     (staging_accepts env \<and> length (wanted k (pl_program_id p) es) \<le> CHANNEL_CAPACITY \<longrightarrow>
        fd_received s @ queue (fd_channel s) = wanted k (pl_program_id p) es)"

lemma forward_accepts: "staging_accepts env \<Longrightarrow> fst (forward_if_new env u c) \<noteq> None"
  by (simp add: forward_if_new_def split: prod.split)

lemma consume_ok:
  assumes "feed_ok k env p c es s"
  shows "feed_ok k env p c (es @ [Receive]) (consume env s)"
proof (cases "queue (fd_channel s) = [] \<or> \<not> receiver_alive (fd_channel s)")
  case True
  then show ?thesis using assms by (auto simp: feed_ok_def consume_def wanted_append split: list.split)
next
  case False
  then obtain u us where q: "queue (fd_channel s) = u # us" and alive: "receiver_alive (fd_channel s)"
    by (cases "queue (fd_channel s)") auto
  have g: "goes_on env (fd_received s) c" and e: "geyser_consumer env (fd_received s) c = (fd_cache s, fd_actions s)"
    using assms alive by (auto simp: feed_ok_def)
  note snoc = geyser_consumer_snoc [OF g e, of u]
  show ?thesis
  proof (cases "forward_if_new env u (fd_cache s)")
    case (Pair r c2)
    show ?thesis
    proof (cases r)
      case None
      have "\<not> staging_accepts env" using forward_accepts [of env u "fd_cache s"] Pair None by auto
      then show ?thesis using assms q alive snoc Pair None
        by (auto simp: feed_ok_def consume_def wanted_append)
    next
      case (Some acts)
      then show ?thesis using assms q alive snoc Pair
        by (auto simp: feed_ok_def consume_def wanted_append)
    qed
  qed
qed

lemma callback_ok:
  assumes "feed_ok k env p c es s"
  shows "feed_ok k env p c (es @ [Callback a slot]) (feed_step k env (Callback a slot) s)"
proof (cases "Unload \<in> set es")
  case True
  then show ?thesis using assms by (auto simp: feed_ok_def update_account_def wanted_append)
next
  case False
  then have p: "fd_plugin s = Some p" using assms by (simp add: feed_ok_def)
  have w: "wanted k (pl_program_id p) [Callback a slot] = [] \<or> (\<exists>u. wanted k (pl_program_id p) [Callback a slot] = [u])"
    by (simp add: Let_def)
  then show ?thesis
  proof
    assume "wanted k (pl_program_id p) [Callback a slot] = []"
    then show ?thesis using assms False
      by (simp add: feed_callback [OF p] feed_ok_def wanted_append del: wanted.simps feed_step.simps)
  next
    assume "\<exists>u. wanted k (pl_program_id p) [Callback a slot] = [u]"
    then obtain u where u: "wanted k (pl_program_id p) [Callback a slot] = [u]" ..
    have "subseq (fd_received s @ queue (fd_channel s)) (wanted k (pl_program_id p) es)" using assms by (simp add: feed_ok_def)
    then have "subseq (fd_received s @ queue (fd_channel s) @ [u]) (wanted k (pl_program_id p) es @ [u])"
      "subseq (fd_received s @ queue (fd_channel s)) (wanted k (pl_program_id p) es @ [u])"
      using list_emb_append_mono [of "(=)" _ _ "[u]" "[u]"] by (fastforce, simp add: subseq_order.order_trans [OF _ subseq_rev_drop_many])
    with assms False show ?thesis
      by (auto simp: feed_callback [OF p] u feed_ok_def wanted_append try_send_update_def
          simp del: wanted.simps feed_step.simps dest: arg_cong [of _ _ length])
  qed
qed

lemma feed_run_ok:
  assumes "pl_channel p = \<lparr>queue = [], receiver_alive = True\<rparr>"
  shows "feed_ok k env p c es (feed_run k env es (feed_start p c))"
proof (induction es rule: rev_induct)
  case Nil
  then show ?case using assms by (simp add: feed_ok_def feed_run_def feed_start_def)
next
  case (snoc e es)
  have run: "feed_run k env (es @ [e]) (feed_start p c) = feed_step k env e (feed_run k env es (feed_start p c))"
    by (simp add: feed_run_def)
  show ?case
  proof (cases e)
    case (Callback a slot)
    then show ?thesis unfolding run using callback_ok [OF snoc] by simp
  next
    case Receive
    then show ?thesis unfolding run using consume_ok [OF snoc] by simp
  next
    case Unload
    then show ?thesis unfolding run using snoc
      by (auto simp: feed_ok_def on_unload_def wanted_append)
  qed
qed

text \<open>A consumer that goes on empties the channel.\<close>

lemma drain:
  assumes "staging_accepts env" and "receiver_alive (fd_channel s)" and "length (queue (fd_channel s)) \<le> n"
  shows "queue (fd_channel (feed_run k env (replicate n Receive) s)) = []"
  using assms(2,3)
proof (induction n arbitrary: s)
  case (Suc n)
  have "receiver_alive (fd_channel (consume env s)) \<and> length (queue (fd_channel (consume env s))) \<le> n"
    using Suc.prems forward_accepts [OF assms(1)]
    by (auto simp: consume_def split: list.splits prod.splits option.splits) (metis fst_conv option.distinct(1))
  with Suc.IH show ?case by (simp add: feed_run_def)
qed (simp add: feed_run_def)

end
