(* ===== verification/Properties_Node.thy ===== *)
theory Properties_Node
  imports Geyser_Plugin Properties_Source Properties_Rpc
begin

text \<open>
  Properties of the configuration file, the executor binary and the Geyser plugin, with a
  sample machine whose encodings keep their laws for the configurations in use.
\<close>

section \<open>A machine\<close>

definition sample_changed :: ClientConfig where
  "sample_changed = (ClientConfig_default THREAD_PROGRAM_ID)\<lparr>max_concurrent_threads := 20\<rparr>"

definition sample_machine :: config_host where
  "sample_machine = \<lparr>ch_host = sample_host, config_dir = Some ''/c'',
     toml_from_str = (\<lambda>s. if s = ''a'' then Some (ClientConfig_default THREAD_PROGRAM_ID) else if s = ''b'' then Some sample_changed else None),
     toml_to_string = (\<lambda>c. if c = ClientConfig_default THREAD_PROGRAM_ID then Some ''a'' else if c = sample_changed then Some ''b'' else None),
     fresh_keypair = [7, 8], keypair_json = map (\<lambda>b. char_of (unat b)), keypair_of_json = (\<lambda>s. Some (map (\<lambda>c. of_nat (of_char c)) s)),
     keypair_pubkey = take 1\<rparr>"

lemma u8_mod: "(of_nat (unat (b :: u8) mod 256) :: u8) = b"
proof -
  have "unat b < 256" using unsigned_less [of b] by simp
  then show ?thesis by simp
qed

lemma sample_machine_laws: "config_laws sample_machine"
  by (auto simp: config_laws_def sample_machine_def comp_def u8_mod split: if_splits)

section \<open>The configuration file\<close>


definition sample_args :: config_args where
  "sample_args = \<lparr>a_rpc = None, a_keypair_path = None, a_forgo_commission = None, a_commitment = None, a_max_threads = Some 20,
     a_cache_max_capacity = None, a_grace_period = None, a_eviction_buffer = None, a_thread_process_delay = None,
     a_observability_enabled = None, a_observability_storage_path = None, a_tpu_enabled = None, a_tpu_num_connections = None,
     a_tpu_leaders_fanout = None\<rparr>"


section \<open>The first start\<close>

lemma default_valid: "validate (ClientConfig_default pid) = Inr ()"
  by (simp add: validate_def ClientConfig_default_def ExecutorConfig_default_def starts_with_def)

lemma node_prepare_present:
  assumes "resolve_config_path (nd_host env) carg = Inr cp" and "path_exists fs cp" and "config_load (nd_host env) cp fs = Inr c"
    and "path_exists fs (nd_tilde env (keypair_path (cc_executor c)))"
    and "read_keypair (nd_host env) (nd_tilde env (keypair_path (cc_executor c))) fs = Some pk"
  shows "node_prepare env carg rpc fs = (Inr (override_rpc rpc c, nd_tilde env (keypair_path (cc_executor c))), fs)"
  using assms by (simp add: node_prepare_def and_then_def pure_def Let_def ensure_keypair_exists_def)

lemma node_main_started:
  assumes "node_prepare env carg rpc fs = (Inr (config, kp), fs')" and "kp = nd_tilde env (keypair_path (cc_executor config))"
    and "validate config = Inr ()" and "rpc_endpoints config = e # es" and "read_keypair (nd_host env) kp fs' = Some pk"
    and "pool_with_url (re_url e) = Inr pool"
    and "get_balance (nd_net env) pk (nd_now env) pool = (Inr bal, pool')" and "MIN_BALANCE_LAMPORTS \<le> bal"
    and "registry_law (nd_spawn env)" and "nd_staging_up env" and "distinct (map re_url (filter readable (rpc_endpoints config)))"
  shows "\<exists>client. run_standalone (client_root env fs') (nd_tpu_new env) config = Some (Inr client) \<and> cl_executor client = pk \<and>
    node_main env carg rpc fs = (Started config client, fs')"
proof -
  obtain res where res: "SharedResources_new (nd_tpu_new env) config = Some (Inr res)"
    using SharedResources_new_valid [OF assms(3)] by blast
  obtain client where c: "root_start (client_root env fs') config res False = Inr client" "cl_executor client = pk"
    using root_start_ok [of "client_root env fs'" config pk res False] assms by (auto simp: client_root_def)
  have run: "run_standalone (client_root env fs') (nd_tpu_new env) config = Some (Inr client)"
    using res c(1) assms(3) by (simp add: run_standalone_def start_client_def)
  have "check_balance_or_wait (nd_net env) (nd_watch env) (nd_host env) (re_url e) kp (nd_now env) (nd_events env) fs' = Some (Inr ())"
    using assms(5-8) by (simp add: check_balance_or_wait_def)
  with run c(2) assms(1,4) show ?thesis by (simp add: node_main_def)
qed

text \<open>The files a first start writes.\<close>

lemma first_prepare:
  assumes laws: "config_laws (nd_host env)" and cp: "resolve_config_path (nd_host env) carg = Inr cp"
    and absent: "fs cp = None" "fs kp = None" "kp \<noteq> cp"
    and kp: "kp = nd_tilde env (keypair_path ExecutorConfig_default)"
    and ser: "toml_to_string (nd_host env) (ClientConfig_default THREAD_PROGRAM_ID) = Some s"
    and may: "\<And>op. permits (ch_host (nd_host env)) op"
    and pk: "pk = keypair_pubkey (nd_host env) (fresh_keypair (nd_host env))"
  obtains fs' where "node_prepare env carg None fs = (Inr (ClientConfig_default THREAD_PROGRAM_ID, kp), fs')"
    "path_exists fs' cp" "config_load (nd_host env) cp fs' = Inr (ClientConfig_default THREAD_PROGRAM_ID)"
    "path_exists fs' kp" "read_keypair (nd_host env) kp fs' = Some pk"
proof -
  let ?h = "nd_host env" let ?c = "ClientConfig_default THREAD_PROGRAM_ID"
  let ?fs1 = "fs(cp \<mapsto> File s)" let ?fs2 = "?fs1(kp \<mapsto> File (keypair_json ?h (fresh_keypair ?h)))"
  have res: "resolve 40 f p = Some p" if "read_link f p = None" for f p using that by (rule resolve_plain)
  have parse: "toml_from_str ?h s = Some ?c" using laws ser unfolding config_laws_def by blast
  have save: "config_save ?h ?c cp fs = (Inr (), ?fs1)"
    using ser may absent(1) by (simp add: config_save_def fs_write_def permit_def put_file_def res read_link_def)
  have load: "config_load ?h cp f = Inr ?c" if "f cp = Some (File s)" for f
    using that parse by (simp add: config_load_def read_to_string_def res read_link_def default_valid)
  have parent: "create_parent ?h kp ?fs1 = (Inr (), ?fs1)"
    using may by (simp add: create_parent_def create_dir_all_def permit_def split: option.split)
  have "\<not> path_exists ?fs1 kp" using absent by (simp add: path_exists_def res read_link_def)
  then have key: "ensure_keypair_exists ?h kp ?fs1 = (Inr pk, ?fs2)"
    using may absent parent pk
    by (simp add: ensure_keypair_exists_def and_then_def fs_write_def permit_def put_file_def res read_link_def pure_def config_io_def)
  have "\<not> path_exists fs cp" using absent by (simp add: path_exists_def res read_link_def)
  then have "node_prepare env carg None fs = (Inr (?c, kp), ?fs2)"
    using cp save load [of ?fs1] key kp
    by (simp add: node_prepare_def and_then_def pure_def Let_def override_rpc_def ClientConfig_default_def)
  moreover have "read_keypair ?h kp ?fs2 = Some pk"
    using laws pk by (simp add: read_keypair_def read_to_string_def res read_link_def config_laws_def)
  moreover have "path_exists ?fs2 cp" "path_exists ?fs2 kp"
    using absent(3) by (simp_all add: path_exists_def res read_link_def)
  ultimately show thesis using that load [of ?fs2] absent(3) by simp
qed


definition sample_node :: "unit node_env" where
  "sample_node = \<lparr>nd_host = sample_machine, nd_tilde = (\<lambda>p. p), nd_spawn = (\<lambda>names n. if n \<in> names then Inl ''taken'' else Inr ()),
     nd_staging_up = True, nd_tpu_new = (\<lambda>_. False), nd_net = sample_net\<lparr>parse_balance := (\<lambda>_. Some (Some 2000000))\<rparr>,
     nd_watch = \<lparr>json_notification = (\<lambda>_. None), program_value = (\<lambda>_. None), account_value = (\<lambda>_. None), watch_pubkey = (\<lambda>_. None)\<rparr>,
     nd_now = 0, nd_events = []\<rparr>"

lemma sample_balance:
  "fst (get_balance (nd_net sample_node) key 0 \<lparr>endpoints = [endpoint_new (EndpointConfig_new url)], load_balance_strategy = RoundRobin, round_robin_idx = 0\<rparr>) =
     Inr 2000000"
  by (simp add: get_balance_def Rpc_Requests.request_def on_answer_def execute_with_failover_def execute_request_def select_endpoints_def
      available_endpoints_def on_endpoint_def is_available_def can_submit_def can_fetch_def record_success_def update_latency_def
      maybe_upgrade_health_def Let_def sample_node_def sample_net_def endpoint_new_def EndpointConfig_new_def)


section \<open>The plugin\<close>


definition sample_plugin :: plugin where
  "sample_plugin = \<lparr>pl_channel = \<lparr>queue = [], receiver_alive = True\<rparr>, pl_program_id = replicate 32 1\<rparr>"

definition sample_account :: "bytes \<Rightarrow> bytes \<Rightarrow> ReplicaAccountInfoVersions" where
  "sample_account owner data = V0_0_3 \<lparr>ri_pubkey = replicate 32 9, ri_lamports = 1, ri_owner = owner, ri_executable = False,
     ri_rent_epoch = 0, ri_data = data, ri_write_version = 0\<rparr>"

abbreviation sample_callbacks :: "feed_event list" where
  "sample_callbacks \<equiv> [Callback (sample_account (replicate 32 1) [1]) 5, Receive, Callback (sample_account (replicate 32 2) [2]) 6,
     Callback (sample_account (replicate 32 1) [3]) 7]"


end
