(* ===== verification/Cli_Service.thy ===== *)
theory Cli_Service
  imports Config_File
begin

text \<open>
  \<open>cli/core/src/commands/service.rs\<close>: the executor as a service of the operating system, and
  the end of the node commands of \<open>update.rs\<close> that restart it. The service manager is a
  record of operations on a state of its own; \<open>sm_settle\<close> is what becomes of the service in the
  two seconds \<open>start\<close> sleeps. A command works on the file system and that state.
\<close>

section \<open>The service manager\<close>

datatype os = MacOS | Linux bool | Other_Os

datatype ServiceStatus = Svc_Running | Svc_Stopped "string option" | Svc_NotInstalled

record ServiceInstallCtx =
  si_label :: string
  si_program :: string
  si_args :: "string list"
  si_contents :: "string option"
  si_autostart :: bool
  si_restart_delay :: nat

record 'm service_env =
  sv_config :: config_host
  sv_os :: os
  sv_data_dir :: "string option"
  sv_input :: "string option"
  sm_install :: "ServiceInstallCtx \<Rightarrow> 'm \<Rightarrow> bool \<times> 'm"
  sm_start :: "'m \<Rightarrow> bool \<times> 'm"
  sm_stop :: "'m \<Rightarrow> bool \<times> 'm"
  sm_uninstall :: "'m \<Rightarrow> bool \<times> 'm"
  sm_status :: "'m \<Rightarrow> ServiceStatus option"
  sm_settle :: "'m \<Rightarrow> 'm"

abbreviation sv_host :: "'m service_env \<Rightarrow> host" where "sv_host env \<equiv> ch_host (sv_config env)"

datatype service_failure =
    SF_Config config_failure
  | SF_Update update_error
  | SF_Platform
  | SF_No_Data_Dir
  | SF_Rpc_Required
  | SF_No_Node_Version
  | SF_Install
  | SF_Start
  | SF_Stop
  | SF_Uninstall
  | SF_Status

definition SERVICE_LABEL :: string where "SERVICE_LABEL = ''antegen''"

definition get_service_manager :: "'m service_env \<Rightarrow> service_failure + unit" where
  "get_service_manager env = (case sv_os env of Other_Os \<Rightarrow> Inl SF_Platform | _ \<Rightarrow> Inr ())"

text \<open>An operation of the manager, with the error its caller puts on a failure.\<close>

definition on_manager :: "service_failure \<Rightarrow> ('m \<Rightarrow> bool \<times> 'm) \<Rightarrow> fs \<times> 'm \<Rightarrow> (service_failure + unit) \<times> fs \<times> 'm" where
  "on_manager e op st = (case op (snd st) of (ok, m) \<Rightarrow> (if ok then Inr () else Inl e, fst st, m))"

text \<open>The same with the result dropped (\<open>let _ =\<close>).\<close>

definition try_manager :: "('m \<Rightarrow> bool \<times> 'm) \<Rightarrow> fs \<times> 'm \<Rightarrow> fs \<times> 'm" where
  "try_manager op st = (fst st, snd (op (snd st)))"

definition on_files :: "('e \<Rightarrow> service_failure) \<Rightarrow> (fs \<Rightarrow> ('e + 'a) \<times> fs) \<Rightarrow> fs \<times> 'm \<Rightarrow> (service_failure + 'a) \<times> fs \<times> 'm" where
  "on_files f op st = (case op (fst st) of (r, fs) \<Rightarrow> (map_sum f id r, fs, snd st))"

section \<open>Configuration\<close>

definition service_config_dir :: "'m service_env \<Rightarrow> service_failure + string" where
  "service_config_dir env = map_sum id (\<lambda>p. path_join p ''antegen'') (ok_or (config_dir (sv_config env)) (SF_Config No_Config_Dir))"

definition data_dir :: "'m service_env \<Rightarrow> service_failure + string" where
  "data_dir env = map_sum id (\<lambda>p. path_join p ''antegen'') (ok_or (sv_data_dir env) SF_No_Data_Dir)"

text \<open>\<open>None\<close> when the input is not a terminal, otherwise the line that was typed.\<close>

definition prompt_for_rpc :: "'m service_env \<Rightarrow> string option" where
  "prompt_for_rpc env =
     map_option (\<lambda>input. if trim input = [] then ''http://localhost:8899'' else trim input) (sv_input env)"

definition do_init :: "'m service_env \<Rightarrow> string option \<Rightarrow> bool \<Rightarrow> fs \<times> 'm \<Rightarrow> (service_failure + string) \<times> fs \<times> 'm" where
  "do_init env rpc force st =
     and_then (pure (service_config_dir env) st) (\<lambda>dir st.
     let config_path = path_join dir ''antegen.toml'' in
     and_then (pure (data_dir env) st) (\<lambda>data st.
     if path_exists (fst st) config_path \<and> \<not> force then (Inr config_path, st)
     else
       and_then (pure (ok_or (case rpc of Some url \<Rightarrow> Some url | None \<Rightarrow> prompt_for_rpc env) SF_Rpc_Required) st) (\<lambda>rpc_url st.
       and_then (on_files SF_Update (create_dir_all (sv_host env) dir) st) (\<lambda>_ st.
       and_then (on_files SF_Update (create_dir_all (sv_host env) data) st) (\<lambda>_ st.
       and_then (on_files SF_Config (config_file_init (sv_config env) config_path (Some rpc_url)
           (Some (path_join data ''executor.json'')) (Some (path_join data ''observability'')) force) st) (\<lambda>_.
         pure (Inr config_path)))))))"

section \<open>Installing and starting\<close>

definition DQ :: char where "DQ = CHR 0x22"

definition xml_string :: "string \<Rightarrow> string" where
  "xml_string s = ''<string>'' @ s @ ''</string>''"

definition generate_launchd_plist :: "string \<Rightarrow> string \<Rightarrow> string \<Rightarrow> string \<Rightarrow> string" where
  "generate_launchd_plist binary config_path stdout_log stderr_log =
     butlast (concat (map (\<lambda>l. l @ [NL])
       [''<?xml version='' @ [DQ] @ ''1.0'' @ [DQ] @ '' encoding='' @ [DQ] @ ''UTF-8'' @ [DQ] @ ''?>'',
        ''<!DOCTYPE plist PUBLIC '' @ [DQ] @ ''-//Apple//DTD PLIST 1.0//EN'' @ [DQ] @ '' '' @ [DQ] @
          ''http://www.apple.com/DTDs/PropertyList-1.0.dtd'' @ [DQ] @ ''>'',
        ''<plist version='' @ [DQ] @ ''1.0'' @ [DQ] @ ''>'',
        ''<dict>'',
        ''    <key>Label</key>'',
        ''    '' @ xml_string SERVICE_LABEL,
        ''    <key>ProgramArguments</key>'',
        ''    <array>'',
        ''        '' @ xml_string binary,
        ''        '' @ xml_string ''--config'',
        ''        '' @ xml_string config_path,
        ''    </array>'',
        ''    <key>StandardOutPath</key>'',
        ''    '' @ xml_string stdout_log,
        ''    <key>StandardErrorPath</key>'',
        ''    '' @ xml_string stderr_log,
        ''    <key>KeepAlive</key>'',
        ''    <dict>'',
        ''        <key>SuccessfulExit</key>'',
        ''        <false/>'',
        ''    </dict>'',
        ''    <key>RunAtLoad</key>'',
        ''    <true/>'',
        ''    <key>ThrottleInterval</key>'',
        ''    <integer>5</integer>'',
        ''</dict>'',
        ''</plist>'']))"

definition resolve_node_version :: "'m service_env \<Rightarrow> string option \<Rightarrow> fs \<times> 'm \<Rightarrow> (service_failure + string) \<times> fs \<times> 'm" where
  "resolve_node_version env version st =
     (case version of
        Some v \<Rightarrow> (Inr v, st)
      | None \<Rightarrow>
          (case read_node_version (sv_host env) (fst st) of
             Some v \<Rightarrow> (Inr v, st)
           | None \<Rightarrow>
               and_then (on_files SF_Update (download_latest_node (sv_host env)) st) (\<lambda>_ st.
                 (ok_or (read_node_version (sv_host env) (fst st)) SF_No_Node_Version, st))))"

text \<open>\<open>canonicalize\<close>, or the path itself when that fails.\<close>

definition canonical :: "fs \<Rightarrow> string \<Rightarrow> string" where
  "canonical fs p = (if path_exists fs p then the (resolve 40 fs p) else p)"

definition install_ctx :: "'m service_env \<Rightarrow> string \<Rightarrow> string \<Rightarrow> string \<Rightarrow> ServiceInstallCtx" where
  "install_ctx env binary config_path log_dir = \<lparr>si_label = SERVICE_LABEL, si_program = binary, si_args = [''--config'', config_path],
     si_contents = (if sv_os env = MacOS
       then Some (generate_launchd_plist binary config_path (path_join log_dir ''antegen.out'') (path_join log_dir ''antegen.log''))
       else None),
     si_autostart = True, si_restart_delay = 5\<rparr>"

definition install_service :: "'m service_env \<Rightarrow> string \<Rightarrow> string option \<Rightarrow> fs \<times> 'm \<Rightarrow> (service_failure + unit) \<times> fs \<times> 'm" where
  "install_service env config_path version st =
     and_then (pure (get_service_manager env) st) (\<lambda>_ st.
     and_then (resolve_node_version env version st) (\<lambda>node_version st.
     and_then (on_files SF_Update (ensure_node_downloaded (sv_host env) node_version) st) (\<lambda>path st.
     let binary = canonical (fst st) path in
     and_then (pure (map_sum id (\<lambda>d. path_join d ''logs'') (data_dir env)) st) (\<lambda>log_dir st.
     and_then (on_files SF_Update (create_dir_all (sv_host env) log_dir) st) (\<lambda>_ st.
     and_then (on_manager SF_Install (sm_install env (install_ctx env binary config_path log_dir)) st) (\<lambda>_ st.
       (Inr (), case Option.bind (file_name binary) (\<lambda>f. strip_prefix f ''antegen-node-'') of
          Some ver \<Rightarrow> (snd (write_node_version (sv_host env) ver (fst st)), snd st)
        | None \<Rightarrow> st)))))))"

definition start_service :: "'m service_env \<Rightarrow> fs \<times> 'm \<Rightarrow> (service_failure + unit) \<times> fs \<times> 'm" where
  "start_service env st =
     and_then (pure (get_service_manager env) st) (\<lambda>_. on_manager SF_Start (sm_start env))"

definition service_init :: "'m service_env \<Rightarrow> string option \<Rightarrow> bool \<Rightarrow> fs \<times> 'm \<Rightarrow> (service_failure + unit) \<times> fs \<times> 'm" where
  "service_init env rpc force st = and_then (do_init env rpc force st) (\<lambda>_. pure (Inr ()))"

definition ensure_config :: "'m service_env \<Rightarrow> fs \<times> 'm \<Rightarrow> (service_failure + string) \<times> fs \<times> 'm" where
  "ensure_config env = do_init env None False"

definition is_installed :: "'m service_env \<Rightarrow> 'm \<Rightarrow> bool" where
  "is_installed env m =
     (case get_service_manager env of
        Inl _ \<Rightarrow> False
      | Inr _ \<Rightarrow> (case sm_status env m of Some Svc_Running \<Rightarrow> True | Some (Svc_Stopped _) \<Rightarrow> True | _ \<Rightarrow> False))"

definition print_update_notices :: "'m service_env \<Rightarrow> fs \<Rightarrow> string option \<times> string option" where
  "print_update_notices env fs =
     (let host = sv_host env in
      if get_dev_binary host \<noteq> None then (None, None)
      else
        (case fetch_latest_version (releases host) of
           Inr latest \<Rightarrow> if version_less_than (current_version host) latest then Some latest else None
         | Inl _ \<Rightarrow> None,
         Option.bind (read_node_version host fs) (\<lambda>installed.
           case fetch_latest_node_version (releases host) of
             Inr latest \<Rightarrow> if version_less_than installed latest then Some latest else None
           | Inl _ \<Rightarrow> None)))"

text \<open>What \<open>start\<close> reports; all three are successes.\<close>

datatype start_report =
    Report_Running "string option \<times> string option"
  | Report_Crashed "string option"
  | Report_NotInstalled

fun start_report_of :: "'m service_env \<Rightarrow> fs \<Rightarrow> ServiceStatus \<Rightarrow> start_report" where
  "start_report_of env fs Svc_Running = Report_Running (print_update_notices env fs)"
| "start_report_of env fs (Svc_Stopped reason) = Report_Crashed reason"
| "start_report_of env fs Svc_NotInstalled = Report_NotInstalled"

definition service_start :: "'m service_env \<Rightarrow> string option \<Rightarrow> string option \<Rightarrow> fs \<times> 'm \<Rightarrow> (service_failure + start_report) \<times> fs \<times> 'm" where
  "service_start env rpc version st =
     and_then (do_init env rpc False st) (\<lambda>config_path st.
     and_then (if is_installed env (snd st)
               then and_then (pure (get_service_manager env) st) (\<lambda>_ st.
                      (Inr (), try_manager (sm_uninstall env) (try_manager (sm_stop env) st)))
               else (Inr (), st)) (\<lambda>_ st.
     and_then (install_service env config_path version st) (\<lambda>_ st.
     and_then (start_service env st) (\<lambda>_ st.
     let st = (fst st, sm_settle env (snd st)) in
     and_then (pure (get_service_manager env) st) (\<lambda>_ st.
     and_then (pure (ok_or (sm_status env (snd st)) SF_Status) st) (\<lambda>status st.
       (Inr (start_report_of env (fst st) status), st)))))))"

section \<open>The other commands\<close>

definition service_status :: "'m service_env \<Rightarrow> 'm \<Rightarrow> service_failure + ServiceStatus" where
  "service_status env m = then_do (get_service_manager env) (\<lambda>_. ok_or (sm_status env m) SF_Status)"

definition service_stop :: "'m service_env \<Rightarrow> fs \<times> 'm \<Rightarrow> (service_failure + unit) \<times> fs \<times> 'm" where
  "service_stop env st =
     and_then (pure (get_service_manager env) st) (\<lambda>_. on_manager SF_Stop (sm_stop env))"

definition service_restart :: "'m service_env \<Rightarrow> fs \<times> 'm \<Rightarrow> (service_failure + unit) \<times> fs \<times> 'm" where
  "service_restart env st =
     and_then (pure (get_service_manager env) st) (\<lambda>_ st.
       on_manager SF_Start (sm_start env) (try_manager (sm_stop env) st))"

definition service_uninstall :: "'m service_env \<Rightarrow> fs \<times> 'm \<Rightarrow> (service_failure + unit) \<times> fs \<times> 'm" where
  "service_uninstall env st =
     and_then (pure (get_service_manager env) st) (\<lambda>_ st.
     and_then (on_manager SF_Uninstall (sm_uninstall env) (try_manager (sm_stop env) st)) (\<lambda>_ st.
     and_then (pure (service_config_dir env) st) (\<lambda>_ st.
     and_then (pure (data_dir env) st) (\<lambda>_.
       pure (Inr ())))))"

text \<open>The program that shows the logs, with its arguments; none when there is no log file.\<close>

definition service_logs :: "'m service_env \<Rightarrow> bool \<Rightarrow> fs \<Rightarrow> service_failure + (string \<times> string list) option" where
  "service_logs env follow fs =
     (case sv_os env of
        MacOS \<Rightarrow>
          then_do (data_dir env) (\<lambda>d.
            let log_file = path_join (path_join d ''logs'') ''antegen.log'' in
            if \<not> path_exists fs log_file then Inr None
            else Inr (Some (''tail'', (if follow then [''-n'', ''50'', ''-f''] else [''-n'', ''100'']) @ [log_file])))
      | Linux as_root \<Rightarrow>
          Inr (Some (''journalctl'', (if as_root then [''-u'', SERVICE_LABEL] else [''--user'', ''-u'', SERVICE_LABEL]) @
            (if follow then [''-f''] else [''-n'', ''100''])))
      | Other_Os \<Rightarrow> Inr None)"

section \<open>Node commands that restart the service\<close>

definition restart_service :: "'m service_env \<Rightarrow> string \<Rightarrow> fs \<times> 'm \<Rightarrow> (service_failure + unit) \<times> fs \<times> 'm" where
  "restart_service env ver st =
     (if is_installed env (snd st) then and_then (service_start env None (Some ver) st) (\<lambda>_. pure (Inr ()))
      else (Inr (), st))"

definition update_node :: "'m service_env \<Rightarrow> string option \<Rightarrow> bool \<Rightarrow> fs \<times> 'm \<Rightarrow> (service_failure + unit) \<times> fs \<times> 'm" where
  "update_node env v local st =
     and_then (on_files SF_Update (update_node_files (sv_host env) v local) st) (\<lambda>ver.
       case ver of Some ver \<Rightarrow> restart_service env ver | None \<Rightarrow> pure (Inr ()))"

definition use_node_version :: "'m service_env \<Rightarrow> string \<Rightarrow> fs \<times> 'm \<Rightarrow> (service_failure + unit) \<times> fs \<times> 'm" where
  "use_node_version env v st =
     and_then (on_files SF_Update (select_node_version (sv_host env) v) st) (\<lambda>ver. restart_service env ver)"

section \<open>What the commands leave installed\<close>

text \<open>
  What a service manager promises, with \<open>svc\<close> the service it has installed: installing makes
  it the given one, uninstalling removes it, starting, stopping and the passing of time keep
  it, and the status says whether there is one.
\<close>

definition manager_laws :: "'m service_env \<Rightarrow> ('m \<Rightarrow> ServiceInstallCtx option) \<Rightarrow> bool" where
  "manager_laws env svc \<longleftrightarrow>
     (\<forall>u m m'. sm_install env u m = (True, m') \<longrightarrow> svc m' = Some u) \<and>
     (\<forall>m m'. sm_uninstall env m = (True, m') \<longrightarrow> svc m' = None) \<and>
     (\<forall>m. svc (snd (sm_start env m)) = svc m \<and> svc (snd (sm_stop env m)) = svc m \<and> svc (sm_settle env m) = svc m) \<and>
     (\<forall>m s. sm_status env m = Some s \<longrightarrow> (s = Svc_NotInstalled \<longleftrightarrow> svc m = None))"

lemmas service_steps = and_then_Inr pure_Inr

lemma on_manager_Inr: "on_manager e op st = (Inr u, st') \<longleftrightarrow> (\<exists>m. op (snd st) = (True, m) \<and> st' = (fst st, m))"
  by (auto simp: on_manager_def split: prod.splits if_splits)

lemma on_files_Inr: "on_files f op st = (Inr a, st') \<longleftrightarrow> (\<exists>fs. op (fst st) = (Inr a, fs) \<and> st' = (fs, snd st))"
  by (auto simp: on_files_def map_sum_def split: prod.splits sum.splits)

lemma do_init_Inr:
  assumes "do_init env rpc force st = (Inr path, st')"
  shows "\<exists>dir. config_dir (sv_config env) = Some dir \<and> path = path_join (path_join dir ''antegen'') ''antegen.toml''"
    and "snd st' = snd st"
  using assms
  by (auto simp: do_init_def service_config_dir_def data_dir_def service_steps on_files_Inr map_sum_def Let_def split: sum.splits if_splits)

lemma resolve_node_version_mgr: "resolve_node_version env v st = (Inr w, st') \<Longrightarrow> snd st' = snd st \<and> (\<forall>x. v = Some x \<longrightarrow> w = x \<and> st' = st)"
  by (auto simp: resolve_node_version_def service_steps on_files_Inr split: option.splits)

lemma ensure_node_downloaded_path:
  "ensure_node_downloaded host v fs = (Inr path, fs') \<Longrightarrow> versioned_node_binary_path host (normalize_version v) = Inr path"
  by (auto simp: ensure_node_downloaded_def Let_def service_steps split: option.splits if_splits)

text \<open>
  A successful installation leaves a service that runs the node binary of the wanted version,
  or of the recorded one when none is given.
\<close>

lemma install_service_Inr:
  assumes laws: "manager_laws env svc" and ok: "install_service env config_path version st = (Inr u, st')"
  obtains ver path st1 fs1 log_dir where "resolve_node_version env version st = (Inr ver, st1)"
    "ensure_node_downloaded (sv_host env) ver (fst st1) = (Inr path, fs1)"
    "versioned_node_binary_path (sv_host env) (normalize_version ver) = Inr path"
    "svc (snd st') = Some (install_ctx env (canonical fs1 path) config_path log_dir)"
proof -
  obtain ver st1 path st2 log_dir m where r: "resolve_node_version env version st = (Inr ver, st1)"
    and d: "ensure_node_downloaded (sv_host env) ver (fst st1) = (Inr path, fst st2)"
    and i: "sm_install env (install_ctx env (canonical (fst st2) path) config_path log_dir) (snd st2) = (True, m)"
    and m: "snd st' = m"
    using ok unfolding install_service_def
    by (auto simp: service_steps on_manager_Inr on_files_Inr Let_def create_dir_all_def permit_def split: if_splits option.splits)
  have "svc m = Some (install_ctx env (canonical (fst st2) path) config_path log_dir)"
    using laws i unfolding manager_laws_def by blast
  then show thesis using that [OF r d ensure_node_downloaded_path [OF d]] m by simp
qed

text \<open>Starting: the configuration at the default path, and the service installed from it.\<close>

lemma service_start_Inr:
  assumes laws: "manager_laws env svc" and ok: "service_start env rpc version st = (Inr rep, st')"
  obtains config_path st1 st2 st3 where "do_init env rpc False st = (Inr config_path, st1)" "fst st2 = fst st1"
    "install_service env config_path version st2 = (Inr (), st3)" "svc (snd st') = svc (snd st3)" "rep \<noteq> Report_NotInstalled"
proof -
  obtain config_path st1 u2 st2 u3 st3 u4 st4 u5 st5 s st6 where d: "do_init env rpc False st = (Inr config_path, st1)"
    and re: "(if is_installed env (snd st1)
       then and_then (pure (get_service_manager env) st1) (\<lambda>_ st. (Inr (), try_manager (sm_uninstall env) (try_manager (sm_stop env) st)))
       else (Inr (), st1)) = (Inr u2 :: service_failure + unit, st2)"
    and i: "install_service env config_path version st2 = (Inr u3, st3)" and start: "start_service env st3 = (Inr u4, st4)"
    and p5: "pure (get_service_manager env) (fst st4, sm_settle env (snd st4)) = (Inr u5, st5)"
    and p6: "pure (ok_or (sm_status env (snd st5)) SF_Status) st5 = (Inr s, st6)"
    and rep: "(Inr (start_report_of env (fst st6) s) :: service_failure + start_report, st6) = (Inr rep, st')"
    using ok unfolding service_start_def Let_def and_then_Inr by blast
  have f: "fst st2 = fst st1" using re by (auto simp: service_steps try_manager_def split: if_splits)
  obtain m where m: "sm_start env (snd st3) = (True, m)" and st': "snd st' = sm_settle env m" and s: "sm_status env (snd st') = Some s"
    using start p5 p6 rep by (auto simp: start_service_def service_steps on_manager_Inr)
  have "svc (snd st') = svc (snd st3)"
    using laws m unfolding manager_laws_def st' by (metis snd_conv)
  moreover obtain u where "svc (snd st3) = Some u" using install_service_Inr [OF laws i] by metis
  ultimately have "svc (snd st') \<noteq> None" by simp
  moreover have "s = Svc_NotInstalled \<longleftrightarrow> svc (snd st') = None" using laws s unfolding manager_laws_def by (elim conjE) simp
  ultimately have "s \<noteq> Svc_NotInstalled" by simp
  then show thesis using that [OF d f _ \<open>svc (snd st') = svc (snd st3)\<close>] i rep by (cases s) auto
qed

section \<open>Steps that make no links\<close>

definition no_new_links :: "fs \<Rightarrow> fs \<Rightarrow> bool" where
  "no_new_links fs fs' \<longleftrightarrow> (\<forall>p. read_link fs p = None \<longrightarrow> read_link fs' p = None)"

named_theorems links

lemma no_new_links_refl [simp]: "no_new_links fs fs" by (simp add: no_new_links_def)

lemma no_new_links_trans: "no_new_links a b \<Longrightarrow> no_new_links b c \<Longrightarrow> no_new_links a c" by (simp add: no_new_links_def)

lemma no_new_links_upd [simp]: "no_new_links fs (fs(p \<mapsto> File c))" "no_new_links fs (fs(p := None))"
  by (simp_all add: no_new_links_def read_link_upd)

lemma and_then_links [links]:
  assumes "no_new_links fs (snd r)" and "\<And>a fs1. r = (Inr a, fs1) \<Longrightarrow> no_new_links fs1 (snd (f a fs1))"
  shows "no_new_links fs (snd (and_then r f))"
  using assms by (cases r; cases "fst r") (auto simp: and_then_def intro: no_new_links_trans)

lemma put_file_links [links]: "no_new_links fs (snd (put_file p c fs))"
  by (simp add: put_file_def split: option.split)

lemma permit_links [links]: "(\<And>fs. no_new_links fs (snd (act fs))) \<Longrightarrow> no_new_links fs (snd (permit host op act fs))"
  by (simp add: permit_def)

lemma simple_links [links]:
  "no_new_links fs (snd (fs_write host p c fs))" "no_new_links fs (snd (create_dir_all host p fs))"
  "no_new_links fs (snd (pure r fs))" "no_new_links fs (snd (copy_executable host a b fs))"
  unfolding fs_write_def create_dir_all_def pure_def copy_executable_def
  by (intro links | simp split: option.split add: links)+

lemma config_io_snd [simp]: "snd (config_io r) = snd r"
  by (simp add: config_io_def split: prod.split sum.split)

lemma download_links [links]: "no_new_links fs (snd (download_version host url n p fs))"
  unfolding download_version_def download_binary_def install_binary_to_def
  by (auto intro!: links split: option.split simp: Let_def)

lemma ensure_node_downloaded_links [links]: "no_new_links fs (snd (ensure_node_downloaded host v fs))"
  unfolding ensure_node_downloaded_def Let_def
  by (auto intro!: links split: option.split)

lemma config_file_init_links [links]: "no_new_links fs (snd (config_file_init h out rpc k s force fs))"
  unfolding config_file_init_def ensure_keypair_exists_def create_parent_def config_save_def Let_def
  by (auto intro!: links split: option.split)

lemma create_dir_all_snd [simp]: "snd (create_dir_all host p fs) = fs"
  by (simp add: create_dir_all_def permit_def)

lemma do_init_links: "do_init env rpc force st = (Inr path, st') \<Longrightarrow> no_new_links (fst st) (fst st')"
  by (auto simp: do_init_def service_steps on_files_Inr Let_def config_file_init_links split: if_splits
      dest!: arg_cong [of _ _ snd])

end
