(* ===== verification/Properties_Service.thy ===== *)
theory Properties_Service
  imports Cli_Service Properties_Node
begin

text \<open>
  Properties of the service commands: what a version switch leaves running, and what a failed
  start leaves behind.
\<close>

section \<open>Switching the node version\<close>

lemma activate_node_path:
  assumes "activate_node host ver path fs = (Inr (), fs')" and "node_binary_path host = Inr link" and "p \<noteq> link" and "read_link fs p = None"
  shows "read_link fs' p = None"
proof -
  obtain fs1 where u: "update_symlink host link path fs = (Inr (), fs1)" and w: "write_node_version host ver fs1 = (Inr (), fs')"
    using assms(1,2) by (auto simp: activate_node_def service_steps)
  have "read_link fs1 p = None" using update_symlink_Inr [OF u] assms(3,4) by (simp add: read_link_upd)
  moreover have "no_new_links fs1 (snd (write_node_version host ver fs1))"
    unfolding write_node_version_def by (auto intro!: links)
  ultimately show ?thesis using w by (simp add: no_new_links_def)
qed


definition sample_service :: "(ServiceInstallCtx option \<times> bool) service_env" where
  "sample_service = \<lparr>sv_config = sample_machine, sv_os = Linux False, sv_data_dir = Some ''/d'', sv_input = None,
     sm_install = (\<lambda>u m. (True, (Some u, False))), sm_start = (\<lambda>m. (fst m \<noteq> None, (fst m, fst m \<noteq> None))),
     sm_stop = (\<lambda>m. (True, (fst m, False))), sm_uninstall = (\<lambda>m. (True, (None, False))),
     sm_status = (\<lambda>m. Some (if fst m = None then Svc_NotInstalled else if snd m then Svc_Running else Svc_Stopped None)),
     sm_settle = (\<lambda>m. m)\<rparr>"

lemma sample_service_laws: "manager_laws sample_service fst"
  by (auto simp: manager_laws_def sample_service_def split: if_splits)

definition sample_installed :: "ServiceInstallCtx option \<times> bool" where
  "sample_installed = (Some (install_ctx sample_service ''/old'' ''/c/antegen/antegen.toml'' ''/d/antegen/logs''), True)"

abbreviation sample_files :: fs where
  "sample_files \<equiv> [''/c/antegen/antegen.toml'' \<mapsto> File ''a'']"

lemma sample_switch: "\<exists>fs' m'. use_node_version sample_service ''5.0.1'' (sample_files, sample_installed) = (Inr (), fs', m')"
proof -
  have v: "normalize_version ''5.0.1'' = ''v5.0.1''" "normalize_version ''v5.0.1'' = ''v5.0.1''"
    by (simp_all add: normalize_version_def starts_with_def)
  have sup: "is_node_version_supported ''v5.0.1''"
    by (simp add: is_node_version_supported_def MIN_NODE_VERSION_def parse_version_def strip_prefix_def starts_with_def parse_u32_def
        parse_unsigned_def parse_number_def digit_of_def less_eq_prod_def)
  have "\<exists>fs1. select_node_version sample_host ''5.0.1'' sample_files = (Inr ''v5.0.1'', fs1) \<and>
      fs1 ''/h/.local/bin/antegen-node-v5.0.1'' = Some (File ''binary'') \<and> fs1 ''/c/antegen/antegen.toml'' = Some (File ''a'')"
    by (simp add: select_node_version_def Let_def v sup ensure_node_downloaded_def path_defs in_home_def ok_or_def sample_host_def
      pure_def and_then_def download_version_def path_exists_def resolve_40 download_binary_def fs_write_def permit_def
      put_file_def install_binary_to_def create_dir_all_def copy_executable_def read_to_string_def activate_node_def update_symlink_def
      read_link_def path_join_def get_dev_binary_def write_node_version_def)
  then obtain fs1 where sel: "select_node_version sample_host ''5.0.1'' sample_files = (Inr ''v5.0.1'', fs1)"
    and f: "fs1 ''/h/.local/bin/antegen-node-v5.0.1'' = Some (File ''binary'')" "fs1 ''/c/antegen/antegen.toml'' = Some (File ''a'')" by blast
  have ex: "path_exists fs1 ''/h/.local/bin/antegen-node-v5.0.1''" "path_exists fs1 ''/c/antegen/antegen.toml''"
    using f by (simp_all add: path_exists_file)
  have init: "do_init sample_service None False (fs1, m) = (Inr ''/c/antegen/antegen.toml'', fs1, m)" for m
    using ex(2) by (simp add: do_init_def service_config_dir_def data_dir_def and_then_def pure_def Let_def sample_service_def
        sample_machine_def path_join_def)
  have dl: "ensure_node_downloaded (sv_host sample_service) ''v5.0.1'' fs1 = (Inr ''/h/.local/bin/antegen-node-v5.0.1'', fs1)"
    using ex(1) by (simp add: ensure_node_downloaded_def v Let_def path_defs in_home_def and_then_def pure_def get_dev_binary_def
        download_version_def sample_service_def sample_machine_def sample_host_def path_join_def)
  have "\<exists>fs2 u. install_service sample_service c (Some ''v5.0.1'') (fs1, m) = (Inr (), fs2, Some u, False)" for c m
    using dl by (simp add: install_service_def get_service_manager_def resolve_node_version_def on_files_def on_manager_def data_dir_def
        create_dir_all_def permit_def and_then_def pure_def Let_def) (simp add: sample_service_def sample_machine_def sample_host_def split: option.split)
  then obtain fs2 u where "install_service sample_service ''/c/antegen/antegen.toml'' (Some ''v5.0.1'')
      (fs1, snd (sm_uninstall sample_service (snd (sm_stop sample_service sample_installed)))) = (Inr (), fs2, Some u, False)" by metis
  moreover have inst: "is_installed sample_service sample_installed" "get_service_manager sample_service = Inr ()"
    by (simp_all add: is_installed_def get_service_manager_def sample_service_def sample_installed_def)
  moreover have "sm_start sample_service (Some u, False) = (True, Some u, True)" "sm_status sample_service (Some u, True) = Some Svc_Running"
    "sm_settle sample_service m = m" for m by (simp_all add: sample_service_def)
  ultimately have "\<exists>rep fs' m'. service_start sample_service None (Some ''v5.0.1'') (fs1, sample_installed) = (Inr rep, fs', m')"
    using init by (auto simp: service_start_def start_service_def on_manager_def try_manager_def and_then_def pure_def Let_def)
  moreover have "ch_host (sv_config sample_service) = sample_host" by (simp add: sample_service_def sample_machine_def)
  ultimately show ?thesis using sel inst
    by (auto simp: use_node_version_def on_files_def restart_service_def and_then_def pure_def)
qed


section \<open>A start that fails\<close>

text \<open>
  The old service is removed before the new binary is there: when the download fails, no
  service is left.
\<close>

lemma failed_start_removes_service:
  assumes laws: "manager_laws env svc" and inst: "is_installed env m" and un: "sm_uninstall env (snd (sm_stop env m)) = (True, m1)"
    and cfg: "service_config_dir env = Inr dir" "data_dir env = Inr data" "path_exists fs (path_join dir ''antegen.toml'')"
    and dl: "versioned_node_binary_path (sv_host env) (normalize_version v) = Inr p" "\<not> path_exists fs p"
      "get_dev_binary (sv_host env) = None" "\<And>url. http_get (sv_host env) url = None"
  shows "service_start env rpc (Some v) (fs, m) = (Inl (SF_Update DownloadFailed), fs, m1) \<and> svc m1 = None"
proof -
  have mgr: "get_service_manager env = Inr ()"
    using inst by (auto simp: is_installed_def get_service_manager_def split: os.splits)
  have "do_init env rpc False (fs, m) = (Inr (path_join dir ''antegen.toml''), fs, m)"
    using cfg by (simp add: do_init_def and_then_def pure_def Let_def)
  moreover have "install_service env c (Some v) (fs, m1) = (Inl (SF_Update DownloadFailed), fs, m1)" for c
    using dl mgr by (simp add: install_service_def resolve_node_version_def ensure_node_downloaded_def download_version_def
        download_binary_def on_files_def and_then_def pure_def Let_def)
  moreover have "svc m1 = None" using laws un unfolding manager_laws_def by (elim conjE) blast
  ultimately show ?thesis using mgr inst un by (simp add: service_start_def and_then_def pure_def try_manager_def)
qed

end
