(* ===== verification/Cli_Geyser.thy ===== *)
theory Cli_Geyser
  imports Geyser_Plugin
begin

text \<open>
  \<open>cli/antegen/src/commands/geyser.rs\<close> and \<open>cli/core/src/download.rs\<close>: setting up the plugin for
  a validator. The JSON printer is a parameter; the library's extension is an argument because
  it depends on the platform.
\<close>

section \<open>Downloading the plugin\<close>

record geyser_host =
  gh_config :: config_host
  json_pretty :: "(string \<times> string) list \<Rightarrow> string"
  library_extension :: string

abbreviation gh_host :: "geyser_host \<Rightarrow> host" where "gh_host g \<equiv> ch_host (gh_config g)"

definition get_library_filename :: "geyser_host \<Rightarrow> string" where
  "get_library_filename g = ''libantegen_geyser_plugin.'' @ library_extension g"

definition plugin_download_url :: "geyser_host \<Rightarrow> string \<Rightarrow> string" where
  "plugin_download_url g v =
     ''https://github.com/wuwei-labs/antegen/releases/download/'' @ v @ ''/antegen-geyser-'' @ v @ ''-'' @ platform (gh_host g) @ ''.so''"

text \<open>The file is created, then filled and made executable.\<close>

definition download_geyser_plugin :: "geyser_host \<Rightarrow> string \<Rightarrow> string \<Rightarrow> fs \<Rightarrow> (config_failure + unit) \<times> fs" where
  "download_geyser_plugin g v dest fs =
     and_then (create_parent (gh_config g) dest fs) (\<lambda>_ fs.
     case http_get (gh_host g) (plugin_download_url g v) of
       None \<Rightarrow> (Inl (Config_Io DownloadFailed), fs)
     | Some body \<Rightarrow>
         and_then (config_io (fs_write (gh_host g) dest body fs)) (\<lambda>_ fs.
           config_io (permit (gh_host g) (Op_Chmod dest) (Pair (Inr ())) fs)))"

text \<open>\<open>Path::with_extension\<close>: the last dot of the file name, unless it begins the name.\<close>

definition with_extension :: "string \<Rightarrow> string \<Rightarrow> string" where
  "with_extension p ext =
     (let name = (case file_name p of Some n \<Rightarrow> n | None \<Rightarrow> []);
          stem = rev (tl (dropWhile (\<lambda>c. c \<noteq> CHR ''.'') (rev name))) in
      with_file_name p ((if stem = [] then name else stem) @ ''.'' @ ext))"

definition needs_update :: "string \<Rightarrow> string \<Rightarrow> fs \<Rightarrow> config_failure + bool" where
  "needs_update plugin_path expected fs =
     (if \<not> path_exists fs plugin_path then Inr True
      else
        let version_file = with_extension plugin_path ''version'' in
        if path_exists fs version_file then
          then_do (ok_or (read_to_string fs version_file) (Config_Io Io_Error)) (\<lambda>stored. Inr (trim stored \<noteq> expected))
        else Inr True)"

definition save_version_info :: "geyser_host \<Rightarrow> string \<Rightarrow> string \<Rightarrow> fs \<Rightarrow> (config_failure + unit) \<times> fs" where
  "save_version_info g plugin_path v fs =
     config_io (fs_write (gh_host g) (with_extension plugin_path ''version'') v fs)"

section \<open>The commands\<close>

definition geyser_init :: "geyser_host \<Rightarrow> string \<Rightarrow> string \<Rightarrow> fs \<Rightarrow> (config_failure + unit) \<times> fs" where
  "geyser_init g output config_path fs =
     and_then (pure (map_sum id (\<lambda>p. path_join p ''antegen'') (ok_or (config_dir (gh_config g)) No_Config_Dir)) fs) (\<lambda>plugin_dir fs.
     and_then (config_io (create_dir_all (gh_host g) plugin_dir fs)) (\<lambda>_ fs.
     let so_path = path_join plugin_dir (get_library_filename g); v = current_version (gh_host g) in
     and_then (pure (needs_update so_path v fs) fs) (\<lambda>update_needed fs.
     and_then (if update_needed then
                 and_then (download_geyser_plugin g v so_path fs) (\<lambda>_. save_version_info g so_path v)
               else (Inr (), fs)) (\<lambda>_ fs.
     let final_config_path = (if config_path = ''antegen.toml'' then path_join plugin_dir ''antegen.toml'' else config_path) in
     and_then (if path_exists fs final_config_path then (Inr (), fs)
               else config_save (gh_config g) (ClientConfig_default THREAD_PROGRAM_ID) final_config_path fs) (\<lambda>_ fs.
     let absolute = (if path_exists fs final_config_path then the (resolve 40 fs final_config_path) else final_config_path) in
     config_io (fs_write (gh_host g) output (json_pretty g [(''libpath'', so_path), (''config'', absolute)]) fs))))))"

definition geyser_extract :: "geyser_host \<Rightarrow> string \<Rightarrow> fs \<Rightarrow> (config_failure + unit) \<times> fs" where
  "geyser_extract g output fs =
     (let v = current_version (gh_host g) in
      and_then (download_geyser_plugin g v output fs) (\<lambda>_. save_version_info g output v))"

section \<open>What the validator is given\<close>

text \<open>JSON objects are printed with a brace, with which no TOML document begins.\<close>

definition format_laws :: "geyser_host \<Rightarrow> bool" where
  "format_laws g \<longleftrightarrow> (\<forall>kvs. \<exists>rest. json_pretty g kvs = CHR 0x7B # rest) \<and>
     (\<forall>rest. toml_from_str (gh_config g) (CHR 0x7B # rest) = None)"

lemma geyser_init_writes:
  assumes "geyser_init g output config_path fs = (Inr (), fs')"
  shows "\<exists>kvs. read_to_string fs' output = Some (json_pretty g kvs)"
proof -
  obtain kvs fs1 where "fs_write (gh_host g) output (json_pretty g kvs) fs1 = (Inr (), fs')"
    using assms unfolding geyser_init_def Let_def and_then_Inr config_io_simps by blast
  then show ?thesis using read_after_write by blast
qed

text \<open>A plugin that was set up is not downloaded again.\<close>

lemma init_not_stale:
  assumes "save_version_info g p v fs = (Inr (), fs')" and "path_exists fs' p" and "trim v = v"
  shows "needs_update p v fs' = Inr False"
proof -
  have w: "fs_write (gh_host g) (with_extension p ''version'') v fs = (Inr (), fs')"
    using assms(1) by (simp add: save_version_info_def)
  obtain q where "resolve 40 fs' (with_extension p ''version'') = Some q" "fs' q = Some (File v)"
    using fs_write_Inr [OF w] by auto
  then have "path_exists fs' (with_extension p ''version'')" by (simp add: path_exists_def)
  with read_after_write [OF w] assms(2,3) show ?thesis by (simp add: needs_update_def Let_def)
qed

end
