(* ===== verification/Cli_Fund.thy ===== *)
theory Cli_Fund
  imports Node
begin

text \<open>
  \<open>cli/core/src/commands/client.rs\<close> with \<open>get_rpc_url\<close> and \<open>get_keypair\<close> of \<open>commands/mod.rs\<close>:
  moving lamports between the operator's wallet and the executor. The settings of the Solana
  command line are a parameter. Amounts are finite doubles. A transaction is the transfer it
  holds, signed by its payer; arithmetic is checked, as in the release profile.
\<close>

section \<open>Data\<close>

record transfer_tx =
  tt_from :: pubkey
  tt_to :: pubkey
  tt_lamports :: u64
  tt_blockhash :: bytes

text \<open>
  The transactions of the command line tools: a transfer, the initialisation of the configuration
  by an admin, and the deletion of a thread by the admin of the configuration.
\<close>

datatype cli_tx = TX_Transfer transfer_tx | TX_Init_Config pubkey pubkey bytes | TX_Delete_Thread pubkey pubkey pubkey bytes

record fund_env =
  fe_host :: config_host
  fe_tilde :: "string \<Rightarrow> string"
  fe_solana :: "(string \<times> string) option"
  fe_net :: "cli_tx net"
  fe_time :: "nat \<Rightarrow> nat"

datatype fund_error =
    FE_Config config_failure
  | FE_No_Executor
  | FE_Keypair
  | FE_Solana_Config
  | FE_Pool string
  | FE_Request request_error
  | FE_Insufficient
  | FE_Nothing
  | FE_Panic

definition get_rpc_url :: "fund_env \<Rightarrow> string option \<Rightarrow> fund_error + string" where
  "get_rpc_url env rpc = (case rpc of Some url \<Rightarrow> Inr url | None \<Rightarrow> map_sum id fst (ok_or (fe_solana env) FE_Solana_Config))"

definition get_keypair :: "fund_env \<Rightarrow> string option \<Rightarrow> fs \<Rightarrow> fund_error + pubkey" where
  "get_keypair env path fs =
     then_do (case path of Some p \<Rightarrow> Inr p | None \<Rightarrow> map_sum id snd (ok_or (fe_solana env) FE_Solana_Config)) (\<lambda>p.
       ok_or (read_keypair (fe_host env) p fs) FE_Keypair)"

definition load_keypair_from_config :: "fund_env \<Rightarrow> ClientConfig \<Rightarrow> fs \<Rightarrow> fund_error + pubkey" where
  "load_keypair_from_config env config fs =
     ok_or (read_keypair (fe_host env) (fe_tilde env (keypair_path (cc_executor config))) fs) FE_Keypair"

text \<open>The configuration and the executor's key, which must exist.\<close>

definition executor_key :: "fund_env \<Rightarrow> string \<Rightarrow> fs \<Rightarrow> fund_error + pubkey" where
  "executor_key env config_path fs =
     then_do (map_sum FE_Config id (config_load (fe_host env) config_path fs)) (\<lambda>config.
     then_do (require (path_exists fs (fe_tilde env (keypair_path (cc_executor config)))) FE_No_Executor) (\<lambda>_.
       load_keypair_from_config env config fs))"

section \<open>Amounts\<close>

definition LAMPORTS_PER_SOL :: u64 where "LAMPORTS_PER_SOL = 1000000000"

definition FEE_BUFFER :: u64 where "FEE_BUFFER = 5000"

definition sol_to_lamports :: "rat \<Rightarrow> u64" where
  "sol_to_lamports sol = f64_as_u64 (f64_mul sol (f64_of_u64 LAMPORTS_PER_SOL))"

text \<open>\<open>None\<close> when no funding is needed.\<close>

definition top_up :: "u64 \<Rightarrow> u64 option" where
  "top_up balance = (if MIN_BALANCE_LAMPORTS \<le> balance then None else Some (MIN_BALANCE_LAMPORTS - balance))"

definition withdraw_lamports :: "rat option \<Rightarrow> u64 \<Rightarrow> fund_error + u64" where
  "withdraw_lamports amount balance =
     (case amount of
        Some sol \<Rightarrow>
          then_do (ok_or (checked_add (sol_to_lamports sol) FEE_BUFFER) FE_Panic) (\<lambda>total.
          if balance < total then Inl FE_Insufficient else Inr (sol_to_lamports sol))
      | None \<Rightarrow>
          then_do (ok_or (checked_add MIN_BALANCE_LAMPORTS FEE_BUFFER) FE_Panic) (\<lambda>reserve.
          if balance \<le> reserve then Inl FE_Nothing else Inr (balance - reserve)))"

section \<open>The commands\<close>

text \<open>A request, with the pool it leaves.\<close>

definition ask :: "(request_error + 'a) \<times> RpcPool \<Rightarrow> ('a \<Rightarrow> RpcPool \<Rightarrow> ((fund_error + 'b) \<times> transfer_tx list) option) \<Rightarrow>
    ((fund_error + 'b) \<times> transfer_tx list) option" where
  "ask r f = (case r of (Inl e, _) \<Rightarrow> Some (Inl (FE_Request e), []) | (Inr a, pool) \<Rightarrow> f a pool)"

text \<open>
  The end of both commands: a blockhash, the transfer, its confirmation, then the balances that
  are shown. The result comes with the transactions that were confirmed. \<open>None\<close> is a
  confirmation that does not end.
\<close>

definition send_transfer :: "fund_env \<Rightarrow> pubkey \<Rightarrow> pubkey \<Rightarrow> u64 \<Rightarrow> pubkey list \<Rightarrow> RpcPool \<Rightarrow> ((fund_error + unit) \<times> transfer_tx list) option" where
  "send_transfer env from to n shown pool =
     ask (get_latest_blockhash (fe_net env) (fe_time env 1) pool) (\<lambda>(blockhash, _) pool.
     let tx = \<lparr>tt_from = from, tt_to = to, tt_lamports = n, tt_blockhash = blockhash\<rparr> in
     case send_and_confirm_transaction (fe_net env) (\<lambda>i. fe_time env (2 + i)) (TX_Transfer tx) (fe_time env 2) pool of
       None \<Rightarrow> None
     | Some (Inl e, _) \<Rightarrow> Some (Inl (FE_Request e), [])
     | Some (Inr _, pool) \<Rightarrow>
         (case fold (\<lambda>k (r, pool). case r of
                Inl e \<Rightarrow> (Inl e, pool)
              | Inr _ \<Rightarrow> (case get_balance (fe_net env) k (fe_time env 100) pool of
                          (Inl e, pool) \<Rightarrow> (Inl (FE_Request e), pool) | (Inr _, pool) \<Rightarrow> (Inr (), pool)))
            shown (Inr (), pool) of (r, _) \<Rightarrow> Some (r, [tx])))"

definition fund :: "fund_env \<Rightarrow> string \<Rightarrow> rat option \<Rightarrow> string option \<Rightarrow> string option \<Rightarrow> fs \<Rightarrow> ((fund_error + unit) \<times> transfer_tx list) option" where
  "fund env config_path amount path rpc fs =
     (case then_do (executor_key env config_path fs) (\<lambda>destination.
           then_do (get_keypair env path fs) (\<lambda>wallet.
           then_do (get_rpc_url env rpc) (\<lambda>url.
           then_do (map_sum FE_Pool id (pool_with_url url)) (\<lambda>pool.
             Inr (destination, wallet, pool))))) of
        Inl e \<Rightarrow> Some (Inl e, [])
      | Inr (destination, wallet, pool) \<Rightarrow>
          (case amount of
             Some sol \<Rightarrow> send_transfer env wallet destination (sol_to_lamports sol) [destination] pool
           | None \<Rightarrow>
               ask (get_balance (fe_net env) destination (fe_time env 0) pool) (\<lambda>balance pool.
               case top_up balance of
                 None \<Rightarrow> Some (Inr (), [])
               | Some deficit \<Rightarrow> send_transfer env wallet destination deficit [destination] pool)))"

definition withdraw :: "fund_env \<Rightarrow> string \<Rightarrow> rat option \<Rightarrow> string option \<Rightarrow> fs \<Rightarrow> ((fund_error + unit) \<times> transfer_tx list) option" where
  "withdraw env config_path amount rpc fs =
     (case then_do (executor_key env config_path fs) (\<lambda>executor.
           then_do (get_keypair env None fs) (\<lambda>destination.
           then_do (get_rpc_url env rpc) (\<lambda>url.
           then_do (map_sum FE_Pool id (pool_with_url url)) (\<lambda>pool.
             Inr (executor, destination, pool))))) of
        Inl e \<Rightarrow> Some (Inl e, [])
      | Inr (executor, destination, pool) \<Rightarrow>
          ask (get_balance (fe_net env) executor (fe_time env 0) pool) (\<lambda>balance pool.
          case withdraw_lamports amount balance of
            Inl e \<Rightarrow> Some (Inl e, [])
          | Inr n \<Rightarrow> send_transfer env executor destination n [executor, destination] pool))"

section \<open>What the amounts leave\<close>

lemma top_up_exact:
  assumes "top_up balance = Some d"
  shows "unat balance + unat d = 1000000" and "0 < d"
proof -
  have l: "\<not> MIN_BALANCE_LAMPORTS \<le> balance" and d: "d = MIN_BALANCE_LAMPORTS - balance"
    using assms by (auto simp: top_up_def split: if_splits)
  have m: "unat MIN_BALANCE_LAMPORTS = 1000000" by (simp add: MIN_BALANCE_LAMPORTS_def)
  have "unat d = 1000000 - unat balance" using l by (simp add: d unat_sub m)
  moreover have "unat balance < 1000000" using l by (simp add: word_le_nat_alt m)
  ultimately show "unat balance + unat d = 1000000" and "0 < d" by (simp_all add: word_less_nat_alt)
qed

lemma withdraw_all_keeps:
  "withdraw_lamports None balance = Inr n \<Longrightarrow> unat balance = unat n + 1005000"
proof -
  assume a: "withdraw_lamports None balance = Inr n"
  have r: "checked_add MIN_BALANCE_LAMPORTS FEE_BUFFER = Some 1005000" by code_simp
  from a have "\<not> balance \<le> 1005000" and n: "n = balance - 1005000"
    by (auto simp: withdraw_lamports_def r split: if_splits)
  then have "1005000 \<le> balance" by simp
  then have "unat n = unat balance - 1005000" "1005000 \<le> unat balance" by (simp_all add: n unat_sub word_le_nat_alt)
  then show ?thesis by simp
qed

lemma withdraw_some_covered:
  assumes "withdraw_lamports (Some sol) balance = Inr n"
  shows "unat n + 5000 \<le> unat balance" and "n = sol_to_lamports sol"
proof -
  obtain t where t: "checked_add (sol_to_lamports sol) FEE_BUFFER = Some t" and l: "\<not> balance < t" and n: "n = sol_to_lamports sol"
    using assms by (auto simp: withdraw_lamports_def res_simps split: if_splits)
  have "unat t = unat n + 5000" using t by (simp add: checked_add_Some n FEE_BUFFER_def)
  then show "unat n + 5000 \<le> unat balance" using l by (simp add: word_less_nat_alt)
  show "n = sol_to_lamports sol" by (rule n)
qed

lemma send_transfer_txs:
  assumes "send_transfer env from to n shown pool = Some (r, txs)" and "tx \<in> set txs"
  shows "tt_from tx = from \<and> tt_to tx = to \<and> tt_lamports tx = n"
  using assms by (auto simp: send_transfer_def ask_def Let_def split: prod.splits sum.splits option.splits)

end
