(* ===== verification/Cli_Info.thy ===== *)
theory Cli_Info
  imports Cli_Service Cli_Fund
begin

text \<open>
  \<open>cli/core/src/commands/info.rs\<close>, \<open>commands/run.rs\<close> and the dispatch of \<open>antegenctl\<close>
  (\<open>cli/antegenctl/src/main.rs\<close>, \<open>cli/core/src/lib.rs\<close>): what the operator's commands do,
  composed from the components. The agent's files, executing a program in place of the
  command and the parser of the command line are parameters or arguments.
\<close>

section \<open>Information\<close>

record ObservabilityInfo =
  oi_enabled :: bool
  oi_name :: "string option"
  oi_status_page :: "string option"

record InfoOutput =
  io_version :: string
  io_service_version :: "string option"
  io_executor :: "pubkey option"
  io_balance_sol :: "rat option"
  io_rpc :: "string option"
  io_service :: string
  io_observability :: ObservabilityInfo
  io_data :: string
  io_cli_update :: "string option"
  io_node_update :: "string option"

text \<open>
  The service and its manager, the requests, and the agent's record in a directory. The status
  is asked of \<open>ServiceManager::native\<close>, a manager of its own.
\<close>

record 'm info_env =
  in_service :: "'m service_env"
  in_fund :: fund_env
  native_status :: "'m \<Rightarrow> ServiceStatus option"
  agent_info :: "string \<Rightarrow> (string option \<times> string) option"

abbreviation in_config :: "'m info_env \<Rightarrow> config_host" where "in_config env \<equiv> sv_config (in_service env)"
abbreviation in_host :: "'m info_env \<Rightarrow> host" where "in_host env \<equiv> ch_host (in_config env)"

text \<open>The part of a path behind the home directory, by components.\<close>

definition shorten_path :: "'m info_env \<Rightarrow> string \<Rightarrow> string" where
  "shorten_path env path =
     (case home_dir (in_host env) of
        None \<Rightarrow> path
      | Some home \<Rightarrow>
          if take (length (components home)) (components path) = components home \<and> (starts_with path ''/'' \<longleftrightarrow> starts_with home ''/'')
          then ''~/'' @ tl (concat (map (\<lambda>c. CHR ''/'' # c) (drop (length (components home)) (components path)))) else path)"

definition get_installed_binary_version :: "'m info_env \<Rightarrow> fs \<Rightarrow> string option" where
  "get_installed_binary_version env fs =
     (case binary_path (in_host env) of
        Inl _ \<Rightarrow> None
      | Inr link \<Rightarrow> Option.bind (read_link fs link) (\<lambda>target. Option.bind (file_name target) (\<lambda>f. strip_prefix f ''antegen-'')))"

definition check_cli_update :: "'m info_env \<Rightarrow> string option" where
  "check_cli_update env =
     (case fetch_latest_version (releases (in_host env)) of
        Inr latest \<Rightarrow> if version_less_than (current_version (in_host env)) latest then Some latest else None
      | Inl _ \<Rightarrow> None)"

definition check_node_update :: "'m info_env \<Rightarrow> fs \<Rightarrow> string option" where
  "check_node_update env fs =
     Option.bind (read_node_version (in_host env) fs) (\<lambda>installed.
       case fetch_latest_node_version (releases (in_host env)) of
         Inr latest \<Rightarrow> if version_less_than installed latest then Some latest else None
       | Inl _ \<Rightarrow> None)"

definition check_updates_available :: "'m info_env \<Rightarrow> fs \<Rightarrow> string option \<times> string option" where
  "check_updates_available env fs =
     (if get_dev_binary (in_host env) \<noteq> None then (None, None) else (check_cli_update env, check_node_update env fs))"

definition service_info :: "'m info_env \<Rightarrow> fs \<times> 'm \<Rightarrow> service_failure + string \<times> string option" where
  "service_info env st =
     (if is_installed (in_service env) (snd st) then
        then_do (ok_or (native_status env (snd st)) SF_Status) (\<lambda>status.
          Inr (case status of
             Svc_Running \<Rightarrow> (''running'', get_installed_binary_version env (fst st))
           | Svc_Stopped _ \<Rightarrow> (''stopped'', None)
           | Svc_NotInstalled \<Rightarrow> (''not installed'', None)))
      else Inr (''not installed'', None))"

definition executor_balance :: "'m info_env \<Rightarrow> ClientConfig \<Rightarrow> fs \<Rightarrow> rat option" where
  "executor_balance env config fs =
     (case expand_tilde (in_config env) (keypair_path (cc_executor config)) of
        Inl _ \<Rightarrow> None
      | Inr path \<Rightarrow>
          Option.bind (read_keypair (in_config env) path fs) (\<lambda>key.
          case rpc_endpoints config of
            [] \<Rightarrow> None
          | e # _ \<Rightarrow>
              (case pool_with_url (re_url e) of
                 Inl _ \<Rightarrow> None
               | Inr pool \<Rightarrow>
                   (case fst (get_balance (fe_net (in_fund env)) key (fe_time (in_fund env) 0) pool) of
                      Inl _ \<Rightarrow> None
                    | Inr balance \<Rightarrow> Some (f64_div (f64_of_u64 balance) (f64_of_u64 LAMPORTS_PER_SOL))))))"

definition get_observability_info :: "'m info_env \<Rightarrow> ClientConfig \<Rightarrow> ObservabilityInfo" where
  "get_observability_info env config =
     (if \<not> ob_enabled (observability config) then \<lparr>oi_enabled = False, oi_name = None, oi_status_page = None\<rparr>
      else case expand_tilde (in_config env) (storage_path (observability config)) of
        Inl _ \<Rightarrow> \<lparr>oi_enabled = True, oi_name = None, oi_status_page = None\<rparr>
      | Inr path \<Rightarrow>
          (case agent_info env path of
             Some (name, dashboard_url) \<Rightarrow> \<lparr>oi_enabled = True, oi_name = name, oi_status_page = Some dashboard_url\<rparr>
           | None \<Rightarrow> \<lparr>oi_enabled = True, oi_name = None, oi_status_page = None\<rparr>))"

definition gather_info :: "'m info_env \<Rightarrow> fs \<times> 'm \<Rightarrow> service_failure + InfoOutput" where
  "gather_info env st =
     (let fs = fst st in
      then_do (data_dir (in_service env)) (\<lambda>dir.
      then_do (map_sum SF_Config id (default_config_path (in_config env))) (\<lambda>config_path.
      then_do (service_info env st) (\<lambda>(service, service_version).
      let (cli_update, node_update) = check_updates_available env fs;
          base = \<lparr>io_version = pkg_version (in_host env), io_service_version = service_version, io_executor = None,
            io_balance_sol = None, io_rpc = None, io_service = service,
            io_observability = \<lparr>oi_enabled = False, oi_name = None, oi_status_page = None\<rparr>, io_data = shorten_path env dir,
            io_cli_update = cli_update, io_node_update = node_update\<rparr> in
      if \<not> path_exists fs config_path then Inr base
      else
        then_do (map_sum SF_Config id (config_load (in_config env) config_path fs)) (\<lambda>config.
        then_do (map_sum SF_Config id (expand_tilde (in_config env) (keypair_path (cc_executor config)))) (\<lambda>key_path.
        let executor = (if path_exists fs key_path then read_keypair (in_config env) key_path fs else None) in
        Inr (base\<lparr>io_executor := executor,
               io_balance_sol := (if executor \<noteq> None then executor_balance env config fs else None),
               io_rpc := (case rpc_endpoints config of [] \<Rightarrow> None | e # _ \<Rightarrow> Some (re_url e)),
               io_observability := get_observability_info env config\<rparr>)))))))"

section \<open>Running the node from the command line\<close>

text \<open>The candidates in the order they are tried; the last only in a development build.\<close>

definition find_node_binary :: "host \<Rightarrow> fs \<Rightarrow> string option" where
  "find_node_binary host fs =
     find (path_exists fs)
       ((case Option.bind (current_exe host) parent of Some dir \<Rightarrow> [path_join dir ''antegen-node''] | None \<Rightarrow> []) @
        (case home_dir host of Some home \<Rightarrow> [path_join home ''.local/bin/antegen-node''] | None \<Rightarrow> []) @
        (case get_dev_binary host of Some exe \<Rightarrow> [with_file_name exe ''antegen-node''] | None \<Rightarrow> []))"

datatype LogLevel = LL_Trace | LL_Debug | LL_Info | LL_Warn | LL_Error | LL_Off

fun level_str :: "LogLevel \<Rightarrow> string" where
  "level_str LL_Trace = ''trace''"
| "level_str LL_Debug = ''debug''"
| "level_str LL_Info = ''info''"
| "level_str LL_Warn = ''warn''"
| "level_str LL_Error = ''error''"
| "level_str LL_Off = ''off''"

text \<open>The program that replaces the command, with its arguments.\<close>

definition run_execute :: "host \<Rightarrow> string \<Rightarrow> string option \<Rightarrow> LogLevel option \<Rightarrow> fs \<Rightarrow> (update_error + string \<times> string list) \<times> fs" where
  "run_execute host config_path rpc_override log_level fs =
     and_then (case find_node_binary host fs of
                 Some path \<Rightarrow> (Inr path, fs)
               | None \<Rightarrow>
                   and_then (download_latest_node host fs) (\<lambda>_ fs. (ok_or (find_node_binary host fs) BinaryMissing, fs))) (\<lambda>node_binary.
       pure (Inr (node_binary, [''--config'', config_path] @
         (case rpc_override of Some rpc \<Rightarrow> [''--rpc'', rpc] | None \<Rightarrow> []) @
         (case log_level of Some l \<Rightarrow> [''--log-level'', level_str l] | None \<Rightarrow> []))))"

section \<open>The dispatch\<close>

datatype NodeConfigCommands =
    NC_Get "string option"
  | NC_Set "string option" config_args
  | NC_Init "string option" "string option" "string option" "string option" bool
  | NC_Validate string

definition config_or_default :: "config_host \<Rightarrow> string option \<Rightarrow> config_failure + string" where
  "config_or_default h config = (case config of Some p \<Rightarrow> Inr p | None \<Rightarrow> default_config_path h)"

text \<open>\<open>set\<close> takes its endpoint from the global option.\<close>

fun dispatch_config :: "config_host \<Rightarrow> NodeConfigCommands \<Rightarrow> string option \<Rightarrow> fs \<Rightarrow> (config_failure + unit) \<times> fs" where
  "dispatch_config h (NC_Get config) rpc fs =
     and_then (pure (config_or_default h config) fs) (\<lambda>path fs. (map_sum id (\<lambda>_. ()) (config_load h path fs), fs))"
| "dispatch_config h (NC_Set config args) rpc fs =
     and_then (pure (config_or_default h config) fs) (\<lambda>path. config_set h path (args\<lparr>a_rpc := rpc\<rparr>))"
| "dispatch_config h (NC_Init output init_rpc keypair storage force) rpc fs =
     and_then (pure (config_or_default h output) fs) (\<lambda>path fs.
     and_then (config_file_init h path init_rpc keypair storage force fs) (\<lambda>_. pure (Inr ())))"
| "dispatch_config h (NC_Validate config) rpc fs = (map_sum id (\<lambda>_. ()) (config_validate h config fs), fs)"

datatype AntegenctlCommands =
    AC_Run "string option"
  | AC_Init "string option" bool
  | AC_Start "string option" "string option"
  | AC_Stop
  | AC_Restart
  | AC_Status
  | AC_Logs bool
  | AC_Uninstall
  | AC_Info
  | AC_Fund "rat option"
  | AC_Withdraw "rat option"
  | AC_Update "string option" bool
  | AC_Use string
  | AC_Install "string option" bool
  | AC_Config NodeConfigCommands

datatype ctl_failure = CL_Service service_failure | CL_Fund fund_error | CL_Unconfirmed

text \<open>What a command ends with besides its changes.\<close>

datatype ctl_outcome =
    Done
  | Exec string "string list"
  | Shown InfoOutput
  | Reported start_report
  | Status_Shown ServiceStatus
  | Logs_Shown "(string \<times> string list) option"
  | Transferred "transfer_tx list"

definition ctl :: "(service_failure + 'a) \<times> 's \<Rightarrow> ('a \<Rightarrow> ctl_outcome) \<Rightarrow> (ctl_failure + ctl_outcome) \<times> 's" where
  "ctl r f = (map_sum CL_Service f (fst r), snd r)"

definition ctl_transfer :: "((fund_error + unit) \<times> transfer_tx list) option \<Rightarrow> 's \<Rightarrow> (ctl_failure + ctl_outcome) \<times> 's" where
  "ctl_transfer r st =
     (case r of None \<Rightarrow> (Inl CL_Unconfirmed, st) | Some (Inl e, _) \<Rightarrow> (Inl (CL_Fund e), st) | Some (Inr _, txs) \<Rightarrow> (Inr (Transferred txs), st))"

record ctl_globals =
  gl_rpc :: "string option"
  gl_keypair :: "string option"
  gl_log_level :: "LogLevel option"

fun run_antegenctl :: "'m info_env \<Rightarrow> ctl_globals \<Rightarrow> AntegenctlCommands \<Rightarrow> fs \<times> 'm \<Rightarrow> (ctl_failure + ctl_outcome) \<times> fs \<times> 'm" where
  "run_antegenctl env gl (AC_Run config) st =
     ctl (and_then (case config of Some p \<Rightarrow> (Inr p, st) | None \<Rightarrow> ensure_config (in_service env) st) (\<lambda>cfg.
            on_files SF_Update (run_execute (in_host env) cfg (gl_rpc gl) (gl_log_level gl)))) (\<lambda>(p, args). Exec p args)"
| "run_antegenctl env gl (AC_Init rpc force) st = ctl (service_init (in_service env) rpc force st) (\<lambda>_. Done)"
| "run_antegenctl env gl (AC_Start rpc version) st = ctl (service_start (in_service env) rpc version st) Reported"
| "run_antegenctl env gl AC_Stop st = ctl (service_stop (in_service env) st) (\<lambda>_. Done)"
| "run_antegenctl env gl AC_Restart st = ctl (service_restart (in_service env) st) (\<lambda>_. Done)"
| "run_antegenctl env gl AC_Status st = ctl (service_status (in_service env) (snd st), st) Status_Shown"
| "run_antegenctl env gl (AC_Logs follow) st = ctl (service_logs (in_service env) follow (fst st), st) Logs_Shown"
| "run_antegenctl env gl AC_Uninstall st = ctl (service_uninstall (in_service env) st) (\<lambda>_. Done)"
| "run_antegenctl env gl AC_Info st = ctl (gather_info env st, st) Shown"
| "run_antegenctl env gl (AC_Fund amount) st =
     (case default_config_path (in_config env) of
        Inl e \<Rightarrow> (Inl (CL_Service (SF_Config e)), st)
      | Inr config \<Rightarrow> ctl_transfer (fund (in_fund env) config amount (gl_keypair gl) (gl_rpc gl) (fst st)) st)"
| "run_antegenctl env gl (AC_Withdraw amount) st =
     (case default_config_path (in_config env) of
        Inl e \<Rightarrow> (Inl (CL_Service (SF_Config e)), st)
      | Inr config \<Rightarrow> ctl_transfer (withdraw (in_fund env) config amount (gl_rpc gl) (fst st)) st)"
| "run_antegenctl env gl (AC_Update version local) st = ctl (update_node (in_service env) version local st) (\<lambda>_. Done)"
| "run_antegenctl env gl (AC_Use version) st = ctl (use_node_version (in_service env) version st) (\<lambda>_. Done)"
| "run_antegenctl env gl (AC_Install version local) st =
     ctl (on_files SF_Update (install_node_version (in_host env) version local) st) (\<lambda>_. Done)"
| "run_antegenctl env gl (AC_Config cmd) st =
     ctl (on_files SF_Config (dispatch_config (in_config env) cmd (gl_rpc gl)) st) (\<lambda>_. Done)"

section \<open>What the information says\<close>

text \<open>
  The version shown for the service is that of the command line tool, and a service of the
  user is shown as not installed when the native manager is the system's.
\<close>

lemma service_version_is_cli:
  assumes "service_info env st = Inr (s, Some v)"
  shows "get_installed_version (in_host env) (fst st) = Some v"
  using assms
  by (cases "the (native_status env (snd st))")
    (auto simp: service_info_def res_simps get_installed_binary_version_def get_installed_version_def split: if_splits)

lemma user_service_not_shown:
  "is_installed (in_service env) m \<Longrightarrow> native_status env m = Some Svc_NotInstalled \<Longrightarrow> service_info env (fs, m) = Inr (''not installed'', None)"
  by (simp add: service_info_def)

text \<open>The notices of \<open>start\<close> and of \<open>info\<close> agree.\<close>

lemma notices_agree: "check_updates_available env fs = print_update_notices (in_service env) fs"
  by (simp add: check_updates_available_def print_update_notices_def check_cli_update_def check_node_update_def Let_def split: sum.split)

text \<open>Commands that only look.\<close>

lemma reading_commands:
  assumes "cmd \<in> {AC_Status, AC_Logs f, AC_Info, AC_Fund a, AC_Withdraw a}"
  shows "snd (run_antegenctl env gl cmd st) = st"
  using assms by (auto simp: ctl_def ctl_transfer_def split: sum.split option.split prod.split)

end
