(* ===== verification/Cli_Program.thy ===== *)
theory Cli_Program
  imports Cli_Fund
begin

text \<open>
  \<open>cli/antegen/src/commands/program.rs\<close>: deploying the two programs with the \<open>solana\<close> tool and
  initialising the configuration account. The tool, Base58, the decoding of an account and the
  derived address are parameters; what was run and sent is a trace, in order.
\<close>

section \<open>Data\<close>

datatype DetectedProgram = DP_Fiber | DP_Thread | DP_Unknown

datatype deploy_event =
    Solana "string list"
  | Verified pubkey
  | Init_Sent pubkey

datatype deploy_error =
    DE_No_Solana
  | DE_No_Binary string
  | DE_Deploy_Failed
  | DE_Keys_Dir
  | DE_No_Keypair string
  | DE_Fund fund_error
  | DE_Config_Missing
  | DE_Decode
  | DE_Unconfirmed

text \<open>
  \<open>solana_run\<close> is whether the \<open>solana\<close> tool succeeds with the given arguments, \<open>None\<close> when it
  is not there.
\<close>

record deploy_env =
  de_fund :: fund_env
  de_client :: client_env
  solana_run :: "string list \<Rightarrow> bool option"
  pubkey_parsed :: "string \<Rightarrow> pubkey option"
  pubkey_base58 :: "pubkey \<Rightarrow> string"
  to_lowercase :: "string \<Rightarrow> string"
  config_address :: pubkey
  decode_config :: "bytes \<Rightarrow> ThreadConfig option"

type_synonym 'a deploy = "deploy_event list \<Rightarrow> (deploy_error + 'a) \<times> deploy_event list"

section \<open>Helpers\<close>

definition detect_program :: "deploy_env \<Rightarrow> string option \<Rightarrow> string \<Rightarrow> fs \<Rightarrow> DetectedProgram" where
  "detect_program env pid binary fs =
     (let pk = Option.bind pid (\<lambda>s. case pubkey_parsed env s of
                 Some k \<Rightarrow> Some k | None \<Rightarrow> read_keypair (fe_host (de_fund env)) s fs);
          name = (case file_name binary of Some n \<Rightarrow> to_lowercase env n | None \<Rightarrow> []) in
      if pk = Some FIBER_PROGRAM_ID then DP_Fiber
      else if pk = Some THREAD_PROGRAM_ID then DP_Thread
      else if contains name ''fiber'' then DP_Fiber
      else if contains name ''thread'' then DP_Thread
      else DP_Unknown)"

definition check_solana_cli :: "deploy_env \<Rightarrow> unit deploy" where
  "check_solana_cli env tr =
     (case solana_run env [''--version''] of None \<Rightarrow> (Inl DE_No_Solana, tr) | Some _ \<Rightarrow> (Inr (), tr))"

definition deploy_args :: "string \<Rightarrow> string option \<Rightarrow> string option \<Rightarrow> string option \<Rightarrow> string list" where
  "deploy_args binary pid_arg rpc keypair =
     [''program'', ''deploy'', binary] @
     (case rpc of Some url \<Rightarrow> [''--url'', url] | None \<Rightarrow> []) @
     (case keypair of Some kp \<Rightarrow> [''--keypair'', kp] | None \<Rightarrow> []) @
     (case pid_arg of Some pid \<Rightarrow> [''--program-id'', pid] | None \<Rightarrow> [])"

definition deploy_single :: "deploy_env \<Rightarrow> string \<Rightarrow> string option \<Rightarrow> string option \<Rightarrow> string option \<Rightarrow> fs \<Rightarrow> unit deploy" where
  "deploy_single env binary pid_arg rpc keypair fs tr =
     (if \<not> path_exists fs binary then (Inl (DE_No_Binary binary), tr)
      else
        let args = deploy_args binary pid_arg rpc keypair in
        (case solana_run env args of
           Some True \<Rightarrow> (Inr (), tr @ [Solana args])
         | _ \<Rightarrow> (Inl DE_Deploy_Failed, tr @ [Solana args])))"

text \<open>Verification warns and never fails, but for a client that cannot be made.\<close>

definition verify_program :: "deploy_env \<Rightarrow> pubkey \<Rightarrow> string \<Rightarrow> unit deploy" where
  "verify_program env key url tr =
     (case pool_with_url url of Inl e \<Rightarrow> (Inl (DE_Fund (FE_Pool e)), tr) | Inr _ \<Rightarrow> (Inr (), tr @ [Verified key]))"

section \<open>Configuration commands\<close>

text \<open>An account that cannot be read is treated as missing.\<close>

definition program_config_init :: "deploy_env \<Rightarrow> string option \<Rightarrow> string option \<Rightarrow> fs \<Rightarrow> unit deploy" where
  "program_config_init env rpc keypair fs tr =
     (let fe = de_fund env; net = fe_net fe in
      case then_do (get_rpc_url fe rpc) (\<lambda>url.
           then_do (get_keypair fe keypair fs) (\<lambda>admin.
           then_do (map_sum FE_Pool id (pool_with_url url)) (\<lambda>pool. Inr (admin, pool)))) of
        Inl e \<Rightarrow> (Inl (DE_Fund e), tr)
      | Inr (admin, pool) \<Rightarrow>
          (case get_account net (config_address env) (fe_time fe 0) pool of
             (Inr (Some _), _) \<Rightarrow> (Inr (), tr)
           | (_, pool) \<Rightarrow>
               (case get_latest_blockhash net (fe_time fe 1) pool of
                  (Inl e, _) \<Rightarrow> (Inl (DE_Fund (FE_Request e)), tr)
                | (Inr (blockhash, _), pool) \<Rightarrow>
                    (case send_and_confirm_transaction net (\<lambda>i. fe_time fe (2 + i))
                        (TX_Init_Config admin (config_address env) blockhash) (fe_time fe 2) pool of
                       None \<Rightarrow> (Inl DE_Unconfirmed, tr)
                     | Some (Inl e, _) \<Rightarrow> (Inl (DE_Fund (FE_Request e)), tr)
                     | Some (Inr _, _) \<Rightarrow> (Inr (), tr @ [Init_Sent admin])))))"

definition program_config_get :: "deploy_env \<Rightarrow> string option \<Rightarrow> deploy_error + ThreadConfig" where
  "program_config_get env rpc =
     (let fe = de_fund env in
      then_do (map_sum DE_Fund id (get_rpc_url fe rpc)) (\<lambda>url.
      then_do (map_sum (\<lambda>e. DE_Fund (FE_Pool e)) id (pool_with_url url)) (\<lambda>pool.
      then_do (map_sum (\<lambda>e. DE_Fund (FE_Request e)) id (fst (get_account (fe_net fe) (config_address env) (fe_time fe 0) pool))) (\<lambda>account.
      then_do (ok_or account DE_Config_Missing) (\<lambda>account.
      then_do (ok_or (decode_account_data (de_client env) (fst (ui_data account)) (snd (ui_data account))) DE_Decode) (\<lambda>data.
        ok_or (decode_config env data) DE_Decode))))))"

section \<open>Deployment\<close>

text \<open>An initialisation that fails is a warning.\<close>

definition init_or_warn :: "deploy_env \<Rightarrow> string \<Rightarrow> string option \<Rightarrow> fs \<Rightarrow> unit deploy" where
  "init_or_warn env url keypair fs tr = (Inr (), snd (program_config_init env (Some url) keypair fs tr))"

definition deploy_one :: "deploy_env \<Rightarrow> string \<Rightarrow> string option \<Rightarrow> string option \<Rightarrow> string option \<Rightarrow> bool \<Rightarrow> bool \<Rightarrow> fs \<Rightarrow> unit deploy" where
  "deploy_one env binary rpc keypair pid skip_init skip_verify fs tr =
     and_then (deploy_single env binary pid rpc keypair fs tr) (\<lambda>_ tr.
     let detected = detect_program env pid binary fs in
     and_then (pure (map_sum DE_Fund id (get_rpc_url (de_fund env) rpc)) tr) (\<lambda>rpc_url tr.
     and_then (if \<not> skip_init \<and> detected = DP_Thread then init_or_warn env rpc_url keypair fs tr else (Inr (), tr)) (\<lambda>_ tr.
     if \<not> skip_verify
     then verify_program env (case detected of DP_Fiber \<Rightarrow> FIBER_PROGRAM_ID | DP_Thread \<Rightarrow> THREAD_PROGRAM_ID | DP_Unknown \<Rightarrow> THREAD_PROGRAM_ID)
            rpc_url tr
     else (Inr (), tr))))"

definition fiber_so :: string where "fiber_so = ''target/deploy/antegen_fiber_program.so''"
definition thread_so :: string where "thread_so = ''target/deploy/antegen_thread_program.so''"

definition program_keypair :: "deploy_env \<Rightarrow> string \<Rightarrow> pubkey \<Rightarrow> string" where
  "program_keypair env keys_dir key = path_join keys_dir (pubkey_base58 env key @ ''.json'')"

definition deploy_both :: "deploy_env \<Rightarrow> string option \<Rightarrow> string option \<Rightarrow> string option \<Rightarrow> bool \<Rightarrow> bool \<Rightarrow> fs \<Rightarrow> unit deploy" where
  "deploy_both env rpc keypair keys skip_init skip_verify fs tr =
     and_then (pure (ok_or keys DE_Keys_Dir) tr) (\<lambda>keys_dir tr.
     and_then (pure (require (path_exists fs fiber_so) (DE_No_Binary fiber_so)) tr) (\<lambda>_ tr.
     and_then (pure (require (path_exists fs thread_so) (DE_No_Binary thread_so)) tr) (\<lambda>_ tr.
     let fiber_keypair = program_keypair env keys_dir FIBER_PROGRAM_ID; thread_keypair = program_keypair env keys_dir THREAD_PROGRAM_ID in
     and_then (pure (require (path_exists fs fiber_keypair) (DE_No_Keypair fiber_keypair)) tr) (\<lambda>_ tr.
     and_then (pure (require (path_exists fs thread_keypair) (DE_No_Keypair thread_keypair)) tr) (\<lambda>_ tr.
     and_then (pure (map_sum DE_Fund id (get_rpc_url (de_fund env) rpc)) tr) (\<lambda>rpc_url tr.
     and_then (deploy_single env fiber_so (Some fiber_keypair) rpc keypair fs tr) (\<lambda>_ tr.
     and_then (if skip_verify then (Inr (), tr) else verify_program env FIBER_PROGRAM_ID rpc_url tr) (\<lambda>_ tr.
     and_then (deploy_single env thread_so (Some thread_keypair) rpc keypair fs tr) (\<lambda>_ tr.
     and_then (if skip_verify then (Inr (), tr) else verify_program env THREAD_PROGRAM_ID rpc_url tr) (\<lambda>_ tr.
     if skip_init then (Inr (), tr) else init_or_warn env rpc_url keypair fs tr))))))))))"

definition deploy :: "deploy_env \<Rightarrow> string option \<Rightarrow> string option \<Rightarrow> string option \<Rightarrow> string option \<Rightarrow> string option \<Rightarrow> bool \<Rightarrow> bool \<Rightarrow> fs \<Rightarrow> unit deploy" where
  "deploy env program_binary rpc keypair pid keys_dir skip_init skip_verify fs tr =
     and_then (check_solana_cli env tr) (\<lambda>_ tr.
     case program_binary of
       Some binary \<Rightarrow> deploy_one env binary rpc keypair pid skip_init skip_verify fs tr
     | None \<Rightarrow> deploy_both env rpc keypair keys_dir skip_init skip_verify fs tr)"

section \<open>The order of a full deployment\<close>

lemma deploy_single_Inr:
  "deploy_single env b pid rpc kp fs tr = (Inr u, tr') \<longleftrightarrow>
     path_exists fs b \<and> solana_run env (deploy_args b pid rpc kp) = Some True \<and> tr' = tr @ [Solana (deploy_args b pid rpc kp)]"
  by (auto simp: deploy_single_def Let_def split: option.splits bool.splits)

lemma verify_program_Inr: "verify_program env k url tr = (Inr u, tr') \<Longrightarrow> tr' = tr @ [Verified k]"
  by (auto simp: verify_program_def split: sum.splits)

lemma program_config_init_trace: "\<exists>evs. snd (program_config_init env rpc kp fs tr) = tr @ evs \<and> (evs = [] \<or> (\<exists>a. evs = [Init_Sent a]))"
  by (auto simp: program_config_init_def Let_def split: sum.splits option.splits prod.splits)

text \<open>
  A full deployment deploys the fiber program, then the thread program, each under the key of
  its own address, and initialises the configuration last; a failure of the first step keeps
  the second from running.
\<close>

theorem full_deploy_order:
  assumes "deploy env None rpc kp pid keys skip_init True fs [] = (Inr (), tr)"
  shows "\<exists>dir evs. keys = Some dir \<and>
    tr = [Solana (deploy_args fiber_so (Some (program_keypair env dir FIBER_PROGRAM_ID)) rpc kp),
          Solana (deploy_args thread_so (Some (program_keypair env dir THREAD_PROGRAM_ID)) rpc kp)] @ evs \<and>
    (evs = [] \<or> \<not> skip_init \<and> (\<exists>admin. evs = [Init_Sent admin]))"
proof -
  let ?T = "\<lambda>dir. [Solana (deploy_args fiber_so (Some (program_keypair env dir FIBER_PROGRAM_ID)) rpc kp),
    Solana (deploy_args thread_so (Some (program_keypair env dir THREAD_PROGRAM_ID)) rpc kp)]"
  have run: "deploy_both env rpc kp keys skip_init True fs [] = (Inr (), tr)"
    using assms by (auto simp: deploy_def and_then_Inr check_solana_cli_def split: option.splits)
  show ?thesis
  proof (cases skip_init)
    case True
    then show ?thesis using run by (auto simp: deploy_both_def Let_def and_then_Inr pure_Inr deploy_single_Inr)
  next
    case False
    then obtain dir url where k: "keys = Some dir" and t: "init_or_warn env url kp fs (?T dir) = (Inr (), tr)"
      using run by (auto simp: deploy_both_def Let_def and_then_Inr pure_Inr deploy_single_Inr)
    then show ?thesis
      using False program_config_init_trace [of env "Some url" kp fs "?T dir"] by (auto simp: init_or_warn_def)
  qed
qed

end
