(* ===== verification/Properties_Operator.thy ===== *)
theory Properties_Operator
  imports Cli_Geyser Cli_Info Cli_Program Properties_Node
begin

text \<open>
  Properties that join the operator's commands with the components they set up: the plugin the
  validator loads, and the lamports moved between the wallet and the executor.
\<close>

section \<open>Setting up the plugin\<close>

text \<open>
  C35: The file \<open>geyser init\<close> writes for the validator is the file the validator hands to the
  plugin, and the plugin reads it as its own configuration: since it is JSON and the
  configuration is TOML, the plugin never loads after a successful setup.
\<close>

theorem geyser_init_never_loads:
  assumes "format_laws g" and "geyser_init g output config_path fs = (Inr (), fs')"
  shows "on_load (gh_config g) env tpu_new runtime_ok output fs' = Some (Inl (ConfigFileReadError ''Failed to load config file''))"
proof -
  obtain kvs where r: "read_to_string fs' output = Some (json_pretty g kvs)" using geyser_init_writes [OF assms(2)] by blast
  have "toml_from_str (gh_config g) (json_pretty g kvs) = None" using assms(1) unfolding format_laws_def by metis
  with r show ?thesis by (simp add: on_load_def config_load_def)
qed

definition sample_geyser :: geyser_host where
  "sample_geyser = \<lparr>gh_config = sample_machine, json_pretty = (\<lambda>kvs. CHR 0x7B # concat (map (\<lambda>(k, v). k @ v) kvs)), library_extension = ''so''\<rparr>"

lemma sample_geyser_init:
  "\<exists>fs'. geyser_init sample_geyser ''/v.json'' ''antegen.toml'' [''/c/antegen/antegen.toml'' \<mapsto> File ''a''] = (Inr (), fs')"
  by (simp add: geyser_init_def sample_geyser_def sample_machine_def sample_host_def pure_def and_then_def config_io_def create_dir_all_def
      permit_def Let_def needs_update_def path_exists_def resolve_40 path_join_def get_library_filename_def download_geyser_plugin_def
      create_parent_def parent_def trim_slashes_def fs_write_def put_file_def save_version_info_def with_extension_def file_name_def
      components_def with_file_name_def)

theorem geyser_init_never_loads_witness:
  "\<exists>fs'. geyser_init sample_geyser ''/v.json'' ''antegen.toml'' [''/c/antegen/antegen.toml'' \<mapsto> File ''a''] = (Inr (), fs') \<and>
     on_load sample_machine sample_root_env (\<lambda>_. False) True ''/v.json'' fs' = Some (Inl (ConfigFileReadError ''Failed to load config file''))"
proof -
  obtain fs' where i: "geyser_init sample_geyser ''/v.json'' ''antegen.toml'' [''/c/antegen/antegen.toml'' \<mapsto> File ''a''] = (Inr (), fs')"
    using sample_geyser_init by blast
  have "format_laws sample_geyser" by (simp add: format_laws_def sample_geyser_def sample_machine_def)
  from geyser_init_never_loads [OF this i] i show ?thesis by (auto simp: sample_geyser_def)
qed

section \<open>The executor's lamports\<close>

text \<open>
  Withdrawing everything leaves the executor exactly the minimum balance and the buffer for the
  fee of what the node last reported; topping up brings it to exactly the minimum. Both send at
  most one transfer.
\<close>

theorem withdraw_leaves_minimum:
  assumes "withdraw env config_path None rpc fs = Some (r, txs)"
  shows "length txs \<le> 1 \<and> (\<forall>tx\<in>set txs. \<exists>balance pool pool'. executor_key env config_path fs = Inr (tt_from tx) \<and>
    get_balance (fe_net env) (tt_from tx) (fe_time env 0) pool = (Inr balance, pool') \<and> unat balance = unat (tt_lamports tx) + 1005000)"
proof -
  have "length txs \<le> 1"
    using assms by (auto simp: withdraw_def ask_def send_transfer_def Let_def split: sum.splits prod.splits option.splits)
  moreover have "\<exists>balance pool pool'. executor_key env config_path fs = Inr (tt_from tx) \<and>
    get_balance (fe_net env) (tt_from tx) (fe_time env 0) pool = (Inr balance, pool') \<and> unat balance = unat (tt_lamports tx) + 1005000"
    if tx: "tx \<in> set txs" for tx
  proof -
    obtain executor destination pool balance pool' n where e: "executor_key env config_path fs = Inr executor"
      and b: "get_balance (fe_net env) executor (fe_time env 0) pool = (Inr balance, pool')"
      and n: "withdraw_lamports None balance = Inr n"
      and s: "send_transfer env executor destination n [executor, destination] pool' = Some (r, txs)"
      using assms tx by (auto simp: withdraw_def ask_def res_simps split: sum.splits prod.splits)
    show ?thesis using e b withdraw_all_keeps [OF n] send_transfer_txs [OF s tx] by auto
  qed
  ultimately show ?thesis by blast
qed

theorem fund_tops_up_to_minimum:
  assumes "fund env config_path None path rpc fs = Some (r, txs)"
  shows "length txs \<le> 1 \<and> (\<forall>tx\<in>set txs. \<exists>balance pool pool'. executor_key env config_path fs = Inr (tt_to tx) \<and>
    get_balance (fe_net env) (tt_to tx) (fe_time env 0) pool = (Inr balance, pool') \<and> unat balance + unat (tt_lamports tx) = 1000000)"
proof -
  have "length txs \<le> 1"
    using assms by (auto simp: fund_def ask_def send_transfer_def Let_def split: sum.splits prod.splits option.splits)
  moreover have "\<exists>balance pool pool'. executor_key env config_path fs = Inr (tt_to tx) \<and>
    get_balance (fe_net env) (tt_to tx) (fe_time env 0) pool = (Inr balance, pool') \<and> unat balance + unat (tt_lamports tx) = 1000000"
    if tx: "tx \<in> set txs" for tx
  proof -
    obtain destination wallet pool balance pool' n where e: "executor_key env config_path fs = Inr destination"
      and b: "get_balance (fe_net env) destination (fe_time env 0) pool = (Inr balance, pool')"
      and n: "top_up balance = Some n"
      and s: "send_transfer env wallet destination n [destination] pool' = Some (r, txs)"
      using assms tx by (auto simp: fund_def ask_def res_simps split: sum.splits prod.splits option.splits)
    show ?thesis using e b top_up_exact(1) [OF n] send_transfer_txs [OF s tx] by auto
  qed
  ultimately show ?thesis by blast
qed

end
