(* ===== verification/Cli_Main.thy ===== *)
theory Cli_Main
  imports Cli_Info Cli_Program Cli_Geyser Cli_Thread
begin

text \<open>
  \<open>cli/antegen/src/main.rs\<close>, the developer's tool: its dispatch, with the commands of
  \<open>commands/thread.rs\<close> around the test commands (showing a thread, the administrator's delete,
  the key of the test threads). The listing of versions, which changes nothing, is left out, as
  are the warnings about deprecated commands.
\<close>

section \<open>Thread commands\<close>

datatype thread_error = TE_Pubkey | TE_Fund fund_error | TE_Not_Found | TE_Decode | TE_Owner | TE_Unconfirmed

text \<open>An account that does not hold a thread is shown all the same.\<close>

definition thread_get :: "deploy_env \<Rightarrow> (bytes \<Rightarrow> Thread option) \<Rightarrow> string \<Rightarrow> string option \<Rightarrow> thread_error + pubkey \<times> SafeUiAccount \<times> Thread option" where
  "thread_get env decode address rpc =
     (let fe = de_fund env in
      then_do (ok_or (pubkey_parsed env address) TE_Pubkey) (\<lambda>key.
      then_do (map_sum TE_Fund id (get_rpc_url fe rpc)) (\<lambda>url.
      then_do (map_sum (\<lambda>e. TE_Fund (FE_Pool e)) id (pool_with_url url)) (\<lambda>pool.
      then_do (map_sum (\<lambda>e. TE_Fund (FE_Request e)) id (fst (get_account (fe_net fe) key (fe_time fe 0) pool))) (\<lambda>found.
      then_do (ok_or found TE_Not_Found) (\<lambda>account.
      then_do (ok_or (decode_account_data (de_client env) (fst (ui_data account)) (snd (ui_data account))) TE_Decode) (\<lambda>data.
      then_do (ok_or (pubkey_parsed env (ui_owner account)) TE_Owner) (\<lambda>owner.
        Inr (owner, account, decode data)))))))))"

text \<open>The result comes with the transactions that were confirmed.\<close>

definition admin_delete :: "deploy_env \<Rightarrow> string \<Rightarrow> string option \<Rightarrow> string option \<Rightarrow> fs \<Rightarrow> (thread_error + unit) \<times> cli_tx list" where
  "admin_delete env address rpc keypair fs =
     (let fe = de_fund env; net = fe_net fe in
      case then_do (ok_or (pubkey_parsed env address) TE_Pubkey) (\<lambda>key.
           then_do (map_sum TE_Fund id (get_rpc_url fe rpc)) (\<lambda>url.
           then_do (map_sum TE_Fund id (get_keypair fe keypair fs)) (\<lambda>admin.
           then_do (map_sum (\<lambda>e. TE_Fund (FE_Pool e)) id (pool_with_url url)) (\<lambda>pool. Inr (key, admin, pool))))) of
        Inl e \<Rightarrow> (Inl e, [])
      | Inr (key, admin, pool) \<Rightarrow>
          (case get_latest_blockhash net (fe_time fe 0) pool of
             (Inl e, _) \<Rightarrow> (Inl (TE_Fund (FE_Request e)), [])
           | (Inr (recent, _), pool) \<Rightarrow>
               let tx = TX_Delete_Thread admin (config_address env) key recent in
               (case send_and_confirm_transaction net (\<lambda>i. fe_time fe (1 + i)) tx (fe_time fe 1) pool of
                  None \<Rightarrow> (Inl TE_Unconfirmed, [])
                | Some (Inl e, _) \<Rightarrow> (Inl (TE_Fund (FE_Request e)), [])
                | Some (Inr _, _) \<Rightarrow> (Inr (), [tx]))))"

definition get_or_create_test_keypair :: "config_host \<Rightarrow> fs \<Rightarrow> (config_failure + pubkey) \<times> fs" where
  "get_or_create_test_keypair h fs =
     and_then (pure (map_sum id (\<lambda>p. path_join p ''antegen'') (ok_or (config_dir h) No_Config_Dir)) fs) (\<lambda>dir fs.
     let path = path_join dir ''test-keypair.json'' in
     if path_exists fs path then (ok_or (read_keypair h path fs) Keypair_Unreadable, fs)
     else
       and_then (config_io (create_dir_all (ch_host h) dir fs)) (\<lambda>_ fs.
       and_then (config_io (fs_write (ch_host h) path (keypair_json h (fresh_keypair h)) fs)) (\<lambda>_.
         pure (Inr (keypair_pubkey h (fresh_keypair h))))))"

section \<open>The dispatch\<close>

datatype ProgramConfigCommands = PCC_Init | PCC_Get

datatype ProgramCommands =
    PC_Deploy "string option" "string option" "string option" bool bool
  | PC_Config ProgramConfigCommands

datatype GeyserCommands = GC_Init string string | GC_Extract string

datatype ThreadCommands = TH_Get string | TH_Delete string | TH_Test TestCommands

datatype Commands =
    CM_Program ProgramCommands
  | CM_Thread ThreadCommands
  | CM_Geyser GeyserCommands
  | CM_Run "string option"
  | CM_Verify
  | CM_Init "string option" bool
  | CM_Start "string option" "string option"
  | CM_Status
  | CM_Logs bool
  | CM_Stop
  | CM_Restart
  | CM_Uninstall
  | CM_Update "string option"
  | CM_Use string
  | CM_Install "string option"
  | CM_Info
  | CM_Fund "rat option"
  | CM_Withdraw "rat option"
  | CM_Config NodeConfigCommands

datatype antegen_failure =
    AN_Ctl ctl_failure
  | AN_Deploy deploy_error
  | AN_Thread thread_error
  | AN_Test cli_error

datatype antegen_outcome =
    AO_Ctl ctl_outcome
  | AO_Deployed "deploy_event list"
  | AO_Config ThreadConfig
  | AO_Thread pubkey SafeUiAccount "Thread option"
  | AO_Sent "cli_tx list"

record ('m, 'w) antegen_env =
  an_info :: "'m info_env"
  an_deploy :: deploy_env
  an_geyser :: geyser_host
  an_cluster :: "'w cli_env"

text \<open>The state: the files and the service manager, and the registry of test threads with the cluster.\<close>

type_synonym ('m, 'w) antegen_state = "(fs \<times> 'm) \<times> registry_file \<times> 'w"

type_synonym ('m, 'w) antegen_result = "(antegen_failure + antegen_outcome) \<times> ('m, 'w) antegen_state"

definition of_ctl :: "(ctl_failure + ctl_outcome) \<times> fs \<times> 'm \<Rightarrow> registry_file \<times> 'w \<Rightarrow> ('m, 'w) antegen_result" where
  "of_ctl r rest = (map_sum AN_Ctl AO_Ctl (fst r), snd r, rest)"

definition of_files :: "('e \<Rightarrow> service_failure) \<Rightarrow> (fs \<Rightarrow> ('e + unit) \<times> fs) \<Rightarrow> ('m, 'w) antegen_state \<Rightarrow> ('m, 'w) antegen_result" where
  "of_files f op s = of_ctl (ctl (on_files f op (fst s)) (\<lambda>_. Done)) (snd s)"

fun program_command :: "('m, 'w) antegen_env \<Rightarrow> ctl_globals \<Rightarrow> ProgramCommands \<Rightarrow> fs \<Rightarrow> antegen_failure + antegen_outcome" where
  "program_command env gl (PC_Deploy binary pid keys_dir skip_init skip_verify) fs =
     (case deploy (an_deploy env) binary (gl_rpc gl) (gl_keypair gl) pid keys_dir skip_init skip_verify fs [] of
        (r, tr) \<Rightarrow> map_sum AN_Deploy (\<lambda>_. AO_Deployed tr) r)"
| "program_command env gl (PC_Config PCC_Init) fs =
     (case program_config_init (an_deploy env) (gl_rpc gl) (gl_keypair gl) fs [] of
        (r, tr) \<Rightarrow> map_sum AN_Deploy (\<lambda>_. AO_Deployed tr) r)"
| "program_command env gl (PC_Config PCC_Get) fs = map_sum AN_Deploy AO_Config (program_config_get (an_deploy env) (gl_rpc gl))"

text \<open>
  The test commands but \<open>list\<close> need a cluster, a payer and the key of the test threads, which
  is created at the first of them.
\<close>

definition thread_test :: "('m, 'w) antegen_env \<Rightarrow> ctl_globals \<Rightarrow> TestCommands \<Rightarrow> ('m, 'w) antegen_state \<Rightarrow> ('m, 'w) antegen_result" where
  "thread_test env gl cmd s =
     (case s of ((fs, m), file, w) \<Rightarrow>
      let fe = in_fund (an_info env);
          finish = (\<lambda>fs r. (map_sum AN_Test (\<lambda>_. AO_Ctl Done) (fst r), (fs, m), snd r)) in
      if cmd = TC_List then finish fs (outcome_of (list_test_threads file) file w)
      else
        (case then_do (get_rpc_url fe (gl_rpc gl)) (\<lambda>url. then_do (get_keypair fe (gl_keypair gl) fs) (\<lambda>payer. Inr (url, payer))) of
           Inl e \<Rightarrow> (Inl (AN_Thread (TE_Fund e)), s)
         | Inr (url, payer) \<Rightarrow>
             (case get_or_create_test_keypair (in_config (an_info env)) fs of
                (Inl e, fs) \<Rightarrow> (Inl (AN_Ctl (CL_Service (SF_Config e))), (fs, m), file, w)
              | (Inr authority, fs) \<Rightarrow>
                  (case pool_with_url url of
                     Inl e \<Rightarrow> (Inl (AN_Thread (TE_Fund (FE_Pool e))), (fs, m), file, w)
                   | Inr _ \<Rightarrow> finish fs (test (an_cluster env) payer authority cmd file w)))))"

fun thread_command :: "('m, 'w) antegen_env \<Rightarrow> ctl_globals \<Rightarrow> ThreadCommands \<Rightarrow> ('m, 'w) antegen_state \<Rightarrow> ('m, 'w) antegen_result" where
  "thread_command env gl (TH_Get address) s =
     (map_sum AN_Thread (\<lambda>(owner, account, thread). AO_Thread owner account thread)
        (thread_get (an_deploy env) (deserialize_thread (an_cluster env)) address (gl_rpc gl)), s)"
| "thread_command env gl (TH_Delete address) s =
     (case admin_delete (an_deploy env) address (gl_rpc gl) (gl_keypair gl) (fst (fst s)) of
        (r, txs) \<Rightarrow> (map_sum AN_Thread (\<lambda>_. AO_Sent txs) r, s))"
| "thread_command env gl (TH_Test cmd) s = thread_test env gl cmd s"

text \<open>\<open>verify\<close>: registering the binaries, then the configuration when there is one.\<close>

definition verify_install :: "config_host \<Rightarrow> fs \<times> 'm \<Rightarrow> (service_failure + unit) \<times> fs \<times> 'm" where
  "verify_install h st =
     and_then (on_files SF_Update (import_current_binary (ch_host h)) st) (\<lambda>_ st.
     and_then (on_files SF_Update (import_node_binary (ch_host h)) st) (\<lambda>_ st.
     case default_config_path h of
       Inl _ \<Rightarrow> (Inr (), st)
     | Inr config_path \<Rightarrow>
         if path_exists (fst st) config_path
         then (map_sum SF_Config (\<lambda>_. ()) (config_validate h config_path (fst st)), st)
         else (Inr (), st)))"

fun run_antegen :: "('m, 'w) antegen_env \<Rightarrow> ctl_globals \<Rightarrow> Commands \<Rightarrow> ('m, 'w) antegen_state \<Rightarrow> ('m, 'w) antegen_result" where
  "run_antegen env gl (CM_Program cmd) s = (program_command env gl cmd (fst (fst s)), s)"
| "run_antegen env gl (CM_Thread cmd) s = thread_command env gl cmd s"
| "run_antegen env gl (CM_Geyser (GC_Init output config)) s = of_files SF_Config (geyser_init (an_geyser env) output config) s"
| "run_antegen env gl (CM_Geyser (GC_Extract output)) s = of_files SF_Config (geyser_extract (an_geyser env) output) s"
| "run_antegen env gl (CM_Run config) s =
     of_ctl (ctl (and_then (case config of Some p \<Rightarrow> (Inr p, fst s) | None \<Rightarrow> ensure_config (in_service (an_info env)) (fst s)) (\<lambda>cfg.
        on_files SF_Update (run_execute (in_host (an_info env)) cfg (gl_rpc gl) (gl_log_level gl)))) (\<lambda>(p, args). Exec p args)) (snd s)"
| "run_antegen env gl CM_Verify s = of_ctl (ctl (verify_install (in_config (an_info env)) (fst s)) (\<lambda>_. Done)) (snd s)"
| "run_antegen env gl (CM_Init rpc force) s = of_ctl (ctl (service_init (in_service (an_info env)) rpc force (fst s)) (\<lambda>_. Done)) (snd s)"
| "run_antegen env gl (CM_Start rpc version) s = of_ctl (ctl (service_start (in_service (an_info env)) rpc version (fst s)) Reported) (snd s)"
| "run_antegen env gl CM_Status s = of_ctl (ctl (service_status (in_service (an_info env)) (snd (fst s)), fst s) Status_Shown) (snd s)"
| "run_antegen env gl (CM_Logs follow) s =
     of_ctl (ctl (service_logs (in_service (an_info env)) follow (fst (fst s)), fst s) Logs_Shown) (snd s)"
| "run_antegen env gl CM_Stop s = of_ctl (ctl (service_stop (in_service (an_info env)) (fst s)) (\<lambda>_. Done)) (snd s)"
| "run_antegen env gl CM_Restart s = of_ctl (ctl (service_restart (in_service (an_info env)) (fst s)) (\<lambda>_. Done)) (snd s)"
| "run_antegen env gl CM_Uninstall s = of_ctl (ctl (service_uninstall (in_service (an_info env)) (fst s)) (\<lambda>_. Done)) (snd s)"
| "run_antegen env gl (CM_Update version) s = of_files SF_Update (update (in_host (an_info env)) version) s"
| "run_antegen env gl (CM_Use version) s = of_files SF_Update (use_cli_version (in_host (an_info env)) version) s"
| "run_antegen env gl (CM_Install version) s = of_files SF_Update (install (in_host (an_info env)) version) s"
| "run_antegen env gl CM_Info s = of_ctl (ctl (gather_info (an_info env) (fst s), fst s) Shown) (snd s)"
| "run_antegen env gl (CM_Fund amount) s =
     of_ctl (case default_config_path (in_config (an_info env)) of
        Inl e \<Rightarrow> (Inl (CL_Service (SF_Config e)), fst s)
      | Inr config \<Rightarrow> ctl_transfer (fund (in_fund (an_info env)) config amount (gl_keypair gl) (gl_rpc gl) (fst (fst s))) (fst s)) (snd s)"
| "run_antegen env gl (CM_Withdraw amount) s =
     of_ctl (case default_config_path (in_config (an_info env)) of
        Inl e \<Rightarrow> (Inl (CL_Service (SF_Config e)), fst s)
      | Inr config \<Rightarrow> ctl_transfer (withdraw (in_fund (an_info env)) config amount (gl_rpc gl) (fst (fst s))) (fst s)) (snd s)"
| "run_antegen env gl (CM_Config cmd) s =
     of_files SF_Config (dispatch_config (in_config (an_info env)) cmd (gl_rpc gl)) s"

section \<open>The two tools\<close>

text \<open>The commands the two tools share by name; those about versions mean the tool in one and the node in the other.\<close>

fun alias_of :: "AntegenctlCommands \<Rightarrow> Commands option" where
  "alias_of (AC_Run config) = Some (CM_Run config)"
| "alias_of (AC_Init rpc force) = Some (CM_Init rpc force)"
| "alias_of (AC_Start rpc version) = Some (CM_Start rpc version)"
| "alias_of AC_Stop = Some CM_Stop"
| "alias_of AC_Restart = Some CM_Restart"
| "alias_of AC_Status = Some CM_Status"
| "alias_of (AC_Logs follow) = Some (CM_Logs follow)"
| "alias_of AC_Uninstall = Some CM_Uninstall"
| "alias_of AC_Info = Some CM_Info"
| "alias_of (AC_Fund amount) = Some (CM_Fund amount)"
| "alias_of (AC_Withdraw amount) = Some (CM_Withdraw amount)"
| "alias_of (AC_Config cmd) = Some (CM_Config cmd)"
| "alias_of _ = None"

text \<open>A deprecated command of \<open>antegen\<close> does what \<open>antegenctl\<close> does under the same name.\<close>

lemma aliases_agree:
  "alias_of c = Some c' \<Longrightarrow> run_antegen env gl c' s = of_ctl (run_antegenctl (an_info env) gl c (fst s)) (snd s)"
  by (cases c) (auto simp: of_files_def split: sum.split)

text \<open>The version commands of \<open>antegen\<close> never touch the service.\<close>

lemma tool_versions_keep_service:
  "c \<in> {CM_Update v, CM_Use u, CM_Install v} \<Longrightarrow> snd (fst (snd (run_antegen env gl c s))) = snd (fst s)"
  by (auto simp: of_files_def of_ctl_def ctl_def on_files_def split: prod.split)

text \<open>The authority of the test threads is the key of the first command, whatever is generated later.\<close>

lemma test_keypair_kept:
  assumes "config_laws h" and "get_or_create_test_keypair h fs = (Inr k, fs')"
  shows "get_or_create_test_keypair (h\<lparr>fresh_keypair := other\<rparr>) fs' = (Inr k, fs')"
proof -
  obtain d where d: "config_dir h = Some d"
    using assms(2) by (cases "config_dir h") (simp_all add: get_or_create_test_keypair_def and_then_def pure_def)
  let ?dir = "path_join d ''antegen''"
  let ?p = "path_join ?dir ''test-keypair.json''"
  show ?thesis
  proof (cases "path_exists fs ?p")
    case True
    then show ?thesis using assms(2) d
      by (auto simp: get_or_create_test_keypair_def and_then_def pure_def Let_def read_keypair_def)
  next
    case False
    then obtain fs1 where w: "fs_write (ch_host h) ?p (keypair_json h (fresh_keypair h)) fs1 = (Inr (), fs')"
      and k: "k = keypair_pubkey h (fresh_keypair h)"
      using assms(2) d by (auto simp: get_or_create_test_keypair_def Let_def and_then_Inr pure_Inr)
    from written_keypair [OF assms(1) w] d show ?thesis
      by (simp add: get_or_create_test_keypair_def and_then_def pure_def Let_def k read_keypair_def)
  qed
qed

end
