(* ===== verification/Spec2Isabelle.thy ===== *)
theory Spec2Isabelle
  imports Properties_Cron Properties_Grammar Properties_Access Properties_Source Properties_Rpc Properties_Cli Properties_Update
    Properties_Reentrance Properties_Node Properties_Service Properties_Operator Cli_Main
begin

text \<open>
  \<^bold>\<open>A verification development of Antegen.\<close>

  Antegen automates transactions on Solana. A \<^emph>\<open>thread\<close> is an on-chain account with a trigger
  (a time, an interval, a cron expression, a slot, an epoch, a change of another account) and
  a list of \<^emph>\<open>fibers\<close>, each a stored instruction. Anyone may execute a thread that is due and
  is paid for it. The parts of the system and the theories that model them:

  \<^item> The fiber program (\<open>programs/fiber\<close>) stores compiled instructions in accounts of their own:
    \<open>Fiber_Instruction\<close> (compile and decompile, \<open>state/instruction.rs\<close>), \<open>Fiber_State\<close> (the two
    account shapes, \<open>state/fiber.rs\<close>) and \<open>Fiber_Program\<close> (create, update, close, swap,
    \<open>instructions/*.rs\<close>).
  \<^item> The thread program (\<open>programs/thread\<close>): \<open>Thread_Config\<close> (\<open>state/config.rs\<close>, the two
    configuration instructions, commission and fee split), \<open>Thread_State\<close> (\<open>state/thread.rs\<close>,
    \<open>utils.rs\<close>: triggers, schedule, cursor, payments, nonce), \<open>Thread_Instructions\<close> (every handler
    but one), \<open>Thread_Exec\<close> (\<open>instructions/thread_exec.rs\<close>) and \<open>Thread_Lifecycle\<close> (the handlers as
    one step relation). It calls the fiber program; the model calls its definitions.
    \<open>Reentrance\<close> (\<open>programs/reentrance-test\<close>) is a program that an executed fiber can call and that
    calls the fiber program back.
  \<^item> The cron library (\<open>crates/cron\<close>), called by the thread program: \<open>Cron_Fields\<close> (specifiers and
    time units), \<open>Cron_Schedule\<close> (queries, \<open>next_after\<close>, \<open>prev_before\<close>, iterators), \<open>Cron_Search\<close>
    (what the searches find) and \<open>Cron_Grammar\<close> (\<open>parsing.rs\<close>: from the text of an expression to
    the schedule).
  \<^item> The off-chain client (\<open>crates/client\<close>), which watches threads and executes them:
    \<open>Account_Cache\<close> (\<open>resources/cache.rs\<close>), \<open>Load_Balancer\<close>, \<open>Rpc_Guards\<close> (\<open>rpc/circuit_breaker.rs\<close>,
    \<open>rpc/rate_limiter.rs\<close>), \<open>Rpc_Pool\<close> (\<open>rpc/pool.rs\<close>, \<open>endpoint.rs\<close>, \<open>health.rs\<close>), \<open>Staging\<close>
    (\<open>actors/staging.rs\<close>: which threads are due), \<open>Executor\<close> (\<open>executor.rs\<close>: the instructions of a
    transaction), \<open>Worker\<close> (\<open>actors/worker.rs\<close>: one run of one thread), \<open>Processor\<close>
    (\<open>actors/processor.rs\<close>: the queue and the workers), \<open>Worker_Pool\<close> (both actors together) and \<open>Client_Flow\<close> (staging over a sequence
    of messages). Datasources feed updates and clock ticks into staging, staging hands due
    threads to the processor, the processor spawns workers, a worker asks the load balancer,
    builds with the executor, submits through the pool and reports back.
  \<^item> What the client stands on: \<open>Client_Config\<close> (\<open>config.rs\<close> and the shared resources), \<open>Ws_Transport\<close>
    (\<open>crates/ws\<close>: backoff, the pump, the reconnecting transport), \<open>Datasource\<close> (\<open>actors/datasource.rs\<close>,
    \<open>datasources/rpc.rs\<close>: sources, backfill, subscriptions, their supervisor and the cache they
    share), \<open>Client_Start\<close> (\<open>actors/root.rs\<close>: the start of the whole client) and \<open>Rpc_Requests\<close>
    (\<open>rpc/pool.rs\<close>, \<open>response.rs\<close>, \<open>websocket.rs\<close>: every request of the pool, confirmation, waiting for
    an account).
  \<^item> The two ways to run the client: \<open>Node\<close> (\<open>node/main.rs\<close> and \<open>lib.rs\<close>: the standalone binary from its
    arguments to the running client, and the handle of plugin mode) and \<open>Geyser_Plugin\<close>
    (\<open>plugin/geyser\<close>: the validator's callbacks, the channel and the actor that empties it).
  \<^item> The command line tools: \<open>Cli_Text\<close> (what they use of strings), \<open>Cli_Thread\<close>
    (\<open>cli/antegen/src/commands/thread.rs\<close>: the grammar of triggers and signals, the registry of test
    threads, the commands that create, extend and delete them), \<open>Cli_Update\<close>
    (\<open>cli/core/src/commands/update.rs\<close>: versions of the tool and of the node, downloads, links),
    \<open>Config_File\<close> (\<open>config.rs\<close> and \<open>mod.rs\<close> there, and loading and saving of the client's
    configuration), \<open>Cli_Service\<close> (\<open>service.rs\<close>: the node as a service of the system), \<open>Cli_Fund\<close>
    (\<open>client.rs\<close>: funding and withdrawing), \<open>Cli_Info\<close> (\<open>info.rs\<close>, \<open>run.rs\<close> and the dispatch of
    \<open>antegenctl\<close>), \<open>Cli_Geyser\<close> (\<open>geyser.rs\<close>, \<open>download.rs\<close>: setting up the plugin), \<open>Cli_Program\<close>
    (\<open>program.rs\<close>: deploying the programs) and \<open>Cli_Main\<close> (\<open>main.rs\<close>: the dispatch of \<open>antegen\<close>).

  \<^bold>\<open>How the code is modelled.\<close> Structs are records, enums datatypes, unsigned integers words of
  their width; an \<open>i64\<close> is an \<open>int\<close> with saturation, wrap-around or the panic of
  \<open>overflow-checks = true\<close> written out (\<open>Prelude\<close>). An \<open>f64\<close> is the rational it denotes, every
  operation rounded to 53 bits (\<open>F64\<close>). A \<open>Result\<close> is a sum, a panic one of its errors. On
  chain, a handler takes the deserialised thread and the account store (\<open>Solana\<close>: a map from
  addresses to lamports, data and owner, so that equal addresses alias) and returns both
  updated or an error that discards everything. In the client, a handler maps an actor's state
  and a message to the new state and the messages it sends; a worker's task runs through
  moments of a \<open>world\<close> that answers its requests, in which the other actors act meanwhile.

  A transport runs over a script of what the network does; a command of the tools maps the
  registry file and the cluster, or the file system and the service manager, to the new ones and
  a result. A deployment returns its effects in order.

  Code outside the repository is a field of an environment record (\<open>fiber_env\<close>, \<open>thread_env\<close>,
  \<open>chrono\<close>, \<open>nom\<close>, \<open>client_env\<close>, \<open>rpc_env\<close>, \<open>net\<close>, \<open>staging_env\<close>, \<open>processor_env\<close>, \<open>world\<close>, \<open>cli_env\<close>,
  \<open>host\<close>, \<open>config_host\<close>, \<open>service_env\<close>, \<open>node_env\<close>, \<open>fund_env\<close> and others), and what the theorems need of it is a
  named hypothesis: \<open>borsh_laws\<close> (decoding inverts encoding), \<open>hash_map_laws\<close>, \<open>system_laws\<close>,
  \<open>close_laws\<close>, \<open>chrono_laws\<close>, \<open>parser_laws\<close>, \<open>invoke_conserves\<close>, \<open>heap_laws\<close>, \<open>clock_laws\<close>,
  \<open>borsh_prefix_law\<close>, \<open>powi_law\<close> (powers of doubles grow), \<open>registry_law\<close> (the actor library accepts a
  fresh name), \<open>time_passes\<close>, \<open>nom_laws\<close> (the documented behaviour of each combinator), \<open>config_laws\<close>
  (the TOML and key encodings can be read back), \<open>format_laws\<close> (a JSON object is no TOML),
  \<open>manager_laws\<close> (what the service manager holds after installing), \<open>runs_reentrance\<close> and
  \<open>runs_program\<close> (a cluster confirms a transaction only when the program accepted its
  instructions). The thread program takes its cron parser as a parameter with \<open>parser_laws\<close>; that
  the grammar of \<open>Cron_Grammar\<close> satisfies them is proved. \<open>Sample_Env\<close> and the first sections of the property theories instantiate all
  of them with concrete functions, on which the witnesses are evaluated.

  \<^bold>\<open>Loops.\<close> The cron searches and the batching loop recurse over lists that shrink or grow to a
  fixed length; submission makes at most five attempts and a run at most twenty batches. The three
  loops of a worker that end by the clock only are partial functions into \<open>option\<close>; that they
  return is proved from \<open>clock_laws\<close>. The confirmation of a transaction (\<open>confirm_loop\<close>) ends because time
  passes. A transport may run for ever: it is run for a number of rounds of its script, and
  what is stated of it holds for every number. The node's wait for funds runs over what happens
  until then and has no result while it waits. Following links in the file system stops after
  forty, as the system does. No other theorem rests on fuel.

  \<^bold>\<open>What is shown.\<close>
  \<^item> \<open>Properties_Fiber\<close>: compiling and decompiling an instruction; what each fiber instruction does to
    the stored fibers; lamports are conserved; a fiber can be taken over.
  \<^item> \<open>Properties_Cron\<close>: a field includes what its text denotes; \<open>next_after\<close> and \<open>prev_before\<close> find the
    nearest instant of the schedule, where the code does; two inputs on which it does not.
  \<^item> \<open>Properties_Grammar\<close>: an expression written from specifiers is read as those specifiers; every
    accepted expression gives a well-formed schedule.
  \<^item> \<open>Properties_Thread\<close>: spacing of interval and cron threads, account triggers, bounds of commission and
    payments, validity of every reachable configuration, the cursor; slot triggers stay armed.
  \<^item> \<open>Properties_Exec\<close>: what an execution requires, changes and pays; lamports are conserved; every
    reachable thread is well formed and keeps its identity.
  \<^item> \<open>Properties_Access\<close>: who may call what; closing and withdrawing; two gaps in the bookkeeping of fibers.
  \<^item> \<open>Properties_Client\<close>: a worker's run ends and reports only confirmed executions; batches follow the
    on-chain order of the fibers; the accounts passed are those the thread program needs.
  \<^item> \<open>Properties_Flow\<close>: a tick hands on exactly the due threads; permits of processor and
    workers are conserved in every interleaving; failover, ownership
    and cache; three ways a thread that is due is left behind.
  \<^item> \<open>Properties_Source\<close>: what a source forwards refines a specification of news; the transport persists;
    the client starts; what a backfill misses; how two sources race.
  \<^item> \<open>Properties_Rpc\<close>: confirmation ends and is right; errors that disable an endpoint.
  \<^item> \<open>Properties_Cli\<close>: the grammar of the commands, fresh names, and that no test thread can be created.
  \<^item> \<open>Properties_Update\<close>: selecting a version; what the comparison of versions misses.
  \<^item> \<open>Properties_Reentrance\<close>: a fiber closed from within an execution stays listed.
  \<^item> \<open>Properties_Node\<close>: changing the configuration file; the first start of the node; what the client gets
    from the plugin.
  \<^item> \<open>Properties_Service\<close>: the service runs the selected version; a failed start leaves no service.
  \<^item> \<open>Properties_Operator\<close>: the plugin's setup does not fit the plugin; funding and withdrawing keep the
    minimum balance.

  The interfaces are locales, each interpreted on the model: \<open>invariant_system\<close> (\<open>Prelude\<close>) for the
  configuration, the thread, the breaker, the balancer, the cache, the processor, the pool of workers and the registry of the tools, \<open>time_unit_field\<close>
  (\<open>Cron_Fields\<close>) for the seven units of a cron field, and
  \<open>fiber_closing\<close> (\<open>Fiber_Program\<close>), the contract on which closing a whole thread rests.

  \<^bold>\<open>Not modelled.\<close> Third-party code, which enters as parameters: the runtime, Anchor and Borsh, the actor
  library, HTTP and QUIC, JSON, TOML and YAML, \<open>chrono\<close>, \<open>nom\<close>, the parser of arguments, the service
  managers. Of the repository: the TPU client and the observability actor, which wrap such
  libraries; the background loop of the health checker, which nothing starts; of the tools, the
  listing of versions and the rendering of what commands show. Log output and
  printing are left out everywhere. Between two requests of a worker the other actors do not
  interleave; they do at every request and sleep. Two runs of a tool at the same time are not
  interleaved.
\<close>

end
